(* ===== verification/Prelude.thy ===== *)
theory Prelude
  imports Main "HOL-Library.Char_ord" "HOL-Library.List_Lexorder" "HOL-Library.Sublist"
    "HOL-Library.AList"
begin

text \<open>
  What every component shares: the result type of a fallible Go function, and the parts of
  Go's \<open>strings\<close>, \<open>sort\<close> and \<open>strconv\<close> packages the source calls. A Go string is a byte
  sequence, so it is a \<open>string\<close> (a list of 8-bit characters) here; a text beyond ASCII is
  its UTF-8 encoding. An error value is its message.
\<close>

type_synonym 'a result = "string + 'a"

named_theorems canon \<open>facts on canonical (trimmed, sorted, duplicate-free) string lists\<close>

section \<open>White space\<close>

text \<open>
  \<open>strings.TrimSpace\<close> removes leading and trailing runes for which \<open>unicode.IsSpace\<close> holds.
  The UTF-8 encodings of those runes: U+0020, U+0009 to U+000D, U+0085, U+00A0, U+1680,
  U+2000 to U+200A, U+2028, U+2029, U+202F, U+205F, U+3000. Go decodes the first (last) rune of
  the string; the encodings are prefix-free, so this is the same as matching them as byte
  sequences, and a malformed sequence is no space in either reading.
\<close>

definition space_seqs :: "string list" where
  "space_seqs =
     [[CHR 0x20], [CHR 0x09], [CHR 0x0A], [CHR 0x0B], [CHR 0x0C], [CHR 0x0D],
      [CHR 0xC2, CHR 0x85], [CHR 0xC2, CHR 0xA0], [CHR 0xE1, CHR 0x9A, CHR 0x80],
      [CHR 0xE2, CHR 0x80, CHR 0x80], [CHR 0xE2, CHR 0x80, CHR 0x81],
      [CHR 0xE2, CHR 0x80, CHR 0x82], [CHR 0xE2, CHR 0x80, CHR 0x83],
      [CHR 0xE2, CHR 0x80, CHR 0x84], [CHR 0xE2, CHR 0x80, CHR 0x85],
      [CHR 0xE2, CHR 0x80, CHR 0x86], [CHR 0xE2, CHR 0x80, CHR 0x87],
      [CHR 0xE2, CHR 0x80, CHR 0x88], [CHR 0xE2, CHR 0x80, CHR 0x89],
      [CHR 0xE2, CHR 0x80, CHR 0x8A], [CHR 0xE2, CHR 0x80, CHR 0xA8],
      [CHR 0xE2, CHR 0x80, CHR 0xA9], [CHR 0xE2, CHR 0x80, CHR 0xAF],
      [CHR 0xE2, CHR 0x81, CHR 0x9F], [CHR 0xE3, CHR 0x80, CHR 0x80]]"

text \<open>Drop a leading element of \<open>ws\<close> as long as there is one.\<close>

function strip :: "string list \<Rightarrow> string \<Rightarrow> string" where
  "strip ws s =
     (case find (\<lambda>w. w \<noteq> [] \<and> prefix w s) ws of
        None \<Rightarrow> s
      | Some w \<Rightarrow> strip ws (drop (length w) s))"
  by pat_completeness auto
termination
  by (relation "measure (\<lambda>(ws, s). length s)")
    (auto simp: find_Some_iff prefix_def)

declare strip.simps [simp del]

definition trim_left :: "string \<Rightarrow> string" where
  "trim_left s = strip space_seqs s"

definition trim_right :: "string \<Rightarrow> string" where
  "trim_right s = rev (strip (map rev space_seqs) (rev s))"

definition trim_space :: "string \<Rightarrow> string" where
  "trim_space s = trim_right (trim_left s)"

lemma strip_no_prefix: "w \<in> set ws \<Longrightarrow> w \<noteq> [] \<Longrightarrow> \<not> prefix w (strip ws s)"
proof (induction ws s rule: strip.induct)
  case (1 ws s)
  show ?case
  proof (cases "find (\<lambda>w. w \<noteq> [] \<and> prefix w s) ws")
    case None
    then have "strip ws s = s" by (simp add: strip.simps[of ws s])
    then show ?thesis
      using None "1.prems" by (auto simp: find_None_iff)
  next
    case (Some v)
    then show ?thesis
      using "1.IH"[OF Some] "1.prems" by (simp add: strip.simps[of ws s])
  qed
qed

lemma strip_id: "(\<And>w. w \<in> set ws \<Longrightarrow> w \<noteq> [] \<Longrightarrow> \<not> prefix w s) \<Longrightarrow> strip ws s = s"
proof -
  assume "\<And>w. w \<in> set ws \<Longrightarrow> w \<noteq> [] \<Longrightarrow> \<not> prefix w s"
  then have "find (\<lambda>w. w \<noteq> [] \<and> prefix w s) ws = None"
    by (auto simp: find_None_iff)
  then show ?thesis by (simp add: strip.simps[of ws s])
qed

lemma strip_suffix: "suffix (strip ws s) s"
proof (induction ws s rule: strip.induct)
  case (1 ws s)
  show ?case
  proof (cases "find (\<lambda>w. w \<noteq> [] \<and> prefix w s) ws")
    case None
    then show ?thesis by (simp add: strip.simps[of ws s])
  next
    case (Some v)
    have "suffix (drop (length v) s) s" by (rule suffix_drop)
    with "1.IH"[OF Some] have "suffix (strip ws (drop (length v) s)) s"
      by (rule suffix_order.trans)
    then show ?thesis using Some by (simp add: strip.simps[of ws s])
  qed
qed

lemma strip_Nil [simp]: "strip ws [] = []"
  using strip_suffix[of ws "[]"] by simp

lemma trim_left_no_space: "w \<in> set space_seqs \<Longrightarrow> w \<noteq> [] \<Longrightarrow> \<not> prefix w (trim_left s)"
  by (simp add: trim_left_def strip_no_prefix)

lemma trim_right_no_space: "w \<in> set space_seqs \<Longrightarrow> w \<noteq> [] \<Longrightarrow> \<not> suffix w (trim_right s)"
  using strip_no_prefix[of "rev w" "map rev space_seqs" "rev s"]
  by (auto simp: trim_right_def suffix_to_prefix)

lemma trim_right_prefix: "prefix (trim_right s) s"
  using strip_suffix[of "map rev space_seqs" "rev s"]
  by (auto simp: trim_right_def suffix_to_prefix)

lemma trim_right_id: "(\<And>w. w \<in> set space_seqs \<Longrightarrow> w \<noteq> [] \<Longrightarrow> \<not> suffix w s) \<Longrightarrow> trim_right s = s"
  unfolding trim_right_def
  by (subst strip_id) (auto simp: suffix_to_prefix)

lemma trim_space_no_leading: "w \<in> set space_seqs \<Longrightarrow> w \<noteq> [] \<Longrightarrow> \<not> prefix w (trim_space s)"
  using trim_right_prefix[of "trim_left s"] trim_left_no_space[of w s]
  unfolding trim_space_def by (meson prefix_order.trans)

lemma trim_space_no_trailing: "w \<in> set space_seqs \<Longrightarrow> w \<noteq> [] \<Longrightarrow> \<not> suffix w (trim_space s)"
  by (simp add: trim_space_def trim_right_no_space)

lemma trim_space_idem [simp]: "trim_space (trim_space s) = trim_space s"
proof -
  have "trim_left (trim_space s) = trim_space s"
    unfolding trim_left_def by (rule strip_id) (simp add: trim_space_no_leading)
  moreover have "trim_right (trim_space s) = trim_space s"
    by (rule trim_right_id) (simp add: trim_space_no_trailing)
  ultimately show ?thesis by (simp add: trim_space_def)
qed

lemma trim_space_Nil [simp]: "trim_space [] = []"
  by (simp add: trim_space_def trim_left_def trim_right_def)

text \<open>A text that starts and ends with a printable ASCII character is its own trim.\<close>

definition plain_char :: "char \<Rightarrow> bool" where
  "plain_char c \<longleftrightarrow> 0x20 < (of_char c :: nat) \<and> (of_char c :: nat) < 0x80"

lemma space_seqs_not_plain:
  assumes "w \<in> set space_seqs"
  shows "w \<noteq> [] \<and> \<not> plain_char (hd w) \<and> \<not> plain_char (last w)"
  using assms by (auto simp: space_seqs_def plain_char_def)

lemma trim_space_plain:
  assumes "s \<noteq> []" "plain_char (hd s)" "plain_char (last s)"
  shows "trim_space s = s"
proof -
  have pre: "\<not> prefix w s" if "w \<in> set space_seqs" for w
    using space_seqs_not_plain[OF that] assms by (auto simp: prefix_def)
  have suf: "\<not> suffix w s" if "w \<in> set space_seqs" for w
    using space_seqs_not_plain[OF that] assms by (auto simp: suffix_def)
  have "trim_left s = s"
    unfolding trim_left_def by (rule strip_id) (use pre in auto)
  moreover have "trim_right s = s"
    by (rule trim_right_id) (use suf in auto)
  ultimately show ?thesis by (simp add: trim_space_def)
qed

lemma trim_space_plain_Cons [simp]:
  "plain_char c \<Longrightarrow> plain_char (last (c # s)) \<Longrightarrow> trim_space (c # s) = c # s"
  by (rule trim_space_plain) simp_all


section \<open>Lists of strings\<close>

text \<open>
  The loop \<open>for value := range values { c := strings.TrimSpace(value); if c != "" { append } }\<close>
  occurs in several packages of the source; \<open>clean_strings\<close> is that loop, and
  \<open>sorted_unique\<close> sorts its result by bytes and drops adjacent repetitions.
\<close>

fun clean_strings :: "string list \<Rightarrow> string list" where
  "clean_strings [] = []"
| "clean_strings (v # vs) =
     (let c = trim_space v in if c \<noteq> [] then c # clean_strings vs else clean_strings vs)"

definition sorted_unique :: "string list \<Rightarrow> string list" where
  "sorted_unique vs = remdups_adj (sort (clean_strings vs))"

definition canonical :: "string list \<Rightarrow> bool" where
  "canonical vs \<longleftrightarrow> sorted vs \<and> distinct vs \<and> (\<forall>v\<in>set vs. trim_space v = v \<and> v \<noteq> [])"

lemma set_clean_strings: "set (clean_strings vs) = {trim_space v |v. v \<in> set vs \<and> trim_space v \<noteq> []}"
  by (induction vs) (auto simp: Let_def)

lemma clean_strings_mono: "set xs \<subseteq> set ys \<Longrightarrow> set (clean_strings xs) \<subseteq> set (clean_strings ys)"
  by (auto simp: set_clean_strings)

lemma clean_strings_trimmed: "v \<in> set (clean_strings vs) \<Longrightarrow> trim_space v = v \<and> v \<noteq> []"
  by (auto simp: set_clean_strings)

lemma clean_strings_id: "(\<And>v. v \<in> set vs \<Longrightarrow> trim_space v = v \<and> v \<noteq> []) \<Longrightarrow> clean_strings vs = vs"
  by (induction vs) (auto simp: Let_def)

lemma clean_strings_idem [simp]: "clean_strings (clean_strings vs) = clean_strings vs"
  by (rule clean_strings_id) (rule clean_strings_trimmed)

lemma clean_strings_append [simp]: "clean_strings (xs @ ys) = clean_strings xs @ clean_strings ys"
  by (induction xs) (auto simp: Let_def)

lemma sorted_distinct_remdups_adj: "sorted (xs :: string list) \<Longrightarrow> distinct (remdups_adj xs)"
  by (induction xs rule: remdups_adj.induct) (auto simp: order.antisym)

lemma canonical_sorted_unique [simp, canon]: "canonical (sorted_unique vs)"
  by (auto simp: canonical_def sorted_unique_def sorted_distinct_remdups_adj
      dest: clean_strings_trimmed)

lemma set_sorted_unique [canon]:
  "set (sorted_unique vs) = {trim_space v |v. v \<in> set vs \<and> trim_space v \<noteq> []}"
  by (simp add: sorted_unique_def set_clean_strings)

lemma sorted_unique_set: "sorted_unique vs = sorted_list_of_set (set (clean_strings vs))"
  by (rule sorted_distinct_set_unique)
    (auto simp: sorted_unique_def sorted_distinct_remdups_adj)

lemma canonical_sorted_unique_id [canon]: "canonical vs \<Longrightarrow> sorted_unique vs = vs"
  by (simp add: canonical_def sorted_unique_def clean_strings_id sorted_sort_id
      remdups_adj_distinct)

lemma sorted_unique_idem [simp]: "sorted_unique (sorted_unique vs) = sorted_unique vs"
  by (rule canonical_sorted_unique_id) simp

lemma sorted_unique_cong_set:
  "set (clean_strings xs) = set (clean_strings ys) \<Longrightarrow> sorted_unique xs = sorted_unique ys"
  by (simp add: sorted_unique_set)

lemma sorted_unique_clean [simp]: "sorted_unique (clean_strings vs) = sorted_unique vs"
  by (simp add: sorted_unique_def)

lemma sorted_unique_Nil [simp]: "sorted_unique [] = []"
  by (simp add: sorted_unique_def)

lemma canonical_mem: "canonical vs \<Longrightarrow> v \<in> set vs \<Longrightarrow> trim_space v = v \<and> v \<noteq> []"
  by (simp add: canonical_def)

lemma canonical_Nil [simp]: "canonical []"
  by (simp add: canonical_def)

lemma clean_strings_canonical: "canonical vs \<Longrightarrow> clean_strings vs = vs"
  by (rule clean_strings_id) (simp add: canonical_def)

lemma clean_sorted_unique [simp]: "clean_strings (sorted_unique vs) = sorted_unique vs"
  by (rule clean_strings_canonical) simp

text \<open>First occurrences of a list, in order: the \<open>seen\<close>-map loops of the source.\<close>

fun dedup_from :: "'a set \<Rightarrow> 'a list \<Rightarrow> 'a list" where
  "dedup_from seen [] = []"
| "dedup_from seen (v # vs) =
     (if v \<in> seen then dedup_from seen vs else v # dedup_from (insert v seen) vs)"

lemma set_dedup_from [simp]: "set (dedup_from seen vs) = set vs - seen"
  by (induction vs arbitrary: seen) auto

lemma distinct_dedup_from [simp]: "distinct (dedup_from seen vs)"
  by (induction vs arbitrary: seen) auto

lemma dedup_from_id: "distinct vs \<Longrightarrow> set vs \<inter> seen = {} \<Longrightarrow> dedup_from seen vs = vs"
  by (induction vs arbitrary: seen) auto

section \<open>Other string operations\<close>

definition trim_prefix :: "string \<Rightarrow> string \<Rightarrow> string" where
  "trim_prefix p s = (if prefix p s then drop (length p) s else s)"

definition trim_suffix :: "string \<Rightarrow> string \<Rightarrow> string" where
  "trim_suffix q s = (if suffix q s then take (length s - length q) s else s)"

fun join :: "string \<Rightarrow> string list \<Rightarrow> string" where
  "join sep [] = []"
| "join sep [x] = x"
| "join sep (x # y # xs) = x @ sep @ join sep (y # xs)"

lemma trim_suffix_append [simp]: "trim_suffix q (s @ q) = s"
  by (auto simp: trim_suffix_def suffix_def)

lemma trim_prefix_append [simp]: "trim_prefix p (p @ s) = s"
  by (auto simp: trim_prefix_def prefix_def)

lemma suffix_trim_suffix: "suffix q s \<Longrightarrow> s = trim_suffix q s @ q"
  by (auto simp: trim_suffix_def suffix_def)

text \<open>Decimal rendering, \<open>strconv.Itoa\<close> and the verbs \<open>%d\<close> and \<open>%03d\<close> on a non-negative number.\<close>

fun show_nat :: "nat \<Rightarrow> string" where
  "show_nat n = (if n < 10 then [char_of (48 + n)] else show_nat (n div 10) @ [char_of (48 + n mod 10)])"

declare show_nat.simps [simp del]

definition show_int :: "int \<Rightarrow> string" where
  "show_int i = (if i < 0 then ''-'' @ show_nat (nat (- i)) else show_nat (nat i))"

definition pad3 :: "nat \<Rightarrow> string" where
  "pad3 n = replicate (3 - length (show_nat n)) (CHR ''0'') @ show_nat n"

fun read_digits :: "nat \<Rightarrow> string \<Rightarrow> nat" where
  "read_digits a [] = a"
| "read_digits a (c # cs) = read_digits (10 * a + (of_char c - 48)) cs"

lemma read_digits_append: "read_digits a (xs @ ys) = read_digits (read_digits a xs) ys"
  by (induction xs arbitrary: a) auto

lemma of_char_digit: "d < 10 \<Longrightarrow> (of_char (char_of (48 + d) :: char) :: nat) - 48 = d"
  by (simp add: of_char_of)

lemma read_show_nat: "read_digits 0 (show_nat n) = n"
proof (induction n rule: show_nat.induct)
  case (1 n)
  show ?case
  proof (cases "n < 10")
    case True
    then show ?thesis by (simp add: show_nat.simps[of n] of_char_digit)
  next
    case False
    with "1.IH" show ?thesis
      by (simp add: show_nat.simps[of n] read_digits_append of_char_digit)
  qed
qed

lemma read_digits_zeros: "read_digits 0 (replicate k (CHR ''0'') @ s) = read_digits 0 s"
  by (induction k) auto

lemma show_nat_inj [simp]: "show_nat m = show_nat n \<longleftrightarrow> m = n"
  by (metis read_show_nat)

lemma pad3_inj [simp]: "pad3 m = pad3 n \<longleftrightarrow> m = n"
  by (metis pad3_def read_digits_zeros read_show_nat)

end
