(* ===== verification/GoPath.thy ===== *)
theory GoPath
  imports Prelude
begin

text \<open>
  Slash-separated paths: the parts of Go's \<open>path\<close> and \<open>path/filepath\<close> packages the source
  relies on, for a Unix host (where \<open>filepath.Clean\<close> is \<open>path.Clean\<close> and \<open>filepath.ToSlash\<close>
  is the identity). \<open>path_clean\<close> is \<open>path.Clean\<close>, \<open>rel_path\<close> is \<open>filepath.Rel\<close> for an
  absolute target, \<open>path_match\<close> is \<open>path.Match\<close>. The lemmas say what a cleaned path looks
  like and that cleaning is idempotent.
\<close>

definition slash :: char where
  "slash = CHR ''/''"

section \<open>Components\<close>

fun comps :: "string \<Rightarrow> string list" where
  "comps [] = [[]]"
| "comps (c # s) =
     (if c = CHR ''/'' then [] # comps s
      else (case comps s of [] \<Rightarrow> [[c]] | x # xs \<Rightarrow> (c # x) # xs))"

lemma comps_not_Nil [simp]: "comps s \<noteq> []"
  by (induction s) (auto split: list.splits)

lemma comps_no_slash: "x \<in> set (comps s) \<Longrightarrow> CHR ''/'' \<notin> set x"
  by (induction s arbitrary: x) (auto split: list.splits if_splits)

lemma join_Cons: "xs \<noteq> [] \<Longrightarrow> join sep (x # xs) = x @ sep @ join sep xs"
  by (cases xs) auto

lemma join_head: "join sep ((c # x) # xs) = c # join sep (x # xs)"
  by (cases xs) auto

lemma join_comps: "join ''/'' (comps s) = s"
proof (induction s)
  case Nil
  then show ?case by simp
next
  case (Cons c s)
  obtain x xs where *: "comps s = x # xs"
    by (meson comps_not_Nil neq_Nil_conv)
  with Cons show ?case
    by (auto simp: join_Cons join_head)
qed

lemma comps_plain: "CHR ''/'' \<notin> set x \<Longrightarrow> comps x = [x]"
  by (induction x) auto

lemma comps_append: "CHR ''/'' \<notin> set x \<Longrightarrow> comps (x @ CHR ''/'' # s) = x # comps s"
  by (induction x) auto

lemma comps_join:
  assumes "xs \<noteq> []" "\<forall>x\<in>set xs. CHR ''/'' \<notin> set x"
  shows "comps (join ''/'' xs) = xs"
  using assms
proof (induction xs)
  case Nil
  then show ?case by simp
next
  case (Cons x xs)
  show ?case
  proof (cases "xs = []")
    case True
    with Cons.prems show ?thesis by (simp add: comps_plain)
  next
    case False
    with Cons show ?thesis by (simp add: join_Cons comps_append)
  qed
qed

section \<open>Cleaning\<close>

text \<open>
  The stack holds the components kept so far, last first. An empty component or a dot is
  dropped; a double dot removes an ordinary component, is dropped at the root, and is kept
  otherwise.
\<close>

definition clean_step :: "bool \<Rightarrow> string list \<Rightarrow> string \<Rightarrow> string list" where
  "clean_step rooted st c =
     (if c = [] \<or> c = ''.'' then st
      else if c = ''..'' then
        (if st \<noteq> [] \<and> hd st \<noteq> ''..'' then tl st
         else if rooted then st else ''..'' # st)
      else c # st)"

definition is_abs :: "string \<Rightarrow> bool" where
  "is_abs s \<longleftrightarrow> prefix ''/'' s"

definition clean_comps :: "bool \<Rightarrow> string list \<Rightarrow> string list" where
  "clean_comps rooted cs = rev (foldl (clean_step rooted) [] cs)"

definition render_path :: "bool \<Rightarrow> string list \<Rightarrow> string" where
  "render_path rooted cs =
     (if rooted then CHR ''/'' # join ''/'' cs
      else if cs = [] then ''.'' else join ''/'' cs)"

definition path_clean :: "string \<Rightarrow> string" where
  "path_clean s = (if s = [] then ''.'' else render_path (is_abs s) (clean_comps (is_abs s) (comps s)))"

text \<open>
  The shape of the stack: ordinary components above double dots, which are there only for a
  relative path.
\<close>

definition ordinary :: "string \<Rightarrow> bool" where
  "ordinary c \<longleftrightarrow> c \<noteq> [] \<and> c \<noteq> ''.'' \<and> c \<noteq> ''..'' \<and> CHR ''/'' \<notin> set c"

definition clean_form :: "bool \<Rightarrow> string list \<Rightarrow> bool" where
  "clean_form rooted cs \<longleftrightarrow>
     (\<exists>n xs. cs = replicate n ''..'' @ xs \<and> list_all ordinary xs \<and> (rooted \<longrightarrow> n = 0))"

lemma clean_step_form:
  assumes "clean_form rooted (rev st)" "CHR ''/'' \<notin> set c"
  shows "clean_form rooted (rev (clean_step rooted st c))"
proof -
  obtain n xs where st: "st = rev xs @ replicate n ''..''" and xs: "list_all ordinary xs"
    and n: "rooted \<longrightarrow> n = 0"
    using assms(1) unfolding clean_form_def by (metis rev_append rev_replicate rev_rev_ident)
  show ?thesis
  proof (cases "c = [] \<or> c = ''.''")
    case True
    then show ?thesis using assms(1) by (simp add: clean_step_def)
  next
    case noskip: False
    show ?thesis
    proof (cases "c = ''..''")
      case False
      have "rev (clean_step rooted st c) = replicate n ''..'' @ (xs @ [c])"
        using noskip False st by (simp add: clean_step_def)
      moreover have "list_all ordinary (xs @ [c])"
        using xs noskip False assms(2) by (simp add: ordinary_def)
      ultimately show ?thesis using n unfolding clean_form_def by blast
    next
      case True
      show ?thesis
      proof (cases xs rule: rev_cases)
        case (snoc ys y)
        then have "y \<noteq> ''..''" using xs by (simp add: ordinary_def)
        then have "rev (clean_step rooted st c) = replicate n ''..'' @ ys"
          using True st snoc by (simp add: clean_step_def)
        then show ?thesis using xs snoc n unfolding clean_form_def by auto
      next
        case Nil
        then have "rev (clean_step rooted st c) =
            (if rooted then [] else replicate (Suc n) ''..'')"
          using True st n
          by (cases n) (simp_all add: clean_step_def replicate_append_same)
        then show ?thesis unfolding clean_form_def
          by (metis append_Nil2 list.pred_inject(1) replicate_0)
      qed
    qed
  qed
qed

lemma foldl_clean_step_form:
  assumes "clean_form rooted (rev st)" "\<forall>c\<in>set cs. CHR ''/'' \<notin> set c"
  shows "clean_form rooted (rev (foldl (clean_step rooted) st cs))"
  using assms by (induction cs arbitrary: st) (auto simp: clean_step_form)

lemma clean_form_Nil [simp]: "clean_form rooted []"
  by (simp add: clean_form_def)

lemma clean_comps_form: "clean_form rooted (clean_comps rooted (comps s))"
  unfolding clean_comps_def
  by (rule foldl_clean_step_form) (simp_all add: comps_no_slash)

lemma clean_form_cases:
  assumes "clean_form rooted cs"
  obtains n xs where "cs = replicate n ''..'' @ xs" "\<forall>x\<in>set xs. ordinary x" "rooted \<longrightarrow> n = 0"
  using assms unfolding clean_form_def list_all_iff by blast

lemma clean_form_comp:
  assumes "clean_form rooted cs" "c \<in> set cs"
  shows "c = ''..'' \<or> ordinary c"
proof -
  obtain n xs where cs: "cs = replicate n ''..'' @ xs" and xs: "\<forall>x\<in>set xs. ordinary x"
    using assms(1) by (rule clean_form_cases)
  from assms(2) have "c \<in> set (replicate n ''..'') \<or> c \<in> set xs"
    unfolding cs by simp
  then show ?thesis
  proof
    assume "c \<in> set (replicate n ''..'')"
    then have "c = ''..''" by (simp only: in_set_replicate)
    then show ?thesis ..
  next
    assume "c \<in> set xs"
    then show ?thesis using xs by blast
  qed
qed

lemma ordinary_no_slash: "ordinary c \<Longrightarrow> CHR ''/'' \<notin> set c"
  by (simp add: ordinary_def)

lemma clean_form_no_slash:
  "clean_form rooted cs \<Longrightarrow> c \<in> set cs \<Longrightarrow> CHR ''/'' \<notin> set c"
  using clean_form_comp ordinary_no_slash by fastforce

lemma clean_form_not_Nil: "clean_form rooted cs \<Longrightarrow> c \<in> set cs \<Longrightarrow> c \<noteq> [] \<and> c \<noteq> ''.''"
  using clean_form_comp[of rooted cs c] by (auto simp: ordinary_def)

text \<open>Cleaning a stack in clean form changes nothing.\<close>

lemma foldl_clean_dots: "foldl (clean_step False) (replicate k ''..'') (replicate n ''..'') = replicate (n + k) ''..''"
proof (induction n arbitrary: k)
  case 0
  then show ?case by simp
next
  case (Suc n)
  have "clean_step False (replicate k ''..'') ''..'' = replicate (Suc k) ''..''"
    by (cases k) (simp_all add: clean_step_def)
  then show ?case using Suc[of "Suc k"] by simp
qed

lemma foldl_clean_ordinary: "\<forall>x\<in>set xs. ordinary x \<Longrightarrow> foldl (clean_step rooted) st xs = rev xs @ st"
  by (induction xs arbitrary: st) (simp_all add: clean_step_def ordinary_def)

lemma clean_comps_id:
  assumes "clean_form rooted cs"
  shows "clean_comps rooted cs = cs"
proof -
  obtain n xs where cs: "cs = replicate n ''..'' @ xs" and xs: "\<forall>x\<in>set xs. ordinary x"
    and r: "rooted \<longrightarrow> n = 0"
    using assms by (rule clean_form_cases)
  have "foldl (clean_step rooted) [] (replicate n ''..'') = replicate n ''..''"
    using r foldl_clean_dots[of 0 n] by (cases rooted) simp_all
  then show ?thesis
    using xs by (simp add: clean_comps_def cs foldl_clean_ordinary)
qed

lemma is_abs_join:
  assumes "clean_form rooted cs" "cs \<noteq> []"
  shows "\<not> is_abs (join ''/'' cs)"
proof -
  obtain c ds where cs: "cs = c # ds" using assms(2) by (cases cs) auto
  then have "c \<noteq> []" "CHR ''/'' \<notin> set c"
    using assms(1) clean_form_not_Nil clean_form_no_slash by auto
  then obtain a b where "c = a # b" "a \<noteq> CHR ''/''"
    by (cases c) auto
  then show ?thesis
    unfolding cs is_abs_def by (cases ds) (auto simp: join_head)
qed

text \<open>The clean components of a path, read back from its cleaned text.\<close>

lemma comps_render:
  assumes "clean_form rooted cs"
  shows "comps (render_path rooted cs) =
    (if rooted then [] # (if cs = [] then [[]] else cs)
     else if cs = [] then [''.''] else cs)"
  using assms clean_form_no_slash[OF assms]
  by (simp add: render_path_def comps_join)

lemma is_abs_render: "clean_form rooted cs \<Longrightarrow> is_abs (render_path rooted cs) = rooted"
  using is_abs_join[of rooted cs] by (auto simp: render_path_def is_abs_def)

lemma path_clean_not_Nil [simp]: "path_clean s \<noteq> []"
proof -
  have "render_path r (clean_comps r (comps s)) \<noteq> []" for r
  proof -
    have "comps (render_path r (clean_comps r (comps s))) \<noteq> [[]]"
      using clean_comps_form[of r s] clean_form_not_Nil[OF clean_comps_form[of r s]]
      by (auto simp: comps_render)
    then show ?thesis by auto
  qed
  then show ?thesis by (simp add: path_clean_def)
qed

lemma path_clean_idem [simp]: "path_clean (path_clean s) = path_clean s"
proof -
  have *: "path_clean (render_path r cs) = render_path r cs" if "clean_form r cs" for r cs
  proof -
    have "comps (render_path r cs) \<noteq> [[]]"
      using clean_form_not_Nil[OF that] by (auto simp: comps_render[OF that])
    then have "render_path r cs \<noteq> []" by auto
    moreover have "clean_comps r (comps (render_path r cs)) = cs"
      using that clean_comps_id[OF that]
      by (auto simp: comps_render clean_comps_def clean_step_def)
    ultimately show ?thesis
      by (simp add: path_clean_def is_abs_render[OF that])
  qed
  show ?thesis
  proof (cases "s = []")
    case True
    then show ?thesis by (simp add: path_clean_def is_abs_def clean_comps_def clean_step_def render_path_def)
  next
    case False
    then show ?thesis using * clean_comps_form by (simp add: path_clean_def)
  qed
qed

text \<open>A cleaned relative path that does not climb names ordinary components only.\<close>

lemma clean_relative_ordinary:
  assumes "\<not> is_abs (path_clean s)" "path_clean s \<noteq> ''.''" "path_clean s \<noteq> ''..''"
    "\<not> prefix ''../'' (path_clean s)"
  shows "\<forall>c\<in>set (comps (path_clean s)). ordinary c"
proof -
  have ne: "s \<noteq> []" using assms(2) by (auto simp: path_clean_def)
  define cs where "cs = clean_comps (is_abs s) (comps s)"
  have form: "clean_form (is_abs s) cs" by (simp add: cs_def clean_comps_form)
  have pc: "path_clean s = render_path (is_abs s) cs" by (simp add: path_clean_def ne cs_def)
  have rel: "\<not> is_abs s" using assms(1) by (simp add: pc is_abs_render[OF form])
  have cs: "cs \<noteq> []" using assms(2) rel by (auto simp: pc render_path_def)
  have comps: "comps (path_clean s) = cs"
    using comps_render[OF form] rel cs by (simp add: pc)
  obtain n xs where f: "cs = replicate n ''..'' @ xs" "\<forall>x\<in>set xs. ordinary x"
    using form by (rule clean_form_cases)
  have "n = 0"
  proof (rule ccontr)
    assume "n \<noteq> 0"
    then obtain m where "cs = ''..'' # replicate m ''..'' @ xs"
      using f(1) by (cases n) auto
    then show False
      using assms(3,4) rel cs
      by (cases "replicate m ''..'' @ xs") (auto simp: pc render_path_def)
  qed
  then show ?thesis using f comps by simp
qed

section \<open>Relative paths\<close>

text \<open>
  \<open>filepath.Rel(base, targ)\<close> for an absolute \<open>targ\<close> (the only way the source calls it), both
  already cleaned. A relative base is an error. After the common leading components, every
  base component left costs one double dot.
\<close>

definition path_parts :: "string \<Rightarrow> string list" where
  "path_parts s = filter (\<lambda>c. c \<noteq> []) (comps s)"

fun drop_common :: "string list \<Rightarrow> string list \<Rightarrow> string list \<times> string list" where
  "drop_common (b # bs) (t # ts) = (if b = t then drop_common bs ts else (b # bs, t # ts))"
| "drop_common bs ts = (bs, ts)"

definition rel_path :: "string \<Rightarrow> string \<Rightarrow> string option" where
  "rel_path base targ =
     (if targ = base then Some ''.''
      else if \<not> is_abs base then None
      else (case drop_common (path_parts base) (path_parts targ) of
              (bs, ts) \<Rightarrow> Some (join ''/'' (replicate (length bs) ''..'' @ ts))))"

section \<open>UTF-8\<close>

text \<open>
  \<open>utf8.DecodeRuneInString\<close> on a non-empty string: the rune and its width, with U+FFFD and
  width 1 for a malformed sequence.
\<close>

definition byte_in :: "nat \<Rightarrow> nat \<Rightarrow> char \<Rightarrow> bool" where
  "byte_in lo hi c \<longleftrightarrow> lo \<le> (of_char c :: nat) \<and> (of_char c :: nat) \<le> hi"

definition low_bits :: "char \<Rightarrow> nat" where
  "low_bits c = (of_char c :: nat) mod 64"

definition decode_rune :: "string \<Rightarrow> nat \<times> nat" where
  "decode_rune s =
     (case s of
        [] \<Rightarrow> (0xFFFD, 0)
      | a # t \<Rightarrow>
         (let bad = (0xFFFD, 1) in
          if byte_in 0 0x7F a then (of_char a, 1)
          else if byte_in 0xC2 0xDF a then
            (case t of
               b # _ \<Rightarrow> if byte_in 0x80 0xBF b then ((of_char a mod 32) * 64 + low_bits b, 2) else bad
             | _ \<Rightarrow> bad)
          else if byte_in 0xE0 0xEF a then
            (case t of
               b # c # _ \<Rightarrow>
                 if byte_in (if of_char a = (0xE0::nat) then 0xA0 else 0x80)
                            (if of_char a = (0xED::nat) then 0x9F else 0xBF) b
                    \<and> byte_in 0x80 0xBF c
                 then ((of_char a mod 16) * 4096 + low_bits b * 64 + low_bits c, 3) else bad
             | _ \<Rightarrow> bad)
          else if byte_in 0xF0 0xF4 a then
            (case t of
               b # c # d # _ \<Rightarrow>
                 if byte_in (if of_char a = (0xF0::nat) then 0x90 else 0x80)
                            (if of_char a = (0xF4::nat) then 0x8F else 0xBF) b
                    \<and> byte_in 0x80 0xBF c \<and> byte_in 0x80 0xBF d
                 then ((of_char a mod 8) * 262144 + low_bits b * 4096 + low_bits c * 64 + low_bits d, 4)
                 else bad
             | _ \<Rightarrow> bad)
          else bad))"

lemma decode_rune_width: "s \<noteq> [] \<Longrightarrow> 1 \<le> snd (decode_rune s) \<and> snd (decode_rune s) \<le> length s"
  by (auto simp: decode_rune_def Let_def split: list.splits)

section \<open>Shell patterns\<close>

text \<open>
  \<open>path.Match\<close>. A pattern is a list of chunks, each with a flag for a star before it
  (\<open>scan_chunk\<close>); a chunk is a list of items. A malformed chunk makes \<open>path.Match\<close> return
  an error, which its only caller here treats as no match.
\<close>

datatype item = Lit char | AnyRune | Class bool "(nat \<times> nat) list"

fun scan_body :: "bool \<Rightarrow> string \<Rightarrow> string \<times> string" where
  "scan_body inrange [] = ([], [])"
| "scan_body inrange (c # s) =
     (if c = CHR 0x5C then
        (case s of
           [] \<Rightarrow> ([c], [])
         | d # s' \<Rightarrow> (let (x, r) = scan_body inrange s' in (c # d # x, r)))
      else if c = CHR ''['' then (let (x, r) = scan_body True s in (c # x, r))
      else if c = CHR '']'' then (let (x, r) = scan_body False s in (c # x, r))
      else if c = CHR ''*'' \<and> \<not> inrange then ([], c # s)
      else (let (x, r) = scan_body inrange s in (c # x, r)))"

declare scan_body.simps(2) [simp del]

lemma scan_body_length: "length (snd (scan_body b s)) \<le> length s"
proof (induction "length s" arbitrary: b s rule: less_induct)
  case less
  show ?case
  proof (cases s)
    case Nil
    then show ?thesis by simp
  next
    case (Cons c t)
    have IH: "length (snd (scan_body v t)) \<le> length t" for v
      using less[of t v] Cons by simp
    have IH': "t = d # u \<Longrightarrow> length (snd (scan_body v u)) \<le> length u" for v d u
      using less[of u v] Cons by simp
    show ?thesis
      using IH[of True] IH[of False] IH[of b] IH'[of _ _ b]
      by (auto simp: Cons scan_body.simps(2)[of b c t] case_prod_unfold Let_def le_SucI
          split: list.split)
  qed
qed

lemma scan_body_shorter:
  assumes "s \<noteq> []" "hd s \<noteq> CHR ''*''"
  shows "length (snd (scan_body False s)) < length s"
proof -
  obtain c t where s: "s = c # t" using assms(1) by (cases s) auto
  have "length (snd (scan_body v t)) \<le> length t" for v by (rule scan_body_length)
  then show ?thesis
    using assms(2) scan_body_length[of False]
    by (auto simp: s scan_body.simps(2)[of False c t] case_prod_unfold Let_def less_Suc_eq_le le_SucI
        split: list.split)
qed

definition scan_chunk :: "string \<Rightarrow> bool \<times> string \<times> string" where
  "scan_chunk p =
     (let q = dropWhile (\<lambda>c. c = CHR ''*'') p; (x, r) = scan_body False q
      in (q \<noteq> p, x, r))"

text \<open>One bound of a character range; a range is never the end of a chunk.\<close>

definition get_esc :: "string \<Rightarrow> (nat \<times> string) option" where
  "get_esc s =
     (case s of
        [] \<Rightarrow> None
      | c # s' \<Rightarrow>
         if c = CHR ''-'' \<or> c = CHR '']'' then None
         else (let t = (if c = CHR 0x5C then s' else s) in
               if t = [] then None
               else (let (r, n) = decode_rune t; rest = drop n t in
                     if (r = 0xFFFD \<and> n = 1) \<or> rest = [] then None else Some (r, rest))))"

lemma drop_rune_shorter: "s \<noteq> [] \<Longrightarrow> length (drop (snd (decode_rune s)) s) < length s"
  using decode_rune_width[of s] by (cases s) auto

lemma get_esc_shorter:
  assumes "get_esc s = Some (r, t)"
  shows "length t < length s"
proof -
  obtain c s' where s: "s = c # s'" using assms by (cases s) (auto simp: get_esc_def)
  define u where "u = (if c = CHR 0x5C then s' else s)"
  have "u \<noteq> []" "t = drop (snd (decode_rune u)) u"
    using assms by (auto simp: get_esc_def s u_def Let_def case_prod_unfold split: if_splits)
  then have "length t < length u" using drop_rune_shorter by blast
  also have "length u \<le> length s" by (simp add: u_def s)
  finally show ?thesis .
qed

function parse_class :: "string \<Rightarrow> (nat \<times> nat) list \<Rightarrow> ((nat \<times> nat) list \<times> string) option" where
  "parse_class s acc =
     (if s \<noteq> [] \<and> hd s = CHR '']'' \<and> acc \<noteq> [] then Some (rev acc, tl s)
      else (case get_esc s of
              None \<Rightarrow> None
            | Some (lo, t) \<Rightarrow>
               if hd t = CHR ''-'' then
                 (case get_esc (tl t) of
                    None \<Rightarrow> None
                  | Some (hi, u) \<Rightarrow> parse_class u ((lo, hi) # acc))
               else parse_class t ((lo, lo) # acc)))"
  by pat_completeness auto
termination
proof (relation "measure (\<lambda>(s, acc). length s)", goal_cases)
  case 1
  then show ?case by simp
next
  case (2 s acc a lo t c hi u)
  then show ?case
    using get_esc_shorter[of s lo t] get_esc_shorter[of "tl t" hi u] by auto
next
  case (3 s acc a lo t)
  then show ?case using get_esc_shorter[of s lo t] by auto
qed

declare parse_class.simps [simp del]

lemma parse_class_shorter: "parse_class s acc = Some (rs, t) \<Longrightarrow> length t < length s"
proof (induction s acc arbitrary: rs t rule: parse_class.induct)
  case (1 s acc)
  show ?case
    using "1.prems" "1.IH"
    by (fastforce simp: parse_class.simps[of s acc] neq_Nil_conv split: if_splits option.splits
        dest: get_esc_shorter)
qed

lemma scan_chunk_shorter:
  assumes "p \<noteq> []"
  shows "length (snd (snd (scan_chunk p))) < length p"
proof -
  define q where "q = dropWhile (\<lambda>c. c = CHR ''*'') p"
  have r: "snd (snd (scan_chunk p)) = snd (scan_body False q)"
    by (simp add: scan_chunk_def q_def Let_def case_prod_unfold)
  have q: "length q \<le> length p" by (simp add: q_def length_dropWhile_le)
  show ?thesis
  proof (cases "q = []")
    case True
    then show ?thesis using assms by (simp add: r)
  next
    case False
    then have "hd q \<noteq> CHR ''*''" unfolding q_def by (rule hd_dropWhile)
    with False have "length (snd (scan_body False q)) < length q" by (rule scan_body_shorter)
    then show ?thesis using q by (simp add: r)
  qed
qed

function parse_chunk :: "string \<Rightarrow> item list option" where
  "parse_chunk s =
     (case s of
        [] \<Rightarrow> Some []
      | c # t \<Rightarrow>
         if c = CHR ''['' then
           (let neg = (t \<noteq> [] \<and> hd t = CHR ''^''); u = (if neg then tl t else t) in
            case parse_class u [] of
              None \<Rightarrow> None
            | Some (rs, v) \<Rightarrow> map_option (\<lambda>xs. Class neg rs # xs) (parse_chunk v))
         else if c = CHR ''?'' then map_option (\<lambda>xs. AnyRune # xs) (parse_chunk t)
         else if c = CHR 0x5C then
           (case t of [] \<Rightarrow> None | d # u \<Rightarrow> map_option (\<lambda>xs. Lit d # xs) (parse_chunk u))
         else map_option (\<lambda>xs. Lit c # xs) (parse_chunk t))"
  by pat_completeness auto
termination
proof (relation "measure length", goal_cases)
  case (2 s c t neg u a rs v)
  have "length u \<le> length t" unfolding 2 by auto
  moreover have "length v < length u" using 2 parse_class_shorter[of u "[]" rs v] by simp
  ultimately show ?case using 2(1) by simp
qed auto

declare parse_chunk.simps [simp del]

function parse_pattern :: "string \<Rightarrow> (bool \<times> item list) list option" where
  "parse_pattern p =
     (if p = [] then Some []
      else (let (star, x, r) = scan_chunk p in
            case parse_chunk x of
              None \<Rightarrow> None
            | Some items \<Rightarrow> map_option (\<lambda>cs. (star, items) # cs) (parse_pattern r)))"
  by pat_completeness auto
termination
proof (relation "measure length", goal_cases)
  case (2 p x star y chunk r items)
  then show ?case using scan_chunk_shorter[of p] by (metis in_measure snd_conv)
qed auto

declare parse_pattern.simps [simp del]

text \<open>\<open>matchChunk\<close> on a well-formed chunk: the rest of the name, or None if it does not match.\<close>

fun match_items :: "item list \<Rightarrow> string \<Rightarrow> string option" where
  "match_items [] s = Some s"
| "match_items (Lit c # xs) s =
     (case s of [] \<Rightarrow> None | d # t \<Rightarrow> if c = d then match_items xs t else None)"
| "match_items (AnyRune # xs) s =
     (if s = [] \<or> hd s = CHR ''/'' then None else match_items xs (drop (snd (decode_rune s)) s))"
| "match_items (Class neg rs # xs) s =
     (if s = [] then None
      else (let (r, n) = decode_rune s in
            if list_ex (\<lambda>(lo, hi). lo \<le> r \<and> r \<le> hi) rs = neg then None
            else match_items xs (drop n s)))"

text \<open>The loop that tries the chunk after a star one byte further on; a star skips no slash.\<close>

fun match_skip :: "item list \<Rightarrow> bool \<Rightarrow> string \<Rightarrow> string option" where
  "match_skip xs is_last [] = None"
| "match_skip xs is_last (c # s) =
     (if c = CHR ''/'' then None
      else (case match_items xs s of
              Some t \<Rightarrow> if is_last \<and> t \<noteq> [] then match_skip xs is_last s else Some t
            | None \<Rightarrow> match_skip xs is_last s))"

fun match_chunks :: "(bool \<times> item list) list \<Rightarrow> string \<Rightarrow> bool" where
  "match_chunks [] s = (s = [])"
| "match_chunks ((star, xs) # cs) s =
     (if star \<and> xs = [] then CHR ''/'' \<notin> set s
      else (case match_items xs s of
              Some t \<Rightarrow>
                if t = [] \<or> cs \<noteq> [] then match_chunks cs t
                else if star then
                  (case match_skip xs (cs = []) s of Some t \<Rightarrow> match_chunks cs t | None \<Rightarrow> False)
                else False
            | None \<Rightarrow>
                if star then
                  (case match_skip xs (cs = []) s of Some t \<Rightarrow> match_chunks cs t | None \<Rightarrow> False)
                else False))"

definition path_match :: "string \<Rightarrow> string \<Rightarrow> bool" where
  "path_match pattern name =
     (case parse_pattern pattern of None \<Rightarrow> False | Some cs \<Rightarrow> match_chunks cs name)"

text \<open>A prefix on component lists is a prefix up to a slash on the texts.\<close>

lemma comps_append_slash: "comps (a @ CHR ''/'' # t) = comps a @ comps t"
  by (induction a) (auto split: list.splits)

lemma join_append: "xs \<noteq> [] \<Longrightarrow> ys \<noteq> [] \<Longrightarrow> join sep (xs @ ys) = join sep xs @ sep @ join sep ys"
proof (induction xs)
  case Nil
  then show ?case by simp
next
  case (Cons x xs)
  then show ?case by (cases "xs = []") (simp_all add: join_Cons)
qed

lemma comps_prefix:
  "prefix (comps a) (comps s) \<longleftrightarrow> s = a \<or> prefix (a @ ''/'') s"
proof
  assume "prefix (comps a) (comps s)"
  then obtain ys where ys: "comps s = comps a @ ys" by (auto simp: prefix_def)
  show "s = a \<or> prefix (a @ ''/'') s"
  proof (cases "ys = []")
    case True
    then have "join ''/'' (comps s) = join ''/'' (comps a)" using ys by simp
    then show ?thesis by (simp add: join_comps)
  next
    case False
    then have "join ''/'' (comps s) = join ''/'' (comps a) @ ''/'' @ join ''/'' ys"
      unfolding ys by (intro join_append) simp_all
    then show ?thesis by (auto simp: join_comps prefix_def)
  qed
next
  assume "s = a \<or> prefix (a @ ''/'') s"
  then show "prefix (comps a) (comps s)"
    by (auto simp: prefix_def comps_append_slash)
qed

end
