(* ===== verification/GoTime.thy ===== *)
theory GoTime
  imports Prelude
begin

text \<open>
  The part of Go's \<open>time\<close> package the source uses: instants with a zone offset, \<open>After\<close>, \<open>Before\<close>,
  \<open>Sub\<close> and \<open>Add\<close>, and the layout RFC3339 for parsing and formatting. A \<open>Time\<close> is its Unix
  second, its nanosecond and the offset of its zone; that is all the source observes of it. A
  \<open>Duration\<close> is an \<open>int\<close> of nanoseconds kept within 64 bits. The error of a failed parse
  is None: its text only quotes the input.
\<close>

record Time =
  tm_sec :: int
  tm_nsec :: int
  tm_off :: int

definition unix_nano :: "Time \<Rightarrow> int" where
  "unix_nano t = tm_sec t * 1000000000 + tm_nsec t"

definition After :: "Time \<Rightarrow> Time \<Rightarrow> bool" where
  "After t u \<longleftrightarrow> unix_nano t > unix_nano u"

definition Before :: "Time \<Rightarrow> Time \<Rightarrow> bool" where
  "Before t u \<longleftrightarrow> unix_nano t < unix_nano u"

definition max_duration :: int where "max_duration = 9223372036854775807"
definition min_duration :: int where "min_duration = - 9223372036854775808"

text \<open>\<open>Sub\<close> saturates at the ends of the 64-bit range.\<close>

definition Sub :: "Time \<Rightarrow> Time \<Rightarrow> int" where
  "Sub t u = max min_duration (min max_duration (unix_nano t - unix_nano u))"

definition Add :: "Time \<Rightarrow> int \<Rightarrow> Time" where
  "Add t d = (let n = unix_nano t + d in t\<lparr>tm_sec := n div 1000000000, tm_nsec := n mod 1000000000\<rparr>)"

definition nano_hour :: int where "nano_hour = 3600000000000"

section \<open>The calendar\<close>

definition leap :: "int \<Rightarrow> bool" where
  "leap y \<longleftrightarrow> y mod 4 = 0 \<and> (y mod 100 \<noteq> 0 \<or> y mod 400 = 0)"

text \<open>Days before 1 January of year \<open>y\<close>, counted from 1 January of year 1.\<close>

definition before_year :: "int \<Rightarrow> int" where
  "before_year y = 365 * (y - 1) + (y - 1) div 4 - (y - 1) div 100 + (y - 1) div 400"

definition before_month :: "int \<Rightarrow> int \<Rightarrow> int" where
  "before_month y m =
     (if m \<le> 1 then 0 else if m = 2 then 31
      else (if leap y then 1 else 0) +
        (if m = 3 then 59 else if m = 4 then 90 else if m = 5 then 120 else if m = 6 then 151
         else if m = 7 then 181 else if m = 8 then 212 else if m = 9 then 243
         else if m = 10 then 273 else if m = 11 then 304 else if m = 12 then 334 else 365))"

definition days_in :: "int \<Rightarrow> int \<Rightarrow> int" where
  "days_in y m = before_month y (m + 1) - before_month y m"

definition unix_days :: int where "unix_days = 719162"

definition days_from_civil :: "int \<Rightarrow> int \<Rightarrow> int \<Rightarrow> int" where
  "days_from_civil y m d = before_year y + before_month y m + (d - 1) - unix_days"

definition year_of :: "int \<Rightarrow> int" where
  "year_of n =
     (let e = n * 400 div 146097 + 1
      in if n < before_year e then e - 1 else if n \<ge> before_year (e + 1) then e + 1 else e)"

fun month_from :: "int \<Rightarrow> int \<Rightarrow> int list \<Rightarrow> int" where
  "month_from y k [] = 12"
| "month_from y k (m # ms) = (if k < before_month y (m + 1) then m else month_from y k ms)"

definition civil_from_days :: "int \<Rightarrow> int \<times> int \<times> int" where
  "civil_from_days n0 =
     (let n = n0 + unix_days; y = year_of n; k = n - before_year y; m = month_from y k [1..11]
      in (y, m, k - before_month y m + 1))"

lemma div_bounds: "0 < k \<Longrightarrow> k * (x div k) \<le> x \<and> x \<le> k * (x div k) + k - 1" for k x :: int
  using mult_div_mod_eq[of k x] pos_mod_sign[of k x] pos_mod_bound[of k x] by linarith

lemma div_step:
  fixes k y :: int
  assumes "0 < k"
  shows "y div k = (y - 1) div k + (if y mod k = 0 then 1 else 0)"
proof (cases "y mod k = 0")
  case True
  then have "y - 1 = k * (y div k - 1) + (k - 1)"
    using mult_div_mod_eq[of k y] by (simp add: algebra_simps)
  then have "(y - 1) div k = y div k - 1" by (rule int_div_pos_eq) (use assms in auto)
  then show ?thesis using True by simp
next
  case False
  then have "y - 1 = k * (y div k) + (y mod k - 1)" using mult_div_mod_eq[of k y] by linarith
  moreover have "0 \<le> y mod k - 1" "y mod k - 1 < k"
    using False pos_mod_sign[OF assms, of y] pos_mod_bound[OF assms, of y] by linarith+
  ultimately have "(y - 1) div k = y div k" by (rule int_div_pos_eq)
  then show ?thesis using False by simp
qed

lemma div_lipschitz:
  fixes k y w :: int
  assumes "0 < k" "y \<le> w"
  shows "w div k - y div k \<le> w - y"
proof -
  have "w - y \<le> k * (w - y)" using assms mult_right_mono[of 1 k "w - y"] by simp
  then have "w div k \<le> (y + k * (w - y)) div k" by (intro zdiv_mono1) (use assms in auto)
  also have "\<dots> = y div k + (w - y)" using assms(1) by simp
  finally show ?thesis by simp
qed

lemma mod_dvd: "y mod 400 = 0 \<Longrightarrow> y mod 100 = 0" "y mod 100 = 0 \<Longrightarrow> y mod 4 = 0" for y :: int
  by (simp_all add: mod_eq_0_iff_dvd dvd_trans[of 100 400] dvd_trans[of 4 100])

lemma before_year_step: "before_year (y + 1) = before_year y + (if leap y then 366 else 365)"
proof -
  define a b c where "a = (y - 1) div 4" and "b = (y - 1) div 100" and "c = (y - 1) div 400"
  let ?i = "\<lambda>k. if y mod k = 0 then 1 else 0 :: int"
  have "y div 4 = a + ?i 4" "y div 100 = b + ?i 100" "y div 400 = c + ?i 400"
    unfolding a_def b_def c_def by (rule div_step; simp)+
  then have "before_year (y + 1) = 365 * y + (a + ?i 4) - (b + ?i 100) + (c + ?i 400)"
    by (simp only: before_year_def add_diff_cancel_right')
  moreover have "before_year y = 365 * (y - 1) + a - b + c"
    by (simp only: before_year_def a_def b_def c_def)
  moreover have "?i 4 - ?i 100 + ?i 400 = (if leap y then 1 else 0)"
    using mod_dvd[of y] unfolding leap_def by (cases "y mod 4 = 0"; cases "y mod 100 = 0"; auto)
  ultimately show ?thesis by (simp split: if_splits)
qed

lemma before_year_mono:
  assumes "y < z" shows "before_year (y + 1) \<le> before_year z"
proof -
  have "y div 4 \<le> (z - 1) div 4" "y div 400 \<le> (z - 1) div 400"
    using assms by (auto intro: zdiv_mono1)
  moreover have "(z - 1) div 100 - y div 100 \<le> z - 1 - y"
    using assms by (intro div_lipschitz) auto
  ultimately show ?thesis using assms by (simp add: before_year_def)
qed

lemma year_of_unique:
  assumes "before_year y \<le> n" "n < before_year (y + 1)"
  shows "year_of n = y"
proof -
  define e where "e = n * 400 div 146097 + 1"
  define a b c where "a = (y - 1) div 4" and "b = (y - 1) div 100" and "c = (y - 1) div 400"
  have "4 * a \<le> y - 1" "y - 1 \<le> 4 * a + 3" "100 * b \<le> y - 1" "y - 1 \<le> 100 * b + 99"
    "400 * c \<le> y - 1" "y - 1 \<le> 400 * c + 399"
    unfolding a_def b_def c_def using div_bounds[of 4 "y - 1"] div_bounds[of 100 "y - 1"] div_bounds[of 400 "y - 1"]
    by simp_all
  moreover have "365 * (y - 1) + a - b + c \<le> n" "n \<le> 365 * (y - 1) + a - b + c + 365"
    using assms before_year_step[of y]
    by (auto simp only: before_year_def[of y] a_def b_def c_def split: if_splits)
  moreover have "146097 * (e - 1) \<le> n * 400" "n * 400 < 146097 * e"
    unfolding e_def using div_bounds[of 146097 "n * 400"] by simp_all
  ultimately have "146097 * (y - 1) - 699 \<le> 146097 * e" "146097 * (e - 1) \<le> 146097 * (y - 1) + 146396"
    by (simp_all add: algebra_simps)
  then have "y - 2 < e" "e < y + 2" by simp_all
  then have "e = y - 1 \<or> e = y \<or> e = y + 1" by arith
  then show ?thesis
    using assms before_year_mono[of y e] before_year_mono[of e y] before_year_mono[of "y - 1" y]
      before_year_step[of "y - 1"] before_year_step[of e] before_year_step[of y]
    unfolding year_of_def e_def[symmetric] Let_def by auto
qed

lemma upto_1_11: "[1..11] = [1, 2, 3, 4, 5, 6, 7, 8, 9, 10, 11 :: int]"
  by (simp add: upto.simps)

text \<open>The days before each month, as the table of a common and of a leap year.\<close>

lemma before_month_values:
  "before_month y 1 = 0" "before_month y 2 = 31"
  "before_month y 3 = (if leap y then 60 else 59)" "before_month y 4 = (if leap y then 91 else 90)"
  "before_month y 5 = (if leap y then 121 else 120)" "before_month y 6 = (if leap y then 152 else 151)"
  "before_month y 7 = (if leap y then 182 else 181)" "before_month y 8 = (if leap y then 213 else 212)"
  "before_month y 9 = (if leap y then 244 else 243)" "before_month y 10 = (if leap y then 274 else 273)"
  "before_month y 11 = (if leap y then 305 else 304)" "before_month y 12 = (if leap y then 335 else 334)"
  "before_month y 13 = (if leap y then 366 else 365)"
  by (simp_all add: before_month_def)

lemma before_month_mono: "1 \<le> i \<Longrightarrow> i \<le> j \<Longrightarrow> before_month y i \<le> before_month y j"
proof (induction "nat (j - i)" arbitrary: j)
  case (Suc n)
  then have "i \<le> j - 1" "n = nat (j - 1 - i)" by simp_all
  then have "before_month y i \<le> before_month y (j - 1)" using Suc by blast
  also have "\<dots> \<le> before_month y j" by (auto simp: before_month_def)
  finally show ?case .
qed simp

lemma month_from_found:
  assumes "1 \<le> i" "i \<le> m" "m \<le> 12" "before_month y m \<le> k" "k < before_month y (m + 1)"
  shows "month_from y k [i..11] = m"
  using assms(1,2)
proof (induction "nat (m - i)" arbitrary: i)
  case 0
  then have "i = m" by simp
  then show ?case using assms(3,5) by (cases "m = 12") (simp_all add: upto.simps[of m 11])
next
  case (Suc n)
  then have "i < m" "i \<le> 11" "n = nat (m - (i + 1))" using assms(3) by simp_all
  moreover have "\<not> k < before_month y (i + 1)"
    using before_month_mono[of "i + 1" m y] \<open>i < m\<close> Suc.prems assms(4) by simp
  ultimately show ?case using Suc.hyps(1)[of "i + 1"] Suc.prems by (simp add: upto.simps[of i 11])
qed

lemma civil_days_civil:
  assumes "1 \<le> m" "m \<le> 12" "1 \<le> d" "d \<le> days_in y m"
  shows "civil_from_days (days_from_civil y m d) = (y, m, d)"
proof -
  define k where "k = before_month y m + (d - 1)"
  have k: "before_month y m \<le> k" "k < before_month y (m + 1)"
    using assms by (auto simp: k_def days_in_def)
  have "before_month y 1 \<le> before_month y m" "before_month y (m + 1) \<le> before_month y 13"
    using assms(1,2) by (auto intro: before_month_mono)
  then have "0 \<le> k" "k < (if leap y then 366 else 365)"
    using k by (auto simp: before_month_values)
  then have y: "year_of (before_year y + k) = y"
    by (intro year_of_unique) (simp_all add: before_year_step)
  have "month_from y k [1..11] = m"
    by (rule month_from_found) (use k assms in auto)
  moreover have "days_from_civil y m d + unix_days = before_year y + k"
    by (simp add: days_from_civil_def k_def)
  ultimately show ?thesis
    using y by (simp add: civil_from_days_def Let_def k_def)
qed

lemma year_of_bracket: "before_year (year_of n) \<le> n \<and> n < before_year (year_of n + 1)"
proof -
  define e where "e = n * 400 div 146097 + 1"
  have near: "400 * before_year y \<le> 146097 * (y - 1) + 399" "146097 * (y - 1) - 699 \<le> 400 * before_year y" for y
  proof -
    define a b c where "a = (y - 1) div 4" and "b = (y - 1) div 100" and "c = (y - 1) div 400"
    have "4 * a \<le> y - 1 \<and> y - 1 \<le> 4 * a + 3" "100 * b \<le> y - 1 \<and> y - 1 \<le> 100 * b + 99"
      "400 * c \<le> y - 1 \<and> y - 1 \<le> 400 * c + 399"
      unfolding a_def b_def c_def using div_bounds[of 4 "y - 1"] div_bounds[of 100 "y - 1"] div_bounds[of 400 "y - 1"]
      by simp_all
    moreover have "before_year y = 365 * (y - 1) + a - b + c"
      by (simp only: before_year_def a_def b_def c_def)
    ultimately show "400 * before_year y \<le> 146097 * (y - 1) + 399" "146097 * (y - 1) - 699 \<le> 400 * before_year y"
      by simp_all
  qed
  have "146097 * (e - 1) \<le> n * 400" "n * 400 < 146097 * e"
    unfolding e_def using div_bounds[of 146097 "n * 400"] by simp_all
  then have "before_year (e - 1) \<le> n" "n < before_year (e + 2)"
    using near(1)[of "e - 1"] near(2)[of "e + 2"] by simp_all
  then show ?thesis
    unfolding year_of_def e_def[symmetric] Let_def by (auto simp: add.assoc)
qed

lemma month_from_bracket:
  assumes "before_month y i \<le> k" "k < before_month y 13" "1 \<le> i" "i \<le> 12"
  shows "i \<le> month_from y k [i..11] \<and> month_from y k [i..11] \<le> 12
    \<and> before_month y (month_from y k [i..11]) \<le> k \<and> k < before_month y (month_from y k [i..11] + 1)"
  using assms
proof (induction "nat (12 - i)" arbitrary: i)
  case 0
  then show ?case by simp
next
  case (Suc n)
  then have "i \<le> 11" "n = nat (12 - (i + 1))" by simp_all
  then show ?case
    using Suc.hyps(1)[of "i + 1"] Suc.prems by (auto simp: upto.simps[of i 11])
qed

lemma civil_valid:
  assumes "civil_from_days n = (y, m, d)"
  shows "y = year_of (n + unix_days)" "1 \<le> m" "m \<le> 12" "1 \<le> d" "d \<le> days_in y m"
    "days_from_civil y m d = n"
proof -
  define k where "k = n + unix_days - before_year y"
  have y: "y = year_of (n + unix_days)" and m: "m = month_from y k [1..11]" and d: "d = k - before_month y m + 1"
    using assms by (auto simp: civil_from_days_def Let_def k_def)
  have "0 \<le> k" "k < (if leap y then 366 else 365)"
    using year_of_bracket[of "n + unix_days"] before_year_step[of y] y by (auto simp: k_def)
  then have "before_month y 1 \<le> k" "k < before_month y 13" by (simp_all add: before_month_values)
  from month_from_bracket[OF this] have "1 \<le> m \<and> m \<le> 12 \<and> before_month y m \<le> k \<and> k < before_month y (m + 1)"
    unfolding m by simp
  then show "y = year_of (n + unix_days)" "1 \<le> m" "m \<le> 12" "1 \<le> d" "d \<le> days_in y m"
    "days_from_civil y m d = n"
    using y d by (auto simp: days_in_def days_from_civil_def k_def)
qed

lemma days_in_bounds: "days_in y m \<le> 31"
  by (auto simp: days_in_def before_month_def)

section \<open>RFC3339\<close>

definition is_digit :: "char \<Rightarrow> bool" where
  "is_digit c \<longleftrightarrow> 48 \<le> (of_char c :: nat) \<and> (of_char c :: nat) \<le> 57"

definition digit_val :: "char \<Rightarrow> int" where
  "digit_val c = int (of_char c) - 48"

definition append_int :: "nat \<Rightarrow> int \<Rightarrow> string" where
  "append_int w i =
     (if i < 0 then ''-'' else []) @
     (let ds = show_nat (nat \<bar>i\<bar>) in replicate (w - length ds) (CHR ''0'') @ ds)"

text \<open>\<open>Format(time.RFC3339)\<close>. The zone is rounded toward zero to minutes, as Go's division does.\<close>

definition format_zone :: "int \<Rightarrow> string" where
  "format_zone off =
     (if off = 0 then ''Z''
      else (let minutes = \<bar>off\<bar> div 60
            in (if off < 0 \<and> minutes > 0 then ''-'' else ''+'') @
               append_int 2 (minutes div 60) @ '':'' @ append_int 2 (minutes mod 60)))"

definition format_rfc3339 :: "Time \<Rightarrow> string" where
  "format_rfc3339 t =
     (let loc = tm_sec t + tm_off t; (y, m, d) = civil_from_days (loc div 86400); s = loc mod 86400
      in append_int 4 y @ ''-'' @ append_int 2 m @ ''-'' @ append_int 2 d @ ''T'' @
         append_int 2 (s div 3600) @ '':'' @ append_int 2 (s div 60 mod 60) @ '':'' @
         append_int 2 (s mod 60) @ format_zone (tm_off t))"

text \<open>\<open>Format("20060102")\<close>.\<close>

definition format_day :: "Time \<Rightarrow> string" where
  "format_day t =
     (case civil_from_days ((tm_sec t + tm_off t) div 86400) of
        (y, m, d) \<Rightarrow> append_int 4 y @ append_int 2 m @ append_int 2 d)"

text \<open>The scanning functions of \<open>time.parse\<close> for the elements of the layout.\<close>

definition expect :: "char \<Rightarrow> string \<Rightarrow> string option" where
  "expect c s = (case s of d # t \<Rightarrow> if d = c then Some t else None | [] \<Rightarrow> None)"

definition getnum :: "bool \<Rightarrow> string \<Rightarrow> (int \<times> string) option" where
  "getnum fixed s =
     (case s of
        c # d # t \<Rightarrow>
          if \<not> is_digit c then None
          else if \<not> is_digit d then (if fixed then None else Some (digit_val c, d # t))
          else Some (10 * digit_val c + digit_val d, t)
      | [c] \<Rightarrow> if \<not> is_digit c \<or> fixed then None else Some (digit_val c, [])
      | [] \<Rightarrow> None)"

definition get_range :: "bool \<Rightarrow> int \<Rightarrow> int \<Rightarrow> string \<Rightarrow> (int \<times> string) option" where
  "get_range fixed lo hi s =
     (case getnum fixed s of
        Some (n, t) \<Rightarrow> if lo \<le> n \<and> n \<le> hi then Some (n, t) else None
      | None \<Rightarrow> None)"

definition get_year :: "string \<Rightarrow> (int \<times> string) option" where
  "get_year s =
     (case s of
        a # b # c # d # t \<Rightarrow>
          if is_digit a \<and> is_digit b \<and> is_digit c \<and> is_digit d
          then Some (1000 * digit_val a + 100 * digit_val b + 10 * digit_val c + digit_val d, t)
          else None
      | _ \<Rightarrow> None)"

text \<open>An optional fraction after the seconds: a dot or comma and any number of digits, nine count.\<close>

definition get_fraction :: "string \<Rightarrow> int \<times> string" where
  "get_fraction s =
     (case s of
        sep # d # t \<Rightarrow>
          if (sep = CHR ''.'' \<or> sep = CHR '','') \<and> is_digit d
          then (let run = takeWhile is_digit (d # t); kept = take 9 run
                in (int (read_digits 0 kept) * 10 ^ (9 - length kept), dropWhile is_digit (d # t)))
          else (0, s)
      | _ \<Rightarrow> (0, s))"

definition get_zone :: "string \<Rightarrow> (int \<times> string) option" where
  "get_zone s =
     (case s of
        sign # h1 # h2 # colon # m1 # m2 # t \<Rightarrow>
          if sign = CHR ''Z'' then Some (0, tl s)
          else if colon = CHR '':'' \<and> is_digit h1 \<and> is_digit h2 \<and> is_digit m1 \<and> is_digit m2
            \<and> (sign = CHR ''+'' \<or> sign = CHR ''-'')
          then (let hr = 10 * digit_val h1 + digit_val h2; mm = 10 * digit_val m1 + digit_val m2;
                    off = (hr * 60 + mm) * 60
                in if hr > 24 \<or> mm > 60 then None
                   else Some (if sign = CHR ''-'' then - off else off, t))
          else None
      | c # t \<Rightarrow> if c = CHR ''Z'' then Some (0, t) else None
      | [] \<Rightarrow> None)"

definition make_time :: "int \<Rightarrow> int \<Rightarrow> int \<Rightarrow> int \<Rightarrow> int \<Rightarrow> int \<Rightarrow> int \<Rightarrow> int \<Rightarrow> Time option" where
  "make_time y m d hh mm ss ns off =
     (if 1 \<le> d \<and> d \<le> days_in y m
      then Some \<lparr>tm_sec = days_from_civil y m d * 86400 + hh * 3600 + mm * 60 + ss - off,
                 tm_nsec = ns, tm_off = off\<rparr>
      else None)"

definition parse_date :: "string \<Rightarrow> ((int \<times> int \<times> int) \<times> string) option" where
  "parse_date s0 =
     Option.bind (get_year s0) (\<lambda>(y, s1). Option.bind (expect (CHR ''-'') s1) (\<lambda>s2.
     Option.bind (get_range True 1 12 s2) (\<lambda>(m, s3). Option.bind (expect (CHR ''-'') s3) (\<lambda>s4.
     Option.bind (getnum True s4) (\<lambda>(d, s5). Some ((y, m, d), s5))))))"

definition parse_clock :: "string \<Rightarrow> ((int \<times> int \<times> int) \<times> string) option" where
  "parse_clock s0 =
     Option.bind (get_range False 0 23 s0) (\<lambda>(hh, s1). Option.bind (expect (CHR '':'') s1) (\<lambda>s2.
     Option.bind (get_range True 0 59 s2) (\<lambda>(mm, s3). Option.bind (expect (CHR '':'') s3) (\<lambda>s4.
     Option.bind (get_range True 0 59 s4) (\<lambda>(ss, s5). Some ((hh, mm, ss), s5))))))"

definition parse_rfc3339 :: "string \<Rightarrow> Time option" where
  "parse_rfc3339 s0 =
     Option.bind (parse_date s0) (\<lambda>((y, m, d), s1). Option.bind (expect (CHR ''T'') s1) (\<lambda>s2.
     Option.bind (parse_clock s2) (\<lambda>((hh, mm, ss), s3).
       (case get_fraction s3 of (ns, s4) \<Rightarrow>
          Option.bind (get_zone s4) (\<lambda>(off, s5).
            if s5 = [] then make_time y m d hh mm ss ns off else None)))))"

section \<open>Reading back what was written\<close>

definition digit :: "int \<Rightarrow> char" where
  "digit n = char_of (48 + nat n)"

lemma digit_simps [simp]:
  assumes "0 \<le> n" "n < 10"
  shows "is_digit (digit n)" "digit_val (digit n) = n"
  using assms by (auto simp: is_digit_def digit_val_def digit_def of_char_of)

lemma digit_0: "digit 0 = CHR ''0''"
  by (simp add: digit_def char_of_def bit_simps)

lemma show_nat_digits:
  "0 \<le> n \<Longrightarrow> n < 10 \<Longrightarrow> show_nat (nat n) = [digit n]"
  "10 \<le> n \<Longrightarrow> show_nat (nat n) = show_nat (nat (n div 10)) @ [digit (n mod 10)]"
  by (simp_all add: show_nat.simps[of "nat n"] digit_def nat_div_distrib nat_mod_distrib)

lemma append_int_2: "0 \<le> n \<Longrightarrow> n < 100 \<Longrightarrow> append_int 2 n = [digit (n div 10), digit (n mod 10)]"
  by (cases "n < 10") (simp_all add: append_int_def show_nat_digits digit_0)

lemma append_int_4:
  assumes "0 \<le> n" "n < 10000"
  shows "append_int 4 n = [digit (n div 1000), digit (n div 100 mod 10), digit (n div 10 mod 10), digit (n mod 10)]"
proof -
  have d: "n div 10 div 10 = n div 100" "n div 100 div 10 = n div 1000"
    by (simp_all add: zdiv_zmult2_eq[symmetric])
  have pad: "show_nat (nat n) = ds \<Longrightarrow> append_int 4 n = replicate (4 - length ds) (CHR ''0'') @ ds" for ds
    using assms by (simp add: append_int_def)
  consider "n < 10" | "10 \<le> n" "n < 100" | "100 \<le> n" "n < 1000" | "1000 \<le> n" by linarith
  then show ?thesis
  proof cases
    case 1
    then have "show_nat (nat n) = [digit n]" using assms by (simp add: show_nat_digits)
    from pad[OF this] have "append_int 4 n = replicate 3 (CHR ''0'') @ [digit n]" by simp
    moreover have "replicate 3 (CHR ''0'') = ''000''" by (simp add: numeral_3_eq_3)
    ultimately show ?thesis using 1 assms by (simp add: digit_0)
  next
    case 2
    then have "show_nat (nat n) = [digit (n div 10), digit (n mod 10)]" by (simp add: show_nat_digits)
    then show ?thesis using 2 by (simp add: pad digit_0 numeral_2_eq_2)
  next
    case 3
    then have "show_nat (nat n) = [digit (n div 100), digit (n div 10 mod 10), digit (n mod 10)]"
      by (simp add: show_nat_digits d)
    then show ?thesis using 3 by (simp add: pad digit_0)
  next
    case 4
    then have "show_nat (nat n) = [digit (n div 1000), digit (n div 100 mod 10), digit (n div 10 mod 10), digit (n mod 10)]"
      using assms by (simp add: show_nat_digits d)
    then show ?thesis by (simp add: pad)
  qed
qed

lemma decimal_4: "1000 * (n div 1000) + 100 * (n div 100 mod 10) + 10 * (n div 10 mod 10) + n mod 10 = n"
  for n :: int
proof -
  have d: "n div 100 = n div 10 div 10" "n div 1000 = n div 10 div 10 div 10"
    by (simp_all add: zdiv_zmult2_eq[symmetric])
  define a where "a = n div 10"
  define b where "b = a div 10"
  have "n = 10 * a + n mod 10" "a = 10 * b + a mod 10" "b = 10 * (b div 10) + b mod 10"
    unfolding a_def b_def by (rule mult_div_mod_eq[symmetric])+
  then show ?thesis unfolding d a_def[symmetric] b_def[symmetric] by linarith
qed

lemma get_year_digits:
  assumes "0 \<le> a" "a < 10" "0 \<le> b" "b < 10" "0 \<le> c" "c < 10" "0 \<le> d" "d < 10"
  shows "get_year (digit a # digit b # digit c # digit d # s) = Some (1000 * a + 100 * b + 10 * c + d, s)"
  using assms by (simp add: get_year_def)

lemma get_year_four:
  assumes "0 \<le> n" "n < 10000"
  shows "get_year (append_int 4 n @ s) = Some (n, s)"
proof -
  have "0 \<le> n div 1000" "n div 1000 < 10" using assms by auto
  then have "get_year (digit (n div 1000) # digit (n div 100 mod 10) # digit (n div 10 mod 10) # digit (n mod 10) # s)
      = Some (1000 * (n div 1000) + 100 * (n div 100 mod 10) + 10 * (n div 10 mod 10) + n mod 10, s)"
    by (intro get_year_digits) simp_all
  then show ?thesis unfolding decimal_4 append_int_4[OF assms] by simp
qed

lemma getnum_two:
  "0 \<le> n \<Longrightarrow> n < 100 \<Longrightarrow> getnum fixed (append_int 2 n @ s) = Some (n, s)"
  by (simp add: append_int_2 getnum_def)

lemma get_range_two:
  "0 \<le> n \<Longrightarrow> n < 100 \<Longrightarrow> lo \<le> n \<Longrightarrow> n \<le> hi \<Longrightarrow> get_range fixed lo hi (append_int 2 n @ s) = Some (n, s)"
  by (simp add: get_range_def getnum_two)

lemma expect_hit [simp]: "expect c (c # s) = Some s"
  by (simp add: expect_def)

lemma expect_miss [simp]: "c \<noteq> d \<Longrightarrow> expect c (d # s) = None"
  by (simp add: expect_def)

text \<open>The instants the layout can express: whole seconds, a four-digit year, a zone in minutes.\<close>

definition rfc_exact :: "Time \<Rightarrow> bool" where
  "rfc_exact t \<longleftrightarrow>
     tm_nsec t = 0 \<and> tm_off t mod 60 = 0 \<and> \<bar>tm_off t\<bar> < 90000
     \<and> 0 \<le> fst (civil_from_days ((tm_sec t + tm_off t) div 86400))
     \<and> fst (civil_from_days ((tm_sec t + tm_off t) div 86400)) < 10000"

lemma get_zone_format:
  assumes "off mod 60 = 0" "\<bar>off\<bar> < 90000"
  shows "get_zone (format_zone off) = Some (off, []) \<and> get_fraction (format_zone off) = (0, format_zone off)"
proof (cases "off = 0")
  case True
  then show ?thesis by (simp add: format_zone_def get_zone_def get_fraction_def)
next
  case False
  define mins where "mins = \<bar>off\<bar> div 60"
  define h where "h = mins div 60"
  define m where "m = mins mod 60"
  have "\<bar>off\<bar> mod 60 = 0" using assms(1) by (simp add: abs_if zmod_zminus1_eq_if)
  then have off: "\<bar>off\<bar> = 60 * mins" using mult_div_mod_eq[of 60 "\<bar>off\<bar>"] by (simp add: mins_def)
  then have mins: "0 < mins" "mins < 1500" using False assms(2) by auto
  have hm: "mins = 60 * h + m" "0 \<le> m" "m < 60" "0 \<le> h" "h \<le> 24"
    using mins by (auto simp: h_def m_def)
  have two: "append_int 2 h = [digit (h div 10), digit (h mod 10)]"
    "append_int 2 m = [digit (m div 10), digit (m mod 10)]"
    using hm by (auto intro: append_int_2)
  have parts: "10 * (h div 10) + h mod 10 = h" "10 * (m div 10) + m mod 10 = m"
    by (rule mult_div_mod_eq)+
  have rng: "0 \<le> h div 10" "h div 10 < 10" "0 \<le> m div 10" "m div 10 < 10" using hm by auto
  have form: "format_zone off = (if off < 0 then CHR ''-'' else CHR ''+'')
      # digit (h div 10) # digit (h mod 10) # CHR '':'' # digit (m div 10) # [digit (m mod 10)]"
    using False mins two by (simp add: format_zone_def mins_def[symmetric] h_def[symmetric] m_def[symmetric] Let_def)
  have val: "(h * 60 + m) * 60 = \<bar>off\<bar>" using off hm(1) by simp
  show ?thesis
    unfolding form using hm rng
    using val by (simp add: get_zone_def get_fraction_def Let_def parts abs_if split: if_splits)
qed

lemma parse_date_format:
  assumes "0 \<le> y" "y < 10000" "1 \<le> m" "m \<le> 12" "1 \<le> d" "d \<le> 31"
  shows "parse_date (append_int 4 y @ ''-'' @ append_int 2 m @ ''-'' @ append_int 2 d @ s) = Some ((y, m, d), s)"
  using assms by (simp add: parse_date_def get_year_four get_range_two getnum_two)

lemma parse_clock_format:
  assumes "0 \<le> hh" "hh < 24" "0 \<le> mm" "mm < 60" "0 \<le> ss" "ss < 60"
  shows "parse_clock (append_int 2 hh @ '':'' @ append_int 2 mm @ '':'' @ append_int 2 ss @ s) = Some ((hh, mm, ss), s)"
  using assms by (simp add: parse_clock_def get_range_two)

theorem parse_format_rfc3339:
  assumes "rfc_exact t"
  shows "parse_rfc3339 (format_rfc3339 t) = Some t"
proof -
  define loc where "loc = tm_sec t + tm_off t"
  define s where "s = loc mod 86400"
  obtain y m d where civil: "civil_from_days (loc div 86400) = (y, m, d)" by (metis prod_cases3)
  note v = civil_valid[OF civil]
  have y: "0 \<le> y" "y < 10000" using assms civil by (auto simp: rfc_exact_def loc_def)
  have d: "d \<le> 31" using v(5) days_in_bounds[of y m] by simp
  have s: "0 \<le> s" "s < 86400" by (auto simp: s_def)
  then have clock: "0 \<le> s div 3600" "s div 3600 < 24" by auto
  have "s div 3600 = s div 60 div 60" by (simp add: zdiv_zmult2_eq[symmetric])
  then have secs: "s div 3600 * 3600 + s div 60 mod 60 * 60 + s mod 60 = s"
    using mult_div_mod_eq[of 60 s] mult_div_mod_eq[of 60 "s div 60"] by linarith
  have loc: "loc div 86400 * 86400 + s = loc" using mult_div_mod_eq[of 86400 loc] by (simp add: s_def)
  have fmt: "format_rfc3339 t =
      append_int 4 y @ ''-'' @ append_int 2 m @ ''-'' @ append_int 2 d @ ''T'' @
      append_int 2 (s div 3600) @ '':'' @ append_int 2 (s div 60 mod 60) @ '':'' @
      append_int 2 (s mod 60) @ format_zone (tm_off t)"
    using civil by (simp add: format_rfc3339_def loc_def[symmetric] s_def[symmetric] Let_def)
  have zone: "get_zone (format_zone (tm_off t)) = Some (tm_off t, [])"
    "get_fraction (format_zone (tm_off t)) = (0, format_zone (tm_off t))"
    using get_zone_format assms by (auto simp: rfc_exact_def)
  have "make_time y m d (s div 3600) (s div 60 mod 60) (s mod 60) 0 (tm_off t) =
      Some \<lparr>tm_sec = loc div 86400 * 86400 + s - tm_off t, tm_nsec = 0, tm_off = tm_off t\<rparr>"
    using v secs by (simp add: make_time_def)
  then have "make_time y m d (s div 3600) (s div 60 mod 60) (s mod 60) 0 (tm_off t) = Some t"
    using loc assms by (simp add: loc_def rfc_exact_def)
  then show ?thesis
    unfolding fmt parse_rfc3339_def parse_date_format[OF y v(2,3,4) d]
    using zone parse_clock_format[of "s div 3600" "s div 60 mod 60" "s mod 60"] clock by simp
qed

text \<open>
  What was read is such an instant but for its fraction of a second, unless its zone is the 24:60 the
  parser admits: formatted, that is 25:00, which it does not.
\<close>

definition whole_second :: "Time \<Rightarrow> Time" where
  "whole_second t = t\<lparr>tm_nsec := 0\<rparr>"

lemma format_whole_second [simp]: "format_rfc3339 (whole_second t) = format_rfc3339 t"
  by (simp add: format_rfc3339_def whole_second_def)

lemma digit_val_bounds: "is_digit c \<Longrightarrow> 0 \<le> digit_val c \<and> digit_val c \<le> 9"
  by (simp add: is_digit_def digit_val_def)

lemma get_range_bounds: "get_range fixed lo hi s = Some (n, t) \<Longrightarrow> lo \<le> n \<and> n \<le> hi"
  by (auto simp: get_range_def split: option.splits if_splits)

lemma get_year_bounds: "get_year s = Some (y, t) \<Longrightarrow> 0 \<le> y \<and> y < 10000"
  by (auto simp: get_year_def split: list.splits if_splits dest!: digit_val_bounds)

lemma get_zone_minutes: "get_zone s = Some (off, t) \<Longrightarrow> off mod 60 = 0"
  by (auto simp: get_zone_def Let_def split: list.splits if_splits)

lemma parse_exact:
  assumes "parse_rfc3339 v = Some t" "\<bar>tm_off t\<bar> < 90000"
  shows "rfc_exact (whole_second t)"
proof -
  obtain y m d s1 where date: "parse_date v = Some ((y, m, d), s1)"
    using assms(1) by (cases "parse_date v") (auto simp: parse_rfc3339_def)
  note time = assms(1)[unfolded parse_rfc3339_def date, simplified]
  obtain s2 where T: "expect (CHR ''T'') s1 = Some s2" using time by (cases "expect (CHR ''T'') s1") auto
  obtain hh mm ss s3 where clock: "parse_clock s2 = Some ((hh, mm, ss), s3)"
    using time[unfolded T] by (cases "parse_clock s2") auto
  note rest = time[unfolded T, simplified, unfolded clock, simplified]
  obtain ns s4 where "get_fraction s3 = (ns, s4)" by fastforce
  with rest obtain off where zone: "get_zone s4 = Some (off, [])"
    and t: "make_time y m d hh mm ss ns off = Some t"
    by (auto simp: Option.bind_eq_Some_conv split: if_splits)
  have y: "0 \<le> y" "y < 10000" and m: "1 \<le> m" "m \<le> 12"
    using date by (auto simp: parse_date_def Option.bind_eq_Some_conv dest: get_year_bounds get_range_bounds)
  have c: "0 \<le> hh" "hh \<le> 23" "0 \<le> mm" "mm \<le> 59" "0 \<le> ss" "ss \<le> 59"
    using clock by (auto simp: parse_clock_def Option.bind_eq_Some_conv dest: get_range_bounds)
  have d: "1 \<le> d" "d \<le> days_in y m" and off: "tm_off t = off"
    and sec: "tm_sec t + tm_off t = days_from_civil y m d * 86400 + (hh * 3600 + mm * 60 + ss)"
    using t by (auto simp: make_time_def split: if_splits)
  have "0 \<le> hh * 3600 + mm * 60 + ss" "hh * 3600 + mm * 60 + ss < 86400" using c by auto
  then have "(tm_sec t + tm_off t) div 86400 = days_from_civil y m d" unfolding sec by simp
  then have "fst (civil_from_days ((tm_sec t + tm_off t) div 86400)) = y"
    using civil_days_civil[OF m d] by simp
  then show ?thesis
    using y off get_zone_minutes[OF zone] assms(2) by (simp add: rfc_exact_def whole_second_def)
qed

text \<open>Such a text is its own trim.\<close>

lemma plain_digit: "0 \<le> n \<Longrightarrow> n < 10 \<Longrightarrow> plain_char (digit n)"
  by (simp add: plain_char_def digit_def of_char_of)

lemma format_rfc3339_ends:
  "\<exists>s. format_rfc3339 t = append_int 4 (fst (civil_from_days ((tm_sec t + tm_off t) div 86400))) @ s @ format_zone (tm_off t)"
  by (simp add: format_rfc3339_def Let_def split: prod.split)

lemma format_zone_last:
  "format_zone off \<noteq> [] \<and> (off mod 60 = 0 \<and> \<bar>off\<bar> < 90000 \<longrightarrow> plain_char (last (format_zone off)))"
proof -
  have "append_int 2 (m mod 60) = [digit (m mod 60 div 10), digit (m mod 60 mod 10)]" for m
    by (rule append_int_2) (auto intro: order.strict_trans[of _ 60])
  moreover have "plain_char (CHR ''Z'')" by (simp add: plain_char_def)
  ultimately show ?thesis by (simp add: format_zone_def Let_def plain_digit)
qed

lemma trim_format_rfc3339:
  assumes "rfc_exact t"
  shows "trim_space (format_rfc3339 t) = format_rfc3339 t" "format_rfc3339 t \<noteq> []"
proof -
  let ?y = "fst (civil_from_days ((tm_sec t + tm_off t) div 86400))"
  obtain s where f: "format_rfc3339 t = append_int 4 ?y @ s @ format_zone (tm_off t)"
    using format_rfc3339_ends by blast
  have y: "0 \<le> ?y" "?y < 10000" using assms by (auto simp: rfc_exact_def)
  have "hd (format_rfc3339 t) = digit (?y div 1000)" "format_rfc3339 t \<noteq> []"
    unfolding f append_int_4[OF y] by simp_all
  moreover have "plain_char (digit (?y div 1000))" using y by (intro plain_digit) auto
  moreover have "plain_char (last (format_rfc3339 t))"
    unfolding f using format_zone_last[of "tm_off t"] assms by (simp add: rfc_exact_def)
  ultimately show "trim_space (format_rfc3339 t) = format_rfc3339 t" "format_rfc3339 t \<noteq> []"
    by (simp_all add: trim_space_plain)
qed

section \<open>Durations\<close>

text \<open>
  \<open>time.ParseDuration\<close>: a sign, then numbers with a unit. \<open>leading_int\<close> and the sum are checked
  against 2^63 where Go checks them. The fraction of a number is added exactly and rounded down
  (Go computes it in floating point, at most a nanosecond away).
\<close>

definition two63 :: int where "two63 = 9223372036854775808"

fun leading_int :: "int \<Rightarrow> string \<Rightarrow> (int \<times> string) option" where
  "leading_int x [] = Some (x, [])"
| "leading_int x (c # s) =
     (if \<not> is_digit c then Some (x, c # s)
      else if x > two63 div 10 then None
      else (let y = x * 10 + digit_val c in if y > two63 then None else leading_int y s))"

definition unit_map :: "(string \<times> int) list" where
  "unit_map =
     [(''ns'', 1), (''us'', 1000), ([CHR 0xC2, CHR 0xB5, CHR ''s''], 1000),
      ([CHR 0xCE, CHR 0xBC, CHR ''s''], 1000), (''ms'', 1000000), (''s'', 1000000000),
      (''m'', 60000000000), (''h'', 3600000000000)]"

definition is_num_char :: "char \<Rightarrow> bool" where
  "is_num_char c \<longleftrightarrow> c = CHR ''.'' \<or> is_digit c"

definition decimal_value :: "string \<Rightarrow> int" where
  "decimal_value ds = foldl (\<lambda>v c. 10 * v + digit_val c) 0 ds"

text \<open>One number with its unit: the nanoseconds and the rest of the text.\<close>

definition duration_part :: "string \<Rightarrow> (int \<times> string) option" where
  "duration_part s =
     (if s = [] \<or> \<not> is_num_char (hd s) then None
      else (case leading_int 0 s of
          None \<Rightarrow> None
        | Some (v, s1) \<Rightarrow>
            (let pre = length s1 \<noteq> length s;
                 dot = (s1 \<noteq> [] \<and> hd s1 = CHR ''.'');
                 frac = (if dot then takeWhile is_digit (tl s1) else []);
                 s2 = (if dot then dropWhile is_digit (tl s1) else s1);
                 u = takeWhile (\<lambda>c. \<not> is_num_char c) s2;
                 s3 = dropWhile (\<lambda>c. \<not> is_num_char c) s2
             in if \<not> pre \<and> frac = [] then None
                else if u = [] then None
                else (case map_of unit_map u of
                    None \<Rightarrow> None
                  | Some ns \<Rightarrow>
                      if v > two63 div ns then None
                      else (let t = v * ns + decimal_value frac * ns div 10 ^ length frac
                            in if t > two63 then None else Some (t, s3))))))"

fun duration_parts :: "nat \<Rightarrow> int \<Rightarrow> string \<Rightarrow> int option" where
  "duration_parts 0 d s = None"
| "duration_parts (Suc fuel) d s =
     (if s = [] then Some d
      else (case duration_part s of
          None \<Rightarrow> None
        | Some (v, rest) \<Rightarrow> if d + v > two63 then None else duration_parts fuel (d + v) rest))"

text \<open>Every part takes at least one character, so the length of the text is enough fuel.\<close>

definition parse_duration :: "string \<Rightarrow> int option" where
  "parse_duration orig =
     (let (neg, s) = (case orig of
            c # t \<Rightarrow> if c = CHR ''-'' then (True, t) else if c = CHR ''+'' then (False, t) else (False, orig)
          | [] \<Rightarrow> (False, []))
      in if s = ''0'' then Some 0
         else if s = [] then None
         else (case duration_parts (Suc (length s)) 0 s of
             None \<Rightarrow> None
           | Some d \<Rightarrow>
               if neg then Some (- d) else if d > two63 - 1 then None else Some d))"

definition trim_zeros :: "string \<Rightarrow> string" where
  "trim_zeros s = rev (dropWhile (\<lambda>c. c = CHR ''0'') (rev s))"

text \<open>The decimal point and the \<open>prec\<close> digits of \<open>v\<close>'s fraction, without trailing zeros.\<close>

definition fmt_frac :: "int \<Rightarrow> nat \<Rightarrow> string" where
  "fmt_frac v prec =
     (let ds = show_int (v mod 10 ^ prec);
          frac = trim_zeros (replicate (prec - length ds) (CHR ''0'') @ ds)
      in if frac = [] \<or> prec = 0 then [] else CHR ''.'' # frac)"

definition duration_string :: "int \<Rightarrow> string" where
  "duration_string d =
     (let u = \<bar>d\<bar>; sign = (if d < 0 then ''-'' else [])
      in if u = 0 then ''0s''
         else if u < 1000 then sign @ show_int u @ ''ns''
         else if u < 1000000 then sign @ show_int (u div 1000) @ fmt_frac u 3 @ [CHR 0xC2, CHR 0xB5, CHR ''s'']
         else if u < 1000000000 then sign @ show_int (u div 1000000) @ fmt_frac u 6 @ ''ms''
         else (let secs = u div 1000000000; mins = secs div 60; hours = mins div 60
               in sign @ (if hours > 0 then show_int hours @ ''h'' else []) @
                  (if mins > 0 then show_int (mins mod 60) @ ''m'' else []) @
                  show_int (secs mod 60) @ fmt_frac u 9 @ ''s''))"

lemma leading_int_length: "leading_int x s = Some (v, t) \<Longrightarrow> length t \<le> length s"
  by (induction x s rule: leading_int.induct) (auto simp: Let_def split: if_splits)

lemma duration_part_shorter: "duration_part s = Some (v, t) \<Longrightarrow> length t < length s"
proof -
  assume a: "duration_part s = Some (v, t)"
  then obtain v1 s1 where l: "leading_int 0 s = Some (v1, s1)"
    by (auto simp: duration_part_def split: if_splits option.splits)
  define s2 where "s2 = (if s1 \<noteq> [] \<and> hd s1 = CHR ''.'' then dropWhile is_digit (tl s1) else s1)"
  have s2: "length s2 \<le> length s1"
    using length_dropWhile_le[of is_digit "tl s1"] by (auto simp: s2_def)
  have t: "t = dropWhile (\<lambda>c. \<not> is_num_char c) s2" "takeWhile (\<lambda>c. \<not> is_num_char c) s2 \<noteq> []"
    using a l by (auto simp: duration_part_def s2_def Let_def split: if_splits option.splits)
  have "length (takeWhile (\<lambda>c. \<not> is_num_char c) s2) + length t = length s2"
    unfolding t(1) by (metis length_append takeWhile_dropWhile_id)
  then have "length t < length s2" using t(2) by (cases "takeWhile (\<lambda>c. \<not> is_num_char c) s2") auto
  then show ?thesis using s2 leading_int_length[OF l] by simp
qed

lemma duration_parts_fuel:
  "length s < m \<Longrightarrow> length s < n \<Longrightarrow> duration_parts m d s = duration_parts n d s"
proof (induction m arbitrary: n d s)
  case (Suc m)
  then obtain n' where n: "n = Suc n'" by (cases n) auto
  show ?case
  proof (cases "duration_part s")
    case None
    then show ?thesis by (simp add: n)
  next
    case (Some vt)
    then obtain v t where vt: "duration_part s = Some (v, t)" by (cases vt) auto
    have "length t < m" "length t < n'"
      using duration_part_shorter[OF vt] Suc.prems n by simp_all
    then have "duration_parts m (d + v) t = duration_parts n' (d + v) t" by (rule Suc.IH)
    then show ?thesis by (simp add: n vt)
  qed
qed simp

end
