(* ===== verification/GoHash.thy ===== *)
theory GoHash
  imports GoPath "HOL-Library.Word"
begin

unbundle bit_operations_syntax

text \<open>
  The parts of Go's \<open>encoding/json\<close>, \<open>encoding/hex\<close> and \<open>crypto/sha256\<close> behind the canonical
  hashes of the source: \<open>json.Marshal\<close> on an object of strings, integers and string lists, and
  the SHA-256 digest of the text in lower-case hexadecimal.
\<close>

section \<open>JSON text\<close>

text \<open>A struct writes its fields in the order of its declaration, a map in byte order of its keys.\<close>

datatype jval =
    JStr string
  | JInt int
  | JStrs "string list"
  | JArr "jval list"
  | JObj "(string \<times> jval) list"
  | JStruct "(string \<times> jval) list"

definition hex_digit :: "nat \<Rightarrow> char" where
  "hex_digit n = (if n < 10 then char_of (48 + n) else char_of (87 + n))"

definition escape_char :: "char \<Rightarrow> string" where
  "escape_char c =
     (let n = (of_char c :: nat)
      in if c = CHR 0x22 \<or> c = CHR 0x5C then [CHR 0x5C, c]
         else if n = 8 then [CHR 0x5C, CHR ''b'']
         else if n = 12 then [CHR 0x5C, CHR ''f'']
         else if n = 10 then [CHR 0x5C, CHR ''n'']
         else if n = 13 then [CHR 0x5C, CHR ''r'']
         else if n = 9 then [CHR 0x5C, CHR ''t'']
         else if n < 32 \<or> c = CHR ''<'' \<or> c = CHR ''>'' \<or> c = CHR ''&''
         then CHR 0x5C # ''u00'' @ [hex_digit (n div 16), hex_digit (n mod 16)]
         else [c])"

text \<open>
  A byte below 0x80 is escaped by itself; an invalid byte becomes the replacement character; the
  line separators U+2028 and U+2029 are escaped; any other rune is copied.
\<close>

function escape_string :: "string \<Rightarrow> string" where
  "escape_string s =
     (case s of
        [] \<Rightarrow> []
      | c # t \<Rightarrow>
          if (of_char c :: nat) < 0x80 then escape_char c @ escape_string t
          else (case decode_rune s of (rune, width) \<Rightarrow>
            if width \<le> 1 then CHR 0x5C # ''ufffd'' @ escape_string t
            else if rune = 0x2028 then CHR 0x5C # ''u2028'' @ escape_string (drop width s)
            else if rune = 0x2029 then CHR 0x5C # ''u2029'' @ escape_string (drop width s)
            else take width s @ escape_string (drop width s)))"
  by pat_completeness auto
termination by (relation "measure length") auto

declare escape_string.simps [simp del]

definition json_string :: "string \<Rightarrow> string" where
  "json_string s = CHR 0x22 # escape_string s @ [CHR 0x22]"

definition json_field :: "string \<times> string \<Rightarrow> string" where
  "json_field kv = json_string (fst kv) @ '':'' @ snd kv"

primrec json_value :: "jval \<Rightarrow> string" where
  "json_value (JStr s) = json_string s"
| "json_value (JInt i) = show_int i"
| "json_value (JStrs vs) = ''['' @ join '','' (map json_string vs) @ '']''"
| "json_value (JArr vs) = ''['' @ join '','' (map json_value vs) @ '']''"
| "json_value (JObj fs) =
     ''{'' @ join '','' (map json_field (sort_key fst (map (map_prod id json_value) fs))) @ ''}''"
| "json_value (JStruct fs) = ''{'' @ join '','' (map json_field (map (map_prod id json_value) fs)) @ ''}''"

section \<open>SHA-256\<close>

text \<open>
  The constants of SHA-256 are the first 32 bits of the fractional parts of the square roots of
  the first 8 primes (the initial state) and of the cube roots of the first 64 primes (one for
  each round). \<open>root_bits k n\<close> is the integer part of the k-th root of \<open>n\<close>, found bit by bit.
\<close>

definition root_bits :: "nat \<Rightarrow> int \<Rightarrow> int" where
  "root_bits k n = foldl (\<lambda>r b. if (r + 2 ^ b) ^ k \<le> n then r + 2 ^ b else r) 0 (rev [0..<40])"

definition root_fraction :: "nat \<Rightarrow> int \<Rightarrow> 32 word" where
  "root_fraction k p = word_of_int (root_bits k (p * 2 ^ (32 * k)))"

definition sha256_init :: "32 word list" where
  "sha256_init = map (root_fraction 2) [2, 3, 5, 7, 11, 13, 17, 19]"

definition sha256_k :: "32 word list" where
  "sha256_k = map (root_fraction 3) (filter (\<lambda>n. list_all (\<lambda>d. n mod d \<noteq> 0) [2..n - 1]) [2..311])"

definition be_word :: "char list \<Rightarrow> 32 word" where
  "be_word bs = foldl (\<lambda>w c. push_bit 8 w OR word_of_nat (of_char c)) 0 bs"

definition be_bytes :: "32 word \<Rightarrow> char list" where
  "be_bytes w = map (\<lambda>k. char_of (unat (drop_bit k w AND 0xff))) [24, 16, 8, 0]"

definition length_bytes :: "nat \<Rightarrow> char list" where
  "length_bytes bits = map (\<lambda>k. char_of (nat (int bits div 2 ^ k mod 256))) [56, 48, 40, 32, 24, 16, 8, 0]"

definition sha256_pad :: "string \<Rightarrow> string" where
  "sha256_pad s =
     s @ [CHR 0x80] @ replicate ((119 - length s mod 64) mod 64) (CHR 0x00) @ length_bytes (8 * length s)"

function chunks :: "nat \<Rightarrow> 'a list \<Rightarrow> 'a list list" where
  "chunks n xs = (if xs = [] \<or> n = 0 then [] else take n xs # chunks n (drop n xs))"
  by pat_completeness auto
termination by (relation "measure (\<lambda>(n, xs). length xs)") auto

declare chunks.simps [simp del]

definition rotr :: "nat \<Rightarrow> 32 word \<Rightarrow> 32 word" where
  "rotr n w = drop_bit n w OR push_bit (32 - n) w"

text \<open>The message schedule, latest word first.\<close>

definition next_word :: "32 word list \<Rightarrow> 32 word" where
  "next_word ws =
     (let w2 = ws ! 1; w7 = ws ! 6; w15 = ws ! 14; w16 = ws ! 15;
          s0 = rotr 7 w15 XOR rotr 18 w15 XOR drop_bit 3 w15;
          s1 = rotr 17 w2 XOR rotr 19 w2 XOR drop_bit 10 w2
      in w16 + s0 + w7 + s1)"

definition schedule :: "string \<Rightarrow> 32 word list" where
  "schedule block = rev (((\<lambda>ws. next_word ws # ws) ^^ 48) (rev (map be_word (chunks 4 block))))"

type_synonym sha_state =
  "32 word \<times> 32 word \<times> 32 word \<times> 32 word \<times> 32 word \<times> 32 word \<times> 32 word \<times> 32 word"

fun sha_round :: "sha_state \<Rightarrow> 32 word \<times> 32 word \<Rightarrow> sha_state" where
  "sha_round (a, b, c, d, e, f, g, h) (k, w) =
     (let s1 = rotr 6 e XOR rotr 11 e XOR rotr 25 e;
          ch = (e AND f) XOR (NOT e AND g);
          t1 = h + s1 + ch + k + w;
          s0 = rotr 2 a XOR rotr 13 a XOR rotr 22 a;
          maj = (a AND b) XOR (a AND c) XOR (b AND c);
          t2 = s0 + maj
      in (t1 + t2, a, b, c, d + t1, e, f, g))"

definition sha_words :: "sha_state \<Rightarrow> 32 word list" where
  "sha_words st = (case st of (a, b, c, d, e, f, g, h) \<Rightarrow> [a, b, c, d, e, f, g, h])"

definition sha_state_of :: "32 word list \<Rightarrow> sha_state" where
  "sha_state_of ws = (ws ! 0, ws ! 1, ws ! 2, ws ! 3, ws ! 4, ws ! 5, ws ! 6, ws ! 7)"

definition sha_block :: "32 word list \<Rightarrow> string \<Rightarrow> 32 word list" where
  "sha_block hs block =
     map2 (+) hs (sha_words (foldl sha_round (sha_state_of hs) (zip sha256_k (schedule block))))"

definition sha256 :: "string \<Rightarrow> string" where
  "sha256 s = concat (map be_bytes (foldl sha_block sha256_init (chunks 64 (sha256_pad s))))"

definition hex_string :: "string \<Rightarrow> string" where
  "hex_string s = concat (map (\<lambda>c. [hex_digit (of_char c div 16), hex_digit (of_char c mod 16)]) s)"

definition canonicalJSONHash :: "jval \<Rightarrow> string" where
  "canonicalJSONHash value = hex_string (sha256 (json_value value))"

lemma length_foldl_sha_block: "length hs = 8 \<Longrightarrow> length (foldl sha_block hs bs) = 8"
  by (induction bs arbitrary: hs) (auto simp: sha_block_def sha_words_def split: prod.splits)

lemma length_hex_string: "length (hex_string s) = 2 * length s"
  by (induction s) (auto simp: hex_string_def)

lemma length_sha256: "length (sha256 s) = 32"
proof -
  have "length (concat (map be_bytes ws)) = 4 * length ws" for ws
    by (induction ws) (auto simp: be_bytes_def)
  then show ?thesis
    using length_foldl_sha_block[of sha256_init] by (simp add: sha256_def sha256_init_def)
qed

lemma length_canonicalJSONHash: "length (canonicalJSONHash v) = 64"
  by (simp add: canonicalJSONHash_def length_hex_string length_sha256)

lemma hex_digit_plain: "n < 16 \<Longrightarrow> plain_char (hex_digit n)"
  by (auto simp: hex_digit_def plain_char_def of_char_of)

lemma hex_string_plain: "list_all plain_char (hex_string s)"
proof (induction s)
  case (Cons c s)
  have "(of_char c :: nat) div 16 < 16"
    by (rule less_mult_imp_div_less) (use nat_of_char_less_256[of c] in simp)
  then show ?case using Cons by (simp add: hex_string_def hex_digit_plain)
qed (simp add: hex_string_def)

lemma trim_canonicalJSONHash [simp]:
  "trim_space (canonicalJSONHash v) = canonicalJSONHash v" "canonicalJSONHash v \<noteq> []"
proof -
  have "canonicalJSONHash v \<noteq> []" using length_canonicalJSONHash[of v] by auto
  moreover have "list_all plain_char (canonicalJSONHash v)"
    unfolding canonicalJSONHash_def by (rule hex_string_plain)
  ultimately show "trim_space (canonicalJSONHash v) = canonicalJSONHash v" "canonicalJSONHash v \<noteq> []"
    by (auto intro: trim_space_plain simp: list_all_iff)
qed

end
