(* ===== verification/GoValue.thy ===== *)
theory GoValue
  imports Prelude
begin

text \<open>
  The dynamic values the handlers work on: a payload is a Go \<open>map[string]any\<close>, decoded from
  JSON or built by the program. \<open>gval\<close> is the type \<open>any\<close> restricted to the dynamic types that
  occur; a map is an association list read with \<open>map_of\<close> (so \<open>payload[key]\<close> of a missing key
  is \<open>None\<close>, Go's nil), written with \<open>put\<close> and \<open>del\<close>. A float64 is \<open>GFloat m e\<close>, the number
  m * 2^e; a \<open>json.Number\<close> keeps its text. The field readers are those of
  \<open>internal/cli/serve_commission.go\<close> (and \<open>harness.go\<close>); \<open>internal/implementationplan\<close> and
  \<open>internal/autonomyenvelope\<close> have readers of the same meaning.
\<close>

section \<open>Values\<close>

datatype gval =
    GNil
  | GBool bool
  | GInt int
  | GInt64 int
  | GFloat int int
  | GJsonNumber string
  | GStr string
  | GStrs "string list"
  | GArr "gval list"
  | GMap "(string \<times> gval) list"
  | GStrMap "(string \<times> string) list"

type_synonym payload = "(string \<times> gval) list"

definition put :: "string \<Rightarrow> gval \<Rightarrow> payload \<Rightarrow> payload" where
  "put k v m = AList.update k v m"

definition del :: "string \<Rightarrow> payload \<Rightarrow> payload" where
  "del k m = AList.delete k m"

text \<open>
  The contract of a mutable dictionary, and what a client derives from it: writing twice keeps
  the last value, writes to different keys commute, and a sequence of writes leaves every other
  key alone.
\<close>

locale dictionary =
  fixes lookup :: "'m \<Rightarrow> 'k \<Rightarrow> 'v option"
    and store :: "'k \<Rightarrow> 'v \<Rightarrow> 'm \<Rightarrow> 'm"
    and remove :: "'k \<Rightarrow> 'm \<Rightarrow> 'm"
  assumes lookup_store: "lookup (store k v m) j = (if j = k then Some v else lookup m j)"
    and lookup_remove: "lookup (remove k m) j = (if j = k then None else lookup m j)"
begin

lemma overwrite: "lookup (store k w (store k v m)) = lookup (store k w m)"
  by (auto simp: lookup_store fun_eq_iff)

lemma commute: "j \<noteq> k \<Longrightarrow> lookup (store j w (store k v m)) = lookup (store k v (store j w m))"
  by (auto simp: lookup_store fun_eq_iff)

lemma frame:
  "j \<notin> fst ` set kvs \<Longrightarrow> lookup (fold (\<lambda>(k, v). store k v) kvs m) j = lookup m j"
  by (induction kvs arbitrary: m) (auto simp: lookup_store)

lemma frame_remove: "j \<notin> set ks \<Longrightarrow> lookup (fold remove ks m) j = lookup m j"
  by (induction ks arbitrary: m) (auto simp: lookup_remove)

end

interpretation pay: dictionary "map_of" put del
  by unfold_locales (auto simp: put_def del_def update_conv' delete_conv')

lemmas payload_lookup [simp] = pay.lookup_store pay.lookup_remove

section \<open>Field readers\<close>

definition stringField :: "payload \<Rightarrow> string \<Rightarrow> string" where
  "stringField payload key =
     (case map_of payload key of Some (GStr value) \<Rightarrow> trim_space value | _ \<Rightarrow> [])"

definition stringArg :: "payload \<Rightarrow> string \<Rightarrow> string" where
  "stringArg args key =
     (case map_of args key of Some (GStr value) \<Rightarrow> trim_space value | _ \<Rightarrow> [])"

definition boolField :: "payload \<Rightarrow> string \<Rightarrow> bool" where
  "boolField payload key = (case map_of payload key of Some (GBool value) \<Rightarrow> value | _ \<Rightarrow> False)"

definition mapArg :: "payload \<Rightarrow> string \<Rightarrow> payload option" where
  "mapArg args key = (case map_of args key of Some (GMap m) \<Rightarrow> Some m | _ \<Rightarrow> None)"

text \<open>A nil map reads as an empty one: \<open>payload, _ := mapArg(..)\<close> followed by reads only.\<close>

definition mapArg_or_nil :: "payload \<Rightarrow> string \<Rightarrow> payload" where
  "mapArg_or_nil args key = (case mapArg args key of Some m \<Rightarrow> m | None \<Rightarrow> [])"

fun anySliceToStrings :: "gval list \<Rightarrow> string list" where
  "anySliceToStrings [] = []"
| "anySliceToStrings (v # vs) =
     (case v of
        GStr text \<Rightarrow> (let cleaned = trim_space text in
                      if cleaned \<noteq> [] then cleaned # anySliceToStrings vs else anySliceToStrings vs)
      | _ \<Rightarrow> anySliceToStrings vs)"

definition cleanStringSlice :: "string list \<Rightarrow> string list" where
  "cleanStringSlice values = clean_strings values"

definition stringSliceField :: "payload \<Rightarrow> string \<Rightarrow> string list" where
  "stringSliceField payload key =
     (case map_of payload key of
        Some (GStrs values) \<Rightarrow> cleanStringSlice values
      | Some (GArr values) \<Rightarrow> anySliceToStrings values
      | _ \<Rightarrow> [])"

definition scopeStringSlice :: "payload \<Rightarrow> string \<Rightarrow> string list" where
  "scopeStringSlice payload key = stringSliceField payload key"

definition stringSliceToAny :: "string list \<Rightarrow> gval list" where
  "stringSliceToAny values = map GStr values"

fun mapSlice :: "gval list \<Rightarrow> payload list" where
  "mapSlice [] = []"
| "mapSlice (v # vs) = (case v of GMap item \<Rightarrow> item # mapSlice vs | _ \<Rightarrow> mapSlice vs)"

definition mapSliceField :: "payload \<Rightarrow> string \<Rightarrow> payload list" where
  "mapSliceField payload key = (case map_of payload key of Some (GArr values) \<Rightarrow> mapSlice values | _ \<Rightarrow> [])"

fun cleanPairs :: "(string \<times> string) list \<Rightarrow> (string \<times> string) list" where
  "cleanPairs [] = []"
| "cleanPairs ((key, value) # kvs) =
     (let cleanKey = trim_space key; cleanValue = trim_space value in
      if cleanKey \<noteq> [] \<and> cleanValue \<noteq> [] then (cleanKey, cleanValue) # cleanPairs kvs
      else cleanPairs kvs)"

fun textPairs :: "payload \<Rightarrow> (string \<times> string) list" where
  "textPairs [] = []"
| "textPairs ((key, v) # kvs) = (case v of GStr text \<Rightarrow> (key, text) # textPairs kvs | _ \<Rightarrow> textPairs kvs)"

definition stringMapField :: "payload \<Rightarrow> string \<Rightarrow> (string \<times> string) list" where
  "stringMapField payload key =
     (case map_of payload key of
        Some (GStrMap value) \<Rightarrow> cleanPairs value
      | Some (GMap value) \<Rightarrow> cleanPairs (textPairs value)
      | _ \<Rightarrow> [])"

definition putOptionalString :: "payload \<Rightarrow> string \<Rightarrow> string \<Rightarrow> payload" where
  "putOptionalString payload key value =
     (let cleaned = trim_space value in if cleaned \<noteq> [] then put key (GStr cleaned) payload else payload)"

definition putOptionalAnySlice :: "payload \<Rightarrow> string \<Rightarrow> gval list \<Rightarrow> payload" where
  "putOptionalAnySlice payload key value =
     (if length value > 0 then put key (GArr value) payload else payload)"

fun firstStringField :: "string \<Rightarrow> payload list \<Rightarrow> string" where
  "firstStringField key [] = []"
| "firstStringField key (values # maps) =
     (let value = stringField values key in if value \<noteq> [] then value else firstStringField key maps)"

definition sortedUniqueStrings :: "string list \<Rightarrow> string list" where
  "sortedUniqueStrings values =
     (let result = sort (cleanStringSlice values)
      in if length result < 2 then result else remdups_adj result)"

definition stringSliceContains :: "string list \<Rightarrow> string \<Rightarrow> bool" where
  "stringSliceContains values target \<longleftrightarrow> target \<in> set values"

text \<open>The reader of the source on every way a field can look.\<close>

lemma sortedUniqueStrings_eq [simp]: "sortedUniqueStrings vs = sorted_unique vs"
proof -
  have "remdups_adj xs = xs" if "length xs < 2" for xs :: "string list"
    using that by (cases xs rule: remdups_adj.cases) auto
  then show ?thesis
    by (simp add: sortedUniqueStrings_def sorted_unique_def cleanStringSlice_def Let_def)
qed

lemma anySliceToStrings_texts [simp]: "anySliceToStrings (map GStr vs) = clean_strings vs"
  by (induction vs) (auto simp: Let_def)

lemma anySliceToStrings_toAny [simp]: "anySliceToStrings (stringSliceToAny vs) = clean_strings vs"
  by (simp add: stringSliceToAny_def)

lemma anySliceToStrings_clean [simp]: "clean_strings (anySliceToStrings vs) = anySliceToStrings vs"
  by (rule clean_strings_id, induction vs) (auto simp: Let_def split: gval.splits if_splits)

lemma stringSliceField_clean [simp]: "clean_strings (stringSliceField p k) = stringSliceField p k"
  by (auto simp: stringSliceField_def cleanStringSlice_def split: option.splits gval.splits)

lemma stringSliceField_mem: "v \<in> set (stringSliceField p k) \<Longrightarrow> trim_space v = v \<and> v \<noteq> []"
  using clean_strings_trimmed[of v "stringSliceField p k"] by simp

lemma stringField_trim [simp]: "trim_space (stringField p k) = stringField p k"
  by (simp add: stringField_def split: option.splits gval.splits)

lemma stringArg_trim [simp]: "trim_space (stringArg p k) = stringArg p k"
  by (simp add: stringArg_def split: option.splits gval.splits)

lemma stringArg_stringField: "stringArg = stringField"
  by (simp add: stringArg_def stringField_def fun_eq_iff)

definition text_of :: "gval \<Rightarrow> string" where
  "text_of v = (case v of GStr s \<Rightarrow> trim_space s | _ \<Rightarrow> [])"

lemma text_of_simps [simp]: "text_of (GStr s) = trim_space s" "text_of (GMap m) = []" "text_of (GArr xs) = []"
  "text_of (GBool b) = []"
  by (simp_all add: text_of_def)

lemma stringField_put [simp]:
  "stringField (put k v p) j = (if j = k then text_of v else stringField p j)"
  by (simp add: stringField_def text_of_def split: gval.splits)

lemma stringField_del [simp]: "stringField (del k p) j = (if j = k then [] else stringField p j)"
  by (simp add: stringField_def)

lemma mapArg_put [simp]:
  "mapArg (put k v p) j = (if j = k then (case v of GMap m \<Rightarrow> Some m | _ \<Rightarrow> None) else mapArg p j)"
  by (simp add: mapArg_def split: gval.splits)

lemma mapArg_del [simp]: "mapArg (del k p) j = (if j = k then None else mapArg p j)"
  by (simp add: mapArg_def)

lemma stringSliceField_put [simp]:
  "j \<noteq> k \<Longrightarrow> stringSliceField (put k v p) j = stringSliceField p j"
  by (simp add: stringSliceField_def)

lemma stringSliceField_put_any [simp]:
  "stringSliceField (put k (GArr (stringSliceToAny vs)) p) k = clean_strings vs"
  by (simp add: stringSliceField_def)

lemma stringSliceField_del [simp]: "j \<noteq> k \<Longrightarrow> stringSliceField (del k p) j = stringSliceField p j"
  by (simp add: stringSliceField_def)

end
