(* ===== verification/GoJSON.thy ===== *)
theory GoJSON
  imports GoValue GoPath "HOL-Library.Log_Nat"
begin

text \<open>
  \<open>json.Unmarshal\<close> of \<open>encoding/json\<close> into a value of type \<open>any\<close>: null, booleans, float64
  numbers, strings, \<open>[]any\<close> and \<open>map[string]any\<close>. The text is checked as a whole: a syntax error
  anywhere, or a number no float64 can hold, makes the call fail. Of two members of an object
  with the same name the later one is kept. The parser takes fuel; \<open>parse_fuel\<close> shows that twice
  the length of the text is always enough.
\<close>

section \<open>Numbers\<close>

text \<open>
  The nearest float64 (ties to even) of the positive rational \<open>n / d\<close>, as mantissa and exponent.
  The mantissa has at most 53 bits, the least exponent is -1074. \<open>None\<close> is the range error of
  \<open>strconv.ParseFloat\<close>.
\<close>

definition round_div :: "int \<Rightarrow> int \<Rightarrow> int" where
  "round_div n d =
     (let q = n div d; r = n mod d
      in if 2 * r > d \<or> (2 * r = d \<and> odd q) then q + 1 else q)"

definition scale_round :: "int \<Rightarrow> int \<Rightarrow> int \<Rightarrow> int" where
  "scale_round n d e = (if e \<ge> 0 then round_div n (d * 2 ^ nat e) else round_div (n * 2 ^ nat (- e)) d)"

definition nearest_float :: "int \<Rightarrow> int \<Rightarrow> (int \<times> int) option" where
  "nearest_float n d =
     (let e = max (- 1074) (bitlen n - bitlen d - 53);
          e' = (if scale_round n d e \<ge> 2 ^ 53 then e + 1 else e);
          m = scale_round n d e'
      in if e' > 971 \<or> (e' = 971 \<and> m \<ge> 2 ^ 53) then None else Some (m, e'))"

definition take_digits :: "string \<Rightarrow> string \<times> string" where
  "take_digits s = (takeWhile (byte_in 48 57) s, dropWhile (byte_in 48 57) s)"

definition digits_value :: "string \<Rightarrow> int" where
  "digits_value ds = foldl (\<lambda>n c. 10 * n + (of_char c - 48)) 0 ds"

definition float_value :: "bool \<Rightarrow> string \<Rightarrow> string \<Rightarrow> int \<Rightarrow> gval option" where
  "float_value neg whole decimals exponent =
     (let n = digits_value (whole @ decimals); e = exponent - int (length decimals);
          sign = (if neg then - 1 else 1)
      in if n = 0 then Some (GFloat 0 0)
         else map_option (\<lambda>(m, x). GFloat (sign * m) x)
           (if e \<ge> 0 then nearest_float (n * 10 ^ nat e) 1 else nearest_float n (10 ^ nat (- e))))"

definition parse_exponent :: "string \<Rightarrow> (int \<times> string) option" where
  "parse_exponent s =
     (case s of
        c # t \<Rightarrow>
          if c = CHR ''e'' \<or> c = CHR ''E'' then
            (let (neg, u) = (case t of
                   g # v \<Rightarrow> if g = CHR ''-'' then (True, v) else if g = CHR ''+'' then (False, v) else (False, t)
                 | [] \<Rightarrow> (False, t));
                 (ds, rest) = take_digits u
             in if ds = [] then None else Some ((if neg then - digits_value ds else digits_value ds), rest))
          else Some (0, s)
      | [] \<Rightarrow> Some (0, s))"

definition parse_number :: "string \<Rightarrow> (gval \<times> string) option" where
  "parse_number s =
     (let (neg, t) = (case s of c # u \<Rightarrow> if c = CHR ''-'' then (True, u) else (False, s) | [] \<Rightarrow> (False, s));
          (whole, u) = take_digits t
      in if whole = [] \<or> (hd whole = CHR ''0'' \<and> length whole > 1) then None
         else (let (decimals, v) = (case u of
                     c # w \<Rightarrow> if c = CHR ''.'' then take_digits w else ([], u)
                   | [] \<Rightarrow> ([], u))
               in if u \<noteq> [] \<and> hd u = CHR ''.'' \<and> decimals = [] then None
                  else (case parse_exponent v of
                      None \<Rightarrow> None
                    | Some (exponent, rest) \<Rightarrow>
                        map_option (\<lambda>x. (x, rest)) (float_value neg whole decimals exponent))))"

section \<open>Strings\<close>

definition byte :: "nat \<Rightarrow> char" where
  "byte n = char_of n"

definition encode_rune :: "nat \<Rightarrow> string" where
  "encode_rune r =
     (if r < 0x80 then [byte r]
      else if r < 0x800 then [byte (0xC0 + r div 64), byte (0x80 + r mod 64)]
      else if r < 0x10000 then [byte (0xE0 + r div 4096), byte (0x80 + r div 64 mod 64), byte (0x80 + r mod 64)]
      else [byte (0xF0 + r div 262144), byte (0x80 + r div 4096 mod 64), byte (0x80 + r div 64 mod 64),
            byte (0x80 + r mod 64)])"

definition hex_value :: "char \<Rightarrow> nat option" where
  "hex_value c =
     (let n = of_char c
      in if byte_in 48 57 c then Some (n - 48)
         else if byte_in 97 102 c then Some (n - 87)
         else if byte_in 65 70 c then Some (n - 55) else None)"

definition hex4 :: "string \<Rightarrow> nat option" where
  "hex4 s =
     (case s of
        a # b # c # d # _ \<Rightarrow>
          (case (hex_value a, hex_value b, hex_value c, hex_value d) of
             (Some i, Some j, Some k, Some l) \<Rightarrow> Some (((i * 16 + j) * 16 + k) * 16 + l)
           | _ \<Rightarrow> None)
      | _ \<Rightarrow> None)"

text \<open>The text of a \<open>\u\<close> escape and the number of bytes after the \<open>u\<close> it takes.\<close>

definition unicode_escape :: "string \<Rightarrow> (string \<times> nat) option" where
  "unicode_escape s =
     (case hex4 s of
        None \<Rightarrow> None
      | Some u \<Rightarrow>
          if u < 0xD800 \<or> 0xE000 \<le> u then Some (encode_rune u, 4)
          else (case drop 4 s of
              b # c # t \<Rightarrow>
                (case (if b = CHR 0x5C \<and> c = CHR ''u'' then hex4 t else None) of
                   Some v \<Rightarrow>
                     if u < 0xDC00 \<and> 0xDC00 \<le> v \<and> v < 0xE000
                     then Some (encode_rune (0x10000 + (u - 0xD800) * 1024 + (v - 0xDC00)), 10)
                     else Some (encode_rune 0xFFFD, 4)
                 | None \<Rightarrow> Some (encode_rune 0xFFFD, 4))
            | _ \<Rightarrow> Some (encode_rune 0xFFFD, 4)))"

definition simple_escape :: "char \<Rightarrow> char option" where
  "simple_escape c =
     map_of [(CHR 0x22, CHR 0x22), (CHR 0x5C, CHR 0x5C), (CHR ''/'', CHR ''/''), (CHR ''b'', byte 8),
             (CHR ''f'', byte 12), (CHR ''n'', byte 10), (CHR ''r'', byte 13), (CHR ''t'', byte 9)] c"

text \<open>
  The next character of a string: its bytes, and the number of bytes it takes after the first.
\<close>

definition next_char :: "string \<Rightarrow> (string \<times> nat) option" where
  "next_char s =
     (case s of
        [] \<Rightarrow> None
      | c # t \<Rightarrow>
          if c = CHR 0x5C then
            (case t of
               [] \<Rightarrow> None
             | e # u \<Rightarrow>
                 if e = CHR ''u'' then map_option (\<lambda>(text, n). (text, n + 1)) (unicode_escape u)
                 else map_option (\<lambda>x. ([x], 1)) (simple_escape e))
          else if (of_char c :: nat) < 0x20 then None
          else if (of_char c :: nat) < 0x80 then Some ([c], 0)
          else (case decode_rune s of (rune, width) \<Rightarrow>
            if width \<le> 1 then Some (encode_rune 0xFFFD, 0) else Some (take width s, width - 1)))"

function parse_chars :: "string \<Rightarrow> (string \<times> string) option" where
  "parse_chars s =
     (if s \<noteq> [] \<and> hd s = CHR 0x22 then Some ([], tl s)
      else if s = [] then None
      else (case next_char s of
          None \<Rightarrow> None
        | Some (text, n) \<Rightarrow> map_option (apfst ((@) text)) (parse_chars (drop (Suc n) s))))"
  by pat_completeness auto
termination by (relation "measure length") auto

declare parse_chars.simps [simp del]

section \<open>Values\<close>

definition skip_ws :: "string \<Rightarrow> string" where
  "skip_ws s = dropWhile (\<lambda>c. c \<in> {CHR '' '', byte 9, byte 10, byte 13}) s"

definition members_map :: "(string \<times> gval) list \<Rightarrow> gval" where
  "members_map kvs = GMap (fold (\<lambda>(k, v). put k v) kvs [])"

definition parse_literal :: "string \<Rightarrow> (gval \<times> string) option" where
  "parse_literal s =
     (if take 4 s = ''null'' then Some (GNil, drop 4 s)
      else if take 4 s = ''true'' then Some (GBool True, drop 4 s)
      else if take 5 s = ''false'' then Some (GBool False, drop 5 s)
      else None)"

text \<open>\<open>depth\<close> is the nesting still allowed (10000 at the top).\<close>

fun parse_value :: "nat \<Rightarrow> nat \<Rightarrow> string \<Rightarrow> (gval \<times> string) option"
  and parse_elements :: "nat \<Rightarrow> nat \<Rightarrow> string \<Rightarrow> (gval list \<times> string) option"
  and parse_members :: "nat \<Rightarrow> nat \<Rightarrow> string \<Rightarrow> ((string \<times> gval) list \<times> string) option"
where
  "parse_value 0 depth s = None"
| "parse_value (Suc f) depth s =
     (case skip_ws s of
        [] \<Rightarrow> None
      | c # t \<Rightarrow>
          if c = CHR ''{'' then
            (if depth = 0 then None
             else if skip_ws t \<noteq> [] \<and> hd (skip_ws t) = CHR ''}'' then Some (GMap [], tl (skip_ws t))
             else map_option (apfst members_map) (parse_members f (depth - 1) t))
          else if c = CHR ''['' then
            (if depth = 0 then None
             else if skip_ws t \<noteq> [] \<and> hd (skip_ws t) = CHR '']'' then Some (GArr [], tl (skip_ws t))
             else map_option (apfst GArr) (parse_elements f (depth - 1) t))
          else if c = CHR 0x22 then map_option (apfst GStr) (parse_chars t)
          else if c = CHR ''-'' \<or> byte_in 48 57 c then parse_number (c # t)
          else parse_literal (c # t))"
| "parse_elements 0 depth s = None"
| "parse_elements (Suc f) depth s =
     (case parse_value f depth s of
        None \<Rightarrow> None
      | Some (v, r) \<Rightarrow>
          (case skip_ws r of
             [] \<Rightarrow> None
           | c # t \<Rightarrow>
               if c = CHR '','' then map_option (apfst ((#) v)) (parse_elements f depth t)
               else if c = CHR '']'' then Some ([v], t) else None))"
| "parse_members 0 depth s = None"
| "parse_members (Suc f) depth s =
     (case skip_ws s of
        [] \<Rightarrow> None
      | q # t \<Rightarrow>
          if q \<noteq> CHR 0x22 then None
          else (case parse_chars t of
              None \<Rightarrow> None
            | Some (key, u) \<Rightarrow>
                (case skip_ws u of
                   [] \<Rightarrow> None
                 | c # w \<Rightarrow>
                     if c \<noteq> CHR '':'' then None
                     else (case parse_value f depth w of
                         None \<Rightarrow> None
                       | Some (v, r) \<Rightarrow>
                           (case skip_ws r of
                              [] \<Rightarrow> None
                            | d # x \<Rightarrow>
                                if d = CHR '','' then map_option (apfst ((#) (key, v))) (parse_members f depth x)
                                else if d = CHR ''}'' then Some ([(key, v)], x) else None)))))"

definition json_unmarshal :: "string \<Rightarrow> gval option" where
  "json_unmarshal s =
     (case parse_value (2 * length s + 2) 10000 s of
        None \<Rightarrow> None
      | Some (v, r) \<Rightarrow> if skip_ws r = [] then Some v else None)"

section \<open>The fuel is enough\<close>

lemma length_skip_ws: "length (skip_ws s) \<le> length s"
  by (simp add: skip_ws_def length_dropWhile_le)

lemma skip_ws_Cons: "skip_ws s = c # t \<Longrightarrow> length t < length s"
  using length_skip_ws[of s] by simp

lemma parse_chars_shorter: "parse_chars s = Some (x, r) \<Longrightarrow> length r < length s"
proof (induction s arbitrary: x r rule: parse_chars.induct)
  case (1 s)
  show ?case
  proof (cases "s \<noteq> [] \<and> hd s = CHR 0x22")
    case True
    then show ?thesis using "1.prems" by (auto simp: parse_chars.simps[of s])
  next
    case False
    with "1.prems" obtain bytes n y where "s \<noteq> []" "next_char s = Some (bytes, n)"
      "parse_chars (drop (Suc n) s) = Some (y, r)"
      by (auto simp: parse_chars.simps[of s] split: if_splits option.splits)
    then have "length r < length (drop (Suc n) s)" using "1.IH" False by blast
    then show ?thesis by simp
  qed
qed

lemma take_digits_length:
  assumes "take_digits s = (ds, r)"
  shows "length ds + length r = length s \<and> (ds \<noteq> [] \<longrightarrow> length r < length s)"
proof -
  have "length ds + length r = length s"
    using assms by (metis length_append prod.inject take_digits_def takeWhile_dropWhile_id)
  then show ?thesis by (cases ds) auto
qed

lemma parse_exponent_length: "parse_exponent s = Some (e, r) \<Longrightarrow> length r \<le> length s"
  by (auto simp: parse_exponent_def Let_def dest!: take_digits_length
      split: list.splits if_splits prod.splits)

lemma parse_number_shorter: "parse_number s = Some (v, r) \<Longrightarrow> length r < length s"
  unfolding parse_number_def Let_def
  by (auto dest!: take_digits_length parse_exponent_length
      split: list.splits if_splits prod.splits option.splits)

lemma parse_literal_shorter: "s \<noteq> [] \<Longrightarrow> parse_literal s = Some (v, r) \<Longrightarrow> length r < length s"
  by (auto simp: parse_literal_def split: if_splits)

lemma length_after_skip: "length t < n \<Longrightarrow> length (skip_ws t) - Suc 0 < n"
  using length_skip_ws[of t] by simp

lemma parse_shorter:
  "parse_value f d s = Some (v, r) \<Longrightarrow> length r < length s"
  "parse_elements f d s = Some (vs, r) \<Longrightarrow> length r < length s"
  "parse_members f d s = Some (kvs, r) \<Longrightarrow> length r < length s"
proof (induction f d s and f d s and f d s arbitrary: v r and vs r and kvs r
    rule: parse_value_parse_elements_parse_members.induct)
  case (2 f depth s)
  then show ?case
    by (fastforce split: list.splits if_splits simp: length_after_skip
        dest!: skip_ws_Cons parse_chars_shorter parse_number_shorter parse_literal_shorter[rotated])
next
  case (4 f depth s)
  then show ?case by (fastforce split: option.splits list.splits if_splits dest!: skip_ws_Cons)
next
  case (6 f depth s)
  then show ?case
    by (fastforce split: option.splits list.splits if_splits dest!: skip_ws_Cons parse_chars_shorter)
qed simp_all

text \<open>Any two amounts of fuel at or above the bound give the same result.\<close>

lemma parse_fuel:
  "2 * length s < f \<Longrightarrow> 2 * length s < f' \<Longrightarrow> parse_value f d s = parse_value f' d s"
  "2 * length s + 1 < f \<Longrightarrow> 2 * length s + 1 < f' \<Longrightarrow> parse_elements f d s = parse_elements f' d s"
  "2 * length s < f \<Longrightarrow> 2 * length s < f' \<Longrightarrow> parse_members f d s = parse_members f' d s"
proof (induction f d s and f d s and f d s arbitrary: f' and f' and f'
    rule: parse_value_parse_elements_parse_members.induct)
  case (2 f depth s)
  obtain g where g: "f' = Suc g" using 2(4) by (cases f') auto
  show ?case
  proof (cases "skip_ws s")
    case (Cons c t)
    then have t: "length t < length s" by (rule skip_ws_Cons)
    have m: "parse_members f (depth - 1) t = parse_members g (depth - 1) t"
      if "c = CHR ''{''" "\<not> depth = 0" "\<not> (skip_ws t \<noteq> [] \<and> hd (skip_ws t) = CHR ''}'')"
      using 2(1)[OF Cons that, of g] 2(3,4) g t by simp
    have e: "parse_elements f (depth - 1) t = parse_elements g (depth - 1) t"
      if "\<not> c = CHR ''{''" "c = CHR ''[''" "\<not> depth = 0"
        "\<not> (skip_ws t \<noteq> [] \<and> hd (skip_ws t) = CHR '']'')"
      using 2(2)[OF Cons that, of g] 2(3,4) g t by simp
    show ?thesis using m e by (simp add: g Cons del: One_nat_def)
  qed (simp add: g)
next
  case (4 f depth s)
  obtain g where g: "f' = Suc g" using 4(4) by (cases f') auto
  have v: "parse_value f depth s = parse_value g depth s" using 4(1)[of g] 4(3,4) g by simp
  show ?case
  proof (cases "parse_value f depth s")
    case (Some vr)
    obtain v r where vr: "vr = (v, r)" by (cases vr)
    then have r: "length r < length s" using Some parse_shorter(1) by blast
    show ?thesis
    proof (cases "skip_ws r")
      case (Cons c t)
      then have "length t < length r" by (rule skip_ws_Cons)
      then have "parse_elements f depth t = parse_elements g depth t" if "c = CHR '',''"
        using that 4(2)[OF Some[unfolded vr] refl Cons, of g] 4(3,4) r g by simp
      then show ?thesis using v[symmetric] Some vr Cons g by simp
    qed (use v[symmetric] Some vr g in simp)
  qed (use v[symmetric] g in simp)
next
  case (6 f depth s)
  obtain g where g: "f' = Suc g" using 6(4) by (cases f') auto
  show ?case
  proof (cases "skip_ws s")
    case (Cons q t)
    then have t: "length t < length s" by (rule skip_ws_Cons)
    show ?thesis
    proof (cases "q = CHR 0x22 \<and> parse_chars t \<noteq> None")
      case True
      then obtain key u where u: "parse_chars t = Some (key, u)" by auto
      then have ul: "length u < length t" by (rule parse_chars_shorter)
      show ?thesis
      proof (cases "skip_ws u")
        case (Cons c w)
        then have w: "length w < length u" by (rule skip_ws_Cons)
        show ?thesis
        proof (cases "c = CHR '':''")
          case True
          have v: "parse_value f depth w = parse_value g depth w"
            using 6(1)[OF \<open>skip_ws s = q # t\<close> _ u refl Cons, of g] 6(3,4) True
              \<open>q = CHR 0x22 \<and> parse_chars t \<noteq> None\<close> t ul w g by simp
          show ?thesis
          proof (cases "parse_value f depth w")
            case (Some vr)
            obtain x r where vr: "vr = (x, r)" by (cases vr)
            then have r: "length r < length w" using Some parse_shorter(1) by blast
            show ?thesis
            proof (cases "skip_ws r")
              case (Cons e y)
              then have "length y < length r" by (rule skip_ws_Cons)
              then have "parse_members f depth y = parse_members g depth y" if "e = CHR '',''"
                using that 6(2)[OF \<open>skip_ws s = q # t\<close> _ u refl \<open>skip_ws u = c # w\<close> _ Some[unfolded vr] refl Cons, of g]
                  6(3,4) True \<open>q = CHR 0x22 \<and> parse_chars t \<noteq> None\<close> t ul w r g by simp
              then show ?thesis
                using v[symmetric] Some vr Cons g True u \<open>skip_ws s = q # t\<close> \<open>skip_ws u = c # w\<close> by simp
            qed (use v[symmetric] Some vr g True u \<open>skip_ws s = q # t\<close> \<open>skip_ws u = c # w\<close> in simp)
          qed (use v[symmetric] g True u \<open>skip_ws s = q # t\<close> \<open>skip_ws u = c # w\<close> in simp)
        qed (use g u \<open>skip_ws s = q # t\<close> Cons in simp)
      qed (use g u \<open>skip_ws s = q # t\<close> in simp)
    qed (use g Cons in \<open>auto split: option.split\<close>)
  qed (simp add: g)
qed simp_all

end
