(* ===== verification/Lifecycle.thy ===== *)
theory Lifecycle
  imports Prelude
begin

text \<open>
  \<open>internal/workcommission/lifecycle.go\<close>: the states of a WorkCommission, the classes the
  handlers test them against, and the delivery decision after local evidence. A state is an
  open string type in the source (a stored payload may hold any text), so it is a string here;
  the policy, verdict, gate and action types only ever hold their constants and are datatypes.
\<close>

section \<open>States\<close>

type_synonym wc_state = string

abbreviation StateDraft :: wc_state where "StateDraft \<equiv> ''draft''"
abbreviation StateQueued :: wc_state where "StateQueued \<equiv> ''queued''"
abbreviation StateReady :: wc_state where "StateReady \<equiv> ''ready''"
abbreviation StatePreflighting :: wc_state where "StatePreflighting \<equiv> ''preflighting''"
abbreviation StateRunning :: wc_state where "StateRunning \<equiv> ''running''"
abbreviation StateBlockedStale :: wc_state where "StateBlockedStale \<equiv> ''blocked_stale''"
abbreviation StateBlockedPolicy :: wc_state where "StateBlockedPolicy \<equiv> ''blocked_policy''"
abbreviation StateBlockedConflict :: wc_state where "StateBlockedConflict \<equiv> ''blocked_conflict''"
abbreviation StateNeedsHumanReview :: wc_state where "StateNeedsHumanReview \<equiv> ''needs_human_review''"
abbreviation StateCompleted :: wc_state where "StateCompleted \<equiv> ''completed''"
abbreviation StateCompletedWithProjectionDebt :: wc_state where
  "StateCompletedWithProjectionDebt \<equiv> ''completed_with_projection_debt''"
abbreviation StateFailed :: wc_state where "StateFailed \<equiv> ''failed''"
abbreviation StateCancelled :: wc_state where "StateCancelled \<equiv> ''cancelled''"
abbreviation StateExpired :: wc_state where "StateExpired \<equiv> ''expired''"

definition known_states :: "wc_state list" where
  "known_states =
     [StateDraft, StateQueued, StateReady, StatePreflighting, StateRunning, StateBlockedStale,
      StateBlockedPolicy, StateBlockedConflict, StateNeedsHumanReview, StateCompleted,
      StateCompletedWithProjectionDebt, StateFailed, StateCancelled, StateExpired]"

definition runnable_states :: "wc_state list" where
  "runnable_states = [StateQueued, StateReady]"

definition executing_states :: "wc_state list" where
  "executing_states = [StatePreflighting, StateRunning]"

definition completion_states :: "wc_state list" where
  "completion_states = [StateCompleted, StateCompletedWithProjectionDebt]"

definition terminal_states :: "wc_state list" where
  "terminal_states =
     [StateCompleted, StateCompletedWithProjectionDebt, StateCancelled, StateExpired]"

definition recoverable_states :: "wc_state list" where
  "recoverable_states =
     [StateQueued, StateReady, StatePreflighting, StateRunning, StateBlockedStale,
      StateBlockedPolicy, StateBlockedConflict, StateNeedsHumanReview, StateFailed]"

definition operator_decision_states :: "wc_state list" where
  "operator_decision_states =
     [StateBlockedStale, StateBlockedPolicy, StateBlockedConflict, StateNeedsHumanReview,
      StateFailed]"

definition NormalizeState :: "string \<Rightarrow> wc_state" where
  "NormalizeState value = trim_space value"

definition state_in :: "wc_state \<Rightarrow> wc_state list \<Rightarrow> bool" where
  "state_in state states \<longleftrightarrow> state \<in> set states"

definition IsKnownState :: "string \<Rightarrow> bool" where
  "IsKnownState value = state_in (NormalizeState value) known_states"

definition IsRunnableState :: "string \<Rightarrow> bool" where
  "IsRunnableState value = state_in (NormalizeState value) runnable_states"

definition IsExecutingState :: "string \<Rightarrow> bool" where
  "IsExecutingState value = state_in (NormalizeState value) executing_states"

definition IsCompletionState :: "string \<Rightarrow> bool" where
  "IsCompletionState value = state_in (NormalizeState value) completion_states"

definition IsTerminalState :: "string \<Rightarrow> bool" where
  "IsTerminalState value = state_in (NormalizeState value) terminal_states"

definition IsRecoverableState :: "string \<Rightarrow> bool" where
  "IsRecoverableState value = state_in (NormalizeState value) recoverable_states"

definition RequiresOperatorDecisionState :: "string \<Rightarrow> bool" where
  "RequiresOperatorDecisionState value = state_in (NormalizeState value) operator_decision_states"

definition SatisfiesDependencyState :: "string \<Rightarrow> bool" where
  "SatisfiesDependencyState value = IsCompletionState value"

text \<open>The value lists the transition guards are built from.\<close>

definition RecoverableStateValues :: "string list" where
  "RecoverableStateValues =
     [StateQueued, StateReady, StatePreflighting, StateRunning, StateBlockedStale,
      StateBlockedPolicy, StateBlockedConflict, StateNeedsHumanReview, StateFailed]"

definition CancellableStateValues :: "string list" where
  "CancellableStateValues =
     [StateDraft, StateQueued, StateReady, StatePreflighting, StateRunning, StateBlockedStale,
      StateBlockedPolicy, StateBlockedConflict, StateNeedsHumanReview, StateFailed]"

lemmas state_sets =
  known_states_def runnable_states_def executing_states_def completion_states_def
  terminal_states_def recoverable_states_def operator_decision_states_def
  RecoverableStateValues_def CancellableStateValues_def

lemmas state_tests =
  IsKnownState_def IsRunnableState_def IsExecutingState_def IsCompletionState_def
  IsTerminalState_def IsRecoverableState_def RequiresOperatorDecisionState_def
  SatisfiesDependencyState_def state_in_def NormalizeState_def

text \<open>A test sees through surrounding white space, so it may be read at the trimmed value.\<close>

lemma state_tests_trim [simp]:
  "IsKnownState (trim_space v) = IsKnownState v"
  "IsRunnableState (trim_space v) = IsRunnableState v"
  "IsExecutingState (trim_space v) = IsExecutingState v"
  "IsTerminalState (trim_space v) = IsTerminalState v"
  "IsCompletionState (trim_space v) = IsCompletionState v"
  "IsRecoverableState (trim_space v) = IsRecoverableState v"
  by (simp_all add: state_tests)

lemma terminal_not_recoverable: "IsTerminalState v \<Longrightarrow> \<not> IsRecoverableState v"
  by (auto simp: state_tests state_sets)

lemma recoverable_values: "IsRecoverableState v \<longleftrightarrow> trim_space v \<in> set RecoverableStateValues"
  by (simp add: state_tests state_sets)

lemma executing_recoverable: "IsExecutingState v \<Longrightarrow> IsRecoverableState v"
  by (auto simp: state_tests state_sets)

lemma runnable_not_executing: "IsRunnableState v \<Longrightarrow> \<not> IsExecutingState v"
  by (auto simp: state_tests state_sets)

lemma terminal_not_executing: "IsTerminalState v \<Longrightarrow> \<not> IsExecutingState v"
  using terminal_not_recoverable executing_recoverable by blast

text \<open>
  The state classes the handlers rely on fit together: every known state is exactly one of
  draft, recoverable or terminal; the states a commission can be cancelled from are the known
  non-terminal ones; what can be claimed or is executing or waits for the operator is
  recoverable; and only terminal states satisfy a dependency.
\<close>

theorem state_classes:
  "(IsKnownState v \<longleftrightarrow> trim_space v = StateDraft \<or> IsRecoverableState v \<or> IsTerminalState v)
   \<and> \<not> (IsRecoverableState v \<and> IsTerminalState v)
   \<and> \<not> (trim_space v = StateDraft \<and> (IsRecoverableState v \<or> IsTerminalState v))
   \<and> (trim_space v \<in> set CancellableStateValues \<longleftrightarrow> IsKnownState v \<and> \<not> IsTerminalState v)
   \<and> (trim_space v \<in> set RecoverableStateValues \<longleftrightarrow> IsRecoverableState v)
   \<and> \<not> (IsRunnableState v \<and> \<not> IsRecoverableState v)
   \<and> \<not> (IsExecutingState v \<and> \<not> IsRecoverableState v)
   \<and> \<not> (IsRunnableState v \<and> IsExecutingState v)
   \<and> \<not> (RequiresOperatorDecisionState v \<and> \<not> IsRecoverableState v)
   \<and> \<not> (RequiresOperatorDecisionState v \<and> (IsRunnableState v \<or> IsExecutingState v))
   \<and> \<not> (SatisfiesDependencyState v \<and> \<not> IsTerminalState v)"
  by (auto simp: state_tests state_sets)

section \<open>Delivery\<close>

datatype DeliveryPolicy = WorkspacePatchManual | WorkspacePatchAutoOnPass
datatype DeliveryVerdict = VerdictPass | VerdictNonPass
datatype DeliveryGate = GateAllowed | GateBlocked | GateMissing
datatype DeliveryAction = AutoApply | ManualApply

fun delivery_policy_text :: "DeliveryPolicy \<Rightarrow> string" where
  "delivery_policy_text WorkspacePatchManual = ''workspace_patch_manual''"
| "delivery_policy_text WorkspacePatchAutoOnPass = ''workspace_patch_auto_on_pass''"

fun delivery_verdict_text :: "DeliveryVerdict \<Rightarrow> string" where
  "delivery_verdict_text VerdictPass = ''pass''"
| "delivery_verdict_text VerdictNonPass = ''non_pass''"

fun delivery_gate_text :: "DeliveryGate \<Rightarrow> string" where
  "delivery_gate_text GateAllowed = ''allowed''"
| "delivery_gate_text GateBlocked = ''blocked''"
| "delivery_gate_text GateMissing = ''missing''"

fun delivery_action_text :: "DeliveryAction \<Rightarrow> string" where
  "delivery_action_text AutoApply = ''auto_apply''"
| "delivery_action_text ManualApply = ''manual_apply''"

record DeliveryDecision =
  dd_action :: DeliveryAction
  dd_auto_apply :: bool
  dd_reason :: string

definition NormalizeDeliveryPolicy :: "string \<Rightarrow> DeliveryPolicy" where
  "NormalizeDeliveryPolicy value =
     (if trim_space value = ''workspace_patch_auto_on_pass'' then WorkspacePatchAutoOnPass
      else WorkspacePatchManual)"

definition NormalizeDeliveryVerdict :: "string \<Rightarrow> DeliveryVerdict" where
  "NormalizeDeliveryVerdict value =
     (if trim_space value = ''pass'' \<or> trim_space value = ''completed'' then VerdictPass
      else VerdictNonPass)"

definition NormalizeDeliveryGate :: "string \<Rightarrow> DeliveryGate" where
  "NormalizeDeliveryGate value =
     (if trim_space value = ''allowed'' then GateAllowed
      else if trim_space value = ''blocked'' then GateBlocked
      else GateMissing)"

definition manualDeliveryDecision :: "string \<Rightarrow> DeliveryDecision" where
  "manualDeliveryDecision reason =
     \<lparr>dd_action = ManualApply, dd_auto_apply = False, dd_reason = reason\<rparr>"

fun deliveryGateManualReason :: "DeliveryGate \<Rightarrow> string" where
  "deliveryGateManualReason GateBlocked = ''autonomy_envelope_blocked''"
| "deliveryGateManualReason GateMissing = ''autonomy_envelope_missing''"
| "deliveryGateManualReason GateAllowed = ''autonomy_envelope_not_allowed''"

definition DeliveryAfterLocalEvidence ::
  "DeliveryPolicy \<Rightarrow> DeliveryVerdict \<Rightarrow> DeliveryGate \<Rightarrow> DeliveryDecision" where
  "DeliveryAfterLocalEvidence policy verdict gate =
     (if verdict \<noteq> VerdictPass then manualDeliveryDecision ''verdict_not_pass''
      else if policy \<noteq> WorkspacePatchAutoOnPass then manualDeliveryDecision ''delivery_policy_manual''
      else if gate = GateBlocked then manualDeliveryDecision (deliveryGateManualReason gate)
      else \<lparr>dd_action = AutoApply, dd_auto_apply = True,
            dd_reason = ''policy_auto_on_pass_and_verdict_pass''\<rparr>)"

text \<open>The normal forms are left inverses of the texts written to a payload.\<close>

lemma delivery_policy_roundtrip [simp]: "NormalizeDeliveryPolicy (delivery_policy_text p) = p"
  by (cases p) (simp_all add: NormalizeDeliveryPolicy_def plain_char_def)

lemma delivery_gate_roundtrip [simp]: "NormalizeDeliveryGate (delivery_gate_text g) = g"
  by (cases g) (simp_all add: NormalizeDeliveryGate_def plain_char_def)

lemma delivery_verdict_roundtrip [simp]: "NormalizeDeliveryVerdict (delivery_verdict_text w) = w"
  by (cases w) (simp_all add: NormalizeDeliveryVerdict_def plain_char_def)

lemma delivery_auto_iff:
  "dd_auto_apply (DeliveryAfterLocalEvidence p w g) \<longleftrightarrow>
     w = VerdictPass \<and> p = WorkspacePatchAutoOnPass \<and> g \<noteq> GateBlocked"
  by (simp add: DeliveryAfterLocalEvidence_def manualDeliveryDecision_def)

lemma delivery_action_auto:
  "dd_action (DeliveryAfterLocalEvidence p w g) = AutoApply \<longleftrightarrow>
     dd_auto_apply (DeliveryAfterLocalEvidence p w g)"
  by (simp add: DeliveryAfterLocalEvidence_def manualDeliveryDecision_def)

text \<open>
  The delivery decision read from stored texts: a patch is applied automatically exactly
  when the verdict is \<open>pass\<close> or \<open>completed\<close>, the policy is \<open>workspace_patch_auto_on_pass\<close> and the
  autonomy gate does not block; the action always agrees with the flag; a manual decision names
  the first reason that applies; and a missing envelope does not make delivery manual.
\<close>

theorem delivery_after_evidence:
  "let d = DeliveryAfterLocalEvidence (NormalizeDeliveryPolicy p) (NormalizeDeliveryVerdict w)
             (NormalizeDeliveryGate g)
   in (dd_auto_apply d \<longleftrightarrow>
        (trim_space w = ''pass'' \<or> trim_space w = ''completed'')
        \<and> trim_space p = ''workspace_patch_auto_on_pass'' \<and> trim_space g \<noteq> ''blocked'')
      \<and> (dd_action d = AutoApply \<longleftrightarrow> dd_auto_apply d)
      \<and> dd_reason d =
           (if trim_space w \<noteq> ''pass'' \<and> trim_space w \<noteq> ''completed'' then ''verdict_not_pass''
            else if trim_space p \<noteq> ''workspace_patch_auto_on_pass'' then ''delivery_policy_manual''
            else if trim_space g = ''blocked'' then ''autonomy_envelope_blocked''
            else ''policy_auto_on_pass_and_verdict_pass'')
      \<and> DeliveryAfterLocalEvidence (NormalizeDeliveryPolicy p) (NormalizeDeliveryVerdict w) GateMissing
        = DeliveryAfterLocalEvidence (NormalizeDeliveryPolicy p) (NormalizeDeliveryVerdict w) GateAllowed"
  by (simp add: Let_def DeliveryAfterLocalEvidence_def manualDeliveryDecision_def
      NormalizeDeliveryPolicy_def NormalizeDeliveryVerdict_def NormalizeDeliveryGate_def)

end
