(* ===== verification/Projection.thy ===== *)
theory Projection
  imports Lifecycle "HOL-Library.Multiset"
begin

text \<open>
  \<open>internal/workcommission/projection.go\<close>: the validator of a drafted external projection
  against the deterministic intent, and the completion state of a commission after local
  evidence, with its projection debt. A Go map is a partial function; the order in which a
  \<open>for range\<close> loop visits it is the parameter \<open>ord\<close> of the definitions that have such a loop,
  any permutation of the keys.
\<close>

section \<open>Data\<close>

datatype ProjectionPolicy = LocalOnly | ExternalOptional | ExternalRequired

text \<open>A claim kind is an open string type: a draft may carry any text.\<close>

type_synonym ProjectionClaimKind = string

record ProjectionClaim =
  pc_kind :: ProjectionClaimKind
  pc_value :: string

record ProjectionIntent =
  pi_required_claims :: "ProjectionClaim list"
  pi_optional_claims :: "ProjectionClaim list"
  pi_forbidden_kinds :: "ProjectionClaimKind list"
  pi_required_links :: "string list"

record ProjectionDraft =
  pd_claims :: "ProjectionClaim list"
  pd_links :: "string list"

datatype ProjectionValidationVerdict = ValidationPass | ValidationReject

datatype ProjectionValidationCode =
  InvalidClaim | InventedClaim | ChangedClaim | ForbiddenClaim | MissingClaim | MissingLink

record ProjectionValidationIssue =
  pvi_code :: ProjectionValidationCode
  pvi_kind :: ProjectionClaimKind
  pvi_detail :: string

record ProjectionValidation =
  pv_verdict :: ProjectionValidationVerdict
  pv_issues :: "ProjectionValidationIssue list"

datatype ProjectionPublicationState = PublicationMissing | PublicationFailed | PublicationSynced

record ProjectionPublication =
  pp_state :: ProjectionPublicationState
  pp_carrier :: string
  pp_target :: string
  pp_last_error :: string
  pp_retry_policy :: string

record ProjectionDebt =
  debt_carrier :: string
  debt_target :: string
  debt_last_error :: string
  debt_retry_policy :: string

record ProjectionCompletion =
  compl_state :: wc_state
  compl_debt :: "ProjectionDebt option"

definition AuthorityProjectionClaimKinds :: "ProjectionClaimKind list" where
  "AuthorityProjectionClaimKinds =
     [''status'', ''owner'', ''date'', ''severity'', ''completion'', ''scope'', ''promise'']"

definition known_projection_claim_kinds :: "ProjectionClaimKind list" where
  "known_projection_claim_kinds =
     [''status'', ''owner'', ''date'', ''severity'', ''completion'', ''scope'', ''promise'']"

definition KnownProjectionClaimKind :: "ProjectionClaimKind \<Rightarrow> bool" where
  "KnownProjectionClaimKind kind \<longleftrightarrow> kind \<in> set known_projection_claim_kinds"

definition NormalizeProjectionPolicy :: "string \<Rightarrow> ProjectionPolicy" where
  "NormalizeProjectionPolicy value =
     (if trim_space value = ''external_optional'' then ExternalOptional
      else if trim_space value = ''external_required'' then ExternalRequired
      else LocalOnly)"

definition NormalizeProjectionPublicationState :: "string \<Rightarrow> ProjectionPublicationState" where
  "NormalizeProjectionPublicationState value =
     (if trim_space value = ''synced'' then PublicationSynced
      else if trim_space value = ''failed'' then PublicationFailed
      else PublicationMissing)"

section \<open>Validation of a draft\<close>

record projectionClaimIndex =
  ix_allowed :: "ProjectionClaimKind \<rightharpoonup> string"
  ix_required :: "ProjectionClaimKind \<rightharpoonup> string"
  ix_forbidden :: "ProjectionClaimKind set"

text \<open>The loop \<open>for _, claim := range claims { m[claim.Kind] = strings.TrimSpace(claim.Value) }\<close>.\<close>

fun store_claims :: "(string \<rightharpoonup> string) \<Rightarrow> ProjectionClaim list \<Rightarrow> (string \<rightharpoonup> string)" where
  "store_claims m [] = m"
| "store_claims m (c # cs) = store_claims (m(pc_kind c \<mapsto> trim_space (pc_value c))) cs"

definition projectionIntentIndex :: "ProjectionIntent \<Rightarrow> projectionClaimIndex" where
  "projectionIntentIndex intent =
     \<lparr>ix_allowed = store_claims (store_claims Map.empty (pi_optional_claims intent))
                     (pi_required_claims intent),
      ix_required = store_claims Map.empty (pi_required_claims intent),
      ix_forbidden = set (pi_forbidden_kinds intent)\<rparr>"

definition projectionIssue ::
  "ProjectionValidationCode \<Rightarrow> ProjectionClaimKind \<Rightarrow> string \<Rightarrow> ProjectionValidationIssue" where
  "projectionIssue code kind detail = \<lparr>pvi_code = code, pvi_kind = kind, pvi_detail = detail\<rparr>"

fun projectionDraftClaimIssues ::
  "projectionClaimIndex \<Rightarrow> ProjectionClaim list \<Rightarrow> ProjectionValidationIssue list" where
  "projectionDraftClaimIssues index [] = []"
| "projectionDraftClaimIssues index (claim # claims) =
     (let kind = pc_kind claim; value = trim_space (pc_value claim);
          rest = projectionDraftClaimIssues index claims
      in if \<not> KnownProjectionClaimKind kind then
           projectionIssue InvalidClaim kind ''claim kind is not in the closed projection schema'' # rest
         else if kind \<in> ix_forbidden index then
           projectionIssue ForbiddenClaim kind ''draft includes a claim the intent forbids'' # rest
         else (case ix_allowed index kind of
                 None \<Rightarrow>
                   projectionIssue InventedClaim kind
                     ''draft includes a claim absent from the deterministic intent'' # rest
               | Some expected \<Rightarrow>
                   if value \<noteq> expected then
                     projectionIssue ChangedClaim kind ''draft changed the deterministic intent value'' # rest
                   else rest))"

text \<open>The kinds of the required claims, each once: the keys of \<open>index.Required\<close>.\<close>

definition required_kinds :: "ProjectionIntent \<Rightarrow> ProjectionClaimKind list" where
  "required_kinds intent = dedup_from {} (map pc_kind (pi_required_claims intent))"

fun missing_claims_loop ::
  "projectionClaimIndex \<Rightarrow> (string \<rightharpoonup> string) \<Rightarrow> ProjectionClaimKind list \<Rightarrow> ProjectionValidationIssue list"
where
  "missing_claims_loop index present [] = []"
| "missing_claims_loop index present (kind # kinds) =
     (let rest = missing_claims_loop index present kinds;
          issue = projectionIssue MissingClaim kind ''draft omitted a required deterministic claim''
      in case present kind of
           Some value \<Rightarrow> if ix_required index kind = Some value then rest else issue # rest
         | None \<Rightarrow> issue # rest)"

definition projectionMissingClaimIssues ::
  "projectionClaimIndex \<Rightarrow> ProjectionClaimKind list \<Rightarrow> ProjectionClaim list \<Rightarrow> ProjectionValidationIssue list"
where
  "projectionMissingClaimIssues index kinds claims =
     missing_claims_loop index (store_claims Map.empty claims) kinds"

definition projectionMissingLinkIssues ::
  "string list \<Rightarrow> string list \<Rightarrow> ProjectionValidationIssue list" where
  "projectionMissingLinkIssues requiredLinks draftLinks =
     (let present = set (clean_strings draftLinks)
      in map (\<lambda>clean. \<lparr>pvi_code = MissingLink, pvi_kind = [], pvi_detail = clean\<rparr>)
           (filter (\<lambda>clean. clean \<notin> present) (clean_strings requiredLinks)))"

definition ValidateProjectionDraft ::
  "(string list \<Rightarrow> string list) \<Rightarrow> ProjectionIntent \<Rightarrow> ProjectionDraft \<Rightarrow> ProjectionValidation" where
  "ValidateProjectionDraft ord intent draft =
     (let index = projectionIntentIndex intent;
          issues = projectionDraftClaimIssues index (pd_claims draft)
                   @ projectionMissingClaimIssues index (ord (required_kinds intent)) (pd_claims draft)
                   @ projectionMissingLinkIssues (pi_required_links intent) (pd_links draft)
      in if length issues > 0 then \<lparr>pv_verdict = ValidationReject, pv_issues = issues\<rparr>
         else \<lparr>pv_verdict = ValidationPass, pv_issues = []\<rparr>)"

subsection \<open>What a pass means\<close>

text \<open>
  The value the intent fixes for a kind: the last required claim of that kind, or the last
  optional one if no required claim names it.
\<close>

definition last_value :: "ProjectionClaim list \<Rightarrow> ProjectionClaimKind \<Rightarrow> string option" where
  "last_value cs k = map_of (rev (map (\<lambda>c. (pc_kind c, trim_space (pc_value c))) cs)) k"

definition intent_value :: "ProjectionIntent \<Rightarrow> ProjectionClaimKind \<Rightarrow> string option" where
  "intent_value intent k =
     (case last_value (pi_required_claims intent) k of
        Some v \<Rightarrow> Some v
      | None \<Rightarrow> last_value (pi_optional_claims intent) k)"

lemma store_claims_eq: "store_claims m cs = m ++ last_value cs"
  by (induction cs arbitrary: m) (auto simp: last_value_def fun_eq_iff map_add_def
      map_of_append split: option.splits)

lemma last_value_in: "last_value cs k = Some v \<Longrightarrow> \<exists>c\<in>set cs. pc_kind c = k \<and> trim_space (pc_value c) = v"
  by (auto simp: last_value_def dest!: map_of_SomeD)

lemma dom_last_value: "last_value cs k = None \<longleftrightarrow> k \<notin> pc_kind ` set cs"
  by (auto simp: last_value_def map_of_eq_None_iff image_iff)

lemma index_fields:
  "ix_allowed (projectionIntentIndex intent) = intent_value intent"
  "ix_required (projectionIntentIndex intent) = last_value (pi_required_claims intent)"
  "ix_forbidden (projectionIntentIndex intent) = set (pi_forbidden_kinds intent)"
  by (auto simp: projectionIntentIndex_def store_claims_eq intent_value_def fun_eq_iff
      map_add_def split: option.splits)

definition claim_faithful :: "ProjectionIntent \<Rightarrow> ProjectionClaim \<Rightarrow> bool" where
  "claim_faithful intent c \<longleftrightarrow>
     KnownProjectionClaimKind (pc_kind c) \<and> pc_kind c \<notin> set (pi_forbidden_kinds intent)
     \<and> intent_value intent (pc_kind c) = Some (trim_space (pc_value c))"

lemma draft_issues_Nil:
  "projectionDraftClaimIssues (projectionIntentIndex intent) cs = [] \<longleftrightarrow> list_all (claim_faithful intent) cs"
  by (induction cs) (auto simp: claim_faithful_def index_fields Let_def split: option.splits)

lemma missing_loop_Nil:
  "missing_claims_loop ix present ks = [] \<longleftrightarrow>
     (\<forall>k\<in>set ks. \<exists>v. present k = Some v \<and> ix_required ix k = Some v)"
  by (induction ks) (auto simp: Let_def split: option.splits)

lemma missing_links_Nil:
  "projectionMissingLinkIssues req links = [] \<longleftrightarrow>
     set (clean_strings req) \<subseteq> set (clean_strings links)"
  by (auto simp: projectionMissingLinkIssues_def Let_def filter_empty_conv)

lemma missing_claims_Nil:
  assumes "list_all (claim_faithful intent) cs" "set ks = pc_kind ` set (pi_required_claims intent)"
  shows "projectionMissingClaimIssues (projectionIntentIndex intent) ks cs = [] \<longleftrightarrow>
    pc_kind ` set (pi_required_claims intent) \<subseteq> pc_kind ` set cs"
proof -
  let ?R = "pc_kind ` set (pi_required_claims intent)"
  have agree: "last_value cs k = last_value (pi_required_claims intent) k"
    if req: "k \<in> pc_kind ` set (pi_required_claims intent)" and drafted: "k \<in> pc_kind ` set cs" for k
  proof -
    obtain v where v: "last_value cs k = Some v" using drafted dom_last_value[of cs k] by auto
    then obtain c where c: "c \<in> set cs" "pc_kind c = k" "trim_space (pc_value c) = v"
      using last_value_in by blast
    obtain w where w: "last_value (pi_required_claims intent) k = Some w"
      using req dom_last_value[of _ k] by auto
    have "claim_faithful intent c" using assms(1) c(1) by (simp add: list_all_iff)
    then show ?thesis using c v w by (simp add: claim_faithful_def intent_value_def)
  qed
  have "projectionMissingClaimIssues (projectionIntentIndex intent) ks cs = [] \<longleftrightarrow>
      (\<forall>k\<in>?R. \<exists>v. last_value cs k = Some v \<and> last_value (pi_required_claims intent) k = Some v)"
    by (simp add: projectionMissingClaimIssues_def missing_loop_Nil store_claims_eq index_fields
        assms(2))
  also have "\<dots> \<longleftrightarrow> (\<forall>k\<in>?R. last_value cs k \<noteq> None)"
    using agree dom_last_value[of cs] by (metis option.exhaust option.distinct(1))
  also have "\<dots> \<longleftrightarrow> ?R \<subseteq> pc_kind ` set cs"
    unfolding subset_iff by (simp only: dom_last_value) blast
  finally show ?thesis .
qed

text \<open>
  A drafted projection passes exactly when it says nothing but the intent: every drafted
  claim is of a known kind, not forbidden, and carries the value the intent fixes for that kind;
  every required kind is drafted; every required link is present (texts compared after
  trimming). The order in which the required map is visited does not matter.
\<close>

theorem projection_pass_iff:
  assumes "mset (ord (required_kinds intent)) = mset (required_kinds intent)"
  shows "pv_verdict (ValidateProjectionDraft ord intent draft) = ValidationPass \<longleftrightarrow>
     list_all (claim_faithful intent) (pd_claims draft)
     \<and> pc_kind ` set (pi_required_claims intent) \<subseteq> pc_kind ` set (pd_claims draft)
     \<and> set (clean_strings (pi_required_links intent)) \<subseteq> set (clean_strings (pd_links draft))"
proof -
  have *: "set (ord (required_kinds intent)) = pc_kind ` set (pi_required_claims intent)"
    using mset_eq_setD[OF assms] by (simp add: required_kinds_def)
  show ?thesis
  proof (cases "list_all (claim_faithful intent) (pd_claims draft)")
    case True
    then show ?thesis
      by (simp add: ValidateProjectionDraft_def Let_def draft_issues_Nil missing_links_Nil
          missing_claims_Nil[OF True *])
  next
    case False
    then show ?thesis
      by (simp add: ValidateProjectionDraft_def Let_def draft_issues_Nil)
  qed
qed

theorem projection_pass_iff_witness:
  "let intent = \<lparr>pi_required_claims = [\<lparr>pc_kind = ''status'', pc_value = ''done ''\<rparr>],
        pi_optional_claims = [\<lparr>pc_kind = ''owner'', pc_value = ''ann''\<rparr>],
        pi_forbidden_kinds = [''promise''], pi_required_links = [''l1'']\<rparr>;
       draft = \<lparr>pd_claims = [\<lparr>pc_kind = ''status'', pc_value = ''done''\<rparr>], pd_links = [''l1'', ''l2'']\<rparr>
   in pv_verdict (ValidateProjectionDraft rev intent draft) = ValidationPass"
  unfolding Let_def by (subst projection_pass_iff) (simp, code_simp)

section \<open>Completion after local evidence\<close>

definition projectionDebtCarrier :: "string \<Rightarrow> string" where
  "projectionDebtCarrier value =
     (let clean = trim_space value in if clean \<noteq> [] then clean else ''external_projection'')"

definition projectionDebtTarget :: "string \<Rightarrow> string" where
  "projectionDebtTarget value =
     (let clean = trim_space value in if clean \<noteq> [] then clean else ''unconfigured_external_target'')"

definition projectionDebtLastError :: "ProjectionPublication \<Rightarrow> string" where
  "projectionDebtLastError publication =
     (let clean = trim_space (pp_last_error publication)
      in if clean \<noteq> [] then clean
         else if pp_state publication = PublicationFailed
              then ''external publication failed without a reported connector error''
         else ''external publication has not synced'')"

definition projectionDebtRetryPolicy :: "string \<Rightarrow> string" where
  "projectionDebtRetryPolicy value =
     (let clean = trim_space value in if clean \<noteq> [] then clean else ''manual_or_connector_retry'')"

definition projectionDebt :: "ProjectionPublication \<Rightarrow> ProjectionDebt" where
  "projectionDebt publication =
     \<lparr>debt_carrier = projectionDebtCarrier (pp_carrier publication),
      debt_target = projectionDebtTarget (pp_target publication),
      debt_last_error = projectionDebtLastError publication,
      debt_retry_policy = projectionDebtRetryPolicy (pp_retry_policy publication)\<rparr>"

definition CompletionAfterLocalEvidence ::
  "ProjectionPolicy \<Rightarrow> ProjectionPublication \<Rightarrow> ProjectionCompletion" where
  "CompletionAfterLocalEvidence policy publication =
     (if policy \<noteq> ExternalRequired then \<lparr>compl_state = StateCompleted, compl_debt = None\<rparr>
      else if pp_state publication = PublicationSynced
           then \<lparr>compl_state = StateCompleted, compl_debt = None\<rparr>
      else \<lparr>compl_state = StateCompletedWithProjectionDebt,
            compl_debt = Some (projectionDebt publication)\<rparr>)"

lemma completion_state_cases:
  "compl_state (CompletionAfterLocalEvidence p q) =
     (case compl_debt (CompletionAfterLocalEvidence p q) of
        None \<Rightarrow> StateCompleted | Some d \<Rightarrow> StateCompletedWithProjectionDebt)"
  by (simp add: CompletionAfterLocalEvidence_def)

lemma completion_terminal: "IsCompletionState (compl_state (CompletionAfterLocalEvidence p q))"
  by (simp add: CompletionAfterLocalEvidence_def state_tests state_sets plain_char_def)

definition debt_complete :: "ProjectionDebt \<Rightarrow> bool" where
  "debt_complete d \<longleftrightarrow>
     debt_carrier d \<noteq> [] \<and> debt_target d \<noteq> [] \<and> debt_last_error d \<noteq> [] \<and> debt_retry_policy d \<noteq> []"

text \<open>
  Local evidence always completes a commission: into a completion state, with projection
  debt exactly when the policy requires an external projection that has not synced; the state
  says which, and every field of a recorded debt is filled.
\<close>

theorem completion_after_local_evidence:
  "let c = CompletionAfterLocalEvidence policy publication
   in IsCompletionState (compl_state c)
      \<and> (compl_debt c = None \<longleftrightarrow> \<not> (policy = ExternalRequired \<and> pp_state publication \<noteq> PublicationSynced))
      \<and> compl_state c = (if compl_debt c = None then StateCompleted else StateCompletedWithProjectionDebt)
      \<and> pred_option debt_complete (compl_debt c)"
  unfolding Let_def
  using completion_terminal[of policy publication]
  by (auto simp: CompletionAfterLocalEvidence_def debt_complete_def projectionDebt_def Let_def
      projectionDebtCarrier_def projectionDebtTarget_def projectionDebtLastError_def
      projectionDebtRetryPolicy_def)

end
