(* ===== verification/ScopeAuth.thy ===== *)
theory ScopeAuth
  imports GoPath
begin

text \<open>
  \<open>internal/scopeauth/scope_authorization.go\<close>: does a set of changed paths stay inside the
  scope of a commission? Every changed path is normalised to a clean path below the workspace
  (or it is unknown), matched against the forbidden and then the allowed patterns, and put into
  one of four lists; the summary's verdict is the worst list that is not empty. Paths are
  Unix paths. \<open>globRegex\<close> builds a regular expression from a pattern and matches it; here the
  pattern is read as the items of that expression and matched directly (on valid UTF-8, the
  only pattern text \<open>regexp.MustCompile\<close> accepts, runes and bytes agree).
\<close>

section \<open>Data\<close>

text \<open>\<open>NoVerdict\<close> is the zero value of the string type, before \<open>withVerdict\<close>.\<close>

datatype Verdict = NoVerdict | Allowed | OutOfScope | Forbidden | UnknownScope

datatype ReasonCode = ReasonOutOfScope | ReasonForbidden | ReasonUnknownScope

record CommissionScope =
  cs_allowed_paths :: "string list"
  cs_forbidden_paths :: "string list"
  cs_affected_files :: "string list"
  cs_lockset :: "string list"

record PathFacts =
  pf_workspace_root :: string
  pf_project_root :: string

record Summary =
  sm_verdict :: Verdict
  sm_allowed :: "string list"
  sm_out_of_scope :: "string list"
  sm_forbidden :: "string list"
  sm_unknown_scope :: "string list"

text \<open>The zero \<open>BlockingReason\<close> (empty code) is \<open>None\<close> of the option below.\<close>

record BlockingReason =
  br_code :: ReasonCode
  br_verdict :: Verdict
  br_paths :: "string list"

definition CanApply :: "Summary \<Rightarrow> bool" where
  "CanApply summary \<longleftrightarrow> sm_verdict summary = Allowed \<and> length (sm_allowed summary) > 0"

definition blockingReason :: "Summary \<Rightarrow> BlockingReason option" where
  "blockingReason summary =
     (case sm_verdict summary of
        Forbidden \<Rightarrow> Some \<lparr>br_code = ReasonForbidden, br_verdict = Forbidden, br_paths = sm_forbidden summary\<rparr>
      | UnknownScope \<Rightarrow>
          Some \<lparr>br_code = ReasonUnknownScope, br_verdict = UnknownScope, br_paths = sm_unknown_scope summary\<rparr>
      | OutOfScope \<Rightarrow>
          Some \<lparr>br_code = ReasonOutOfScope, br_verdict = OutOfScope, br_paths = sm_out_of_scope summary\<rparr>
      | _ \<Rightarrow> None)"

section \<open>Normalising a changed path\<close>

definition normalizeRelativeChangedPath :: "string \<Rightarrow> string option" where
  "normalizeRelativeChangedPath changedPath =
     (let cleanedPath = path_clean changedPath; normalizedPath = path_clean cleanedPath
      in if normalizedPath = ''.'' then None
         else if normalizedPath = ''..'' \<or> prefix ''../'' normalizedPath then None
         else if is_abs normalizedPath then None
         else Some normalizedPath)"

definition normalizeUnderRoot :: "string \<Rightarrow> string \<Rightarrow> string option" where
  "normalizeUnderRoot changedPath root =
     (let cleanedRoot = trim_space root
      in if cleanedRoot = [] then None
         else (case rel_path (path_clean cleanedRoot) (path_clean changedPath) of
                 None \<Rightarrow> None
               | Some relativePath \<Rightarrow> normalizeRelativeChangedPath relativePath))"

definition normalizeAbsoluteChangedPath :: "string \<Rightarrow> PathFacts \<Rightarrow> string option" where
  "normalizeAbsoluteChangedPath changedPath facts =
     (case normalizeUnderRoot changedPath (pf_workspace_root facts) of
        Some p \<Rightarrow> Some p
      | None \<Rightarrow> normalizeUnderRoot changedPath (pf_project_root facts))"

definition normalizeChangedPath :: "string \<Rightarrow> PathFacts \<Rightarrow> string option" where
  "normalizeChangedPath changedPath facts =
     (let cleanedPath = trim_space changedPath
      in if cleanedPath = [] then None
         else if is_abs cleanedPath then normalizeAbsoluteChangedPath cleanedPath facts
         else normalizeRelativeChangedPath cleanedPath)"

definition normalizeScopePattern :: "string \<Rightarrow> string option" where
  "normalizeScopePattern pattern =
     (let trimmedPattern = trim_space pattern
      in if trimmedPattern = [] then None
         else (let normalizedPattern = path_clean trimmedPattern
               in if normalizedPattern = ''.'' then Some ''.''
                  else if normalizedPattern = ''..'' \<or> prefix ''../'' normalizedPattern then None
                  else if is_abs normalizedPattern then None
                  else Some normalizedPattern))"

section \<open>Matching patterns\<close>

text \<open>
  The regular expression of \<open>globRegex\<close>: a double star becomes \<open>.*\<close> (any bytes but a newline),
  a remaining star \<open>[^/]*\<close>, anything else stands for itself.
\<close>

datatype rx = RLit char | RAny | RSeg

fun glob_items :: "string \<Rightarrow> rx list" where
  "glob_items [] = []"
| "glob_items (c # s) =
     (if c = CHR ''*'' then
        (if s \<noteq> [] \<and> hd s = CHR ''*'' then RAny # glob_items (tl s) else RSeg # glob_items s)
      else RLit c # glob_items s)"

fun rx_match :: "rx list \<Rightarrow> string \<Rightarrow> bool" where
  "rx_match [] s = (s = [])"
| "rx_match (RLit c # r) s = (case s of [] \<Rightarrow> False | d # t \<Rightarrow> c = d \<and> rx_match r t)"
| "rx_match (RAny # r) s =
     (rx_match r s \<or> (case s of [] \<Rightarrow> False | d # t \<Rightarrow> d \<noteq> CHR 0x0A \<and> rx_match (RAny # r) t))"
| "rx_match (RSeg # r) s =
     (rx_match r s \<or> (case s of [] \<Rightarrow> False | d # t \<Rightarrow> d \<noteq> CHR ''/'' \<and> rx_match (RSeg # r) t))"

declare rx_match.simps(3,4) [simp del]

definition globRegex_match :: "string \<Rightarrow> string \<Rightarrow> bool" where
  "globRegex_match pattern s = rx_match (glob_items pattern) s"

definition scopePatternIsDirectory :: "string \<Rightarrow> bool" where
  "scopePatternIsDirectory pattern = suffix ''/'' (trim_space pattern)"

definition pathMatches :: "string \<Rightarrow> string \<Rightarrow> bool" where
  "pathMatches pattern changedPath =
     (case normalizeScopePattern pattern of
        None \<Rightarrow> False
      | Some normalizedPattern \<Rightarrow>
          if normalizedPattern = ''.'' then True
          else if normalizedPattern = ''**/*'' then True
          else if suffix ''/**'' normalizedPattern then
            (let pre = trim_suffix ''/**'' normalizedPattern
             in changedPath = pre \<or> prefix (pre @ ''/'') changedPath)
          else if scopePatternIsDirectory pattern then
            changedPath = normalizedPattern \<or> prefix (normalizedPattern @ ''/'') changedPath
          else if CHR ''*'' \<in> set normalizedPattern then
            globRegex_match normalizedPattern changedPath
          else changedPath = normalizedPattern)"

definition pathMatchesAny :: "string list \<Rightarrow> string \<Rightarrow> bool" where
  "pathMatchesAny patterns changedPath \<longleftrightarrow> list_ex (\<lambda>pattern. pathMatches pattern changedPath) patterns"

section \<open>The summary\<close>

definition hasAny :: "string list \<Rightarrow> bool" where
  "hasAny values \<longleftrightarrow> list_ex (\<lambda>value. trim_space value \<noteq> []) values"

definition hasAnyCarrier :: "CommissionScope \<Rightarrow> bool" where
  "hasAnyCarrier scope \<longleftrightarrow>
     hasAny (cs_allowed_paths scope) \<or> hasAny (cs_forbidden_paths scope)
     \<or> hasAny (cs_affected_files scope) \<or> hasAny (cs_lockset scope)"

definition appendUnique :: "string list \<Rightarrow> string \<Rightarrow> string list" where
  "appendUnique values value =
     (if trim_space value = [] then values
      else if value \<in> set values then values
      else values @ [value])"

definition appendAllowed :: "Summary \<Rightarrow> string \<Rightarrow> Summary" where
  "appendAllowed summary p = summary\<lparr>sm_allowed := appendUnique (sm_allowed summary) p\<rparr>"

definition appendOutOfScope :: "Summary \<Rightarrow> string \<Rightarrow> Summary" where
  "appendOutOfScope summary p = summary\<lparr>sm_out_of_scope := appendUnique (sm_out_of_scope summary) p\<rparr>"

definition appendForbidden :: "Summary \<Rightarrow> string \<Rightarrow> Summary" where
  "appendForbidden summary p = summary\<lparr>sm_forbidden := appendUnique (sm_forbidden summary) p\<rparr>"

definition appendUnknown :: "Summary \<Rightarrow> string \<Rightarrow> Summary" where
  "appendUnknown summary p = summary\<lparr>sm_unknown_scope := appendUnique (sm_unknown_scope summary) p\<rparr>"

definition authorizePath :: "CommissionScope \<Rightarrow> PathFacts \<Rightarrow> string \<Rightarrow> Summary \<Rightarrow> Summary" where
  "authorizePath scope facts changedPath summary =
     (case normalizeChangedPath changedPath facts of
        None \<Rightarrow> appendUnknown summary changedPath
      | Some normalizedPath \<Rightarrow>
          if pathMatchesAny (cs_forbidden_paths scope) normalizedPath then
            appendForbidden summary normalizedPath
          else if pathMatchesAny (cs_allowed_paths scope) normalizedPath then
            appendAllowed summary normalizedPath
          else if hasAnyCarrier scope then appendOutOfScope summary normalizedPath
          else appendUnknown summary normalizedPath)"

definition withVerdict :: "CommissionScope \<Rightarrow> Summary \<Rightarrow> Summary" where
  "withVerdict scope summary =
     (if length (sm_forbidden summary) > 0 then summary\<lparr>sm_verdict := Forbidden\<rparr>
      else if length (sm_unknown_scope summary) > 0 then summary\<lparr>sm_verdict := UnknownScope\<rparr>
      else if length (sm_out_of_scope summary) > 0 then summary\<lparr>sm_verdict := OutOfScope\<rparr>
      else if length (sm_allowed summary) > 0 then summary\<lparr>sm_verdict := Allowed\<rparr>
      else if hasAnyCarrier scope then summary\<lparr>sm_verdict := OutOfScope\<rparr>
      else summary\<lparr>sm_verdict := UnknownScope\<rparr>)"

definition empty_summary :: Summary where
  "empty_summary = \<lparr>sm_verdict = NoVerdict, sm_allowed = [], sm_out_of_scope = [],
     sm_forbidden = [], sm_unknown_scope = []\<rparr>"

definition AuthorizeWorkspaceDiff :: "CommissionScope \<Rightarrow> string list \<Rightarrow> PathFacts \<Rightarrow> Summary" where
  "AuthorizeWorkspaceDiff scope changedPaths facts =
     withVerdict scope (fold (authorizePath scope facts) changedPaths empty_summary)"

section \<open>A normalised path stays below the workspace\<close>

lemma normalizeRelative_Some:
  assumes "normalizeRelativeChangedPath p = Some q"
  shows "q = path_clean p \<and> path_clean q = q \<and> \<not> is_abs q \<and> (\<forall>c\<in>set (comps q). ordinary c)"
proof -
  have q: "q = path_clean p" "\<not> is_abs (path_clean p)" "path_clean p \<noteq> ''.''" "path_clean p \<noteq> ''..''"
      "\<not> prefix ''../'' (path_clean p)"
    using assms by (auto simp: normalizeRelativeChangedPath_def Let_def split: if_splits)
  then show ?thesis using clean_relative_ordinary[of p] by simp
qed

lemma normalizeUnderRoot_Some:
  assumes "normalizeUnderRoot p root = Some q"
  shows "\<exists>r. normalizeRelativeChangedPath r = Some q"
  using assms by (auto simp: normalizeUnderRoot_def Let_def split: if_splits option.splits)

lemma normalizeChangedPath_Some:
  assumes "normalizeChangedPath p facts = Some q"
  shows "\<exists>r. normalizeRelativeChangedPath r = Some q"
  using assms normalizeUnderRoot_Some
  by (auto simp: normalizeChangedPath_def normalizeAbsoluteChangedPath_def Let_def
      split: if_splits option.splits)

text \<open>
  Whatever a changed path is, the path it is normalised to names something strictly below
  the workspace root: it is relative, in clean form, and none of its components is empty, a dot
  or a double dot, so no pattern can match a path that climbs out.
\<close>

theorem normalized_path_below_root:
  assumes "normalizeChangedPath p facts = Some q"
  shows "\<not> is_abs q \<and> path_clean q = q \<and>
    list_all (\<lambda>c. c \<noteq> [] \<and> c \<noteq> ''.'' \<and> c \<noteq> ''..'') (comps q)"
proof -
  obtain r where "normalizeRelativeChangedPath r = Some q"
    using normalizeChangedPath_Some[OF assms] by blast
  from normalizeRelative_Some[OF this] show ?thesis
    by (auto simp: list_all_iff ordinary_def)
qed

lemma normalized_path_below_root_witness:
  "normalizeChangedPath ''/repo/a/../src//x.go'' \<lparr>pf_workspace_root = ''/repo'', pf_project_root = []\<rparr>
     = Some ''src/x.go''
   \<and> \<not> is_abs ''src/x.go''"
proof -
  have h: "normalizeChangedPath ''/repo/a/../src//x.go''
      \<lparr>pf_workspace_root = ''/repo'', pf_project_root = []\<rparr> = Some ''src/x.go''"
    by code_simp
  from h normalized_path_below_root[OF h] show ?thesis by blast
qed

lemma normalized_relative_idem:
  assumes "normalizeRelativeChangedPath p = Some q"
  shows "normalizeRelativeChangedPath q = Some q"
  using assms normalizeRelative_Some[OF assms]
  by (auto simp: normalizeRelativeChangedPath_def Let_def split: if_splits)

section \<open>What the lists of the summary hold\<close>

text \<open>The list a changed path goes to, and the text recorded there; a blank text is dropped.\<close>

definition classify :: "CommissionScope \<Rightarrow> PathFacts \<Rightarrow> string \<Rightarrow> Verdict \<times> string" where
  "classify scope facts p =
     (case normalizeChangedPath p facts of
        None \<Rightarrow> (UnknownScope, p)
      | Some q \<Rightarrow>
          if pathMatchesAny (cs_forbidden_paths scope) q then (Forbidden, q)
          else if pathMatchesAny (cs_allowed_paths scope) q then (Allowed, q)
          else if hasAnyCarrier scope then (OutOfScope, q)
          else (UnknownScope, q))"

definition recorded :: "CommissionScope \<Rightarrow> PathFacts \<Rightarrow> string list \<Rightarrow> Verdict \<Rightarrow> string set" where
  "recorded scope facts ps v =
     {x. \<exists>p\<in>set ps. classify scope facts p = (v, x) \<and> trim_space x \<noteq> []}"

definition sm_list :: "Verdict \<Rightarrow> Summary \<Rightarrow> string list" where
  "sm_list v s =
     (case v of Allowed \<Rightarrow> sm_allowed s | OutOfScope \<Rightarrow> sm_out_of_scope s
      | Forbidden \<Rightarrow> sm_forbidden s | UnknownScope \<Rightarrow> sm_unknown_scope s | NoVerdict \<Rightarrow> [])"

lemma set_appendUnique: "set (appendUnique xs x) = set xs \<union> (if trim_space x = [] then {} else {x})"
  by (auto simp: appendUnique_def)

lemma classify_not_NoVerdict: "classify scope facts p \<noteq> (NoVerdict, x)"
  by (auto simp: classify_def split: option.splits)

lemma sm_list_authorizePath:
  "set (sm_list v (authorizePath scope facts p s)) =
     set (sm_list v s) \<union> recorded scope facts [p] v"
  by (cases v)
    (auto simp: sm_list_def authorizePath_def recorded_def classify_def appendUnknown_def
      appendForbidden_def appendAllowed_def appendOutOfScope_def set_appendUnique
      split: option.splits if_splits)

lemma recorded_Cons: "recorded scope facts (p # ps) v = recorded scope facts [p] v \<union> recorded scope facts ps v"
  by (auto simp: recorded_def)

lemma sm_list_fold:
  "set (sm_list v (fold (authorizePath scope facts) ps s)) =
     set (sm_list v s) \<union> recorded scope facts ps v"
proof (induction ps arbitrary: s)
  case Nil
  then show ?case by (simp add: recorded_def)
next
  case (Cons p ps)
  then show ?case by (simp add: sm_list_authorizePath recorded_Cons[of _ _ p ps] Un_assoc)
qed

lemma sm_list_withVerdict [simp]: "sm_list v (withVerdict scope s) = sm_list v s"
  by (cases v) (auto simp: sm_list_def withVerdict_def)

lemma sm_list_empty [simp]: "sm_list v empty_summary = []"
  by (cases v) (simp_all add: sm_list_def empty_summary_def)

lemma sm_list_authorize:
  "set (sm_list v (AuthorizeWorkspaceDiff scope ps facts)) = recorded scope facts ps v"
  by (simp add: AuthorizeWorkspaceDiff_def sm_list_fold)

lemma withVerdict_verdict:
  "sm_verdict (withVerdict scope s) =
     (if set (sm_list Forbidden s) \<noteq> {} then Forbidden
      else if set (sm_list UnknownScope s) \<noteq> {} then UnknownScope
      else if set (sm_list OutOfScope s) \<noteq> {} then OutOfScope
      else if set (sm_list Allowed s) \<noteq> {} then Allowed
      else if hasAnyCarrier scope then OutOfScope else UnknownScope)"
  by (simp add: withVerdict_def sm_list_def)

lemma authorize_verdict:
  "sm_verdict (AuthorizeWorkspaceDiff scope ps facts) =
     (if recorded scope facts ps Forbidden \<noteq> {} then Forbidden
      else if recorded scope facts ps UnknownScope \<noteq> {} then UnknownScope
      else if recorded scope facts ps OutOfScope \<noteq> {} then OutOfScope
      else if recorded scope facts ps Allowed \<noteq> {} then Allowed
      else if hasAnyCarrier scope then OutOfScope else UnknownScope)"
  by (simp only: AuthorizeWorkspaceDiff_def withVerdict_verdict sm_list_fold sm_list_empty
      list.set Un_empty_left)

lemma classify_text:
  "snd (classify scope facts p) = (case normalizeChangedPath p facts of None \<Rightarrow> p | Some q \<Rightarrow> q)"
  by (simp add: classify_def split: option.splits)

text \<open>
  The paths the summary counts: those whose recorded text is not blank (a blank changed path,
  or one cleaned to white space, is dropped by \<open>appendUnique\<close>).
\<close>

definition counted :: "PathFacts \<Rightarrow> string \<Rightarrow> bool" where
  "counted facts p \<longleftrightarrow>
     trim_space (case normalizeChangedPath p facts of None \<Rightarrow> p | Some q \<Rightarrow> q) \<noteq> []"

definition path_authorized :: "CommissionScope \<Rightarrow> PathFacts \<Rightarrow> string \<Rightarrow> bool" where
  "path_authorized scope facts p \<longleftrightarrow>
     (case normalizeChangedPath p facts of
        None \<Rightarrow> False
      | Some q \<Rightarrow> pathMatchesAny (cs_allowed_paths scope) q \<and> \<not> pathMatchesAny (cs_forbidden_paths scope) q)"

lemma classify_Allowed: "fst (classify scope facts p) = Allowed \<longleftrightarrow> path_authorized scope facts p"
  by (auto simp: classify_def path_authorized_def split: option.splits)

lemma counted_classify: "counted facts p \<longleftrightarrow> trim_space (snd (classify scope facts p)) \<noteq> []"
  by (simp add: counted_def classify_text)

lemma recorded_image:
  "recorded scope facts ps v =
     (\<lambda>p. snd (classify scope facts p)) ` {p \<in> set ps. counted facts p \<and> fst (classify scope facts p) = v}"
  by (force simp: recorded_def counted_classify[of _ _ scope])

lemma recorded_nonempty:
  "recorded scope facts ps v \<noteq> {} \<longleftrightarrow> (\<exists>p\<in>set (filter (counted facts) ps). fst (classify scope facts p) = v)"
  by (auto simp: recorded_image)

lemma authorize_allowed_iff:
  "sm_verdict (AuthorizeWorkspaceDiff scope ps facts) = Allowed \<longleftrightarrow>
     filter (counted facts) ps \<noteq> [] \<and> list_all (path_authorized scope facts) (filter (counted facts) ps)"
proof -
  let ?C = "filter (counted facts) ps"
  have cases: "fst (classify scope facts p) \<in> {Allowed, OutOfScope, Forbidden, UnknownScope}" for p
    by (auto simp: classify_def split: option.splits)
  have "sm_verdict (AuthorizeWorkspaceDiff scope ps facts) = Allowed \<longleftrightarrow>
      (\<exists>p\<in>set ?C. fst (classify scope facts p) = Allowed) \<and> (\<forall>p\<in>set ?C. fst (classify scope facts p) = Allowed)"
    unfolding authorize_verdict recorded_nonempty using cases by (auto split: if_splits)
  also have "\<dots> \<longleftrightarrow> ?C \<noteq> [] \<and> (\<forall>p\<in>set ?C. fst (classify scope facts p) = Allowed)"
    using last_in_set[of ?C] by fastforce
  finally show ?thesis by (simp add: classify_Allowed list_all_iff)
qed

lemma canApply_verdict:
  "CanApply (AuthorizeWorkspaceDiff scope ps facts) \<longleftrightarrow>
     sm_verdict (AuthorizeWorkspaceDiff scope ps facts) = Allowed"
proof -
  have "set (sm_allowed (AuthorizeWorkspaceDiff scope ps facts)) = recorded scope facts ps Allowed"
    using sm_list_authorize[of Allowed scope ps facts] by (simp add: sm_list_def)
  then have "0 < length (sm_allowed (AuthorizeWorkspaceDiff scope ps facts))"
    if "sm_verdict (AuthorizeWorkspaceDiff scope ps facts) = Allowed"
    using that by (auto simp: authorize_verdict split: if_splits)
  then show ?thesis by (auto simp: CanApply_def)
qed

text \<open>
  C23. A workspace diff can be applied exactly when it changes something and every changed path
  it counts is normalised below the workspace, matches an allowed pattern and matches no
  forbidden pattern.
\<close>

theorem can_apply_iff:
  "CanApply (AuthorizeWorkspaceDiff scope ps facts) \<longleftrightarrow>
     filter (counted facts) ps \<noteq> [] \<and> list_all (path_authorized scope facts) (filter (counted facts) ps)"
  by (simp add: canApply_verdict authorize_allowed_iff)

lemma pathMatchesAny_mono:
  "set ps \<subseteq> set qs \<Longrightarrow> pathMatchesAny ps q \<Longrightarrow> pathMatchesAny qs q"
  by (auto simp: pathMatchesAny_def list_ex_iff)

lemma path_authorized_mono:
  assumes "set (cs_allowed_paths scope) \<subseteq> set (cs_allowed_paths scope')"
    "set (cs_forbidden_paths scope') \<subseteq> set (cs_forbidden_paths scope)"
    "path_authorized scope facts p"
  shows "path_authorized scope' facts p"
  using assms pathMatchesAny_mono[OF assms(1)] pathMatchesAny_mono[OF assms(2)]
  by (auto simp: path_authorized_def split: option.splits)

text \<open>
  Narrowing a scope never admits a diff: if a diff can be applied under a scope, it can be
  applied under any scope that allows at least as many patterns and forbids at most as many,
  and so can every part of it that changes something.
\<close>

theorem can_apply_monotone:
  assumes "CanApply (AuthorizeWorkspaceDiff scope ps facts)"
    and "set (cs_allowed_paths scope) \<subseteq> set (cs_allowed_paths scope')"
    and "set (cs_forbidden_paths scope') \<subseteq> set (cs_forbidden_paths scope)"
    and "set qs \<subseteq> set ps" and "filter (counted facts) qs \<noteq> []"
  shows "CanApply (AuthorizeWorkspaceDiff scope' qs facts)"
  using assms path_authorized_mono[OF assms(2,3)]
  unfolding canApply_verdict authorize_allowed_iff list_all_iff by auto

definition example_scope :: CommissionScope where
  "example_scope = \<lparr>cs_allowed_paths = [''src/**'', ''docs/*.md''], cs_forbidden_paths = [''src/secret/''],
     cs_affected_files = [], cs_lockset = []\<rparr>"

definition example_facts :: PathFacts where
  "example_facts = \<lparr>pf_workspace_root = ''/w'', pf_project_root = []\<rparr>"

lemma can_apply_monotone_witness:
  "CanApply (AuthorizeWorkspaceDiff (example_scope\<lparr>cs_forbidden_paths := []\<rparr>) [''/w/src/a.go''] example_facts)"
proof -
  have h1: "CanApply (AuthorizeWorkspaceDiff example_scope [''/w/src/a.go'', ''docs/b.md''] example_facts)"
    by code_simp
  have h5: "filter (counted example_facts) [''/w/src/a.go''] \<noteq> []" by code_simp
  show ?thesis
    by (rule can_apply_monotone[OF h1 _ _ _ h5]) simp_all
qed

text \<open>
  The verdict is decided by the worst counted path, in the order forbidden, unknown, out of
  scope; it does not depend on the order or the repetition of the changed paths; and a verdict
  other than \<open>Allowed\<close> always comes with its blocking reason.
\<close>

theorem verdict_worst_path:
  "let has = (\<lambda>v. list_ex (\<lambda>p. fst (classify scope facts p) = v) (filter (counted facts) ps));
       s = AuthorizeWorkspaceDiff scope ps facts
   in sm_verdict s =
        (if has Forbidden then Forbidden else if has UnknownScope then UnknownScope
         else if has OutOfScope then OutOfScope else if has Allowed then Allowed
         else if hasAnyCarrier scope then OutOfScope else UnknownScope)
      \<and> sm_verdict s = sm_verdict (AuthorizeWorkspaceDiff scope (sort ps) facts)
      \<and> (blockingReason s = None \<longleftrightarrow> sm_verdict s = Allowed)"
proof -
  have rec: "recorded scope facts ps v \<noteq> {} \<longleftrightarrow>
      list_ex (\<lambda>p. fst (classify scope facts p) = v) (filter (counted facts) ps)" for v
    by (simp only: recorded_nonempty list_ex_iff)
  have "recorded scope facts (sort ps) v = recorded scope facts ps v" for v
    by (simp add: recorded_def)
  moreover have "sm_verdict (AuthorizeWorkspaceDiff scope ps facts) \<noteq> NoVerdict"
    by (simp add: authorize_verdict)
  ultimately show ?thesis
    unfolding Let_def
    by (auto simp: authorize_verdict rec blockingReason_def split: Verdict.splits)
qed

section \<open>Directory and glob patterns\<close>

definition directory_of :: "string \<Rightarrow> string option" where
  "directory_of pattern =
     (case normalizeScopePattern pattern of
        None \<Rightarrow> None
      | Some n \<Rightarrow>
          if n = ''.'' \<or> n = ''**/*'' then None
          else if suffix ''/**'' n then Some (trim_suffix ''/**'' n)
          else if scopePatternIsDirectory pattern then Some n
          else None)"

text \<open>
  A directory pattern (one ending in a slash or in a slash and two stars) matches exactly
  the directory and what is below it, by whole components: \<open>src/**\<close> does not match \<open>srcfoo\<close>.
\<close>

theorem directory_pattern_components:
  assumes "directory_of pattern = Some d"
  shows "pathMatches pattern q \<longleftrightarrow> prefix (comps d) (comps q)"
  using assms unfolding comps_prefix
  by (auto simp: directory_of_def pathMatches_def Let_def split: option.splits if_splits)

lemma directory_pattern_components_witness:
  "directory_of ''src/**'' = Some ''src'' \<and> pathMatches ''src/**'' ''src/a/b.go''
   \<and> \<not> pathMatches ''src/**'' ''srcfoo/b.go''"
proof -
  have h: "directory_of ''src/**'' = Some ''src''" by code_simp
  show ?thesis
    using h unfolding directory_pattern_components[OF h] by (simp add: prefix_def)
qed

definition slashes :: "string \<Rightarrow> nat" where
  "slashes s = length (filter (\<lambda>c. c = CHR ''/'') s)"

lemma rx_match_segments:
  "rx_match r s \<Longrightarrow> RAny \<notin> set r \<Longrightarrow> slashes s = length (filter (\<lambda>i. i = RLit (CHR ''/'')) r)"
proof (induction r s rule: rx_match.induct)
  case (4 r s)
  show ?case
  proof (cases "rx_match r s")
    case True
    then show ?thesis using "4.IH"(1) "4.prems" by simp
  next
    case False
    then obtain d t where "s = d # t" "d \<noteq> CHR ''/''" "rx_match (RSeg # r) t"
      using "4.prems" by (auto simp: rx_match.simps(4)[of r s] split: list.splits)
    then show ?thesis using "4.IH"(2)[of d t] "4.prems" by (simp add: slashes_def)
  qed
qed (auto simp: slashes_def split: list.splits if_splits)

lemma glob_items_slashes:
  "\<not> sublist ''**'' p \<Longrightarrow> RAny \<notin> set (glob_items p) \<and>
     length (filter (\<lambda>i. i = RLit (CHR ''/'')) (glob_items p)) = slashes p"
proof (induction p rule: glob_items.induct)
  case 1
  then show ?case by (simp add: slashes_def)
next
  case (2 c s)
  have "\<not> sublist ''**'' s" using "2.prems" by (simp add: sublist_Cons_right)
  moreover have "\<not> (c = CHR ''*'' \<and> s \<noteq> [] \<and> hd s = CHR ''*'')"
  proof
    assume "c = CHR ''*'' \<and> s \<noteq> [] \<and> hd s = CHR ''*''"
    then have "c # s = [] @ ''**'' @ tl s" by (cases s) auto
    then show False using "2.prems" unfolding sublist_def by blast
  qed
  ultimately show ?case using "2.IH" by (auto simp: slashes_def)
qed

text \<open>
  A single star stays inside one path segment: a glob without two adjacent stars matches
  only paths with exactly as many slashes as the glob has.
\<close>

theorem single_star_one_segment:
  assumes "globRegex_match pattern q" and "\<not> sublist ''**'' pattern"
  shows "slashes q = slashes pattern"
  using rx_match_segments[of "glob_items pattern" q] glob_items_slashes[OF assms(2)] assms(1)
  by (simp add: globRegex_match_def)

lemma single_star_one_segment_witness:
  "slashes ''docs/x.md'' = slashes ''docs/*.md''"
  by (rule single_star_one_segment) code_simp+

section \<open>The contract for callers\<close>

text \<open>
  What a caller of the authorisation relies on: a list of paths is admitted when some path
  counts and every path that counts is permitted on its own.
\<close>

locale path_guard =
  fixes admits :: "'s \<Rightarrow> 'p list \<Rightarrow> bool"
    and counts :: "'p \<Rightarrow> bool"
    and permitted :: "'s \<Rightarrow> 'p \<Rightarrow> bool"
  assumes admits_iff: "admits s ps \<longleftrightarrow> filter counts ps \<noteq> [] \<and> list_all (permitted s) (filter counts ps)"
begin

lemma part: "admits s ps \<Longrightarrow> set qs \<subseteq> set ps \<Longrightarrow> filter counts qs \<noteq> [] \<Longrightarrow> admits s qs"
  unfolding admits_iff list_all_iff by auto

lemma joined: "admits s ps \<Longrightarrow> admits s qs \<Longrightarrow> admits s (ps @ qs)"
  unfolding admits_iff list_all_iff by auto

lemma same_set: "set ps = set qs \<Longrightarrow> admits s ps = admits s qs"
  unfolding admits_iff list_all_iff set_empty[symmetric] by simp

lemma nothing: "\<not> admits s []"
  unfolding admits_iff by simp

end

interpretation guard: path_guard
  "\<lambda>scope ps. sm_verdict (AuthorizeWorkspaceDiff scope ps facts) = Allowed"
  "counted facts" "\<lambda>scope. path_authorized scope facts" for facts
  by unfold_locales (rule authorize_allowed_iff)

lemma blockingReason_None:
  "blockingReason (AuthorizeWorkspaceDiff scope ps facts) = None \<longleftrightarrow>
     sm_verdict (AuthorizeWorkspaceDiff scope ps facts) = Allowed"
  unfolding blockingReason_def authorize_verdict by simp

end
