(* ===== verification/ImplPlan.thy ===== *)
theory ImplPlan
  imports GoValue GoPath "HOL-Library.Multiset"
begin

text \<open>
  \<open>internal/implementationplan/plan.go\<close>: parsing the payload of an implementation plan,
  validating its decision graph (no duplicate, no unknown dependency, no cycle), and the
  lockset overlap test that keeps concurrent commissions apart. \<open>dependenciesByRef\<close> is an
  association list; the loops that range over that map take the visiting order \<open>ord\<close>, any
  permutation of its keys.
\<close>

section \<open>Data\<close>

type_synonym DecisionRef = string
type_synonym Lockset = "string list"

record DecisionNode =
  dn_ref :: DecisionRef
  dn_depends_on :: "DecisionRef list"
  dn_lockset :: Lockset

record Plan =
  plan_id :: string
  plan_revision :: string
  plan_decisions :: "DecisionNode list"

type_synonym dependencies = "(DecisionRef \<times> DecisionRef list) list"

section \<open>Locksets\<close>

definition normalizeLockPath :: "string \<Rightarrow> string" where
  "normalizeLockPath value =
     (let v = trim_space value
      in if v = [] then []
         else (let w = trim_prefix ''./'' v in if w = [] then [] else path_clean w))"

definition NormalizeLockset :: "string list \<Rightarrow> Lockset" where
  "NormalizeLockset values =
     remdups_adj (sort (filter (\<lambda>p. p \<noteq> []) (map normalizeLockPath values)))"

definition lockPrefix :: "string \<Rightarrow> string option" where
  "lockPrefix pattern =
     (if suffix ''/**/*'' pattern then Some (trim_suffix ''/**/*'' pattern)
      else if suffix ''/**'' pattern then Some (trim_suffix ''/**'' pattern)
      else None)"

definition lockPrefixContains :: "string \<Rightarrow> string \<Rightarrow> bool" where
  "lockPrefixContains pattern candidate =
     (case lockPrefix pattern of
        None \<Rightarrow> False
      | Some pre \<Rightarrow> candidate = pre \<or> prefix (pre @ ''/'') candidate)"

definition lockPathsOverlap :: "string \<Rightarrow> string \<Rightarrow> bool" where
  "lockPathsOverlap left0 right0 =
     (let left = normalizeLockPath left0; right = normalizeLockPath right0
      in if left = [] \<or> right = [] then False
         else if left = ''**/*'' \<or> right = ''**/*'' then True
         else if left = ''*'' \<or> right = ''*'' then True
         else if left = right then True
         else if lockPrefixContains left right then True
         else if lockPrefixContains right left then True
         else path_match left right \<or> path_match right left)"

definition ConflictsWith :: "Lockset \<Rightarrow> Lockset \<Rightarrow> bool" where
  "ConflictsWith lockset other \<longleftrightarrow>
     list_ex (\<lambda>leftPath. list_ex (\<lambda>rightPath. lockPathsOverlap leftPath rightPath) other) lockset"

definition LocksetsOverlap :: "string list \<Rightarrow> string list \<Rightarrow> bool" where
  "LocksetsOverlap left right = ConflictsWith (NormalizeLockset left) (NormalizeLockset right)"

lemma set_NormalizeLockset: "set (NormalizeLockset vs) = normalizeLockPath ` set vs - {[]}"
  by (auto simp: NormalizeLockset_def)

lemma lockPathsOverlap_sym: "lockPathsOverlap a b = lockPathsOverlap b a"
  by (auto simp: lockPathsOverlap_def Let_def)

lemma lockPathsOverlap_refl: "normalizeLockPath a \<noteq> [] \<Longrightarrow> lockPathsOverlap a a"
  by (simp add: lockPathsOverlap_def Let_def)

lemma LocksetsOverlap_iff:
  "LocksetsOverlap xs ys \<longleftrightarrow>
     (\<exists>x\<in>set (NormalizeLockset xs). \<exists>y\<in>set (NormalizeLockset ys). lockPathsOverlap x y)"
  by (simp add: LocksetsOverlap_def ConflictsWith_def list_ex_iff)

lemma LocksetsOverlap_sym: "LocksetsOverlap xs ys = LocksetsOverlap ys xs"
  unfolding LocksetsOverlap_iff using lockPathsOverlap_sym by blast

lemma LocksetsOverlap_cong:
  "set xs = set xs' \<Longrightarrow> set ys = set ys' \<Longrightarrow> LocksetsOverlap xs ys = LocksetsOverlap xs' ys'"
  by (simp add: LocksetsOverlap_iff set_NormalizeLockset)

lemma LocksetsOverlap_mono:
  "LocksetsOverlap xs ys \<Longrightarrow> set xs \<subseteq> set xs' \<Longrightarrow> set ys \<subseteq> set ys' \<Longrightarrow> LocksetsOverlap xs' ys'"
  unfolding LocksetsOverlap_iff set_NormalizeLockset by fastforce

text \<open>
  The lockset test is fit for mutual exclusion: it is symmetric; a lockset with a real
  path conflicts with itself; it does not depend on the order or repetition of the paths; more
  paths never conflict less; and the wildcard \<open>**/*\<close> conflicts with everything.
\<close>

theorem lockset_overlap_laws:
  "LocksetsOverlap xs ys = LocksetsOverlap ys xs
   \<and> (LocksetsOverlap xs xs \<longleftrightarrow> NormalizeLockset xs \<noteq> [] \<and> list_ex (\<lambda>x. LocksetsOverlap [x] xs) xs)
   \<and> LocksetsOverlap xs ys = LocksetsOverlap (remdups (rev xs)) (sort ys)
   \<and> \<not> (LocksetsOverlap xs ys \<and> \<not> LocksetsOverlap (xs @ zs) (ws @ ys))"
proof -
  have 1: "LocksetsOverlap xs xs \<longleftrightarrow> NormalizeLockset xs \<noteq> [] \<and> list_ex (\<lambda>x. LocksetsOverlap [x] xs) xs"
    unfolding LocksetsOverlap_iff list_ex_iff set_NormalizeLockset set_empty[symmetric] by auto
  have 2: "LocksetsOverlap xs ys = LocksetsOverlap (remdups (rev xs)) (sort ys)"
    by (rule LocksetsOverlap_cong) simp_all
  have 3: "\<not> (LocksetsOverlap xs ys \<and> \<not> LocksetsOverlap (xs @ zs) (ws @ ys))"
    using LocksetsOverlap_mono[of xs ys "xs @ zs" "ws @ ys"] by auto
  show ?thesis using 1 2 3 LocksetsOverlap_sym[of xs ys] by blast
qed

section \<open>Parsing the payload\<close>

fun uniqueDecisionRefs_from :: "DecisionRef set \<Rightarrow> DecisionRef list \<Rightarrow> DecisionRef list" where
  "uniqueDecisionRefs_from seen [] = []"
| "uniqueDecisionRefs_from seen (value # values) =
     (if value = [] then uniqueDecisionRefs_from seen values
      else if value \<in> seen then uniqueDecisionRefs_from seen values
      else value # uniqueDecisionRefs_from (insert value seen) values)"

definition uniqueDecisionRefs :: "DecisionRef list \<Rightarrow> DecisionRef list" where
  "uniqueDecisionRefs values = uniqueDecisionRefs_from {} values"

fun anyStringSlice :: "nat \<Rightarrow> gval list \<Rightarrow> string \<Rightarrow> string list result" where
  "anyStringSlice index [] label = Inr []"
| "anyStringSlice index (value # values) label =
     (case value of
        GStr text \<Rightarrow>
          (case anyStringSlice (Suc index) values label of
             Inl e \<Rightarrow> Inl e
           | Inr rest \<Rightarrow>
               (let cleaned = trim_space text in Inr (if cleaned \<noteq> [] then cleaned # rest else rest)))
      | _ \<Rightarrow> Inl (label @ ''['' @ show_nat index @ ''] must be a string''))"

definition planStringSliceField :: "payload \<Rightarrow> string \<Rightarrow> string \<Rightarrow> string list result" where
  "planStringSliceField entry key label =
     (case map_of entry key of
        None \<Rightarrow> Inr []
      | Some (GStrs values) \<Rightarrow> Inr (cleanStringSlice values)
      | Some (GArr values) \<Rightarrow> anyStringSlice 0 values label
      | Some _ \<Rightarrow> Inl (label @ '' must be an array of strings''))"

definition decisionRefSliceField :: "payload \<Rightarrow> string \<Rightarrow> string \<Rightarrow> DecisionRef list result" where
  "decisionRefSliceField entry key label =
     (case planStringSliceField entry key label of
        Inl e \<Rightarrow> Inl e
      | Inr values \<Rightarrow> Inr (uniqueDecisionRefs values))"

definition locksetField :: "payload \<Rightarrow> string \<Rightarrow> string \<Rightarrow> Lockset result" where
  "locksetField entry key label =
     (case planStringSliceField entry key label of
        Inl e \<Rightarrow> Inl e
      | Inr values \<Rightarrow> Inr (NormalizeLockset values))"

definition requiredDecisionRef :: "string \<Rightarrow> string \<Rightarrow> DecisionRef result" where
  "requiredDecisionRef value label =
     (let cleaned = trim_space value
      in if cleaned = [] then Inl (label @ '' is required'') else Inr cleaned)"

definition decision_label :: "nat \<Rightarrow> string" where
  "decision_label index = ''plan.decisions['' @ show_nat index @ '']''"

definition decisionRefField :: "payload \<Rightarrow> nat \<Rightarrow> DecisionRef result" where
  "decisionRefField entry index =
     (let ref = stringField entry ''ref''; alternate = stringField entry ''decision_ref''
      in if ref \<noteq> [] \<and> alternate \<noteq> [] \<and> ref \<noteq> alternate
         then Inl (decision_label index @ ''.ref and decision_ref disagree'')
         else requiredDecisionRef (if ref = [] then alternate else ref) (decision_label index @ ''.ref''))"

definition decisionNodeFromMap :: "payload \<Rightarrow> nat \<Rightarrow> DecisionNode result" where
  "decisionNodeFromMap entry index =
     (case decisionRefField entry index of
        Inl e \<Rightarrow> Inl e
      | Inr ref \<Rightarrow>
          (case decisionRefSliceField entry ''depends_on'' (decision_label index @ ''.depends_on'') of
             Inl e \<Rightarrow> Inl e
           | Inr dependencies \<Rightarrow>
               (case locksetField entry ''lockset'' (decision_label index @ ''.lockset'') of
                  Inl e \<Rightarrow> Inl e
                | Inr lockset \<Rightarrow>
                    Inr \<lparr>dn_ref = ref, dn_depends_on = dependencies, dn_lockset = lockset\<rparr>)))"

definition decisionNode :: "gval \<Rightarrow> nat \<Rightarrow> DecisionNode result" where
  "decisionNode value index =
     (case value of
        GStr entry \<Rightarrow>
          (case requiredDecisionRef entry (decision_label index) of
             Inl e \<Rightarrow> Inl e
           | Inr ref \<Rightarrow> Inr \<lparr>dn_ref = ref, dn_depends_on = [], dn_lockset = []\<rparr>)
      | GMap entry \<Rightarrow> decisionNodeFromMap entry index
      | _ \<Rightarrow> Inl (decision_label index @ '' must be a decision ref string or object''))"

fun decisionNodes_from :: "nat \<Rightarrow> gval list \<Rightarrow> DecisionNode list result" where
  "decisionNodes_from index [] = Inr []"
| "decisionNodes_from index (value # values) =
     (case decisionNode value index of
        Inl e \<Rightarrow> Inl e
      | Inr decision \<Rightarrow>
          (case decisionNodes_from (Suc index) values of
             Inl e \<Rightarrow> Inl e
           | Inr decisions \<Rightarrow> Inr (decision # decisions)))"

definition decisionNodes :: "payload \<Rightarrow> DecisionNode list result" where
  "decisionNodes payload =
     (case map_of payload ''decisions'' of
        Some (GArr raw) \<Rightarrow>
          if raw = [] then Inl ''plan.decisions is required'' else decisionNodes_from 0 raw
      | _ \<Rightarrow> Inl ''plan.decisions is required'')"

definition requiredID :: "payload \<Rightarrow> string result" where
  "requiredID payload =
     (let value = stringField payload ''id''
      in if value = [] then Inl ''plan.id is required'' else Inr value)"

definition requiredRevision :: "payload \<Rightarrow> string result" where
  "requiredRevision payload =
     (let value = stringField payload ''revision''
      in if value = [] then Inl ''plan.revision is required'' else Inr value)"

section \<open>The decision graph\<close>

definition DecisionRefs :: "Plan \<Rightarrow> DecisionRef list" where
  "DecisionRefs plan = map dn_ref (plan_decisions plan)"

definition DependencyEdges :: "Plan \<Rightarrow> (DecisionRef \<times> DecisionRef) list" where
  "DependencyEdges plan =
     concat (map (\<lambda>decision. map (\<lambda>dependency. (dn_ref decision, dependency)) (dn_depends_on decision))
       (plan_decisions plan))"

fun dependenciesByRef_from :: "dependencies \<Rightarrow> DecisionNode list \<Rightarrow> dependencies result" where
  "dependenciesByRef_from m [] = Inr m"
| "dependenciesByRef_from m (decision # decisions) =
     (if map_of m (dn_ref decision) \<noteq> None
      then Inl (''plan decision '' @ dn_ref decision @ '' is duplicated'')
      else dependenciesByRef_from (m @ [(dn_ref decision, uniqueDecisionRefs (dn_depends_on decision))])
             decisions)"

definition dependenciesByRef :: "Plan \<Rightarrow> dependencies result" where
  "dependenciesByRef plan = dependenciesByRef_from [] (plan_decisions plan)"

definition deps :: "dependencies \<Rightarrow> DecisionRef \<Rightarrow> DecisionRef list" where
  "deps m ref = (case map_of m ref of Some ds \<Rightarrow> ds | None \<Rightarrow> [])"

fun checkDependencies :: "dependencies \<Rightarrow> DecisionRef \<Rightarrow> DecisionRef list \<Rightarrow> unit result" where
  "checkDependencies m ref [] = Inr ()"
| "checkDependencies m ref (dependency # dependencies) =
     (if dependency = ref then Inl (''plan decision '' @ ref @ '' depends on itself'')
      else if map_of m dependency = None
      then Inl (''plan decision '' @ ref @ '' depends on unknown decision '' @ dependency)
      else checkDependencies m ref dependencies)"

fun validateKnownDependencies :: "DecisionRef list \<Rightarrow> dependencies \<Rightarrow> unit result" where
  "validateKnownDependencies [] m = Inr ()"
| "validateKnownDependencies (ref # ord) m =
     (case checkDependencies m ref (deps m ref) of
        Inl e \<Rightarrow> Inl e
      | Inr _ \<Rightarrow> validateKnownDependencies ord m)"

text \<open>
  The depth-first search. The two Go maps are the sets of the refs they hold; the maps are
  mutated in place, so the state is threaded through. \<open>detectDependencies\<close> is the loop over the
  dependencies of a ref, and the loop of \<open>validateAcyclicDependencies\<close> over the keys.
\<close>

type_synonym search = "DecisionRef set \<times> DecisionRef set"

function detectCycle :: "dependencies \<Rightarrow> DecisionRef \<Rightarrow> search \<Rightarrow> search result"
  and detectDependencies :: "dependencies \<Rightarrow> DecisionRef list \<Rightarrow> search \<Rightarrow> search result"
where
  "detectCycle m ref (visiting, visited) =
     (if ref \<in> visited then Inr (visiting, visited)
      else if ref \<in> visiting
      then Inl (''plan decision dependency cycle includes '' @ ref)
      else (case detectDependencies m (deps m ref) (insert ref visiting, visited) of
              Inl e \<Rightarrow> Inl e
            | Inr (visiting', visited') \<Rightarrow> Inr (visiting' - {ref}, insert ref visited')))"
| "detectDependencies m [] st = Inr st"
| "detectDependencies m (dependency # dependencies) st =
     (case detectCycle m dependency st of
        Inl e \<Rightarrow> Inl e
      | Inr st' \<Rightarrow> detectDependencies m dependencies st')"
  by pat_completeness auto

lemma detect_restores_visiting_partial:
  "detectCycle_detectDependencies_dom (Inl (m, ref, st)) \<Longrightarrow>
     detectCycle m ref st = Inr st' \<Longrightarrow> fst st' = fst st"
  "detectCycle_detectDependencies_dom (Inr (m, refs, st)) \<Longrightarrow>
     detectDependencies m refs st = Inr st' \<Longrightarrow> fst st' = fst st"
proof (induction arbitrary: st' and st' rule: detectCycle_detectDependencies.pinduct)
  case (1 m ref visiting visited)
  note unfolded = "1.prems"[unfolded detectCycle.psimps[OF "1.hyps"]]
  show ?case
  proof (cases "ref \<in> visited \<or> ref \<in> visiting")
    case True
    then show ?thesis using unfolded by (auto split: if_splits)
  next
    case False
    with unfolded obtain vg vd where
      "detectDependencies m (deps m ref) (insert ref visiting, visited) = Inr (vg, vd)"
      "st' = (vg - {ref}, insert ref vd)"
      by (auto split: sum.splits)
    then show ?thesis using "1.IH"[of "(vg, vd)"] False by auto
  qed
next
  case (2 m st)
  then show ?case by (simp add: detectDependencies.psimps)
next
  case (3 m dependency dependencies st)
  note unfolded = "3.prems"[unfolded detectDependencies.psimps(2)[OF "3.hyps"]]
  from unfolded obtain st1 where first: "detectCycle m dependency st = Inr st1"
    and rest: "detectDependencies m dependencies st1 = Inr st'"
    by (auto split: sum.splits)
  show ?case using "3.IH"(1)[OF first] "3.IH"(2)[OF first rest] by simp
qed

lemma detect_terminates: "All detectCycle_detectDependencies_dom"
proof (relation "inv_image (less_than <*lex*> less_than)
    (\<lambda>x. case x of
       Inl (m, ref, st) \<Rightarrow> (card (fst ` set m - fst st), 1 :: nat)
     | Inr (m, refs, st) \<Rightarrow> (card (fst ` set m - fst st), 2 * length refs))")
  show "wf (inv_image (less_than <*lex*> less_than)
    (\<lambda>x. case x of
       Inl (m, ref, st) \<Rightarrow> (card (fst ` set m - fst st), 1 :: nat)
     | Inr (m, refs, st) \<Rightarrow> (card (fst ` set (m :: dependencies) - fst (st :: search)), 2 * length refs)))"
    by auto
next
  fix m :: dependencies and ref :: DecisionRef and visiting visited :: "DecisionRef set"
  assume "ref \<notin> visiting"
  moreover have "deps m ref = []" if "ref \<notin> fst ` set m"
  proof -
    have "map_of m ref = None" using that by (simp add: map_of_eq_None_iff)
    then show ?thesis by (simp add: deps_def)
  qed
  moreover have "card (fst ` set m - insert ref visiting) < card (fst ` set m - visiting)"
    if "ref \<in> fst ` set m" "ref \<notin> visiting"
    by (rule psubset_card_mono) (use that in auto)
  moreover have "fst ` set m - insert ref visiting = fst ` set m - visiting" if "ref \<notin> fst ` set m"
    using that by auto
  ultimately show "(Inr (m, deps m ref, insert ref visiting, visited), Inl (m, ref, visiting, visited))
       \<in> inv_image (less_than <*lex*> less_than)
           (\<lambda>x. case x of
              Inl (m, ref, st) \<Rightarrow> (card (fst ` set m - fst st), 1 :: nat)
            | Inr (m, refs, st) \<Rightarrow> (card (fst ` set m - fst st), 2 * length refs))"
    by (cases "ref \<in> fst ` set m") auto
next
  fix m :: dependencies and dependency dependencies st st'
  assume "detectCycle m dependency st = Inr st'"
    "detectCycle_detectDependencies_dom (Inl (m, dependency, st))"
  then have "fst st' = fst st" by (rule detect_restores_visiting_partial(1)[rotated])
  then show "(Inr (m, dependencies, st'), Inr (m, dependency # dependencies, st))
       \<in> inv_image (less_than <*lex*> less_than)
           (\<lambda>x. case x of
              Inl (m, ref, st) \<Rightarrow> (card (fst ` set m - fst st), 1 :: nat)
            | Inr (m, refs, st) \<Rightarrow> (card (fst ` set m - fst st), 2 * length refs))"
    by simp
qed auto

termination detectCycle by (rule detect_terminates)

declare detectCycle.simps [simp del]

definition validateAcyclicDependencies :: "DecisionRef list \<Rightarrow> dependencies \<Rightarrow> unit result" where
  "validateAcyclicDependencies ord m =
     (case detectDependencies m ord ({}, {}) of Inl e \<Rightarrow> Inl e | Inr _ \<Rightarrow> Inr ())"

text \<open>
  \<open>ord1\<close> and \<open>ord2\<close> are the orders in which the two \<open>range\<close> loops meet the keys of the map.
\<close>

definition ValidateDAG ::
  "(DecisionRef list \<Rightarrow> DecisionRef list) \<Rightarrow> (DecisionRef list \<Rightarrow> DecisionRef list) \<Rightarrow> Plan \<Rightarrow> unit result"
where
  "ValidateDAG ord1 ord2 plan =
     (case dependenciesByRef plan of
        Inl e \<Rightarrow> Inl e
      | Inr m \<Rightarrow>
          (case validateKnownDependencies (ord1 (map fst m)) m of
             Inl e \<Rightarrow> Inl e
           | Inr _ \<Rightarrow> validateAcyclicDependencies (ord2 (map fst m)) m))"

definition ParsePayload ::
  "(DecisionRef list \<Rightarrow> DecisionRef list) \<Rightarrow> (DecisionRef list \<Rightarrow> DecisionRef list) \<Rightarrow> payload \<Rightarrow> Plan result"
where
  "ParsePayload ord1 ord2 payload =
     (case requiredID payload of
        Inl e \<Rightarrow> Inl e
      | Inr id' \<Rightarrow>
          (case requiredRevision payload of
             Inl e \<Rightarrow> Inl e
           | Inr revision \<Rightarrow>
               (case decisionNodes payload of
                  Inl e \<Rightarrow> Inl e
                | Inr decisions \<Rightarrow>
                    (let plan = \<lparr>plan_id = id', plan_revision = revision, plan_decisions = decisions\<rparr>
                     in case ValidateDAG ord1 ord2 plan of Inl e \<Rightarrow> Inl e | Inr _ \<Rightarrow> Inr plan))))"

definition DependenciesSatisfied :: "string list \<Rightarrow> (string \<times> bool) list \<Rightarrow> bool" where
  "DependenciesSatisfied dependencyIDs satisfiedByID \<longleftrightarrow>
     list_all (\<lambda>dependencyID. map_of satisfiedByID dependencyID = Some True) (cleanStringSlice dependencyIDs)"

section \<open>What the search decides\<close>

text \<open>The dependency relation of a map: \<open>(r, s)\<close> when \<open>r\<close> depends on \<open>s\<close>.\<close>

definition depends :: "dependencies \<Rightarrow> (DecisionRef \<times> DecisionRef) set" where
  "depends m = {(r, s). s \<in> set (deps m r)}"

text \<open>A visited ref is done for good: everything it reaches is visited and none of it is on a cycle.\<close>

definition settled :: "dependencies \<Rightarrow> DecisionRef set \<Rightarrow> bool" where
  "settled m V \<longleftrightarrow> (\<forall>v\<in>V. \<forall>s. (v, s) \<in> depends m \<longrightarrow> s \<in> V) \<and> (\<forall>v\<in>V. (v, v) \<notin> (depends m)\<^sup>+)"

lemma settled_insert:
  assumes "settled m V" "set (deps m ref) \<subseteq> V"
  shows "settled m (insert ref V)"
proof -
  have closed: "s \<in> V" if "(v, s) \<in> (depends m)\<^sup>*" "v \<in> V" for v s
    using that by (induction rule: rtrancl_induct) (use assms in \<open>auto simp: settled_def\<close>)
  have "(ref, ref) \<notin> (depends m)\<^sup>+" if "ref \<notin> V"
  proof
    assume "(ref, ref) \<in> (depends m)\<^sup>+"
    then obtain s where "(ref, s) \<in> depends m" "(s, ref) \<in> (depends m)\<^sup>*" by (meson tranclD)
    then have "ref \<in> V" using closed assms(2) by (auto simp: depends_def)
    then show False using that by simp
  qed
  then show ?thesis using assms by (auto simp: settled_def depends_def)
qed

lemma detect_restores_visiting:
  "detectCycle m ref st = Inr st' \<Longrightarrow> fst st' = fst st"
  "detectDependencies m refs st = Inr st' \<Longrightarrow> fst st' = fst st"
  by (rule detect_restores_visiting_partial(1)[OF spec[OF detect_terminates]], assumption)
    (rule detect_restores_visiting_partial(2)[OF spec[OF detect_terminates]], assumption)

lemma detectCycle_cases:
  assumes "detectCycle m ref (vg, vd) = Inr st'"
  obtains (seen) "ref \<in> vd" "st' = (vg, vd)"
    | (fresh) vd' where "ref \<notin> vd" "ref \<notin> vg" "st' = (vg, insert ref vd')"
        "detectDependencies m (deps m ref) (insert ref vg, vd) = Inr (insert ref vg, vd')"
proof (cases "ref \<in> vd \<or> ref \<in> vg")
  case True
  then show ?thesis
    using assms that(1) by (auto simp: detectCycle.simps split: if_splits)
next
  case False
  with assms obtain vg' vd' where
    d: "detectDependencies m (deps m ref) (insert ref vg, vd) = Inr (vg', vd')"
    and st': "st' = (vg' - {ref}, insert ref vd')"
    by (auto simp: detectCycle.simps split: sum.splits)
  have "vg' = insert ref vg" using detect_restores_visiting(2)[OF d] by simp
  then show ?thesis using d st' False that(2)[of vd'] by simp
qed

lemma detect_success:
  "detectCycle m ref st = Inr st' \<Longrightarrow> settled m (snd st) \<Longrightarrow>
     settled m (snd st') \<and> insert ref (snd st) \<subseteq> snd st'"
  "detectDependencies m refs st = Inr st' \<Longrightarrow> settled m (snd st) \<Longrightarrow>
     settled m (snd st') \<and> set refs \<union> snd st \<subseteq> snd st'"
proof (induction m ref st and m refs st arbitrary: st' and st'
    rule: detectCycle_detectDependencies.induct)
  case (1 m ref visiting visited)
  from "1.prems"(1) show ?case
  proof (cases rule: detectCycle_cases)
    case seen
    then show ?thesis using "1.prems" by auto
  next
    case (fresh vd')
    with "1.IH" "1.prems"(2) have "settled m vd'" "set (deps m ref) \<union> visited \<subseteq> vd'" by fastforce+
    then show ?thesis using settled_insert[of m vd' ref] fresh by auto
  qed
next
  case (2 m st)
  then show ?case by simp
next
  case (3 m dependency dependencies st)
  then obtain st1 where first: "detectCycle m dependency st = Inr st1"
    and rest: "detectDependencies m dependencies st1 = Inr st'" by (auto split: sum.splits)
  have "settled m (snd st1) \<and> insert dependency (snd st) \<subseteq> snd st1"
    using "3.IH"(1)[OF first "3.prems"(2)] .
  moreover from this have "settled m (snd st') \<and> set dependencies \<union> snd st1 \<subseteq> snd st'"
    using "3.IH"(2)[OF first rest] by simp
  ultimately show ?case by auto
qed

lemma detect_failure:
  "detectCycle m ref st = Inl e \<Longrightarrow> \<forall>v\<in>fst st. (v, ref) \<in> (depends m)\<^sup>+ \<Longrightarrow>
     \<exists>r. (r, r) \<in> (depends m)\<^sup>+ \<and> e = ''plan decision dependency cycle includes '' @ r"
  "detectDependencies m refs st = Inl e \<Longrightarrow> \<forall>v\<in>fst st. \<forall>r\<in>set refs. (v, r) \<in> (depends m)\<^sup>+ \<Longrightarrow>
     \<exists>r. (r, r) \<in> (depends m)\<^sup>+ \<and> e = ''plan decision dependency cycle includes '' @ r"
proof (induction m ref st and m refs st rule: detectCycle_detectDependencies.induct)
  case (1 m ref visiting visited)
  then have unseen: "ref \<notin> visited" by (auto simp: detectCycle.simps)
  show ?case
  proof (cases "ref \<in> visiting")
    case True
    then show ?thesis using "1.prems" unseen by (auto simp: detectCycle.simps)
  next
    case False
    then have "detectDependencies m (deps m ref) (insert ref visiting, visited) = Inl e"
      using "1.prems" unseen by (auto simp: detectCycle.simps split: sum.splits)
    moreover have "\<forall>v\<in>insert ref visiting. \<forall>r\<in>set (deps m ref). (v, r) \<in> (depends m)\<^sup>+"
      using "1.prems"(2) by (auto simp: depends_def intro: trancl_into_trancl)
    ultimately show ?thesis using "1.IH" unseen False by simp
  qed
next
  case (2 m st)
  then show ?case by simp
next
  case (3 m dependency dependencies st)
  show ?case
  proof (cases "detectCycle m dependency st")
    case (Inl e')
    then show ?thesis using 3 by simp
  next
    case (Inr st1)
    then show ?thesis using 3 detect_restores_visiting(1)[OF Inr] by simp
  qed
qed

lemma validateAcyclic_ok:
  assumes "validateAcyclicDependencies ord m = Inr ()" "fst ` set m \<subseteq> set ord"
  shows "acyclic (depends m)"
proof -
  from assms(1) obtain st' where "detectDependencies m ord ({}, {}) = Inr st'"
    by (auto simp: validateAcyclicDependencies_def split: sum.splits)
  then have s: "settled m (snd st')" "set ord \<subseteq> snd st'"
    using detect_success(2)[of m ord "({}, {})" st'] by (auto simp: settled_def)
  have key: "v \<in> set ord" if vs: "(v, s) \<in> depends m" for v s
  proof -
    from vs have "map_of m v \<noteq> None" by (cases "map_of m v") (simp_all add: depends_def deps_def)
    then have "v \<in> fst ` set m" by (simp add: map_of_eq_None_iff)
    then show ?thesis using assms(2) by blast
  qed
  have "(v, v) \<notin> (depends m)\<^sup>+" for v
  proof
    assume cyc: "(v, v) \<in> (depends m)\<^sup>+"
    then obtain s where "(v, s) \<in> depends m" by (meson tranclD)
    then have "v \<in> snd st'" using key s(2) by blast
    then show False using s(1) cyc by (simp add: settled_def)
  qed
  then show ?thesis by (simp add: acyclic_def)
qed

lemma validateAcyclic_error:
  "validateAcyclicDependencies ord m = Inl e \<Longrightarrow>
     \<exists>r. (r, r) \<in> (depends m)\<^sup>+ \<and> e = ''plan decision dependency cycle includes '' @ r"
  using detect_failure(2)[of m ord "({}, {})" e]
  by (auto simp: validateAcyclicDependencies_def split: sum.splits)

section \<open>What validation establishes\<close>

lemma uniqueDecisionRefs_from_eq:
  "uniqueDecisionRefs_from seen vs = dedup_from seen (filter (\<lambda>v. v \<noteq> []) vs)"
  by (induction vs arbitrary: seen) auto

lemma set_uniqueDecisionRefs [simp]: "set (uniqueDecisionRefs vs) = set vs - {[]}"
  by (auto simp: uniqueDecisionRefs_def uniqueDecisionRefs_from_eq)

definition dag_map :: "DecisionNode list \<Rightarrow> dependencies" where
  "dag_map ds = map (\<lambda>d. (dn_ref d, uniqueDecisionRefs (dn_depends_on d))) ds"

lemma map_of_None_key: "map_of m k = None \<longleftrightarrow> k \<notin> fst ` set m"
  by (rule map_of_eq_None_iff)

lemma dependenciesByRef_from_iff:
  "dependenciesByRef_from m ds = Inr m' \<longleftrightarrow>
     m' = m @ dag_map ds \<and> distinct (map dn_ref ds) \<and> set (map dn_ref ds) \<inter> fst ` set m = {}"
proof (induction ds arbitrary: m)
  case Nil
  then show ?case by (auto simp: dag_map_def)
next
  case (Cons d ds)
  show ?case
  proof (cases "dn_ref d \<in> fst ` set m")
    case True
    then have "map_of m (dn_ref d) \<noteq> None" by (simp add: map_of_None_key)
    then show ?thesis using True by simp
  next
    case False
    then have "map_of m (dn_ref d) = None" by (simp add: map_of_None_key)
    then show ?thesis using False by (auto simp: Cons.IH dag_map_def)
  qed
qed

lemma dependenciesByRef_iff:
  "dependenciesByRef plan = Inr m \<longleftrightarrow> m = dag_map (plan_decisions plan) \<and> distinct (DecisionRefs plan)"
  by (auto simp: dependenciesByRef_def dependenciesByRef_from_iff DecisionRefs_def)

lemma checkDependencies_ok:
  "checkDependencies m ref ds = Inr () \<longleftrightarrow> (\<forall>d\<in>set ds. d \<noteq> ref \<and> d \<in> fst ` set m)"
proof (induction ds)
  case (Cons d ds)
  then show ?case
    unfolding checkDependencies.simps map_of_None_key by (cases "d \<in> fst ` set m") simp_all
qed simp

lemma validateKnown_ok:
  "validateKnownDependencies ord m = Inr () \<longleftrightarrow>
     (\<forall>ref\<in>set ord. \<forall>d\<in>set (deps m ref). d \<noteq> ref \<and> d \<in> fst ` set m)"
proof (induction ord)
  case (Cons ref ord)
  then show ?case
    by (cases "checkDependencies m ref (deps m ref)") (auto simp: checkDependencies_ok[symmetric])
qed simp

lemma validateAcyclic_iff:
  assumes "fst ` set m \<subseteq> set ord"
  shows "validateAcyclicDependencies ord m = Inr () \<longleftrightarrow> acyclic (depends m)"
proof (cases "validateAcyclicDependencies ord m")
  case (Inl e)
  then show ?thesis using validateAcyclic_error[OF Inl] by (auto simp: acyclic_def)
next
  case (Inr u)
  then show ?thesis using validateAcyclic_ok assms by auto
qed

text \<open>The edges the search sees: those of the plan, except edges to the empty ref.\<close>

definition live_edges :: "Plan \<Rightarrow> (DecisionRef \<times> DecisionRef) list" where
  "live_edges plan = filter (\<lambda>(_, dependency). dependency \<noteq> []) (DependencyEdges plan)"

lemma mem_DependencyEdges:
  "(r, s) \<in> set (DependencyEdges plan) \<longleftrightarrow>
     (\<exists>d\<in>set (plan_decisions plan). dn_ref d = r \<and> s \<in> set (dn_depends_on d))"
  by (auto simp: DependencyEdges_def)

lemma deps_dag_map:
  assumes "distinct (map dn_ref ds)" "d \<in> set ds"
  shows "deps (dag_map ds) (dn_ref d) = uniqueDecisionRefs (dn_depends_on d)"
proof -
  have "distinct (map fst (dag_map ds))" using assms(1) by (simp add: dag_map_def comp_def)
  moreover have "(dn_ref d, uniqueDecisionRefs (dn_depends_on d)) \<in> set (dag_map ds)"
    using assms(2) by (auto simp: dag_map_def)
  ultimately have "map_of (dag_map ds) (dn_ref d) = Some (uniqueDecisionRefs (dn_depends_on d))"
    by (rule map_of_is_SomeI)
  then show ?thesis by (simp add: deps_def)
qed

lemma keys_dag_map: "map fst (dag_map (plan_decisions plan)) = DecisionRefs plan"
  by (simp add: dag_map_def DecisionRefs_def comp_def)

lemma depends_dag_map:
  assumes "distinct (DecisionRefs plan)"
  shows "depends (dag_map (plan_decisions plan)) = set (live_edges plan)"
proof -
  let ?m = "dag_map (plan_decisions plan)"
  have "s \<in> set (deps ?m r) \<longleftrightarrow> (r, s) \<in> set (live_edges plan)" for r s
  proof (cases "r \<in> set (DecisionRefs plan)")
    case True
    then obtain d where d: "d \<in> set (plan_decisions plan)" "dn_ref d = r" by (auto simp: DecisionRefs_def)
    have inj: "inj_on dn_ref (set (plan_decisions plan))"
      using assms by (simp add: DecisionRefs_def distinct_map)
    have "(\<exists>d'\<in>set (plan_decisions plan). dn_ref d' = r \<and> s \<in> set (dn_depends_on d'))
        \<longleftrightarrow> s \<in> set (dn_depends_on d)" (is "?ex \<longleftrightarrow> _")
    proof
      assume ?ex
      then obtain d' where d': "d' \<in> set (plan_decisions plan)" "dn_ref d' = r" "s \<in> set (dn_depends_on d')"
        by blast
      then have "d' = d" using inj_onD[OF inj, of d' d] d by simp
      then show "s \<in> set (dn_depends_on d)" using d'(3) by simp
    qed (use d in blast)
    then have "(r, s) \<in> set (live_edges plan) \<longleftrightarrow> s \<noteq> [] \<and> s \<in> set (dn_depends_on d)"
      by (simp add: live_edges_def mem_DependencyEdges conj_commute)
    moreover have "deps ?m r = uniqueDecisionRefs (dn_depends_on d)"
      using deps_dag_map[of "plan_decisions plan" d] assms d by (simp add: DecisionRefs_def)
    ultimately show ?thesis by auto
  next
    case False
    then have "map_of ?m r = None" unfolding map_of_eq_None_iff keys_dag_map[symmetric] by simp
    then show ?thesis using False by (auto simp: deps_def live_edges_def mem_DependencyEdges DecisionRefs_def)
  qed
  then show ?thesis by (auto simp: depends_def)
qed

text \<open>
  C25. The cycle search is exact: whatever order the map's keys come in, it accepts the map
  exactly when the dependency relation has no cycle, and the ref its error names lies on one.
\<close>

theorem cycle_search_exact:
  assumes "fst ` set m \<subseteq> set ord"
  shows "if acyclic (depends m) then validateAcyclicDependencies ord m = Inr ()
         else \<exists>ref. (ref, ref) \<in> (depends m)\<^sup>+ \<and>
                validateAcyclicDependencies ord m = Inl (''plan decision dependency cycle includes '' @ ref)"
proof (cases "validateAcyclicDependencies ord m")
  case (Inl e)
  then show ?thesis using validateAcyclic_error[OF Inl] by (auto simp: acyclic_def)
next
  case (Inr u)
  then show ?thesis using validateAcyclic_iff[OF assms] by simp
qed

theorem cycle_search_exact_witness:
  "\<not> acyclic (depends [(''a'', [''b'']), (''b'', [''c'']), (''c'', [''b''])])"
  using cycle_search_exact[of "[(''a'', [''b'']), (''b'', [''c'']), (''c'', [''b''])]" "[''c'', ''a'', ''b'']"]
  by (auto simp: validateAcyclicDependencies_def detectCycle.simps deps_def split: if_splits)

lemma ValidateDAG_decides:
  assumes "\<And>ks. set (ord1 ks) = set ks" "\<And>ks. set (ord2 ks) = set ks"
  shows "ValidateDAG ord1 ord2 plan = Inr () \<longleftrightarrow>
           distinct (DecisionRefs plan)
           \<and> set (map snd (live_edges plan)) \<subseteq> set (DecisionRefs plan)
           \<and> acyclic (set (live_edges plan))"
proof (cases "distinct (DecisionRefs plan)")
  case False
  then show ?thesis
    by (cases "dependenciesByRef plan") (auto simp: ValidateDAG_def dependenciesByRef_iff)
next
  case True
  let ?m = "dag_map (plan_decisions plan)"
  have keys: "fst ` set ?m = set (DecisionRefs plan)"
    unfolding keys_dag_map[symmetric] by simp
  have dom: "r \<in> set (DecisionRefs plan)" if "(r, s) \<in> set (live_edges plan)" for r s
    using that by (auto simp: live_edges_def mem_DependencyEdges DecisionRefs_def)
  have edge: "s \<in> set (deps ?m r) \<longleftrightarrow> (r, s) \<in> set (live_edges plan)" for r s
    unfolding depends_dag_map[OF True, symmetric] by (simp add: depends_def)
  have known: "validateKnownDependencies (ord1 (map fst ?m)) ?m = Inr () \<longleftrightarrow>
      (\<forall>(r, s)\<in>set (live_edges plan). s \<noteq> r \<and> s \<in> set (DecisionRefs plan))"
    unfolding validateKnown_ok keys assms(1) keys_dag_map Ball_def edge using dom by fast
  have acyc: "validateAcyclicDependencies (ord2 (map fst ?m)) ?m = Inr () \<longleftrightarrow> acyclic (set (live_edges plan))"
    using validateAcyclic_iff[of ?m "ord2 (map fst ?m)"] assms(2) depends_dag_map[OF True] by simp
  have "\<not> acyclic (set (live_edges plan))" if "(r, r) \<in> set (live_edges plan)" for r
    using that by (auto simp: acyclic_def)
  then have "ValidateDAG ord1 ord2 plan = Inr () \<longleftrightarrow>
      (\<forall>(r, s)\<in>set (live_edges plan). s \<in> set (DecisionRefs plan)) \<and> acyclic (set (live_edges plan))"
  proof -
    have "ValidateDAG ord1 ord2 plan = Inr () \<longleftrightarrow>
      validateKnownDependencies (ord1 (map fst ?m)) ?m = Inr () \<and>
      validateAcyclicDependencies (ord2 (map fst ?m)) ?m = Inr ()"
      using dependenciesByRef_iff[of plan ?m] True by (simp add: ValidateDAG_def split: sum.split)
    then show ?thesis using known acyc \<open>\<And>r. (r, r) \<in> set (live_edges plan) \<Longrightarrow> \<not> acyclic (set (live_edges plan))\<close>
      by fast
  qed
  then show ?thesis using True by auto
qed

text \<open>
  C24. \<open>ValidateDAG\<close> accepts exactly the plans whose refs are distinct, whose dependencies are
  decisions of the plan and whose dependency edges form no cycle. The verdict does not depend on
  the order in which Go ranges over the map.
\<close>

theorem ValidateDAG_iff:
  assumes "\<And>ks. set (ord1 ks) = set ks" "\<And>ks. set (ord2 ks) = set ks"
  shows "ValidateDAG ord1 ord2 plan = Inr () \<longleftrightarrow>
           distinct (DecisionRefs plan)
           \<and> set (map snd (live_edges plan)) \<subseteq> set (DecisionRefs plan)
           \<and> acyclic (set (live_edges plan))"
  using assms by (rule ValidateDAG_decides)

definition diamond :: Plan where
  "diamond =
     \<lparr>plan_id = ''plan-1'', plan_revision = ''r1'', plan_decisions =
        [\<lparr>dn_ref = ''dec-a'', dn_depends_on = [''dec-b'', ''dec-c''], dn_lockset = [''internal/a'']\<rparr>,
         \<lparr>dn_ref = ''dec-b'', dn_depends_on = [''dec-d''], dn_lockset = []\<rparr>,
         \<lparr>dn_ref = ''dec-c'', dn_depends_on = [''dec-d''], dn_lockset = []\<rparr>,
         \<lparr>dn_ref = ''dec-d'', dn_depends_on = [], dn_lockset = []\<rparr>]\<rparr>"

lemma diamond_valid: "ValidateDAG rev (\<lambda>ks. ks) diamond = Inr ()"
  by (simp add: diamond_def ValidateDAG_def dependenciesByRef_def validateAcyclicDependencies_def
      detectCycle.simps deps_def uniqueDecisionRefs_def)

theorem ValidateDAG_iff_witness:
  "acyclic (set (live_edges diamond)) \<and> length (live_edges diamond) = 4"
  using ValidateDAG_iff[of rev "\<lambda>ks. ks" diamond] diamond_valid
  by (simp add: live_edges_def DependencyEdges_def diamond_def)

section \<open>Parsed plans\<close>

definition good_ref :: "string \<Rightarrow> bool" where
  "good_ref r \<longleftrightarrow> r \<noteq> [] \<and> trim_space r = r"

lemma anyStringSlice_good: "anyStringSlice i vs label = Inr rs \<Longrightarrow> list_all good_ref rs"
  by (induction vs arbitrary: i rs)
    (auto simp: good_ref_def Let_def split: gval.splits sum.splits if_splits)

lemma planStringSliceField_good: "planStringSliceField p k label = Inr rs \<Longrightarrow> list_all good_ref rs"
  by (auto simp: planStringSliceField_def cleanStringSlice_def good_ref_def list_all_iff
      dest: anyStringSlice_good clean_strings_trimmed split: option.splits gval.splits)
    (auto dest!: anyStringSlice_good simp: list_all_iff good_ref_def)

lemma requiredDecisionRef_good: "requiredDecisionRef v label = Inr r \<Longrightarrow> good_ref r"
  by (auto simp: requiredDecisionRef_def good_ref_def Let_def split: if_splits)

lemma decisionRefField_good: "decisionRefField p i = Inr r \<Longrightarrow> good_ref r"
  by (auto simp: decisionRefField_def Let_def split: if_splits dest: requiredDecisionRef_good)

definition good_node :: "DecisionNode \<Rightarrow> bool" where
  "good_node d \<longleftrightarrow>
     good_ref (dn_ref d) \<and> list_all good_ref (dn_depends_on d) \<and> distinct (dn_depends_on d)
     \<and> sorted (dn_lockset d) \<and> distinct (dn_lockset d)"

lemma uniqueDecisionRefs_distinct [simp]: "distinct (uniqueDecisionRefs vs)"
  by (simp add: uniqueDecisionRefs_def uniqueDecisionRefs_from_eq)

lemma NormalizeLockset_canonical [simp]: "sorted (NormalizeLockset vs)" "distinct (NormalizeLockset vs)"
  by (simp_all add: NormalizeLockset_def sorted_distinct_remdups_adj)

lemma decisionNode_good: "decisionNode v i = Inr d \<Longrightarrow> good_node d"
  by (auto simp: decisionNode_def decisionNodeFromMap_def decisionRefSliceField_def locksetField_def
      good_node_def list_all_iff split: gval.splits sum.splits
      dest!: requiredDecisionRef_good decisionRefField_good planStringSliceField_good)

lemma decisionNodes_from_good:
  "decisionNodes_from i vs = Inr ds \<Longrightarrow> list_all good_node ds \<and> length ds = length vs"
  by (induction vs arbitrary: i ds) (auto split: sum.splits dest: decisionNode_good)

lemma ParsePayload_shape:
  assumes "ParsePayload ord1 ord2 payload = Inr plan"
  shows "list_all good_node (plan_decisions plan)" "ValidateDAG ord1 ord2 plan = Inr ()"
    "plan_decisions plan \<noteq> []" "good_ref (plan_id plan)" "good_ref (plan_revision plan)"
proof -
  from assms obtain i r ds where p: "requiredID payload = Inr i" "requiredRevision payload = Inr r"
      "decisionNodes payload = Inr ds" "plan = \<lparr>plan_id = i, plan_revision = r, plan_decisions = ds\<rparr>"
      "ValidateDAG ord1 ord2 plan = Inr ()"
    by (auto simp: ParsePayload_def Let_def split: sum.splits)
  then show "good_ref (plan_id plan)" "good_ref (plan_revision plan)" "ValidateDAG ord1 ord2 plan = Inr ()"
    by (auto simp: requiredID_def requiredRevision_def Let_def good_ref_def split: if_splits)
  from p(3) obtain raw where "raw \<noteq> []" "decisionNodes_from 0 raw = Inr ds"
    by (auto simp: decisionNodes_def split: option.splits gval.splits if_splits)
  then show "list_all good_node (plan_decisions plan)" "plan_decisions plan \<noteq> []"
    using decisionNodes_from_good p(4) by fastforce+
qed

text \<open>
  Every field \<open>ParsePayload\<close> keeps is canonical: ids, revisions and refs are trimmed and
  not empty, dependencies of a decision do not repeat, locksets are sorted and duplicate-free;
  refs are distinct, dependencies point into the plan and the graph has no cycle. A payload
  whose decisions are missing, empty or no array is an error.
\<close>

theorem ParsePayload_canonical:
  assumes "ParsePayload ord1 ord2 payload = Inr plan"
    "\<And>ks. set (ord1 ks) = set ks" "\<And>ks. set (ord2 ks) = set ks"
  shows "good_ref (plan_id plan) \<and> good_ref (plan_revision plan) \<and> plan_decisions plan \<noteq> []
    \<and> list_all good_node (plan_decisions plan)
    \<and> distinct (DecisionRefs plan)
    \<and> snd ` set (DependencyEdges plan) \<subseteq> set (DecisionRefs plan)
    \<and> acyclic (set (DependencyEdges plan))"
proof -
  note shape = ParsePayload_shape[OF assms(1)]
  have "live_edges plan = DependencyEdges plan"
    unfolding live_edges_def filter_id_conv
    using shape(1) by (fastforce simp: list_all_iff good_node_def good_ref_def DependencyEdges_def)
  then show ?thesis
    using ValidateDAG_decides[OF assms(2,3), of plan] shape by auto
qed

definition diamond_payload :: payload where
  "diamond_payload =
     [(''id'', GStr ''plan-1''), (''revision'', GStr ''r1''),
      (''decisions'', GArr
        [GMap [(''ref'', GStr ''dec-a''), (''depends_on'', GArr [GStr ''dec-b'', GStr ''dec-c'']),
               (''lockset'', GArr [GStr ''internal/a''])],
         GMap [(''decision_ref'', GStr ''dec-b''), (''depends_on'', GStrs [''dec-d''])],
         GMap [(''ref'', GStr ''dec-c''), (''depends_on'', GArr [GStr ''dec-d'', GStr ''dec-d''])],
         GStr ''dec-d''])]"

lemma diamond_parse: "ParsePayload rev (\<lambda>ks. ks) diamond_payload = Inr diamond"
  by code_simp

theorem ParsePayload_canonical_witness:
  "acyclic (set (DependencyEdges diamond)) \<and> ParsePayload rev (\<lambda>ks. ks) diamond_payload = Inr diamond"
  using ParsePayload_canonical[OF diamond_parse] diamond_parse by simp

lemma DependenciesSatisfied_good:
  "list_all good_ref ds \<Longrightarrow> DependenciesSatisfied ds m \<longleftrightarrow> list_all (\<lambda>d. map_of m d = Some True) ds"
  by (simp add: DependenciesSatisfied_def cleanStringSlice_def clean_strings_id good_ref_def list_all_iff)

text \<open>
  C26. A plan the parser accepts never deadlocks: as long as some decision is not satisfied,
  there is an unsatisfied decision whose dependencies are all satisfied, so running decisions
  one after the other completes the plan.
\<close>

theorem plan_progress:
  assumes "ParsePayload ord1 ord2 payload = Inr plan"
    "\<And>ks. set (ord1 ks) = set ks" "\<And>ks. set (ord2 ks) = set ks"
    "r \<in> set (DecisionRefs plan)" "map_of satisfied r \<noteq> Some True"
  shows "list_ex (\<lambda>d. map_of satisfied (dn_ref d) \<noteq> Some True
                   \<and> DependenciesSatisfied (dn_depends_on d) satisfied) (plan_decisions plan)"
proof -
  note canon = ParsePayload_shape(1)[OF assms(1)]
  let ?E = "set (DependencyEdges plan)"
  let ?Q = "{r \<in> set (DecisionRefs plan). map_of satisfied r \<noteq> Some True}"
  have live: "live_edges plan = DependencyEdges plan"
    unfolding live_edges_def filter_id_conv
    using canon by (fastforce simp: list_all_iff good_node_def good_ref_def DependencyEdges_def)
  have valid: "snd ` ?E \<subseteq> set (DecisionRefs plan)" "acyclic ?E"
    using ValidateDAG_decides[OF assms(2,3), of plan] ParsePayload_shape(2)[OF assms(1)] live by auto
  have "wf (?E\<inverse>)" using valid(2) by (intro finite_acyclic_wf_converse) auto
  moreover have "r \<in> ?Q" using assms(4,5) by simp
  ultimately obtain z where z: "z \<in> ?Q" "\<And>y. (y, z) \<in> ?E\<inverse> \<Longrightarrow> y \<notin> ?Q" by (rule wfE_min) blast
  then obtain d where d: "d \<in> set (plan_decisions plan)" "dn_ref d = z" by (auto simp: DecisionRefs_def)
  have "map_of satisfied s = Some True" if "s \<in> set (dn_depends_on d)" for s
  proof -
    have "(z, s) \<in> ?E" using d that unfolding mem_DependencyEdges by blast
    then show ?thesis using z(2)[of s] valid(1) by force
  qed
  moreover have "list_all good_ref (dn_depends_on d)"
    using canon d(1) by (simp add: list_all_iff good_node_def)
  ultimately have "DependenciesSatisfied (dn_depends_on d) satisfied"
    by (simp add: DependenciesSatisfied_good list_all_iff)
  then show ?thesis using d z(1) by (auto simp: list_ex_iff)
qed

theorem plan_progress_witness:
  "list_ex (\<lambda>d. map_of [(''dec-d'', True), (''dec-b'', False)] (dn_ref d) \<noteq> Some True
       \<and> DependenciesSatisfied (dn_depends_on d) [(''dec-d'', True), (''dec-b'', False)])
     (plan_decisions diamond)"
  using plan_progress[OF diamond_parse, of "''dec-b''" "[(''dec-d'', True), (''dec-b'', False)]"]
  by (simp add: DecisionRefs_def diamond_def)

end
