(* ===== verification/Envelope.thy ===== *)
theory Envelope
  imports ScopeAuth GoValue GoTime GoHash
begin

text \<open>
  \<open>internal/autonomyenvelope/envelope.go\<close>: the envelope a human approves for autonomous work,
  read from a payload, validated, hashed, written back and evaluated against the request of a
  commission. A state or a failure strategy is its text, as in the source (a payload may hold
  any). \<open>gates\<close> is the order in which Go ranges over the set of required gates. The error of a
  malformed time is abbreviated to its first words and the value.
\<close>

section \<open>Data\<close>

abbreviation "StateDraft \<equiv> ''draft''"
abbreviation "StateApproved \<equiv> ''approved''"
abbreviation "StateActive \<equiv> ''active''"
abbreviation "StateExhausted \<equiv> ''exhausted''"
abbreviation "StateRevoked \<equiv> ''revoked''"
abbreviation "StateExpired \<equiv> ''expired''"

abbreviation "FailureBlockPlan \<equiv> ''block_plan''"
abbreviation "FailureBlockNode \<equiv> ''block_node''"
abbreviation "FailureContinueIndependent \<equiv> ''continue_independent''"

datatype Decision = DecisionAllowed | DecisionBlocked | DecisionCheckpointRequired

record Finding =
  fd_code :: string
  fd_field :: string
  fd_detail :: string

definition mk_finding :: "string \<Rightarrow> string \<Rightarrow> string \<Rightarrow> Finding" where
  "mk_finding code field detail = \<lparr>fd_code = code, fd_field = field, fd_detail = detail\<rparr>"

record Report =
  rp_decision :: Decision
  rp_findings :: "Finding list"

record Snapshot =
  sn_ref :: string
  sn_revision :: string
  sn_state :: string
  sn_allowed_repos :: "string list"
  sn_allowed_paths :: "string list"
  sn_forbidden_paths :: "string list"
  sn_allowed_actions :: "string list"
  sn_allowed_modules :: "string list"
  sn_forbidden_actions :: "string list"
  sn_forbidden_one_way_door_actions :: "string list"
  sn_max_concurrency :: int
  sn_commission_budget :: int
  sn_active_concurrency :: int
  sn_consumed_commissions :: int
  sn_on_failure :: string
  sn_on_stale :: string
  sn_valid_until :: Time
  sn_revoked_at :: "Time option"
  sn_required_gates :: "string list"
  sn_hash :: string

record CommissionRequest =
  cr_repo_ref :: string
  cr_allowed_paths :: "string list"
  cr_forbidden_paths :: "string list"
  cr_allowed_actions :: "string list"
  cr_allowed_modules :: "string list"
  cr_active_concurrency :: int
  cr_consumed_commissions :: int

definition RequiredGates :: "string list" where
  "RequiredGates = [''freshness'', ''scope'', ''evidence'']"

definition NoEnvelopeReport :: Report where
  "NoEnvelopeReport =
     \<lparr>rp_decision = DecisionCheckpointRequired,
      rp_findings = [mk_finding ''autonomy_envelope_missing'' ''autonomy_envelope_snapshot''
        ''autonomous continuation requires an explicit human-approved envelope'']\<rparr>"

section \<open>Field readers\<close>

text \<open>\<open>optionalString\<close> and \<open>requiredString\<close> are \<open>stringField\<close>; both name the same reader.\<close>

fun firstString :: "payload \<Rightarrow> string list \<Rightarrow> string" where
  "firstString payload [] = []"
| "firstString payload (key # keys) =
     (let value = stringField payload key in if value \<noteq> [] then value else firstString payload keys)"

definition stringSliceFromAny :: "gval list \<Rightarrow> string list" where
  "stringSliceFromAny values = sorted_unique (anySliceToStrings values)"

definition optionalStringSlice :: "payload \<Rightarrow> string \<Rightarrow> string list" where
  "optionalStringSlice payload key =
     (case map_of payload key of
        Some (GStrs typed) \<Rightarrow> sorted_unique typed
      | Some (GArr typed) \<Rightarrow> stringSliceFromAny typed
      | _ \<Rightarrow> [])"

fun firstStringSlice :: "payload \<Rightarrow> string list \<Rightarrow> string list" where
  "firstStringSlice payload [] = []"
| "firstStringSlice payload (key # keys) =
     (let values = optionalStringSlice payload key
      in if length values > 0 then values else firstStringSlice payload keys)"

text \<open>
  Conversions to a 64-bit \<open>int\<close>: a float is truncated toward zero (outside the range the result
  is the least integer, as on amd64), a \<open>json.Number\<close> must be a decimal integer in range.
\<close>

definition int64_range :: "int \<Rightarrow> bool" where
  "int64_range i \<longleftrightarrow> - 9223372036854775808 \<le> i \<and> i \<le> 9223372036854775807"

definition float_to_int :: "int \<Rightarrow> int \<Rightarrow> int" where
  "float_to_int m e =
     (let v = (if e \<ge> 0 then m * 2 ^ nat e else sgn m * (\<bar>m\<bar> div 2 ^ nat (- e)))
      in if int64_range v then v else - 9223372036854775808)"

definition parse_int64 :: "string \<Rightarrow> int option" where
  "parse_int64 s =
     (let (neg, digits) = (case s of
            c # t \<Rightarrow> if c = CHR ''-'' then (True, t) else if c = CHR ''+'' then (False, t) else (False, s)
          | [] \<Rightarrow> (False, s));
          v = (if neg then - int (read_digits 0 digits) else int (read_digits 0 digits))
      in if digits = [] \<or> \<not> list_all is_digit digits \<or> \<not> int64_range v then None else Some v)"

definition positiveInt :: "gval option \<Rightarrow> int" where
  "positiveInt value =
     (case value of
        Some (GInt typed) \<Rightarrow> typed
      | Some (GInt64 typed) \<Rightarrow> typed
      | Some (GFloat m e) \<Rightarrow> float_to_int m e
      | Some (GJsonNumber typed) \<Rightarrow> (case parse_int64 typed of Some parsed \<Rightarrow> parsed | None \<Rightarrow> 0)
      | _ \<Rightarrow> 0)"

definition requiredPositiveInt :: "payload \<Rightarrow> string \<Rightarrow> int" where
  "requiredPositiveInt payload key = positiveInt (map_of payload key)"

fun firstPositiveInt :: "payload \<Rightarrow> string list \<Rightarrow> int" where
  "firstPositiveInt payload [] = 0"
| "firstPositiveInt payload (key # keys) =
     (let value = positiveInt (map_of payload key) in if value > 0 then value else firstPositiveInt payload keys)"

definition optionalNonNegativeInt :: "payload \<Rightarrow> string \<Rightarrow> int" where
  "optionalNonNegativeInt payload key =
     (let value = positiveInt (map_of payload key) in if value > 0 then value else 0)"

definition time_error :: "string \<Rightarrow> string" where
  "time_error value = ''parsing time '' @ [CHR 0x22] @ value @ [CHR 0x22]"

fun requiredTime :: "payload \<Rightarrow> string list \<Rightarrow> Time result" where
  "requiredTime payload [] = Inl ''autonomy_envelope_valid_until_required''"
| "requiredTime payload (key # keys) =
     (let value = stringField payload key
      in if value = [] then requiredTime payload keys
         else (case parse_rfc3339 value of Some t \<Rightarrow> Inr t | None \<Rightarrow> Inl (time_error value)))"

definition optionalTime :: "payload \<Rightarrow> string \<Rightarrow> Time option result" where
  "optionalTime payload key =
     (let value = stringField payload key
      in if value = [] then Inr None
         else (case parse_rfc3339 value of Some t \<Rightarrow> Inr (Some t) | None \<Rightarrow> Inl (time_error value)))"

definition optionalTimeString :: "Time option \<Rightarrow> string" where
  "optionalTimeString value = (case value of None \<Rightarrow> [] | Some t \<Rightarrow> format_rfc3339 t)"

section \<open>Validation\<close>

definition validateIdentity :: "Snapshot \<Rightarrow> unit result" where
  "validateIdentity snapshot =
     (if sn_ref snapshot = [] then Inl ''autonomy_envelope_ref_required''
      else if sn_revision snapshot = [] then Inl ''autonomy_envelope_revision_required''
      else Inr ())"

definition validateState :: "Snapshot \<Rightarrow> unit result" where
  "validateState snapshot =
     (if sn_state snapshot \<in> {StateDraft, StateApproved, StateActive, StateExhausted, StateRevoked, StateExpired}
      then Inr ()
      else Inl (''invalid_autonomy_envelope_state: '' @ sn_state snapshot))"

definition validateBounds :: "Snapshot \<Rightarrow> unit result" where
  "validateBounds snapshot =
     (if length (sn_allowed_repos snapshot) = 0 then Inl ''autonomy_envelope_allowed_repos_required''
      else if length (sn_allowed_paths snapshot) = 0 then Inl ''autonomy_envelope_allowed_paths_required''
      else if length (sn_allowed_actions snapshot) = 0 then Inl ''autonomy_envelope_allowed_actions_required''
      else if sn_max_concurrency snapshot \<le> 0 then Inl ''autonomy_envelope_max_concurrency_required''
      else if sn_commission_budget snapshot \<le> 0 then Inl ''autonomy_envelope_commission_budget_required''
      else if sn_active_concurrency snapshot < 0 then Inl ''autonomy_envelope_active_concurrency_invalid''
      else if sn_consumed_commissions snapshot < 0 then Inl ''autonomy_envelope_consumed_commissions_invalid''
      else Inr ())"

definition validFailureStrategy :: "string \<Rightarrow> bool" where
  "validFailureStrategy strategy \<longleftrightarrow>
     strategy \<in> {FailureBlockPlan, FailureBlockNode, FailureContinueIndependent}"

definition validateFailureStrategies :: "Snapshot \<Rightarrow> unit result" where
  "validateFailureStrategies snapshot =
     (if \<not> validFailureStrategy (sn_on_failure snapshot)
      then Inl (''invalid_autonomy_envelope_on_failure: '' @ sn_on_failure snapshot)
      else if sn_on_stale snapshot = [] then Inr ()
      else if \<not> validFailureStrategy (sn_on_stale snapshot)
      then Inl (''invalid_autonomy_envelope_on_stale: '' @ sn_on_stale snapshot)
      else Inr ())"

fun missingGate :: "string list \<Rightarrow> string list \<Rightarrow> unit result" where
  "missingGate [] actual = Inr ()"
| "missingGate (gate # required) actual =
     (if gate \<notin> set actual then Inl (''autonomy_envelope_required_gate_missing: '' @ gate)
      else missingGate required actual)"

definition validateGatePolicy :: "string list \<Rightarrow> Snapshot \<Rightarrow> unit result" where
  "validateGatePolicy gates snapshot =
     (let skipGates = sn_required_gates snapshot
      in if length skipGates = 0 then Inr () else missingGate gates skipGates)"

text \<open>The first validation that fails gives the error.\<close>

fun first_error :: "unit result list \<Rightarrow> unit result" where
  "first_error [] = Inr ()"
| "first_error (r # rs) = (case r of Inl e \<Rightarrow> Inl e | Inr _ \<Rightarrow> first_error rs)"

definition Validate :: "string list \<Rightarrow> Snapshot \<Rightarrow> unit result" where
  "Validate gates snapshot =
     first_error [validateIdentity snapshot, validateState snapshot, validateBounds snapshot,
       validateFailureStrategies snapshot, validateGatePolicy gates snapshot]"

section \<open>Hash, map and parse\<close>

definition canonical_fields :: "Snapshot \<Rightarrow> (string \<times> jval) list" where
  "canonical_fields snapshot =
     [(''active_concurrency'', JInt (sn_active_concurrency snapshot)),
      (''allowed_actions'', JStrs (sorted_unique (sn_allowed_actions snapshot))),
      (''allowed_modules'', JStrs (sorted_unique (sn_allowed_modules snapshot))),
      (''allowed_paths'', JStrs (sorted_unique (sn_allowed_paths snapshot))),
      (''allowed_repos'', JStrs (sorted_unique (sn_allowed_repos snapshot))),
      (''commission_budget'', JInt (sn_commission_budget snapshot)),
      (''consumed_commissions'', JInt (sn_consumed_commissions snapshot)),
      (''forbidden_actions'', JStrs (sorted_unique (sn_forbidden_actions snapshot))),
      (''forbidden_one_way_door_actions'', JStrs (sorted_unique (sn_forbidden_one_way_door_actions snapshot))),
      (''forbidden_paths'', JStrs (sorted_unique (sn_forbidden_paths snapshot))),
      (''max_concurrency'', JInt (sn_max_concurrency snapshot)),
      (''on_failure'', JStr (sn_on_failure snapshot)),
      (''on_stale'', JStr (sn_on_stale snapshot)),
      (''ref'', JStr (sn_ref snapshot)),
      (''required_gates'', JStrs (sorted_unique (sn_required_gates snapshot))),
      (''revision'', JStr (sn_revision snapshot)),
      (''revoked_at'', JStr (optionalTimeString (sn_revoked_at snapshot))),
      (''state'', JStr (sn_state snapshot)),
      (''valid_until'', JStr (format_rfc3339 (sn_valid_until snapshot)))]"

definition CanonicalHash :: "Snapshot \<Rightarrow> string" where
  "CanonicalHash snapshot = canonicalJSONHash (JObj (canonical_fields snapshot))"

definition Map_literal :: "Snapshot \<Rightarrow> payload" where
  "Map_literal snapshot =
        [(''ref'', GStr (sn_ref snapshot)),
         (''revision'', GStr (sn_revision snapshot)),
         (''state'', GStr (sn_state snapshot)),
         (''allowed_repos'', GArr (stringSliceToAny (sn_allowed_repos snapshot))),
         (''allowed_paths'', GArr (stringSliceToAny (sn_allowed_paths snapshot))),
         (''forbidden_paths'', GArr (stringSliceToAny (sn_forbidden_paths snapshot))),
         (''allowed_actions'', GArr (stringSliceToAny (sn_allowed_actions snapshot))),
         (''allowed_modules'', GArr (stringSliceToAny (sn_allowed_modules snapshot))),
         (''forbidden_actions'', GArr (stringSliceToAny (sn_forbidden_actions snapshot))),
         (''forbidden_one_way_door_actions'',
            GArr (stringSliceToAny (sn_forbidden_one_way_door_actions snapshot))),
         (''max_concurrency'', GInt (sn_max_concurrency snapshot)),
         (''commission_budget'', GInt (sn_commission_budget snapshot)),
         (''active_concurrency'', GInt (sn_active_concurrency snapshot)),
         (''consumed_commissions'', GInt (sn_consumed_commissions snapshot)),
         (''on_failure'', GStr (sn_on_failure snapshot)),
         (''valid_until'', GStr (format_rfc3339 (sn_valid_until snapshot))),
         (''required_gates'', GArr (stringSliceToAny (sn_required_gates snapshot))),
         (''hash'', GStr (sn_hash snapshot))]"

definition Map :: "Snapshot \<Rightarrow> payload" where
  "Map snapshot =
     (let payload = Map_literal snapshot;
          payload = (if sn_on_stale snapshot \<noteq> [] then put ''on_stale'' (GStr (sn_on_stale snapshot)) payload
                     else payload)
      in (case sn_revoked_at snapshot of
            None \<Rightarrow> payload
          | Some t \<Rightarrow> put ''revoked_at'' (GStr (format_rfc3339 t)) payload))"

text \<open>The literal at the top of \<open>SnapshotFromMap\<close>, with the two times parsed after it.\<close>

definition snapshot_fields :: "payload \<Rightarrow> Time \<Rightarrow> Time option \<Rightarrow> Snapshot" where
  "snapshot_fields payload validUntil revokedAt =
     \<lparr>sn_ref = firstString payload [''ref'', ''id''],
      sn_revision = stringField payload ''revision'',
      sn_state = stringField payload ''state'',
      sn_allowed_repos = optionalStringSlice payload ''allowed_repos'',
      sn_allowed_paths = optionalStringSlice payload ''allowed_paths'',
      sn_forbidden_paths = optionalStringSlice payload ''forbidden_paths'',
      sn_allowed_actions = optionalStringSlice payload ''allowed_actions'',
      sn_allowed_modules = optionalStringSlice payload ''allowed_modules'',
      sn_forbidden_actions = optionalStringSlice payload ''forbidden_actions'',
      sn_forbidden_one_way_door_actions =
        firstStringSlice payload [''forbidden_one_way_door_actions'', ''one_way_door_exclusions''],
      sn_max_concurrency = requiredPositiveInt payload ''max_concurrency'',
      sn_commission_budget = firstPositiveInt payload [''commission_budget'', ''max_commissions''],
      sn_active_concurrency = optionalNonNegativeInt payload ''active_concurrency'',
      sn_consumed_commissions = optionalNonNegativeInt payload ''consumed_commissions'',
      sn_on_failure = stringField payload ''on_failure'',
      sn_on_stale = stringField payload ''on_stale'',
      sn_valid_until = validUntil,
      sn_revoked_at = revokedAt,
      sn_required_gates = firstStringSlice payload [''required_gates''],
      sn_hash = []\<rparr>"

definition SnapshotFromMap :: "string list \<Rightarrow> payload \<Rightarrow> Snapshot result" where
  "SnapshotFromMap gates payload =
     (if length (firstStringSlice payload [''skip_gates'', ''disabled_gates'']) > 0
      then Inl ''autonomy_envelope_gate_skip_forbidden''
      else (case requiredTime payload [''valid_until'', ''expires_at''] of
          Inl e \<Rightarrow> Inl e
        | Inr validUntil \<Rightarrow>
            (case optionalTime payload ''revoked_at'' of
               Inl e \<Rightarrow> Inl e
             | Inr revokedAt \<Rightarrow>
                 (let snapshot = snapshot_fields payload validUntil revokedAt
                  in case Validate gates snapshot of
                       Inl e \<Rightarrow> Inl e
                     | Inr _ \<Rightarrow>
                         (let hash = CanonicalHash snapshot; suppliedHash = stringField payload ''hash''
                          in if suppliedHash \<noteq> [] \<and> suppliedHash \<noteq> hash
                             then Inl ''autonomy_envelope_hash_mismatch''
                             else Inr (snapshot\<lparr>sn_hash := hash\<rparr>))))))"

definition NormalizeSnapshot :: "string list \<Rightarrow> payload \<Rightarrow> (payload \<times> Snapshot) result" where
  "NormalizeSnapshot gates payload =
     (case SnapshotFromMap gates payload of
        Inl e \<Rightarrow> Inl e
      | Inr snapshot \<Rightarrow> Inr (Map snapshot, snapshot))"

section \<open>Evaluation\<close>

definition stateFindings :: "Snapshot \<Rightarrow> Finding list" where
  "stateFindings snapshot =
     (let s = sn_state snapshot
      in if s = StateApproved \<or> s = StateActive then []
         else if s = StateRevoked then [mk_finding ''autonomy_envelope_revoked'' ''state'' s]
         else if s = StateExpired then [mk_finding ''autonomy_envelope_expired'' ''state'' s]
         else if s = StateExhausted then [mk_finding ''autonomy_envelope_exhausted'' ''state'' s]
         else [mk_finding ''autonomy_envelope_not_active'' ''state'' s])"

definition expiryFindings :: "Snapshot \<Rightarrow> Time \<Rightarrow> Finding list" where
  "expiryFindings snapshot now =
     (if After (sn_valid_until snapshot) now then []
      else [mk_finding ''autonomy_envelope_expired'' ''valid_until'' (format_rfc3339 (sn_valid_until snapshot))])"

definition revocationFindings :: "Snapshot \<Rightarrow> Time \<Rightarrow> Finding list" where
  "revocationFindings snapshot now =
     (case sn_revoked_at snapshot of
        None \<Rightarrow> []
      | Some t \<Rightarrow> if After t now then []
                  else [mk_finding ''autonomy_envelope_revoked'' ''revoked_at'' (format_rfc3339 t)])"

definition lifecycleFindings :: "Snapshot \<Rightarrow> Time \<Rightarrow> Finding list" where
  "lifecycleFindings snapshot now =
     stateFindings snapshot @ expiryFindings snapshot now @ revocationFindings snapshot now"

definition repoFindings :: "Snapshot \<Rightarrow> CommissionRequest \<Rightarrow> Finding list" where
  "repoFindings snapshot request =
     (if cr_repo_ref request \<in> set (sn_allowed_repos snapshot) then []
      else [mk_finding ''repo_outside_autonomy_envelope'' ''scope.repo_ref'' (cr_repo_ref request)])"

definition envelope_scope :: "Snapshot \<Rightarrow> CommissionScope" where
  "envelope_scope snapshot =
     \<lparr>cs_allowed_paths = sn_allowed_paths snapshot, cs_forbidden_paths = sn_forbidden_paths snapshot,
      cs_affected_files = [], cs_lockset = []\<rparr>"

definition no_facts :: PathFacts where
  "no_facts = \<lparr>pf_workspace_root = [], pf_project_root = []\<rparr>"

definition pathFindings :: "Snapshot \<Rightarrow> CommissionRequest \<Rightarrow> Finding list" where
  "pathFindings snapshot request =
     (case blockingReason (AuthorizeWorkspaceDiff (envelope_scope snapshot) (cr_allowed_paths request) no_facts) of
        None \<Rightarrow> []
      | Some block \<Rightarrow>
          [mk_finding ''path_outside_autonomy_envelope'' ''scope.allowed_paths'' (join '','' (br_paths block))])"

definition forbiddenActionFinding :: "string \<Rightarrow> bool \<Rightarrow> Finding" where
  "forbiddenActionFinding action oneWayDoor =
     (if oneWayDoor then mk_finding ''one_way_door_action_forbidden'' ''scope.allowed_actions'' action
      else mk_finding ''action_forbidden_by_autonomy_envelope'' ''scope.allowed_actions'' action)"

definition actionFinding :: "Snapshot \<Rightarrow> string \<Rightarrow> Finding list" where
  "actionFinding snapshot action =
     (if action \<in> set (sn_forbidden_actions snapshot @ sn_forbidden_one_way_door_actions snapshot)
      then [forbiddenActionFinding action (action \<in> set (sn_forbidden_one_way_door_actions snapshot))]
      else if action \<notin> set (sn_allowed_actions snapshot)
      then [mk_finding ''action_outside_autonomy_envelope'' ''scope.allowed_actions'' action]
      else [])"

definition actionFindings :: "Snapshot \<Rightarrow> CommissionRequest \<Rightarrow> Finding list" where
  "actionFindings snapshot request =
     concat (map (actionFinding snapshot) (sorted_unique (cr_allowed_actions request)))"

definition moduleFindings :: "Snapshot \<Rightarrow> CommissionRequest \<Rightarrow> Finding list" where
  "moduleFindings snapshot request =
     (if length (sn_allowed_modules snapshot) = 0 then []
      else map (mk_finding ''module_outside_autonomy_envelope'' ''scope.allowed_modules'')
             (filter (\<lambda>m. m \<notin> set (sn_allowed_modules snapshot)) (sorted_unique (cr_allowed_modules request))))"

definition show_ratio :: "int \<Rightarrow> int \<Rightarrow> string" where
  "show_ratio a b = show_int a @ ''/'' @ show_int b"

definition budgetFindings :: "Snapshot \<Rightarrow> CommissionRequest \<Rightarrow> Finding list" where
  "budgetFindings snapshot request =
     (let activeConcurrency = max (sn_active_concurrency snapshot) (cr_active_concurrency request);
          consumedCommissions = max (sn_consumed_commissions snapshot) (cr_consumed_commissions request)
      in (if activeConcurrency \<ge> sn_max_concurrency snapshot
          then [mk_finding ''autonomy_envelope_concurrency_exhausted'' ''max_concurrency''
                  (show_ratio activeConcurrency (sn_max_concurrency snapshot))] else []) @
         (if consumedCommissions \<ge> sn_commission_budget snapshot
          then [mk_finding ''autonomy_envelope_commission_budget_exhausted'' ''commission_budget''
                  (show_ratio consumedCommissions (sn_commission_budget snapshot))] else []))"

definition Evaluate :: "Snapshot \<Rightarrow> CommissionRequest \<Rightarrow> Time \<Rightarrow> Report" where
  "Evaluate snapshot request now =
     (let findings = lifecycleFindings snapshot now @ repoFindings snapshot request @
          pathFindings snapshot request @ actionFindings snapshot request @
          moduleFindings snapshot request @ budgetFindings snapshot request
      in if length findings > 0 then \<lparr>rp_decision = DecisionBlocked, rp_findings = findings\<rparr>
         else \<lparr>rp_decision = DecisionAllowed, rp_findings = []\<rparr>)"

section \<open>When an envelope admits a request\<close>

definition envelope_live :: "Snapshot \<Rightarrow> Time \<Rightarrow> bool" where
  "envelope_live snapshot now \<longleftrightarrow>
     sn_state snapshot \<in> {StateApproved, StateActive} \<and> After (sn_valid_until snapshot) now
     \<and> (case sn_revoked_at snapshot of None \<Rightarrow> True | Some t \<Rightarrow> After t now)"

definition envelope_paths :: "Snapshot \<Rightarrow> string list \<Rightarrow> bool" where
  "envelope_paths snapshot ps \<longleftrightarrow>
     (let counting = filter (counted no_facts) ps
      in counting \<noteq> [] \<and> list_all (path_authorized (envelope_scope snapshot) no_facts) counting)"

definition action_permitted :: "Snapshot \<Rightarrow> string \<Rightarrow> bool" where
  "action_permitted snapshot action \<longleftrightarrow>
     action \<in> set (sn_allowed_actions snapshot) \<and> action \<notin> set (sn_forbidden_actions snapshot)
     \<and> action \<notin> set (sn_forbidden_one_way_door_actions snapshot)"

definition module_permitted :: "Snapshot \<Rightarrow> string \<Rightarrow> bool" where
  "module_permitted snapshot m \<longleftrightarrow>
     sn_allowed_modules snapshot = [] \<or> m \<in> set (sn_allowed_modules snapshot)"

definition envelope_budget :: "Snapshot \<Rightarrow> CommissionRequest \<Rightarrow> bool" where
  "envelope_budget snapshot request \<longleftrightarrow>
     max (sn_active_concurrency snapshot) (cr_active_concurrency request) < sn_max_concurrency snapshot
     \<and> max (sn_consumed_commissions snapshot) (cr_consumed_commissions request) < sn_commission_budget snapshot"

lemma set_sorted_unique_clean: "set (sorted_unique vs) = set (clean_strings vs)"
  by (simp add: sorted_unique_def)

lemma findings_empty:
  "lifecycleFindings s now = [] \<longleftrightarrow> envelope_live s now"
  "repoFindings s r = [] \<longleftrightarrow> cr_repo_ref r \<in> set (sn_allowed_repos s)"
  "pathFindings s r = [] \<longleftrightarrow> envelope_paths s (cr_allowed_paths r)"
  "actionFindings s r = [] \<longleftrightarrow> list_all (action_permitted s) (clean_strings (cr_allowed_actions r))"
  "moduleFindings s r = [] \<longleftrightarrow> list_all (module_permitted s) (clean_strings (cr_allowed_modules r))"
  "budgetFindings s r = [] \<longleftrightarrow> envelope_budget s r"
proof -
  show "lifecycleFindings s now = [] \<longleftrightarrow> envelope_live s now"
    by (auto simp: lifecycleFindings_def stateFindings_def expiryFindings_def revocationFindings_def
        envelope_live_def Let_def split: option.splits)
  show "repoFindings s r = [] \<longleftrightarrow> cr_repo_ref r \<in> set (sn_allowed_repos s)"
    by (simp add: repoFindings_def)
  have "pathFindings s r = [] \<longleftrightarrow>
      blockingReason (AuthorizeWorkspaceDiff (envelope_scope s) (cr_allowed_paths r) no_facts) = None"
    by (simp add: pathFindings_def split: option.split)
  then show "pathFindings s r = [] \<longleftrightarrow> envelope_paths s (cr_allowed_paths r)"
    by (simp add: blockingReason_None guard.admits_iff envelope_paths_def Let_def)
  have "actionFinding s a = [] \<longleftrightarrow> action_permitted s a" for a
    by (auto simp: actionFinding_def action_permitted_def)
  then show "actionFindings s r = [] \<longleftrightarrow> list_all (action_permitted s) (clean_strings (cr_allowed_actions r))"
    by (simp add: actionFindings_def concat_eq_Nil_conv list_all_iff set_sorted_unique_clean)
  show "moduleFindings s r = [] \<longleftrightarrow> list_all (module_permitted s) (clean_strings (cr_allowed_modules r))"
    by (auto simp: moduleFindings_def module_permitted_def list_all_iff filter_empty_conv set_sorted_unique_clean)
  show "budgetFindings s r = [] \<longleftrightarrow> envelope_budget s r"
    by (auto simp: budgetFindings_def envelope_budget_def Let_def)
qed

lemma Evaluate_decision:
  "rp_decision (Evaluate s r now) = DecisionAllowed \<longleftrightarrow>
     envelope_live s now \<and> cr_repo_ref r \<in> set (sn_allowed_repos s)
     \<and> envelope_paths s (cr_allowed_paths r)
     \<and> list_all (action_permitted s) (clean_strings (cr_allowed_actions r))
     \<and> list_all (module_permitted s) (clean_strings (cr_allowed_modules r))
     \<and> envelope_budget s r"
  by (simp add: Evaluate_def Let_def findings_empty)

text \<open>
  C21. An envelope admits a request exactly when it is approved or active, not expired and not
  revoked, the repository is listed, some path is requested and every requested path is allowed
  and not forbidden, every requested action is allowed and neither forbidden nor a one-way door,
  every module is allowed (an empty module list allows all), and both budgets have room. The
  verdict is never a checkpoint, and it is blocked exactly when there are findings.
\<close>

theorem Evaluate_allowed_iff:
  "(rp_decision (Evaluate s r now) = DecisionAllowed \<longleftrightarrow>
      envelope_live s now \<and> cr_repo_ref r \<in> set (sn_allowed_repos s)
      \<and> envelope_paths s (cr_allowed_paths r)
      \<and> list_all (action_permitted s) (clean_strings (cr_allowed_actions r))
      \<and> list_all (module_permitted s) (clean_strings (cr_allowed_modules r))
      \<and> envelope_budget s r)
   \<and> (rp_decision (Evaluate s r now) = DecisionBlocked \<longleftrightarrow> rp_findings (Evaluate s r now) \<noteq> [])
   \<and> rp_decision (Evaluate s r now) \<noteq> DecisionCheckpointRequired"
proof -
  have "rp_decision (Evaluate s r now) = DecisionBlocked \<longleftrightarrow> rp_findings (Evaluate s r now) \<noteq> []"
    "rp_decision (Evaluate s r now) \<noteq> DecisionCheckpointRequired"
    by (simp_all add: Evaluate_def Let_def)
  then show ?thesis using Evaluate_decision by blast
qed

text \<open>
  C22. Striking entries off a request never loses its admission, as long as a path remains: if an
  envelope admits a request, then at the same or an earlier time a request for the same repository
  whose lists hold only entries of the first one's, with no more concurrency or commissions, is
  admitted exactly when one of its paths is not blank. The comparison is of the entries as texts: a
  pattern replaced by a narrower pattern is another request, and may be refused (see
  \<open>wildcard_request_passes_forbidden\<close> below).
\<close>

theorem fewer_entries_stay_admitted:
  assumes "rp_decision (Evaluate s r now) = DecisionAllowed"
    and "unix_nano now' \<le> unix_nano now" and "cr_repo_ref r' = cr_repo_ref r"
    and "set (cr_allowed_paths r') \<subseteq> set (cr_allowed_paths r)"
    and "set (cr_allowed_actions r') \<subseteq> set (cr_allowed_actions r)"
    and "set (cr_allowed_modules r') \<subseteq> set (cr_allowed_modules r)"
    and "cr_active_concurrency r' \<le> cr_active_concurrency r"
    and "cr_consumed_commissions r' \<le> cr_consumed_commissions r"
  shows "rp_decision (Evaluate s r' now') = DecisionAllowed \<longleftrightarrow>
    (\<exists>p\<in>set (cr_allowed_paths r'). counted no_facts p)"
proof -
  note h = assms(1)[unfolded Evaluate_decision]
  have "envelope_live s now'"
    using h assms(2) by (auto simp: envelope_live_def After_def split: option.splits)
  moreover have "envelope_paths s (cr_allowed_paths r') \<longleftrightarrow> (\<exists>p\<in>set (cr_allowed_paths r'). counted no_facts p)"
    using h assms(4) by (auto simp: envelope_paths_def list_all_iff filter_empty_conv)
  moreover have "list_all (action_permitted s) (clean_strings (cr_allowed_actions r'))"
    "list_all (module_permitted s) (clean_strings (cr_allowed_modules r'))"
    using h clean_strings_mono[OF assms(5)] clean_strings_mono[OF assms(6)] by (auto simp: list_all_iff)
  moreover have "envelope_budget s r'" using h assms(7,8) by (auto simp: envelope_budget_def)
  ultimately show ?thesis unfolding Evaluate_decision using h assms(3) by simp
qed

definition example_envelope :: Snapshot where
  "example_envelope =
     \<lparr>sn_ref = ''env-1'', sn_revision = ''r1'', sn_state = StateApproved, sn_allowed_repos = [''repo-a''],
      sn_allowed_paths = [''internal/**''], sn_forbidden_paths = [''internal/secret/''],
      sn_allowed_actions = [''edit'', ''test''], sn_allowed_modules = [], sn_forbidden_actions = [''deploy''],
      sn_forbidden_one_way_door_actions = [''drop''], sn_max_concurrency = 2, sn_commission_budget = 5,
      sn_active_concurrency = 0, sn_consumed_commissions = 1, sn_on_failure = FailureBlockNode, sn_on_stale = [],
      sn_valid_until = \<lparr>tm_sec = 1800000000, tm_nsec = 0, tm_off = 0\<rparr>, sn_revoked_at = None,
      sn_required_gates = [], sn_hash = []\<rparr>"

definition example_request :: CommissionRequest where
  "example_request =
     \<lparr>cr_repo_ref = ''repo-a'', cr_allowed_paths = [''internal/a.go'', ''internal/b/c.go''],
      cr_forbidden_paths = [], cr_allowed_actions = [''edit''], cr_allowed_modules = [],
      cr_active_concurrency = 1, cr_consumed_commissions = 2\<rparr>"

definition example_now :: Time where
  "example_now = \<lparr>tm_sec = 1700000000, tm_nsec = 5, tm_off = 0\<rparr>"

lemma example_allowed: "rp_decision (Evaluate example_envelope example_request example_now) = DecisionAllowed"
  by code_simp

theorem fewer_entries_stay_admitted_witness:
  "rp_decision (Evaluate example_envelope (example_request\<lparr>cr_allowed_paths := [''internal/a.go'']\<rparr>) example_now)
     = DecisionAllowed"
proof -
  have "counted no_facts ''internal/a.go''" by code_simp
  then show ?thesis
    by (subst fewer_entries_stay_admitted[OF example_allowed]) (simp_all add: example_request_def)
qed

text \<open>
  A gap of the path check: a requested pattern is checked as if it were a path. The pattern
  \<open>internal/**\<close> passes an envelope that forbids \<open>internal/secret/\<close>, although it matches the
  files below that directory.
\<close>

lemma wildcard_request_passes_forbidden:
  "pathFindings example_envelope (example_request\<lparr>cr_allowed_paths := [''internal/**'']\<rparr>) = []
   \<and> pathMatches ''internal/**'' ''internal/secret/key''
   \<and> pathFindings example_envelope (example_request\<lparr>cr_allowed_paths := [''internal/secret/key'']\<rparr>) \<noteq> []"
  by code_simp

section \<open>What parsing establishes\<close>

lemma optionalStringSlice_canonical [simp]: "canonical (optionalStringSlice p k)"
  by (simp add: optionalStringSlice_def stringSliceFromAny_def split: option.split gval.split)

lemma firstStringSlice_canonical [simp]: "canonical (firstStringSlice p ks)"
  by (induction ks) (simp_all add: Let_def)

lemma first_error_ok: "first_error rs = Inr () \<longleftrightarrow> list_all (\<lambda>r. r = Inr ()) rs"
  by (induction rs) (auto split: sum.splits)

lemma if_cancel_result: "(if b then Inr () else Inl e) = Inr () \<longleftrightarrow> b"
  by simp

lemma missingGate_ok: "missingGate req actual = Inr () \<longleftrightarrow> set req \<subseteq> set actual"
  by (induction req) auto

definition snapshot_valid :: "Snapshot \<Rightarrow> bool" where
  "snapshot_valid s \<longleftrightarrow>
     sn_ref s \<noteq> [] \<and> sn_revision s \<noteq> []
     \<and> sn_state s \<in> {StateDraft, StateApproved, StateActive, StateExhausted, StateRevoked, StateExpired}
     \<and> sn_allowed_repos s \<noteq> [] \<and> sn_allowed_paths s \<noteq> [] \<and> sn_allowed_actions s \<noteq> []
     \<and> 0 < sn_max_concurrency s \<and> 0 < sn_commission_budget s
     \<and> 0 \<le> sn_active_concurrency s \<and> 0 \<le> sn_consumed_commissions s
     \<and> validFailureStrategy (sn_on_failure s) \<and> (sn_on_stale s = [] \<or> validFailureStrategy (sn_on_stale s))
     \<and> (sn_required_gates s = [] \<or> set RequiredGates \<subseteq> set (sn_required_gates s))"

lemma Validate_ok:
  assumes "set gates = set RequiredGates"
  shows "Validate gates s = Inr () \<longleftrightarrow> snapshot_valid s"
proof -
  have "validateIdentity s = Inr () \<longleftrightarrow> sn_ref s \<noteq> [] \<and> sn_revision s \<noteq> []"
    by (simp add: validateIdentity_def)
  moreover have "validateState s = Inr () \<longleftrightarrow>
      sn_state s \<in> {StateDraft, StateApproved, StateActive, StateExhausted, StateRevoked, StateExpired}"
    unfolding validateState_def by (rule if_cancel_result)
  moreover have "validateBounds s = Inr () \<longleftrightarrow>
      sn_allowed_repos s \<noteq> [] \<and> sn_allowed_paths s \<noteq> [] \<and> sn_allowed_actions s \<noteq> []
      \<and> 0 < sn_max_concurrency s \<and> 0 < sn_commission_budget s
      \<and> 0 \<le> sn_active_concurrency s \<and> 0 \<le> sn_consumed_commissions s"
    by (simp add: validateBounds_def not_le not_less)
  moreover have "validateFailureStrategies s = Inr () \<longleftrightarrow>
      validFailureStrategy (sn_on_failure s) \<and> (sn_on_stale s = [] \<or> validFailureStrategy (sn_on_stale s))"
    by (simp add: validateFailureStrategies_def)
  moreover have "validateGatePolicy gates s = Inr () \<longleftrightarrow>
      sn_required_gates s = [] \<or> set RequiredGates \<subseteq> set (sn_required_gates s)"
    by (simp add: validateGatePolicy_def Let_def missingGate_ok assms)
  ultimately show ?thesis
    unfolding Validate_def first_error_ok list.pred_inject snapshot_valid_def by (simp only: list.pred_inject simp_thms conj_assoc)
qed

definition snapshot_canonical :: "Snapshot \<Rightarrow> bool" where
  "snapshot_canonical s \<longleftrightarrow>
     list_all canonical
       [sn_allowed_repos s, sn_allowed_paths s, sn_forbidden_paths s, sn_allowed_actions s,
        sn_allowed_modules s, sn_forbidden_actions s, sn_forbidden_one_way_door_actions s,
        sn_required_gates s]
     \<and> list_all (\<lambda>v. trim_space v = v)
       [sn_ref s, sn_revision s, sn_state s, sn_on_failure s, sn_on_stale s]"

lemma firstString_trim [simp]: "trim_space (firstString p ks) = firstString p ks"
  by (induction ks) (auto simp: Let_def)

lemma SnapshotFromMap_iff:
  assumes "set gates = set RequiredGates"
  shows "SnapshotFromMap gates p = Inr s \<longleftrightarrow>
     firstStringSlice p [''skip_gates'', ''disabled_gates''] = []
     \<and> (\<exists>vu ra. requiredTime p [''valid_until'', ''expires_at''] = Inr vu
          \<and> optionalTime p ''revoked_at'' = Inr ra
          \<and> snapshot_valid (snapshot_fields p vu ra)
          \<and> stringField p ''hash'' \<in> {[], CanonicalHash (snapshot_fields p vu ra)}
          \<and> s = snapshot_fields p vu ra\<lparr>sn_hash := CanonicalHash (snapshot_fields p vu ra)\<rparr>)"
  by (auto simp: SnapshotFromMap_def Let_def Validate_ok[OF assms, symmetric] split: sum.splits if_splits)

lemma snapshot_valid_hash [simp]: "snapshot_valid (s\<lparr>sn_hash := h\<rparr>) = snapshot_valid s"
  by (simp add: snapshot_valid_def)

lemma CanonicalHash_hash [simp]: "CanonicalHash (s\<lparr>sn_hash := h\<rparr>) = CanonicalHash s"
  by (simp add: CanonicalHash_def canonical_fields_def)

lemma snapshot_fields_canonical: "snapshot_canonical (snapshot_fields p vu ra\<lparr>sn_hash := h\<rparr>)"
  by (simp add: snapshot_canonical_def snapshot_fields_def del: firstString.simps firstStringSlice.simps)

text \<open>
  An accepted envelope is sound: every required field is there, the budgets are positive,
  every list and text is in canonical form, no gate is skipped, a list of gates names all the
  required ones, and the hash is the canonical hash. A payload that carries the hash of other
  contents is rejected.
\<close>

theorem SnapshotFromMap_sound:
  assumes "SnapshotFromMap gates p = Inr s" and "set gates = set RequiredGates"
  shows "snapshot_valid s \<and> snapshot_canonical s \<and> sn_hash s = CanonicalHash s
    \<and> optionalStringSlice p ''skip_gates'' = [] \<and> optionalStringSlice p ''disabled_gates'' = []
    \<and> stringField p ''hash'' \<in> {[], sn_hash s}"
proof -
  obtain vu ra where s: "s = snapshot_fields p vu ra\<lparr>sn_hash := CanonicalHash (snapshot_fields p vu ra)\<rparr>"
    and valid: "snapshot_valid (snapshot_fields p vu ra)"
    and hash: "stringField p ''hash'' \<in> {[], CanonicalHash (snapshot_fields p vu ra)}"
    and gates: "firstStringSlice p [''skip_gates'', ''disabled_gates''] = []"
    using assms(1) unfolding SnapshotFromMap_iff[OF assms(2)] by blast
  have "snapshot_canonical s" unfolding s by (rule snapshot_fields_canonical)
  then show ?thesis
    using s valid hash gates by (auto simp: Let_def split: if_splits)
qed

section \<open>The hash\<close>

text \<open>
  The contract of a canonical form: it depends on the meaning of a list only and keeps it. The
  code hashes canonical forms, so what does not change the meaning does not change the hash.
\<close>

locale canonical_form =
  fixes canon :: "'a list \<Rightarrow> 'a list" and meaning :: "'a list \<Rightarrow> 'a set"
  assumes canon_cong: "meaning xs = meaning ys \<Longrightarrow> canon xs = canon ys"
    and meaning_canon: "meaning (canon xs) = meaning xs"
    and meaning_set: "set xs = set ys \<Longrightarrow> meaning xs = meaning ys"
begin

lemma canon_idem: "canon (canon xs) = canon xs"
  by (rule canon_cong) (rule meaning_canon)

lemma canon_set: "set xs = set ys \<Longrightarrow> canon xs = canon ys"
  by (rule canon_cong) (rule meaning_set)

lemma canon_iff: "canon xs = canon ys \<longleftrightarrow> meaning xs = meaning ys"
  using canon_cong meaning_canon by metis

end

interpretation sorted_texts: canonical_form sorted_unique "\<lambda>vs. set (clean_strings vs)"
proof unfold_locales
  show "set (clean_strings xs) = set (clean_strings ys) \<Longrightarrow> sorted_unique xs = sorted_unique ys" for xs ys
    by (rule sorted_unique_cong_set)
  show "set (clean_strings (sorted_unique xs)) = set (clean_strings xs)" for xs
    by (simp add: set_sorted_unique_clean)
  show "set (clean_strings xs) = set (clean_strings ys)" if "set xs = set ys" for xs ys
    using clean_strings_mono[of xs ys] clean_strings_mono[of ys xs] that by blast
qed

definition map_lists :: "(string list \<Rightarrow> string list) \<Rightarrow> Snapshot \<Rightarrow> Snapshot" where
  "map_lists f s =
     s\<lparr>sn_allowed_repos := f (sn_allowed_repos s), sn_allowed_paths := f (sn_allowed_paths s),
       sn_forbidden_paths := f (sn_forbidden_paths s), sn_allowed_actions := f (sn_allowed_actions s),
       sn_allowed_modules := f (sn_allowed_modules s), sn_forbidden_actions := f (sn_forbidden_actions s),
       sn_forbidden_one_way_door_actions := f (sn_forbidden_one_way_door_actions s),
       sn_required_gates := f (sn_required_gates s)\<rparr>"

lemma canonical_fields_map_lists:
  "(\<And>vs. sorted_unique (f vs) = sorted_unique vs) \<Longrightarrow> canonical_fields (map_lists f s) = canonical_fields s"
  by (simp add: canonical_fields_def map_lists_def)

text \<open>
  The canonical hash is 64 hexadecimal digits, does not depend on the stored hash, and does
  not depend on the order, the repetition or the surrounding white space of the entries of any
  list.
\<close>

theorem CanonicalHash_order_free:
  "length (CanonicalHash s) = 64
   \<and> CanonicalHash (s\<lparr>sn_hash := h\<rparr>) = CanonicalHash s
   \<and> CanonicalHash (map_lists rev s) = CanonicalHash s
   \<and> CanonicalHash (map_lists (\<lambda>vs. vs @ vs) s) = CanonicalHash s
   \<and> CanonicalHash (map_lists sorted_unique s) = CanonicalHash s
   \<and> CanonicalHash (map_lists (map (\<lambda>v. trim_space v)) s) = CanonicalHash s"
proof -
  have trim: "clean_strings (map (\<lambda>v. trim_space v) vs) = clean_strings vs" for vs
    by (induction vs) (auto simp: Let_def)
  have "canonical_fields (map_lists rev s) = canonical_fields s"
    "canonical_fields (map_lists (\<lambda>vs. vs @ vs) s) = canonical_fields s"
    "canonical_fields (map_lists sorted_unique s) = canonical_fields s"
    by (rule canonical_fields_map_lists, rule sorted_texts.canon_set sorted_unique_idem, simp?)+
  moreover have "canonical_fields (map_lists (map (\<lambda>v. trim_space v)) s) = canonical_fields s"
    by (rule canonical_fields_map_lists) (simp add: sorted_unique_def trim)
  ultimately show ?thesis
    by (simp add: CanonicalHash_def[of "map_lists _ _"] CanonicalHash_def[of s]
        CanonicalHash_def[of "s\<lparr>sn_hash := h\<rparr>"] length_canonicalJSONHash canonical_fields_def
        del: CanonicalHash_hash)
qed

section \<open>Writing back and reading again\<close>

definition times_exact :: "Snapshot \<Rightarrow> bool" where
  "times_exact s \<longleftrightarrow>
     rfc_exact (sn_valid_until s) \<and> (case sn_revoked_at s of None \<Rightarrow> True | Some t \<Rightarrow> rfc_exact t)"

lemma times_exact_hash [simp]: "times_exact (s\<lparr>sn_hash := h\<rparr>) = times_exact s"
  by (simp add: times_exact_def)

lemma Map_optional:
  "map_of (Map s) k =
     (if k = ''revoked_at'' \<and> sn_revoked_at s \<noteq> None
      then map_option (\<lambda>t. GStr (format_rfc3339 t)) (sn_revoked_at s)
      else if k = ''on_stale'' \<and> sn_on_stale s \<noteq> [] then Some (GStr (sn_on_stale s))
      else map_of (Map_literal s) k)"
  by (cases "sn_revoked_at s") (simp_all add: Map_def Let_def)

lemma Map_lookup:
  "map_of (Map s) ''ref'' = Some (GStr (sn_ref s))"
  "map_of (Map s) ''revision'' = Some (GStr (sn_revision s))"
  "map_of (Map s) ''state'' = Some (GStr (sn_state s))"
  "map_of (Map s) ''allowed_repos'' = Some (GArr (stringSliceToAny (sn_allowed_repos s)))"
  "map_of (Map s) ''allowed_paths'' = Some (GArr (stringSliceToAny (sn_allowed_paths s)))"
  "map_of (Map s) ''forbidden_paths'' = Some (GArr (stringSliceToAny (sn_forbidden_paths s)))"
  "map_of (Map s) ''allowed_actions'' = Some (GArr (stringSliceToAny (sn_allowed_actions s)))"
  "map_of (Map s) ''allowed_modules'' = Some (GArr (stringSliceToAny (sn_allowed_modules s)))"
  "map_of (Map s) ''forbidden_actions'' = Some (GArr (stringSliceToAny (sn_forbidden_actions s)))"
  "map_of (Map s) ''forbidden_one_way_door_actions'' =
     Some (GArr (stringSliceToAny (sn_forbidden_one_way_door_actions s)))"
  "map_of (Map s) ''max_concurrency'' = Some (GInt (sn_max_concurrency s))"
  "map_of (Map s) ''commission_budget'' = Some (GInt (sn_commission_budget s))"
  "map_of (Map s) ''active_concurrency'' = Some (GInt (sn_active_concurrency s))"
  "map_of (Map s) ''consumed_commissions'' = Some (GInt (sn_consumed_commissions s))"
  "map_of (Map s) ''on_failure'' = Some (GStr (sn_on_failure s))"
  "map_of (Map s) ''valid_until'' = Some (GStr (format_rfc3339 (sn_valid_until s)))"
  "map_of (Map s) ''required_gates'' = Some (GArr (stringSliceToAny (sn_required_gates s)))"
  "map_of (Map s) ''hash'' = Some (GStr (sn_hash s))"
  "map_of (Map s) ''skip_gates'' = None" "map_of (Map s) ''disabled_gates'' = None"
  "map_of (Map s) ''id'' = None" "map_of (Map s) ''one_way_door_exclusions'' = None"
  "map_of (Map s) ''on_stale'' = (if sn_on_stale s = [] then None else Some (GStr (sn_on_stale s)))"
  "map_of (Map s) ''revoked_at'' = map_option (\<lambda>t. GStr (format_rfc3339 t)) (sn_revoked_at s)"
  by (simp_all add: Map_optional Map_literal_def option.map_sel)

lemma optionalStringSlice_any:
  "map_of p k = Some (GArr (stringSliceToAny vs)) \<Longrightarrow> canonical vs \<Longrightarrow> optionalStringSlice p k = vs"
  by (simp add: optionalStringSlice_def stringSliceFromAny_def canonical_sorted_unique_id)

lemma optionalStringSlice_None: "map_of p k = None \<Longrightarrow> optionalStringSlice p k = []"
  by (simp add: optionalStringSlice_def)

lemma stringField_Some: "map_of p k = Some (GStr v) \<Longrightarrow> stringField p k = trim_space v"
  by (simp add: stringField_def)

lemma stringField_None: "map_of p k = None \<Longrightarrow> stringField p k = []"
  by (simp add: stringField_def)

lemma snapshot_fields_Map:
  assumes "snapshot_valid s" "snapshot_canonical s"
  shows "snapshot_fields (Map s) (sn_valid_until s) (sn_revoked_at s) = s\<lparr>sn_hash := []\<rparr>"
proof -
  have canon: "canonical (sn_allowed_repos s)" "canonical (sn_allowed_paths s)" "canonical (sn_forbidden_paths s)"
    "canonical (sn_allowed_actions s)" "canonical (sn_allowed_modules s)" "canonical (sn_forbidden_actions s)"
    "canonical (sn_forbidden_one_way_door_actions s)" "canonical (sn_required_gates s)"
    using assms(2) by (auto simp: snapshot_canonical_def)
  have texts: "trim_space (sn_ref s) = sn_ref s" "trim_space (sn_revision s) = sn_revision s"
    "trim_space (sn_state s) = sn_state s" "trim_space (sn_on_failure s) = sn_on_failure s"
    "trim_space (sn_on_stale s) = sn_on_stale s"
    using assms(2) by (auto simp: snapshot_canonical_def)
  have nums: "0 < sn_max_concurrency s" "0 < sn_commission_budget s" "0 \<le> sn_active_concurrency s"
    "0 \<le> sn_consumed_commissions s" "sn_ref s \<noteq> []"
    using assms(1) by (auto simp: snapshot_valid_def)
  note lists = canon[THEN optionalStringSlice_any[rotated]]
  show ?thesis
    using nums
    by (intro Snapshot.equality)
      (simp_all add: snapshot_fields_def stringField_Some[OF Map_lookup(1)] stringField_Some[OF Map_lookup(2)]
        stringField_Some[OF Map_lookup(3)] stringField_Some[OF Map_lookup(15)] texts
        lists(1)[OF Map_lookup(4)] lists(2)[OF Map_lookup(5)] lists(3)[OF Map_lookup(6)]
        lists(4)[OF Map_lookup(7)] lists(5)[OF Map_lookup(8)] lists(6)[OF Map_lookup(9)]
        lists(7)[OF Map_lookup(10)] lists(8)[OF Map_lookup(17)] optionalStringSlice_None Map_lookup
        Let_def requiredPositiveInt_def positiveInt_def optionalNonNegativeInt_def stringField_def)
qed

lemma SnapshotFromMap_Map:
  assumes "set gates = set RequiredGates" "snapshot_valid s" "snapshot_canonical s" "times_exact s"
    "trim_space (sn_hash s) \<in> {[], CanonicalHash s}"
  shows "SnapshotFromMap gates (Map s) = Inr (s\<lparr>sn_hash := CanonicalHash s\<rparr>)"
proof -
  have vu: "requiredTime (Map s) [''valid_until'', ''expires_at''] = Inr (sn_valid_until s)"
    using assms(4) by (simp add: times_exact_def stringField_Some[OF Map_lookup(16)] trim_format_rfc3339
        parse_format_rfc3339 Let_def)
  have ra: "optionalTime (Map s) ''revoked_at'' = Inr (sn_revoked_at s)"
    using assms(4)
    by (cases "sn_revoked_at s") (simp_all add: optionalTime_def times_exact_def stringField_def Map_lookup
        trim_format_rfc3339 parse_format_rfc3339 Let_def)
  have "firstStringSlice (Map s) [''skip_gates'', ''disabled_gates''] = []"
    by (simp add: optionalStringSlice_None Map_lookup)
  moreover have "stringField (Map s) ''hash'' \<in> {[], CanonicalHash s}"
    using assms(5) by (simp add: stringField_Some[OF Map_lookup(18)])
  ultimately show ?thesis
    unfolding SnapshotFromMap_iff[OF assms(1)]
    using vu ra snapshot_fields_Map[OF assms(2,3)] assms(2) by simp
qed

lemma example_exact: "times_exact example_envelope"
  by code_simp

lemma example_envelope_parses:
  "SnapshotFromMap RequiredGates (Map example_envelope) =
     Inr (example_envelope\<lparr>sn_hash := CanonicalHash example_envelope\<rparr>)"
proof (rule SnapshotFromMap_Map)
  show "snapshot_valid example_envelope" by code_simp
  show "snapshot_canonical example_envelope" by code_simp
  show "times_exact example_envelope" by (rule example_exact)
qed (simp_all add: example_envelope_def)

theorem SnapshotFromMap_sound_witness:
  "snapshot_canonical (example_envelope\<lparr>sn_hash := CanonicalHash example_envelope\<rparr>)
   \<and> optionalStringSlice (Map example_envelope) ''skip_gates'' = []"
  using SnapshotFromMap_sound[OF example_envelope_parses] by simp

lemma trim_CanonicalHash [simp]: "trim_space (CanonicalHash s) = CanonicalHash s"
  by (simp add: CanonicalHash_def)

text \<open>
  \<open>Map\<close> writes RFC3339: it keeps the whole seconds of a time and drops the rest. The zone \<open>24:60\<close>,
  which Go's parser admits, is written as \<open>25:00\<close>, which it does not read.
\<close>

definition whole_seconds :: "Snapshot \<Rightarrow> Snapshot" where
  "whole_seconds s =
     s\<lparr>sn_valid_until := whole_second (sn_valid_until s),
       sn_revoked_at := map_option whole_second (sn_revoked_at s)\<rparr>"

definition zones_readable :: "Snapshot \<Rightarrow> bool" where
  "zones_readable s \<longleftrightarrow>
     \<bar>tm_off (sn_valid_until s)\<bar> < 90000
     \<and> (case sn_revoked_at s of None \<Rightarrow> True | Some t \<Rightarrow> \<bar>tm_off t\<bar> < 90000)"

lemma whole_seconds_fields:
  "canonical_fields (whole_seconds s) = canonical_fields s" "Map_literal (whole_seconds s) = Map_literal s"
  by (cases "sn_revoked_at s"; simp add: whole_seconds_def canonical_fields_def optionalTimeString_def)
    (simp add: whole_seconds_def Map_literal_def)

lemma whole_seconds_writes [simp]:
  "Map (whole_seconds s) = Map s" "CanonicalHash (whole_seconds s) = CanonicalHash s"
proof -
  have "sn_on_stale (whole_seconds s) = sn_on_stale s"
    "sn_revoked_at (whole_seconds s) = map_option whole_second (sn_revoked_at s)"
    by (simp_all add: whole_seconds_def)
  then show "Map (whole_seconds s) = Map s"
    unfolding Map_def Let_def whole_seconds_fields by (simp split: option.split)
  show "CanonicalHash (whole_seconds s) = CanonicalHash s"
    unfolding CanonicalHash_def whole_seconds_fields ..
qed

lemma whole_seconds_sound [simp]:
  "snapshot_valid (whole_seconds s) = snapshot_valid s"
  "snapshot_canonical (whole_seconds s) = snapshot_canonical s"
  "sn_hash (whole_seconds s) = sn_hash s"
  by (simp_all add: whole_seconds_def snapshot_valid_def snapshot_canonical_def)

lemma requiredTime_parsed: "requiredTime p ks = Inr t \<Longrightarrow> \<exists>v. parse_rfc3339 v = Some t"
  by (induction ks) (auto simp: Let_def split: if_splits option.splits)

lemma optionalTime_parsed: "optionalTime p k = Inr (Some t) \<Longrightarrow> \<exists>v. parse_rfc3339 v = Some t"
  by (auto simp: optionalTime_def Let_def split: if_splits option.splits)

lemma accepted_times_exact:
  assumes "SnapshotFromMap gates p = Inr s" "set gates = set RequiredGates" "zones_readable s"
  shows "times_exact (whole_seconds s)"
proof -
  obtain vu ra where times: "requiredTime p [''valid_until'', ''expires_at''] = Inr vu" "optionalTime p ''revoked_at'' = Inr ra"
    and s: "sn_valid_until s = vu" "sn_revoked_at s = ra"
    using assms(1) unfolding SnapshotFromMap_iff[OF assms(2)] by (auto simp: snapshot_fields_def)
  have "rfc_exact (whole_second vu)"
    using requiredTime_parsed[OF times(1)] assms(3) s by (auto simp: zones_readable_def intro: parse_exact)
  moreover have "rfc_exact (whole_second t)" if "ra = Some t" for t
  proof -
    obtain v where "parse_rfc3339 v = Some t" using times(2) \<open>ra = Some t\<close> by (auto dest: optionalTime_parsed)
    then show ?thesis using assms(3) s that by (auto simp: zones_readable_def intro: parse_exact)
  qed
  ultimately show ?thesis using s by (simp add: times_exact_def whole_seconds_def split: option.split)
qed

lemma accepted_unchanged:
  assumes "SnapshotFromMap gates p = Inr s" "set gates = set RequiredGates" "zones_readable s"
  shows "NormalizeSnapshot gates (Map s) = Inr (Map s, whole_seconds s)"
proof -
  note sound = SnapshotFromMap_sound[OF assms(1,2)]
  have "snapshot_valid (whole_seconds s)" "snapshot_canonical (whole_seconds s)"
    "trim_space (sn_hash (whole_seconds s)) \<in> {[], CanonicalHash (whole_seconds s)}"
    using sound by simp_all
  then have "SnapshotFromMap gates (Map (whole_seconds s)) =
      Inr ((whole_seconds s)\<lparr>sn_hash := CanonicalHash (whole_seconds s)\<rparr>)"
    by (intro SnapshotFromMap_Map[OF assms(2)] accepted_times_exact[OF assms])
  moreover have "(whole_seconds s)\<lparr>sn_hash := CanonicalHash (whole_seconds s)\<rparr> = whole_seconds s"
    using sound by simp
  ultimately show ?thesis by (simp only: NormalizeSnapshot_def whole_seconds_writes sum.case)
qed

text \<open>
  C27. An accepted envelope is stable under writing and reading again: the map that
  \<open>NormalizeSnapshot\<close> gives is accepted in turn, with the very same map and hash, and with the same
  envelope except that its two times lose their fraction of a second, which \<open>Map\<close> does not write.
  The condition is that no accepted time has the zone \<open>24:60\<close>, whose written form cannot be read.
\<close>

theorem NormalizeSnapshot_idempotent:
  assumes "NormalizeSnapshot gates p = Inr (m, s)" and "set gates = set RequiredGates" and "zones_readable s"
  shows "NormalizeSnapshot gates m = Inr (m, whole_seconds s)
    \<and> NormalizeSnapshot gates (Map (whole_seconds s)) = Inr (m, whole_seconds s)"
proof -
  have s: "SnapshotFromMap gates p = Inr s" and m: "m = Map s"
    using assms(1) by (auto simp: NormalizeSnapshot_def split: sum.splits)
  show ?thesis using accepted_unchanged[OF s assms(2,3)] m by simp
qed

theorem NormalizeSnapshot_idempotent_witness:
  "(let s = example_envelope\<lparr>sn_hash := CanonicalHash example_envelope\<rparr>
    in NormalizeSnapshot RequiredGates (Map s) = Inr (Map s, whole_seconds s))"
proof -
  have "NormalizeSnapshot RequiredGates (Map example_envelope) =
     Inr (Map (example_envelope\<lparr>sn_hash := CanonicalHash example_envelope\<rparr>),
       example_envelope\<lparr>sn_hash := CanonicalHash example_envelope\<rparr>)"
    by (simp add: NormalizeSnapshot_def example_envelope_parses)
  moreover have "zones_readable (example_envelope\<lparr>sn_hash := CanonicalHash example_envelope\<rparr>)"
    by (simp add: zones_readable_def) code_simp
  ultimately show ?thesis
    unfolding Let_def using NormalizeSnapshot_idempotent by simp
qed

end
