(* ===== verification/ArtifactStore.thy ===== *)
theory ArtifactStore
  imports GoJSON GoTime GoHash "HOL-Library.Multiset"
begin

text \<open>
  The part of \<open>internal/artifact/store.go\<close> the commission handlers use: the table of artifacts
  with its primary key, the links and affected files of an artifact, and the revision hashes of
  \<open>serve_commission.go\<close> computed from them. The table is the list of its rows in the order of
  creation (\<open>ORDER BY created_at\<close>; rows of one second in insertion order). The column
  \<open>structured_data\<close> holds a text, or \<open>Encoded p\<close>, the text \<open>json.Marshal\<close> writes for \<open>p\<close>: reading
  it back gives \<open>json_norm_payload p\<close>, while a text is read by the parser of \<open>GoJSON\<close>. A
  database failure other than a duplicate key or a missing row is not modelled.
\<close>

section \<open>JSON at rest\<close>

text \<open>
  What a payload becomes when it is written with \<open>json.Marshal\<close> and read with
  \<open>json.Unmarshal\<close>: integers and \<open>json.Number\<close>s come back as floats (rounded to 53 bits, ties to even), string
  slices as arrays, string maps as objects. Texts are assumed to be valid UTF-8.
\<close>

definition float_of_int :: "int \<Rightarrow> gval" where
  "float_of_int i =
     (let a = \<bar>i\<bar>; k = nat (bitlen a - 53)
      in if k = 0 then GFloat i 0
         else (let q = a div 2 ^ k; r = a mod 2 ^ k; half = 2 ^ (k - 1);
                   q' = (if r > half \<or> (r = half \<and> odd q) then q + 1 else q)
               in GFloat (sgn i * q') (int k)))"

text \<open>
  A \<open>json.Number\<close> is written as its text (the empty one as 0) and read back as a float64. No decoder
  of the source asks for such numbers, so one whose text is no number, which \<open>json.Marshal\<close> would
  refuse, is left as it is.
\<close>

definition number_at_rest :: "string \<Rightarrow> gval" where
  "number_at_rest s =
     (if s = [] then GFloat 0 0
      else (case parse_number s of
          Some (v, rest) \<Rightarrow> if rest = [] then v else GJsonNumber s
        | None \<Rightarrow> GJsonNumber s))"

primrec json_norm :: "gval \<Rightarrow> gval" where
  "json_norm GNil = GNil"
| "json_norm (GBool b) = GBool b"
| "json_norm (GInt i) = float_of_int i"
| "json_norm (GInt64 i) = float_of_int i"
| "json_norm (GFloat m e) = GFloat m e"
| "json_norm (GJsonNumber s) = number_at_rest s"
| "json_norm (GStr s) = GStr s"
| "json_norm (GStrs vs) = GArr (map GStr vs)"
| "json_norm (GArr vs) = GArr (map json_norm vs)"
| "json_norm (GMap kvs) = GMap (map (map_prod id json_norm) kvs)"
| "json_norm (GStrMap kvs) = GMap (map (map_prod id GStr) kvs)"

definition json_norm_payload :: "payload \<Rightarrow> payload" where
  "json_norm_payload p = map (map_prod id json_norm) p"

lemma map_of_json_norm_payload: "map_of (json_norm_payload p) k = map_option json_norm (map_of p k)"
  by (induction p) (auto simp: json_norm_payload_def)

section \<open>The table\<close>

datatype StructuredData = Text string | Encoded payload

abbreviation "KindWorkCommission \<equiv> ''WorkCommission''"
abbreviation "KindDecisionRecord \<equiv> ''DecisionRecord''"
abbreviation "KindProblemCard \<equiv> ''ProblemCard''"
abbreviation "KindSolutionPortfolio \<equiv> ''SolutionPortfolio''"

abbreviation "StatusActive \<equiv> ''active''"
abbreviation "StatusSuperseded \<equiv> ''superseded''"
abbreviation "StatusDeprecated \<equiv> ''deprecated''"
abbreviation "StatusRefreshDue \<equiv> ''refresh_due''"

record Link =
  lk_ref :: string
  lk_type :: string

record Artifact =
  art_id :: string
  art_kind :: string
  art_version :: int
  art_status :: string
  art_title :: string
  art_body :: string
  art_valid_until :: string
  art_links :: "Link list"
  art_data :: StructuredData

record Store =
  st_artifacts :: "Artifact list"
  st_files :: "(string \<times> string list) list"

definition store_get :: "Store \<Rightarrow> string \<Rightarrow> Artifact result" where
  "store_get store artifactID =
     (case find (\<lambda>a. art_id a = artifactID) (st_artifacts store) of
        None \<Rightarrow> Inl (''get artifact '' @ artifactID @ '': sql: no rows in result set'')
      | Some a \<Rightarrow> Inr a)"

definition new_row :: "Artifact \<Rightarrow> Artifact" where
  "new_row a =
     a\<lparr>art_version := (if art_version a = 0 then 1 else art_version a),
       art_status := (if art_status a = [] then StatusActive else art_status a)\<rparr>"

lemma art_id_new_row [simp]: "art_id (new_row a) = art_id a"
  by (simp add: new_row_def)

definition store_create :: "Artifact \<Rightarrow> Store \<Rightarrow> Store result" where
  "store_create a store =
     (if list_ex (\<lambda>b. art_id b = art_id a) (st_artifacts store)
      then Inl (''artifact '' @ art_id a @ '' already exists'')
      else Inr (store\<lparr>st_artifacts := st_artifacts store @ [new_row a]\<rparr>))"

definition GetAffectedFiles :: "Store \<Rightarrow> string \<Rightarrow> string list" where
  "GetAffectedFiles store artifactID = map snd (concat (map (\<lambda>(i, fs). if i = artifactID then map (Pair i) fs else [])
     (st_files store)))"

section \<open>Revision hashes\<close>

text \<open>Decisions and problems carry their data as text; only their hashes are ever computed.\<close>

definition structured_text :: "StructuredData \<Rightarrow> string" where
  "structured_text d = (case d of Text t \<Rightarrow> t | Encoded p \<Rightarrow> [])"

definition link_key :: "Link \<Rightarrow> string" where
  "link_key l = lk_type l @ [CHR 0x00] @ lk_ref l"

definition link_json :: "Link \<Rightarrow> jval" where
  "link_json l = JStruct [(''ref'', JStr (lk_ref l)), (''type'', JStr (lk_type l))]"

definition revision_fields :: "Artifact \<Rightarrow> string list \<Rightarrow> (string \<times> jval) list" where
  "revision_fields item affectedFiles =
     (let links = sort_key link_key (art_links item); files = sorted_unique affectedFiles
      in [(''id'', JStr (art_id item)), (''kind'', JStr (art_kind item)),
          (''version'', JInt (art_version item)), (''status'', JStr (art_status item)),
          (''title'', JStr (art_title item))] @
         (if art_valid_until item = [] then [] else [(''valid_until'', JStr (art_valid_until item))]) @
         [(''body'', JStr (art_body item)), (''structured_data'', JStr (structured_text (art_data item)))] @
         (if links = [] then [] else [(''links'', JArr (map link_json links))]) @
         (if files = [] then [] else [(''affected_files'', JStrs files)]))"

definition artifactRevisionHash :: "Artifact \<Rightarrow> string list \<Rightarrow> string" where
  "artifactRevisionHash item affectedFiles = canonicalJSONHash (JStruct (revision_fields item affectedFiles))"

definition decisionRevisionHash :: "Store \<Rightarrow> Artifact \<Rightarrow> string" where
  "decisionRevisionHash store decision =
     artifactRevisionHash decision (GetAffectedFiles store (art_id decision))"

definition decisionAffectedFilePaths :: "Store \<Rightarrow> Artifact \<Rightarrow> string list" where
  "decisionAffectedFilePaths store decision = sorted_unique (GetAffectedFiles store (art_id decision))"

text \<open>
  The primary key: no two rows share an id. Creating a row keeps it and, when it succeeds, adds
  exactly that row.
\<close>

definition store_ids :: "Store \<Rightarrow> string list" where
  "store_ids store = map art_id (st_artifacts store)"

lemma find_append: "find P (xs @ ys) = (case find P xs of Some y \<Rightarrow> Some y | None \<Rightarrow> find P ys)"
  by (induction xs) auto

lemma store_create_Inr:
  "store_create a store = Inr store' \<longleftrightarrow>
     art_id a \<notin> set (store_ids store) \<and> store' = store\<lparr>st_artifacts := st_artifacts store @ [new_row a]\<rparr>"
proof -
  have "list_ex (\<lambda>b. art_id b = art_id a) (st_artifacts store) \<longleftrightarrow> art_id a \<in> set (store_ids store)"
    unfolding store_ids_def list_ex_iff set_map image_iff by metis
  then show ?thesis by (auto simp: store_create_def)
qed

lemma store_get_create:
  assumes "store_create a store = Inr store'"
  shows "store_get store' i = (if i = art_id a then Inr (new_row a) else store_get store i)"
proof -
  have new: "art_id a \<notin> set (store_ids store)" and s: "store' = store\<lparr>st_artifacts := st_artifacts store @ [new_row a]\<rparr>"
    using assms by (auto simp: store_create_Inr)
  have "find (\<lambda>b. art_id b = art_id a) (st_artifacts store) = None"
    using new unfolding find_None_iff store_ids_def set_map image_iff by metis
  then show ?thesis by (simp add: s store_get_def find_append split: option.split)
qed

lemma store_create_distinct:
  "store_create a store = Inr store' \<Longrightarrow> distinct (store_ids store) \<Longrightarrow> distinct (store_ids store')"
  by (auto simp: store_create_Inr store_ids_def)

text \<open>
  The revision hash of an artifact does not depend on the order in which the database
  returns its links (as long as different links have different keys) nor on the order or
  repetition of its affected files.
\<close>

theorem revision_hash_order_free:
  assumes "mset links' = mset (art_links item)" and "inj_on link_key (set links')"
    and "set files' = set files"
  shows "artifactRevisionHash (item\<lparr>art_links := links'\<rparr>) files' = artifactRevisionHash item files"
proof -
  have "sort_key link_key links' = sort_key link_key (art_links item)"
    by (rule sort_key_inj_key_eq) (use assms in simp_all)
  moreover have "sorted_unique files' = sorted_unique files"
    by (rule sorted_unique_cong_set) (use assms(3) in \<open>simp add: set_clean_strings\<close>)
  ultimately show ?thesis by (simp add: artifactRevisionHash_def revision_fields_def)
qed

definition example_decision :: Artifact where
  "example_decision =
     \<lparr>art_id = ''dec-1'', art_kind = KindDecisionRecord, art_version = 1, art_status = StatusActive,
      art_title = ''Use a queue'', art_body = ''body'', art_valid_until = [],
      art_links = [\<lparr>lk_ref = ''prob-1'', lk_type = ''based_on''\<rparr>, \<lparr>lk_ref = ''sol-1'', lk_type = ''based_on''\<rparr>],
      art_data = Text ''{}''\<rparr>"

theorem revision_hash_order_free_witness:
  "artifactRevisionHash (example_decision\<lparr>art_links := rev (art_links example_decision)\<rparr>) [''b'', ''a'', ''b'']
     = artifactRevisionHash example_decision [''a'', ''b'']"
  by (rule revision_hash_order_free) (auto simp: example_decision_def link_key_def)

end
