(* ===== verification/ArtifactFields.thy ===== *)
theory ArtifactFields
  imports ArtifactStore
begin

text \<open>
  The structured data of decisions and portfolios (\<open>internal/artifact/types.go\<close>): the struct tags
  of \<open>DecisionFields\<close> and what \<open>json.Unmarshal\<close> makes of a text. A \<open>schema\<close> is a Go type as far
  as decoding cares; \<open>conforms\<close> says that a JSON value decodes into it without a type error. A
  null decodes into any type, an unknown member is skipped, a member name is compared without
  regard to ASCII case.
\<close>

section \<open>Decoding into Go types\<close>

datatype schema =
    SString
  | SBool
  | SNumber
  | SList schema
  | SMap schema
  | SStruct "(string \<times> schema) list"

definition lower_char :: "char \<Rightarrow> char" where
  "lower_char c = (if byte_in 65 90 c then char_of ((of_char c :: nat) + 32) else c)"

definition lower :: "string \<Rightarrow> string" where
  "lower s = map lower_char s"

fun conforms :: "schema \<Rightarrow> gval \<Rightarrow> bool"
  and conforms_list :: "schema \<Rightarrow> gval list \<Rightarrow> bool"
  and conforms_map :: "schema \<Rightarrow> (string \<times> gval) list \<Rightarrow> bool"
  and conforms_struct :: "(string \<times> schema) list \<Rightarrow> (string \<times> gval) list \<Rightarrow> bool"
where
  "conforms s GNil = True"
| "conforms SString v = (case v of GStr _ \<Rightarrow> True | _ \<Rightarrow> False)"
| "conforms SBool v = (case v of GBool _ \<Rightarrow> True | _ \<Rightarrow> False)"
| "conforms SNumber v = (case v of GFloat _ _ \<Rightarrow> True | _ \<Rightarrow> False)"
| "conforms (SList s) (GArr vs) = conforms_list s vs"
| "conforms (SMap s) (GMap kvs) = conforms_map s kvs"
| "conforms (SStruct tags) (GMap kvs) = conforms_struct tags kvs"
| "conforms s v = False"
| "conforms_list s [] = True"
| "conforms_list s (v # vs) = (conforms s v \<and> conforms_list s vs)"
| "conforms_map s [] = True"
| "conforms_map s ((k, v) # kvs) = (conforms s v \<and> conforms_map s kvs)"
| "conforms_struct tags [] = True"
| "conforms_struct tags ((k, v) # kvs) =
     ((case find (\<lambda>(name, s). name = k) tags of
         Some (name, s) \<Rightarrow> conforms s v
       | None \<Rightarrow> (case find (\<lambda>(name, s). lower name = lower k) tags of
           Some (name, s) \<Rightarrow> conforms s v
         | None \<Rightarrow> True))
      \<and> conforms_struct tags kvs)"

text \<open>
  The field of a struct after decoding an object: the last member that sets it. A null leaves a
  string alone and empties a list.
\<close>

definition members_for :: "string \<Rightarrow> payload \<Rightarrow> gval list" where
  "members_for name p = map snd (filter (\<lambda>(k, v). lower k = name) p)"

definition text_member :: "payload \<Rightarrow> string \<Rightarrow> string" where
  "text_member p name =
     (case rev (filter (\<lambda>v. case v of GStr _ \<Rightarrow> True | _ \<Rightarrow> False) (members_for name p)) of
        GStr s # _ \<Rightarrow> s
      | _ \<Rightarrow> [])"

definition element_text :: "gval \<Rightarrow> string" where
  "element_text v = (case v of GStr s \<Rightarrow> s | _ \<Rightarrow> [])"

definition texts_member :: "payload \<Rightarrow> string \<Rightarrow> string list" where
  "texts_member p name =
     (case rev (members_for name p) of GArr vs # _ \<Rightarrow> map element_text vs | _ \<Rightarrow> [])"

section \<open>Decisions and portfolios\<close>

definition claim_schema :: schema where
  "claim_schema = SStruct [(''id'', SString), (''claim'', SString), (''observable'', SString),
     (''threshold'', SString), (''status'', SString), (''verify_after'', SString),
     (''realizability'', SString), (''probability'', SNumber)]"

definition prediction_schema :: schema where
  "prediction_schema = SStruct [(''claim'', SString), (''observable'', SString),
     (''threshold'', SString), (''status'', SString), (''verify_after'', SString),
     (''realizability'', SString), (''probability'', SNumber)]"

definition decision_schema :: schema where
  "decision_schema = SStruct
     [(''problem_refs'', SList SString), (''selected_title'', SString), (''why_selected'', SString),
      (''selection_policy'', SString), (''counterargument'', SString), (''weakest_link'', SString),
      (''task_context'', SString), (''section_refs'', SList SString),
      (''why_not_others'', SList (SStruct [(''variant'', SString), (''reason'', SString)])),
      (''claims'', SList claim_schema), (''predictions'', SList prediction_schema),
      (''pre_conditions'', SList SString), (''rollback_triggers'', SList SString),
      (''rollback_steps'', SList SString), (''rollback_blast_radius'', SString),
      (''invariants'', SList SString), (''post_conditions'', SList SString),
      (''admissibility'', SList SString), (''evidence_requirements'', SList SString),
      (''refresh_triggers'', SList SString), (''_skips'', SList SString), (''_skip_reason'', SString),
      (''first_module_coverage'', SBool),
      (''drift_manifests'', SList (SStruct [(''scope'', SString), (''files'', SList SString)])),
      (''governance_mode'', SString)]"

text \<open>
  The fields of a decision a commission is made from. The decoder of \<open>DecisionFields\<close> is
  all-or-nothing: a type error in any field leaves the zero value; that of a portfolio keeps the
  fields that do decode.
\<close>

record DecisionFields =
  df_problem_refs :: "string list"
  df_section_refs :: "string list"
  df_evidence_requirements :: "string list"

definition no_decision_fields :: DecisionFields where
  "no_decision_fields = \<lparr>df_problem_refs = [], df_section_refs = [], df_evidence_requirements = []\<rparr>"

definition decoded_data :: "Artifact \<Rightarrow> gval option" where
  "decoded_data a =
     (case art_data a of Text text \<Rightarrow> json_unmarshal text | Encoded p \<Rightarrow> Some (GMap (json_norm_payload p)))"

definition UnmarshalDecisionFields :: "Artifact \<Rightarrow> DecisionFields" where
  "UnmarshalDecisionFields a =
     (case decoded_data a of
        Some (GMap m) \<Rightarrow>
          if conforms decision_schema (GMap m)
          then \<lparr>df_problem_refs = texts_member m ''problem_refs'', df_section_refs = texts_member m ''section_refs'',
                df_evidence_requirements = texts_member m ''evidence_requirements''\<rparr>
          else no_decision_fields
      | _ \<Rightarrow> no_decision_fields)"

definition portfolio_problem_ref :: "Artifact \<Rightarrow> string" where
  "portfolio_problem_ref a = (case decoded_data a of Some (GMap m) \<Rightarrow> text_member m ''problem_ref'' | _ \<Rightarrow> [])"

definition IDPrefix :: "string \<Rightarrow> string" where
  "IDPrefix kind =
     (if kind = ''Note'' then ''note'' else if kind = KindProblemCard then ''prob''
      else if kind = KindSolutionPortfolio then ''sol'' else if kind = KindDecisionRecord then ''dec''
      else if kind = KindWorkCommission then ''wc'' else if kind = ''EvidencePack'' then ''evid''
      else if kind = ''RefreshReport'' then ''ref'' else ''art'')"

definition appendUniqueString :: "string list \<Rightarrow> string \<Rightarrow> string list" where
  "appendUniqueString values candidate = (if candidate \<in> set values then values else values @ [candidate])"

definition problem_link :: "Link \<Rightarrow> bool" where
  "problem_link link \<longleftrightarrow> lk_type link = ''based_on'' \<and> prefix (IDPrefix KindProblemCard @ ''-'') (lk_ref link)"

definition ResolvePortfolioProblemRefs :: "Artifact \<Rightarrow> string list" where
  "ResolvePortfolioProblemRefs portfolio =
     (let problemRef = portfolio_problem_ref portfolio;
          own = (if problemRef \<noteq> [] then appendUniqueString [] problemRef else [])
      in sort (fold (\<lambda>link refs. appendUniqueString refs (lk_ref link))
           (filter problem_link (art_links portfolio)) own))"

end
