(* ===== verification/Commission.thy ===== *)
theory Commission
  imports Projection ImplPlan Envelope
begin

text \<open>
  The part of \<open>internal/cli/serve_commission.go\<close> that reads a WorkCommission: what matches a
  request, what is runnable, leases and their age, what needs the operator's attention, which
  commission a claim selects, when two commissions conflict, and the guards of the state
  transitions. A commission is a \<open>payload\<close>. \<open>now\<close> is the clock reading of the handler, \<open>gates\<close>
  the iteration order of the gate set in the envelope's validation.
\<close>

section \<open>Constants\<close>

definition defaultCommissionValidFor :: int where "defaultCommissionValidFor = 168 * nano_hour"
definition defaultDeliveryPolicy :: string where "defaultDeliveryPolicy = ''workspace_patch_manual''"
definition defaultCommissionOpenAttentionAfter :: int where
  "defaultCommissionOpenAttentionAfter = 24 * nano_hour"
definition defaultCommissionLeaseAttentionAfter :: int where
  "defaultCommissionLeaseAttentionAfter = 2 * nano_hour"
definition defaultCommissionLeaseAgeCap :: int where "defaultCommissionLeaseAgeCap = 24 * nano_hour"

type_synonym commission = payload

section \<open>Valid field values\<close>

definition validProjectionPolicy :: "string \<Rightarrow> bool" where
  "validProjectionPolicy value \<longleftrightarrow> value \<in> {''local_only'', ''external_optional'', ''external_required''}"

definition validDeliveryPolicy :: "string \<Rightarrow> bool" where
  "validDeliveryPolicy value \<longleftrightarrow> value \<in> {''workspace_patch_manual'', ''workspace_patch_auto_on_pass''}"

definition validWorkCommissionListSelector :: "string \<Rightarrow> bool" where
  "validWorkCommissionListSelector value \<longleftrightarrow>
     value \<in> {''all'', ''open'', ''stale'', ''terminal'', ''runnable''}"

definition validWorkCommissionState :: "string \<Rightarrow> bool" where
  "validWorkCommissionState value = IsKnownState value"

section \<open>Times and leases\<close>

definition parseRFC3339Field :: "payload \<Rightarrow> string \<Rightarrow> Time option" where
  "parseRFC3339Field payload key =
     (let value = stringField payload key in if value = [] then None else parse_rfc3339 value)"

definition workCommissionExpired :: "commission \<Rightarrow> Time \<Rightarrow> bool" where
  "workCommissionExpired commission now =
     (case parseRFC3339Field commission ''valid_until'' of
        None \<Rightarrow> False
      | Some validUntil \<Rightarrow> \<not> After validUntil now)"

definition workCommissionTerminal :: "commission \<Rightarrow> bool" where
  "workCommissionTerminal commission = IsTerminalState (stringField commission ''state'')"

definition workCommissionLeaseAge :: "commission \<Rightarrow> Time \<Rightarrow> int option" where
  "workCommissionLeaseAge commission now =
     (case mapArg commission ''lease'' of
        None \<Rightarrow> None
      | Some lease \<Rightarrow>
          (case parseRFC3339Field lease ''claimed_at'' of
             None \<Rightarrow> None
           | Some claimedAt \<Rightarrow> Some (Sub now claimedAt)))"

text \<open>The zero value of \<open>commissionOperatorAttention\<close> has two empty texts.\<close>

record commissionOperatorAttention =
  at_code :: string
  at_reason :: string

definition attention :: "string \<Rightarrow> string \<Rightarrow> commissionOperatorAttention" where
  "attention code reason = \<lparr>at_code = code, at_reason = reason\<rparr>"

definition workCommissionLeaseAgeCapAttention ::
  "commission \<Rightarrow> Time \<Rightarrow> int \<Rightarrow> commissionOperatorAttention" where
  "workCommissionLeaseAgeCapAttention commission now leaseAgeCap =
     (case workCommissionLeaseAge commission now of
        None \<Rightarrow> attention [] []
      | Some age \<Rightarrow>
          if age < leaseAgeCap then attention [] []
          else attention ''lease_too_old'' (''lease older than '' @ duration_string leaseAgeCap))"

definition activeLeaseAttention :: "commission \<Rightarrow> Time \<Rightarrow> commissionOperatorAttention" where
  "activeLeaseAttention commission now =
     (case mapArg commission ''lease'' of
        None \<Rightarrow> attention ''active_lease_missing'' ''active state has no lease''
      | Some lease \<Rightarrow>
          (case parseRFC3339Field lease ''claimed_at'' of
             None \<Rightarrow> attention ''active_lease_missing_claimed_at'' ''active lease has no claimed_at''
           | Some claimedAt \<Rightarrow>
               if Sub now claimedAt \<ge> defaultCommissionLeaseAttentionAfter
               then attention ''active_lease_old''
                      (''active lease older than '' @ duration_string defaultCommissionLeaseAttentionAfter)
               else attention [] []))"

definition openCommissionAttention :: "commission \<Rightarrow> Time \<Rightarrow> int \<Rightarrow> commissionOperatorAttention" where
  "openCommissionAttention commission now openAttentionAfter =
     (case parseRFC3339Field commission ''fetched_at'' of
        None \<Rightarrow> attention ''open_missing_fetched_at'' ''open commission has no fetched_at''
      | Some fetchedAt \<Rightarrow>
          if Sub now fetchedAt \<ge> openAttentionAfter
          then attention ''open_too_long'' (''open longer than '' @ duration_string openAttentionAfter)
          else attention [] [])"

definition workCommissionAttentionWithLeaseCap ::
  "commission \<Rightarrow> Time \<Rightarrow> int \<Rightarrow> int \<Rightarrow> commissionOperatorAttention" where
  "workCommissionAttentionWithLeaseCap commission now openAttentionAfter leaseAgeCap =
     (let state = stringField commission ''state'';
          capped = workCommissionLeaseAgeCapAttention commission now leaseAgeCap
      in if IsTerminalState state then attention [] []
         else if workCommissionExpired commission now
         then attention ''expired_before_terminal'' ''expired before terminal state''
         else if at_code capped \<noteq> [] then capped
         else if RequiresOperatorDecisionState state
         then attention ''operator_decision_required'' (''requires operator decision: '' @ state)
         else if IsExecutingState state then activeLeaseAttention commission now
         else openCommissionAttention commission now openAttentionAfter)"

definition workCommissionSuggestedActions :: "commission \<Rightarrow> string \<Rightarrow> Time \<Rightarrow> gval list" where
  "workCommissionSuggestedActions commission reason now =
     (if reason = [] then []
      else if workCommissionExpired commission now then [GStr ''inspect'', GStr ''cancel'']
      else (let state = stringField commission ''state''
            in if state = StateBlockedStale then [GStr ''refresh_decision'', GStr ''requeue'', GStr ''cancel'']
               else if IsRecoverableState state then [GStr ''inspect'', GStr ''requeue'', GStr ''cancel'']
               else [GStr ''inspect'', GStr ''cancel'']))"

definition workCommissionWithOperatorFieldsAndLeaseCap ::
  "commission \<Rightarrow> Time \<Rightarrow> int \<Rightarrow> int \<Rightarrow> commission" where
  "workCommissionWithOperatorFieldsAndLeaseCap commission now openAttentionAfter leaseAgeCap =
     (let a = workCommissionAttentionWithLeaseCap commission now openAttentionAfter leaseAgeCap
      in put ''operator'' (GMap
           [(''terminal'', GBool (workCommissionTerminal commission)),
            (''expired'', GBool (workCommissionExpired commission now)),
            (''attention'', GBool (at_reason a \<noteq> [])),
            (''attention_code'', GStr (at_code a)),
            (''attention_reason'', GStr (at_reason a)),
            (''suggested_actions'', GArr (workCommissionSuggestedActions commission (at_reason a) now))])
           commission)"

definition commissionAttentionDuration :: "payload \<Rightarrow> int result" where
  "commissionAttentionDuration args =
     (let value = stringArg args ''older_than''
      in if value = [] then Inr defaultCommissionOpenAttentionAfter
         else (case parse_duration value of
             None \<Rightarrow> Inl ''older_than must be a Go duration like 24h: time: invalid duration''
           | Some duration \<Rightarrow>
               if duration \<le> 0 then Inl ''older_than must be positive'' else Inr duration))"

definition commissionLeaseAgeCap :: "payload \<Rightarrow> int result" where
  "commissionLeaseAgeCap args =
     (let v1 = firstStringField ''lease_age_cap'' [args];
          v2 = (if v1 = [] then firstStringField ''stale_lease_age_cap'' [args] else v1);
          value = (if v2 = [] then firstStringField ''max_lease_age'' [args] else v2)
      in if value = [] then Inr defaultCommissionLeaseAgeCap
         else (case parse_duration value of
             None \<Rightarrow> Inl ''lease_age_cap must be a Go duration like 24h: time: invalid duration''
           | Some duration \<Rightarrow>
               if duration \<le> 0 then Inl ''lease_age_cap must be positive'' else Inr duration))"

section \<open>The autonomy envelope of a commission\<close>

definition autonomyEnvelopeCommissionRequest :: "commission \<Rightarrow> CommissionRequest" where
  "autonomyEnvelopeCommissionRequest commission =
     (let scope = mapArg_or_nil commission ''scope''
      in \<lparr>cr_repo_ref = stringField scope ''repo_ref'',
          cr_allowed_paths = scopeStringSlice scope ''allowed_paths'',
          cr_forbidden_paths = scopeStringSlice scope ''forbidden_paths'',
          cr_allowed_actions = scopeStringSlice scope ''allowed_actions'',
          cr_allowed_modules = scopeStringSlice scope ''allowed_modules'',
          cr_active_concurrency = 0, cr_consumed_commissions = 0\<rparr>)"

text \<open>The report, and whether the commission has an envelope: no envelope is \<open>Inr None\<close>.\<close>

definition workCommissionAutonomyEnvelopeReport ::
  "string list \<Rightarrow> commission \<Rightarrow> Time \<Rightarrow> Report option result" where
  "workCommissionAutonomyEnvelopeReport gates commission now =
     (case mapArg commission ''autonomy_envelope_snapshot'' of
        None \<Rightarrow> Inr None
      | Some envelopeSnapshot \<Rightarrow>
          (case NormalizeSnapshot gates envelopeSnapshot of
             Inl e \<Rightarrow> Inl e
           | Inr (m, snapshot) \<Rightarrow>
               Inr (Some (Evaluate snapshot (autonomyEnvelopeCommissionRequest commission) now))))"

definition workCommissionAutonomyEnvelopeRunnable :: "string list \<Rightarrow> commission \<Rightarrow> Time \<Rightarrow> bool" where
  "workCommissionAutonomyEnvelopeRunnable gates commission now =
     (case workCommissionAutonomyEnvelopeReport gates commission now of
        Inl e \<Rightarrow> False
      | Inr None \<Rightarrow> True
      | Inr (Some report) \<Rightarrow> rp_decision report = DecisionAllowed)"

definition commissionAutonomyEnvelopeBlocked :: "Report \<Rightarrow> bool" where
  "commissionAutonomyEnvelopeBlocked report \<longleftrightarrow> rp_decision report = DecisionBlocked"

definition commissionAutonomyEnvelopeFindingCodes :: "Report \<Rightarrow> string list" where
  "commissionAutonomyEnvelopeFindingCodes report = sortedUniqueStrings (map fd_code (rp_findings report))"

definition commissionAutonomyEnvelopeBlockError :: "Report \<Rightarrow> string" where
  "commissionAutonomyEnvelopeBlockError report =
     ''commission_autonomy_envelope_blocked: '' @ join '','' (commissionAutonomyEnvelopeFindingCodes report)"

definition autonomyEnvelopeFindingMaps :: "Finding list \<Rightarrow> gval list" where
  "autonomyEnvelopeFindingMaps findings =
     map (\<lambda>finding. GMap [(''code'', GStr (fd_code finding)), (''field'', GStr (fd_field finding)),
       (''detail'', GStr (fd_detail finding))]) findings"

definition scope_finding_codes :: "string list" where
  "scope_finding_codes =
     [''repo_outside_autonomy_envelope'', ''path_outside_autonomy_envelope'',
      ''action_outside_autonomy_envelope'', ''module_outside_autonomy_envelope'',
      ''action_forbidden_by_autonomy_envelope'', ''one_way_door_action_forbidden'']"

definition autonomyEnvelopeBlockState :: "Report \<Rightarrow> string" where
  "autonomyEnvelopeBlockState report =
     (if list_ex (\<lambda>finding. fd_code finding \<in> set scope_finding_codes) (rp_findings report)
      then StateNeedsHumanReview else StateBlockedPolicy)"

section \<open>What a claim may take\<close>

definition workCommissionRunnable :: "commission \<Rightarrow> Time \<Rightarrow> bool" where
  "workCommissionRunnable commission now =
     (if \<not> IsRunnableState (stringField commission ''state'') then False
      else (case parse_rfc3339 (stringField commission ''valid_until'') of
          None \<Rightarrow> False
        | Some validUntil \<Rightarrow> After validUntil now))"

definition workCommissionIntakeSkip :: "commission \<Rightarrow> Time \<Rightarrow> int \<Rightarrow> payload option" where
  "workCommissionIntakeSkip commission now leaseAgeCap =
     (let a = workCommissionLeaseAgeCapAttention commission now leaseAgeCap
      in if at_code a = [] then None
         else Some
           [(''id'', GStr (stringField commission ''id'')),
            (''state'', GStr (stringField commission ''state'')),
            (''reason'', GStr (at_code a)),
            (''message'', GStr (at_reason a)),
            (''claimed_at'', GStr (stringField (mapArg_or_nil commission ''lease'') ''claimed_at'')),
            (''age_cap'', GStr (duration_string leaseAgeCap))])"

definition commissionIntakeSkipError :: "payload \<Rightarrow> string" where
  "commissionIntakeSkipError skip =
     stringField skip ''reason'' @ '': commission_id='' @ stringField skip ''id'' @
     '' age_cap='' @ stringField skip ''age_cap''"

definition workCommissionMatchesRequest :: "commission \<Rightarrow> payload \<Rightarrow> bool" where
  "workCommissionMatchesRequest commission args =
     (let planRef = stringArg args ''plan_ref''; planRevision = stringArg args ''plan_revision'';
          queue = stringArg args ''queue''
      in if planRef \<noteq> [] \<and> stringField commission ''implementation_plan_ref'' \<noteq> planRef then False
         else if planRevision \<noteq> [] \<and> stringField commission ''implementation_plan_revision'' \<noteq> planRevision
         then False
         else if queue \<noteq> [] \<and> stringField commission ''queue'' \<noteq> queue then False
         else True)"

definition workCommissionDependencySatisfied :: "commission \<Rightarrow> bool" where
  "workCommissionDependencySatisfied commission = SatisfiesDependencyState (stringField commission ''state'')"

text \<open>The map is filled in order, so the last commission with an id decides.\<close>

definition satisfied_by_id :: "commission list \<Rightarrow> (string \<times> bool) list" where
  "satisfied_by_id commissions =
     rev (map (\<lambda>candidate. (stringField candidate ''id'', workCommissionDependencySatisfied candidate)) commissions)"

definition workCommissionDependenciesSatisfied :: "commission \<Rightarrow> commission list \<Rightarrow> bool" where
  "workCommissionDependenciesSatisfied commission commissions =
     (let dependencyIDs = stringSliceField commission ''depends_on''
      in if length dependencyIDs = 0 then True
         else DependenciesSatisfied dependencyIDs (satisfied_by_id commissions))"

definition workCommissionRunnableForRequestWithLeaseCap ::
  "string list \<Rightarrow> commission \<Rightarrow> commission list \<Rightarrow> payload \<Rightarrow> Time \<Rightarrow> int \<Rightarrow> bool" where
  "workCommissionRunnableForRequestWithLeaseCap gates commission commissions args now leaseAgeCap \<longleftrightarrow>
     workCommissionMatchesRequest commission args
     \<and> workCommissionIntakeSkip commission now leaseAgeCap = None
     \<and> workCommissionRunnable commission now
     \<and> workCommissionDependenciesSatisfied commission commissions
     \<and> workCommissionAutonomyEnvelopeRunnable gates commission now"

text \<open>The call with the default cap, which the harness commands use.\<close>

definition workCommissionRunnableForRequest ::
  "string list \<Rightarrow> commission \<Rightarrow> commission list \<Rightarrow> payload \<Rightarrow> Time \<Rightarrow> bool" where
  "workCommissionRunnableForRequest gates commission commissions args now =
     workCommissionRunnableForRequestWithLeaseCap gates commission commissions args now
       defaultCommissionLeaseAgeCap"

fun runnableAndSkipped_loop ::
  "string list \<Rightarrow> commission list \<Rightarrow> payload \<Rightarrow> Time \<Rightarrow> int \<Rightarrow> commission list
     \<Rightarrow> commission list \<times> payload list" where
  "runnableAndSkipped_loop gates records args now cap [] = ([], [])"
| "runnableAndSkipped_loop gates records args now cap (commission # rest) =
     (let (commissions, skipped) = runnableAndSkipped_loop gates records args now cap rest
      in if \<not> workCommissionMatchesRequest commission args then (commissions, skipped)
         else (case workCommissionIntakeSkip commission now cap of
             Some skip \<Rightarrow> (commissions, skip # skipped)
           | None \<Rightarrow>
               if workCommissionRunnableForRequestWithLeaseCap gates commission records args now cap
               then (commission # commissions, skipped) else (commissions, skipped)))"

definition runnableAndSkippedWorkCommissions ::
  "string list \<Rightarrow> commission list \<Rightarrow> payload \<Rightarrow> Time \<Rightarrow> int \<Rightarrow> commission list \<times> payload list" where
  "runnableAndSkippedWorkCommissions gates records args now leaseAgeCap =
     runnableAndSkipped_loop gates records args now leaseAgeCap records"

definition workCommissionListSelectorMatchesWithLeaseCap ::
  "string list \<Rightarrow> commission \<Rightarrow> commission list \<Rightarrow> string \<Rightarrow> payload \<Rightarrow> Time \<Rightarrow> int \<Rightarrow> int \<Rightarrow> bool" where
  "workCommissionListSelectorMatchesWithLeaseCap gates commission commissions selector args now
       openAttentionAfter leaseAgeCap =
     (if selector = ''all'' then True
      else if selector = ''open'' then \<not> workCommissionTerminal commission
      else if selector = ''terminal'' then workCommissionTerminal commission
      else if selector = ''stale''
      then at_reason (workCommissionAttentionWithLeaseCap commission now openAttentionAfter leaseAgeCap) \<noteq> []
      else if selector = ''runnable''
      then workCommissionRunnableForRequestWithLeaseCap gates commission commissions args now leaseAgeCap
      else False)"

text \<open>The loop of the selection: \<open>firstSkip\<close> is the first commission passed over for an old lease.\<close>

fun select_loop ::
  "string list \<Rightarrow> commission list \<Rightarrow> payload \<Rightarrow> Time \<Rightarrow> int \<Rightarrow> payload option \<Rightarrow> commission list
     \<Rightarrow> commission result" where
  "select_loop gates commissions args now cap firstSkip [] =
     (if stringArg args ''commission_id'' \<noteq> [] then Inl ''commission_not_found''
      else (case firstSkip of
          Some skip \<Rightarrow> Inl (commissionIntakeSkipError skip)
        | None \<Rightarrow> Inl ''commission_not_runnable''))"
| "select_loop gates commissions args now cap firstSkip (commission # rest) =
     (let commissionID = stringArg args ''commission_id''
      in if commissionID \<noteq> [] \<and> stringField commission ''id'' \<noteq> commissionID
         then select_loop gates commissions args now cap firstSkip rest
         else (case workCommissionIntakeSkip commission now cap of
             Some skip \<Rightarrow>
               if commissionID \<noteq> [] then Inl (commissionIntakeSkipError skip)
               else select_loop gates commissions args now cap
                      (if firstSkip = None then Some skip else firstSkip) rest
           | None \<Rightarrow>
               if workCommissionRunnableForRequestWithLeaseCap gates commission commissions args now cap
               then Inr commission
               else if commissionID \<noteq> [] then Inl ''commission_not_runnable''
               else select_loop gates commissions args now cap firstSkip rest))"

definition selectWorkCommissionForClaimWithLeaseCap ::
  "string list \<Rightarrow> commission list \<Rightarrow> payload \<Rightarrow> Time \<Rightarrow> int \<Rightarrow> commission result" where
  "selectWorkCommissionForClaimWithLeaseCap gates commissions args now leaseAgeCap =
     select_loop gates commissions args now leaseAgeCap None commissions"

section \<open>Lock conflicts\<close>

definition workCommissionActiveLeaseState :: "commission \<Rightarrow> bool" where
  "workCommissionActiveLeaseState commission = IsExecutingState (stringField commission ''state'')"

definition commissionRepoRef :: "commission \<Rightarrow> string" where
  "commissionRepoRef commission =
     (case mapArg commission ''scope'' of None \<Rightarrow> [] | Some scope \<Rightarrow> stringField scope ''repo_ref'')"

definition commissionLockset :: "commission \<Rightarrow> string list" where
  "commissionLockset commission =
     (let topLevel = stringSliceField commission ''lockset''
      in if length topLevel > 0 then topLevel
         else (case mapArg commission ''scope'' of
             None \<Rightarrow> []
           | Some scope \<Rightarrow> stringSliceField scope ''lockset''))"

definition workCommissionLocksetConflicts :: "commission \<Rightarrow> commission \<Rightarrow> bool" where
  "workCommissionLocksetConflicts target active =
     (if stringField target ''id'' = stringField active ''id'' then False
      else if \<not> workCommissionActiveLeaseState active then False
      else if commissionRepoRef target \<noteq> commissionRepoRef active then False
      else LocksetsOverlap (commissionLockset target) (commissionLockset active))"

definition ensureWorkCommissionLocksetAvailable :: "commission list \<Rightarrow> commission \<Rightarrow> unit result" where
  "ensureWorkCommissionLocksetAvailable commissions target =
     (if list_ex (\<lambda>active. workCommissionLocksetConflicts target active) commissions
      then Inl ''commission_lock_conflict'' else Inr ())"

section \<open>The guards of the transitions\<close>

record workCommissionTransition =
  tr_error_code :: string
  tr_target_state :: string
  tr_allowed_states :: "string list"
  tr_requires_reason :: bool
  tr_rejects_expired :: bool
  tr_refresh_fetched_at :: bool

definition requeueWorkCommissionTransition :: workCommissionTransition where
  "requeueWorkCommissionTransition =
     \<lparr>tr_error_code = ''commission_not_requeueable'', tr_target_state = ''queued'',
      tr_allowed_states = RecoverableStateValues, tr_requires_reason = True,
      tr_rejects_expired = True, tr_refresh_fetched_at = True\<rparr>"

definition cancelWorkCommissionTransition :: workCommissionTransition where
  "cancelWorkCommissionTransition =
     \<lparr>tr_error_code = ''commission_not_cancellable'', tr_target_state = ''cancelled'',
      tr_allowed_states = CancellableStateValues, tr_requires_reason = True,
      tr_rejects_expired = False, tr_refresh_fetched_at = False\<rparr>"

definition workCommissionLifecycleAllowedStatesByAction :: "(string \<times> string list) list" where
  "workCommissionLifecycleAllowedStatesByAction =
     [(''record_preflight'', [''preflighting'']), (''start_after_preflight'', [''preflighting'']),
      (''record_run_event'', [''preflighting'', ''running'']), (''complete_or_block'', [''running''])]"

definition workCommissionStateAllowed :: "string list \<Rightarrow> string \<Rightarrow> bool" where
  "workCommissionStateAllowed allowed state \<longleftrightarrow> state \<in> set allowed"

definition ensureWorkCommissionTransition ::
  "commission \<Rightarrow> payload \<Rightarrow> workCommissionTransition \<Rightarrow> Time \<Rightarrow> unit result" where
  "ensureWorkCommissionTransition commission args transition now =
     (let state = stringField commission ''state''
      in if \<not> workCommissionStateAllowed (tr_allowed_states transition) state
         then Inl (tr_error_code transition @ '': state='' @ state @ '' allowed_states='' @
                   join '','' (tr_allowed_states transition))
         else if tr_rejects_expired transition \<and> workCommissionExpired commission now
         then Inl (tr_error_code transition @ '': state='' @ state @
                   '' valid_until expired; cancel or create a fresh WorkCommission'')
         else if tr_requires_reason transition \<and> stringArg args ''reason'' = []
         then Inl (tr_error_code transition @ '': reason is required'')
         else Inr ())"

definition workCommissionLifecycleStateAllowed ::
  "string \<Rightarrow> string \<Rightarrow> string \<Rightarrow> string list \<Rightarrow> bool" where
  "workCommissionLifecycleStateAllowed action state verdict allowedStates =
     (if workCommissionStateAllowed allowedStates state then True
      else state = ''running'' \<and> verdict = ''pass''
        \<and> (action = ''record_preflight'' \<or> action = ''start_after_preflight''))"

definition lifecycle_allowed_states :: "string \<Rightarrow> string list" where
  "lifecycle_allowed_states action =
     (case map_of workCommissionLifecycleAllowedStatesByAction action of Some s \<Rightarrow> s | None \<Rightarrow> [])"

definition ensureWorkCommissionLifecycleTransition :: "commission \<Rightarrow> payload \<Rightarrow> unit result" where
  "ensureWorkCommissionLifecycleTransition commission args =
     (let action = stringArg args ''action''; state = stringField commission ''state'';
          allowedStates = lifecycle_allowed_states action
      in if workCommissionLifecycleStateAllowed action state (stringArg args ''verdict'') allowedStates
         then Inr ()
         else Inl (''commission_lifecycle_forbidden: action='' @ action @ '' state='' @ state @
                   '' allowed_states='' @ join '','' allowedStates))"

section \<open>Facts about selection and guards\<close>

lemma workCommissionRunnable_iff:
  "workCommissionRunnable c now \<longleftrightarrow>
     IsRunnableState (stringField c ''state'') \<and>
     (\<exists>t. parse_rfc3339 (stringField c ''valid_until'') = Some t \<and> After t now)"
  by (auto simp: workCommissionRunnable_def split: option.splits)

lemma runnable_not_expired: "workCommissionRunnable c now \<Longrightarrow> \<not> workCommissionExpired c now"
  by (auto simp: workCommissionRunnable_iff workCommissionExpired_def parseRFC3339Field_def Let_def
      split: option.splits if_splits)

definition lease_fresh :: "commission \<Rightarrow> Time \<Rightarrow> int \<Rightarrow> bool" where
  "lease_fresh c now cap \<longleftrightarrow> (case workCommissionLeaseAge c now of None \<Rightarrow> True | Some age \<Rightarrow> age < cap)"

lemma intake_skip_iff: "workCommissionIntakeSkip c now cap = None \<longleftrightarrow> lease_fresh c now cap"
  by (auto simp: workCommissionIntakeSkip_def lease_fresh_def workCommissionLeaseAgeCapAttention_def
      attention_def Let_def split: option.splits)

lemma map_of_rev_last:
  "map_of (rev (map (\<lambda>c. (f c, g c)) cs)) k =
     map_option g (find (\<lambda>c. f c = k) (rev cs))"
  by (induction cs rule: rev_induct) auto

lemma dependencies_satisfied_iff:
  "workCommissionDependenciesSatisfied c cs \<longleftrightarrow>
     list_all (\<lambda>d. case find (\<lambda>k. stringField k ''id'' = d) (rev cs) of
                     None \<Rightarrow> False | Some k \<Rightarrow> workCommissionDependencySatisfied k)
       (stringSliceField c ''depends_on'')"
proof -
  have "DependenciesSatisfied (stringSliceField c ''depends_on'') (satisfied_by_id cs) \<longleftrightarrow>
      list_all (\<lambda>d. map_of (satisfied_by_id cs) d = Some True) (stringSliceField c ''depends_on'')"
    by (simp add: DependenciesSatisfied_def cleanStringSlice_def)
  also have "\<dots> \<longleftrightarrow> list_all (\<lambda>d. case find (\<lambda>k. stringField k ''id'' = d) (rev cs) of
        None \<Rightarrow> False | Some k \<Rightarrow> workCommissionDependencySatisfied k) (stringSliceField c ''depends_on'')"
    unfolding satisfied_by_id_def map_of_rev_last by (rule list.pred_cong) (auto split: option.splits)
  finally show ?thesis by (auto simp: workCommissionDependenciesSatisfied_def Let_def)
qed

lemma select_loop_result:
  "case select_loop gates all args now cap skip cs of
     Inr c \<Rightarrow> c \<in> set cs
       \<and> (stringArg args ''commission_id'' = [] \<or> stringField c ''id'' = stringArg args ''commission_id'')
       \<and> workCommissionRunnableForRequestWithLeaseCap gates c all args now cap
   | Inl e \<Rightarrow>
       if stringArg args ''commission_id'' = []
       then filter (\<lambda>c. workCommissionRunnableForRequestWithLeaseCap gates c all args now cap) cs = []
       else (case find (\<lambda>c. stringField c ''id'' = stringArg args ''commission_id'') cs of
               None \<Rightarrow> e = ''commission_not_found''
             | Some c \<Rightarrow> \<not> workCommissionRunnableForRequestWithLeaseCap gates c all args now cap)"
proof (induction cs arbitrary: skip)
  case Nil
  then show ?case by (simp split: option.splits)
next
  case (Cons c cs)
  show ?case
  proof (cases "workCommissionIntakeSkip c now cap")
    case None
    then show ?thesis using Cons.IH[of skip] by (auto simp: Let_def split: sum.splits)
  next
    case (Some s)
    then have "\<not> workCommissionRunnableForRequestWithLeaseCap gates c all args now cap"
      by (simp add: workCommissionRunnableForRequestWithLeaseCap_def)
    then show ?thesis
      using Some Cons.IH[of skip] Cons.IH[of "if skip = None then Some s else skip"]
      by (auto simp: Let_def split: sum.splits)
  qed
qed

lemma select_Inr:
  assumes "selectWorkCommissionForClaimWithLeaseCap gates cs args now cap = Inr c"
  shows "c \<in> set cs" "workCommissionRunnableForRequestWithLeaseCap gates c cs args now cap"
    "\<not> workCommissionActiveLeaseState c"
proof -
  show "c \<in> set cs" and r: "workCommissionRunnableForRequestWithLeaseCap gates c cs args now cap"
    using select_loop_result[where gates = gates and all = cs and args = args and now = now and cap = cap and skip = None and cs = cs] assms
    by (simp_all add: selectWorkCommissionForClaimWithLeaseCap_def)
  then show "\<not> workCommissionActiveLeaseState c"
    by (auto simp: workCommissionRunnableForRequestWithLeaseCap_def workCommissionRunnable_iff
        workCommissionActiveLeaseState_def dest: runnable_not_executing)
qed

text \<open>
  C14. A claim selects a stored commission that matches the request, carries the requested id,
  is queued or ready and unexpired, has no lease older than the cap, has all its dependencies
  completed and is admitted by its envelope. It fails only when there is none: without an id, no
  stored commission qualifies; with an id, there is no such commission or it does not qualify.
\<close>

theorem claim_selection:
  "case selectWorkCommissionForClaimWithLeaseCap gates cs args now cap of
     Inr c \<Rightarrow> c \<in> set cs
       \<and> (stringArg args ''commission_id'' = [] \<or> stringField c ''id'' = stringArg args ''commission_id'')
       \<and> workCommissionMatchesRequest c args \<and> lease_fresh c now cap
       \<and> IsRunnableState (stringField c ''state'') \<and> \<not> workCommissionExpired c now
       \<and> list_all (\<lambda>d. case find (\<lambda>k. stringField k ''id'' = d) (rev cs) of
             None \<Rightarrow> False | Some k \<Rightarrow> IsCompletionState (stringField k ''state''))
           (stringSliceField c ''depends_on'')
       \<and> workCommissionAutonomyEnvelopeRunnable gates c now
   | Inl e \<Rightarrow>
       if stringArg args ''commission_id'' = []
       then filter (\<lambda>c. workCommissionRunnableForRequestWithLeaseCap gates c cs args now cap) cs = []
       else (case find (\<lambda>c. stringField c ''id'' = stringArg args ''commission_id'') cs of
               None \<Rightarrow> e = ''commission_not_found''
             | Some c \<Rightarrow> \<not> workCommissionRunnableForRequestWithLeaseCap gates c cs args now cap)"
proof (cases "selectWorkCommissionForClaimWithLeaseCap gates cs args now cap")
  case (Inl e)
  then show ?thesis
    using select_loop_result[where gates = gates and all = cs and args = args and now = now and cap = cap and skip = None and cs = cs]
    by (simp add: selectWorkCommissionForClaimWithLeaseCap_def)
next
  case (Inr c)
  then have r: "workCommissionRunnableForRequestWithLeaseCap gates c cs args now cap"
    by (rule select_Inr(2))
  have "workCommissionDependenciesSatisfied c cs"
    using r by (simp add: workCommissionRunnableForRequestWithLeaseCap_def)
  then have deps: "list_all (\<lambda>d. case find (\<lambda>k. stringField k ''id'' = d) (rev cs) of
        None \<Rightarrow> False | Some k \<Rightarrow> IsCompletionState (stringField k ''state'')) (stringSliceField c ''depends_on'')"
    unfolding dependencies_satisfied_iff workCommissionDependencySatisfied_def SatisfiesDependencyState_def .
  show ?thesis
    using Inr r deps select_Inr(1)[OF Inr] select_loop_result[where gates = gates and all = cs and args = args and now = now and cap = cap and skip = None and cs = cs]
      runnable_not_expired[of c now]
    by (simp add: selectWorkCommissionForClaimWithLeaseCap_def workCommissionRunnable_iff intake_skip_iff
        workCommissionRunnableForRequestWithLeaseCap_def)
qed

lemma runnableAndSkipped_loop_eq:
  "runnableAndSkipped_loop gates all args now cap cs =
     (filter (\<lambda>c. workCommissionRunnableForRequestWithLeaseCap gates c all args now cap) cs,
      map (\<lambda>c. the (workCommissionIntakeSkip c now cap))
        (filter (\<lambda>c. workCommissionMatchesRequest c args \<and> \<not> lease_fresh c now cap) cs))"
proof (induction cs)
  case (Cons c cs)
  then show ?case
    by (cases "workCommissionIntakeSkip c now cap")
      (auto simp: intake_skip_iff[symmetric] workCommissionRunnableForRequestWithLeaseCap_def)
qed simp

text \<open>Without an id a claim selects the first runnable commission.\<close>

lemma select_first:
  assumes "stringArg args ''commission_id'' = []"
  shows "case filter (\<lambda>c. workCommissionRunnableForRequestWithLeaseCap gates c all args now cap) cs of
      [] \<Rightarrow> isl (select_loop gates all args now cap skip cs)
    | c # _ \<Rightarrow> select_loop gates all args now cap skip cs = Inr c"
proof (induction cs arbitrary: skip)
  case (Cons c cs)
  show ?case
  proof (cases "workCommissionIntakeSkip c now cap")
    case None
    then show ?thesis using Cons.IH[of skip] assms by (auto split: list.splits)
  next
    case (Some s)
    then have "\<not> workCommissionRunnableForRequestWithLeaseCap gates c all args now cap"
      by (simp add: workCommissionRunnableForRequestWithLeaseCap_def)
    then show ?thesis
      using Some Cons.IH[of "if skip = None then Some s else skip"] assms by (auto split: list.splits)
  qed
qed (simp add: assms split: option.split)

lemma cancel_guard:
  "ensureWorkCommissionTransition c args cancelWorkCommissionTransition now = Inr () \<longleftrightarrow>
     IsKnownState (stringField c ''state'') \<and> \<not> IsTerminalState (stringField c ''state'')
     \<and> stringArg args ''reason'' \<noteq> []"
proof -
  have "stringField c ''state'' \<in> set CancellableStateValues \<longleftrightarrow>
      IsKnownState (stringField c ''state'') \<and> \<not> IsTerminalState (stringField c ''state'')"
    by (auto simp: state_tests state_sets)
  then show ?thesis
    by (simp add: ensureWorkCommissionTransition_def cancelWorkCommissionTransition_def
        workCommissionStateAllowed_def Let_def)
qed

lemma requeue_guard:
  "ensureWorkCommissionTransition c args requeueWorkCommissionTransition now = Inr () \<longleftrightarrow>
     IsRecoverableState (stringField c ''state'') \<and> \<not> workCommissionExpired c now
     \<and> stringArg args ''reason'' \<noteq> []"
  by (simp add: ensureWorkCommissionTransition_def requeueWorkCommissionTransition_def
      workCommissionStateAllowed_def recoverable_values Let_def)

lemma lifecycle_guard:
  "ensureWorkCommissionLifecycleTransition c args = Inr () \<longleftrightarrow>
     stringField c ''state'' \<in> set (lifecycle_allowed_states (stringArg args ''action''))
     \<or> (stringField c ''state'' = StateRunning \<and> stringArg args ''verdict'' = ''pass''
        \<and> stringArg args ''action'' \<in> {''record_preflight'', ''start_after_preflight''})"
  by (simp add: ensureWorkCommissionLifecycleTransition_def workCommissionLifecycleStateAllowed_def
      workCommissionStateAllowed_def Let_def)

lemma lifecycle_guard_executing:
  "ensureWorkCommissionLifecycleTransition c args = Inr () \<Longrightarrow> workCommissionActiveLeaseState c"
  unfolding lifecycle_guard
  by (auto simp: lifecycle_allowed_states_def workCommissionLifecycleAllowedStatesByAction_def
      workCommissionActiveLeaseState_def state_tests state_sets split: if_splits)

text \<open>
  The guards of the operator's transitions: a commission can be cancelled exactly when its
  state is known and not terminal and a reason is given, requeued exactly when its state is
  recoverable, it has not expired and a reason is given; and a lifecycle event is accepted only
  on a commission that is executing.
\<close>

theorem transition_guards:
  "(ensureWorkCommissionTransition c args cancelWorkCommissionTransition now = Inr () \<longleftrightarrow>
      IsKnownState (stringField c ''state'') \<and> \<not> IsTerminalState (stringField c ''state'')
      \<and> stringArg args ''reason'' \<noteq> [])
   \<and> (ensureWorkCommissionTransition c args requeueWorkCommissionTransition now = Inr () \<longleftrightarrow>
      IsRecoverableState (stringField c ''state'') \<and> \<not> workCommissionExpired c now
      \<and> stringArg args ''reason'' \<noteq> [])
   \<and> \<not> (ensureWorkCommissionLifecycleTransition c args = Inr () \<and> \<not> workCommissionActiveLeaseState c)"
  using cancel_guard requeue_guard lifecycle_guard_executing by blast

end
