(* ===== verification/Freshness.thy ===== *)
theory Freshness
  imports Commission ArtifactStore
begin

text \<open>
  The part of \<open>serve_commission.go\<close> that decides whether a commission is still based on what it
  was created from: the canonical hash of its scope, the snapshot of the specification sections
  it implements, and the freshness report of \<open>start_after_preflight\<close>. \<open>loadSections\<close> stands for
  \<open>project.LoadSpecSections\<close>, which parses the files below a project root: its result is data
  of the environment.
\<close>

section \<open>The canonical scope\<close>

definition canonical_scope_fields :: "payload \<Rightarrow> (string \<times> jval) list" where
  "canonical_scope_fields scope =
     [(''affected_files'', JStrs (sortedUniqueStrings (scopeStringSlice scope ''affected_files''))),
      (''allowed_actions'', JStrs (sortedUniqueStrings (scopeStringSlice scope ''allowed_actions''))),
      (''allowed_modules'', JStrs (sortedUniqueStrings (scopeStringSlice scope ''allowed_modules''))),
      (''allowed_paths'', JStrs (sortedUniqueStrings (scopeStringSlice scope ''allowed_paths''))),
      (''base_sha'', JStr (stringField scope ''base_sha'')),
      (''forbidden_paths'', JStrs (sortedUniqueStrings (scopeStringSlice scope ''forbidden_paths''))),
      (''lockset'', JStrs (sortedUniqueStrings (scopeStringSlice scope ''lockset''))),
      (''repo_ref'', JStr (stringField scope ''repo_ref'')),
      (''target_branch'', JStr (stringField scope ''target_branch''))]"

definition empty_jval :: "jval option \<Rightarrow> bool" where
  "empty_jval v \<longleftrightarrow> (case v of Some (JStr s) \<Rightarrow> s = [] | Some (JStrs vs) \<Rightarrow> length vs = 0 | _ \<Rightarrow> True)"

fun require_scope_fields :: "string list \<Rightarrow> (string \<times> jval) list \<Rightarrow> unit result" where
  "require_scope_fields [] flds = Inr ()"
| "require_scope_fields (key # keys) flds =
     (if empty_jval (map_of flds key) then Inl (''scope.'' @ key @ '' is required'')
      else require_scope_fields keys flds)"

definition validateCanonicalScopeFields :: "(string \<times> jval) list \<Rightarrow> unit result" where
  "validateCanonicalScopeFields flds =
     require_scope_fields
       [''base_sha'', ''repo_ref'', ''target_branch'', ''affected_files'', ''allowed_actions'',
        ''allowed_paths'', ''lockset''] flds"

definition canonicalScopeFields :: "payload \<Rightarrow> (string \<times> jval) list result" where
  "canonicalScopeFields scope =
     (case validateCanonicalScopeFields (canonical_scope_fields scope) of
        Inl e \<Rightarrow> Inl e
      | Inr _ \<Rightarrow> Inr (canonical_scope_fields scope))"

definition workCommissionScopeHash :: "payload \<Rightarrow> string result" where
  "workCommissionScopeHash scope =
     (case canonicalScopeFields scope of
        Inl e \<Rightarrow> Inl e
      | Inr flds \<Rightarrow> Inr (canonicalJSONHash (JObj flds)))"

section \<open>Specification sections\<close>

record SpecEvidenceRequirement =
  se_kind :: string
  se_description :: string

record SpecSection =
  ss_id :: string
  ss_kind :: string
  ss_title :: string
  ss_statement_type :: string
  ss_claim_layer :: string
  ss_owner :: string
  ss_status :: string
  ss_valid_until :: string
  ss_evidence_required :: "SpecEvidenceRequirement list"
  ss_document_kind :: string
  ss_path :: string
  ss_line :: int

text \<open>The dynamic value of what is also hashed.\<close>

primrec gval_of :: "jval \<Rightarrow> gval" where
  "gval_of (JStr s) = GStr s"
| "gval_of (JInt i) = GInt i"
| "gval_of (JStrs vs) = GStrs vs"
| "gval_of (JArr vs) = GArr (map gval_of vs)"
| "gval_of (JObj fs) = GMap (map (map_prod id gval_of) fs)"
| "gval_of (JStruct fs) = GMap (map (map_prod id gval_of) fs)"

definition specEvidenceRequirementToMap :: "SpecEvidenceRequirement \<Rightarrow> (string \<times> jval) list" where
  "specEvidenceRequirementToMap requirement =
     (if trim_space (se_kind requirement) \<noteq> [] then [(''kind'', JStr (trim_space (se_kind requirement)))] else []) @
     (if trim_space (se_description requirement) \<noteq> []
      then [(''description'', JStr (trim_space (se_description requirement)))] else [])"

definition specEvidenceRequirementsToAny :: "SpecEvidenceRequirement list \<Rightarrow> jval list" where
  "specEvidenceRequirementsToAny requirements =
     map JObj (filter (\<lambda>entry. length entry \<noteq> 0) (map specEvidenceRequirementToMap requirements))"

text \<open>A snapshot with its hash: the hash is taken before \<open>revision_hash\<close> is added.\<close>

definition hashed_snapshot :: "(string \<times> jval) list \<Rightarrow> gval \<times> string" where
  "hashed_snapshot flds =
     (let revisionHash = canonicalJSONHash (JObj flds)
      in (gval_of (JObj (flds @ [(''revision_hash'', JStr revisionHash)])), revisionHash))"

definition commissionResolvedSpecSectionSnapshot :: "SpecSection \<Rightarrow> gval \<times> string" where
  "commissionResolvedSpecSectionSnapshot sec =
     hashed_snapshot
       [(''claim_layer'', JStr (ss_claim_layer sec)), (''document_kind'', JStr (ss_document_kind sec)),
        (''evidence_required'', JArr (specEvidenceRequirementsToAny (ss_evidence_required sec))),
        (''id'', JStr (ss_id sec)), (''kind'', JStr (ss_kind sec)), (''line'', JInt (ss_line sec)),
        (''owner'', JStr (ss_owner sec)), (''path'', JStr (ss_path sec)), (''snapshot_state'', JStr ''resolved''),
        (''status'', JStr (ss_status sec)), (''statement_type'', JStr (ss_statement_type sec)),
        (''title'', JStr (ss_title sec)), (''valid_until'', JStr (ss_valid_until sec))]"

definition commissionRefOnlySpecSectionSnapshot :: "string \<Rightarrow> gval \<times> string" where
  "commissionRefOnlySpecSectionSnapshot ref =
     hashed_snapshot [(''id'', JStr ref), (''snapshot_state'', JStr ''ref_only'')]"

text \<open>The sections by id; a later section with the same id replaces an earlier one.\<close>

definition commissionSpecSectionsByID ::
  "(string \<Rightarrow> SpecSection list result) \<Rightarrow> string \<Rightarrow> (string \<times> SpecSection) list result" where
  "commissionSpecSectionsByID loadSections projectRoot =
     (if trim_space projectRoot = [] then Inr []
      else (case loadSections projectRoot of
          Inl e \<Rightarrow> Inl (''load ProjectSpecificationSet sections: '' @ e)
        | Inr sections \<Rightarrow>
            Inr (rev (map (\<lambda>sec. (ss_id sec, sec)) (filter (\<lambda>sec. trim_space (ss_id sec) \<noteq> []) sections)))))"

definition section_snapshot :: "(string \<times> SpecSection) list \<Rightarrow> string \<Rightarrow> gval \<times> string" where
  "section_snapshot sectionsByID ref =
     (case map_of sectionsByID ref of
        None \<Rightarrow> commissionRefOnlySpecSectionSnapshot ref
      | Some sec \<Rightarrow> commissionResolvedSpecSectionSnapshot sec)"

definition commissionSpecSectionSnapshots ::
  "string list \<Rightarrow> (string \<times> SpecSection) list \<Rightarrow> gval list \<times> payload \<times> string list" where
  "commissionSpecSectionSnapshots refs sectionsByID =
     (map (\<lambda>ref. fst (section_snapshot sectionsByID ref)) refs,
      map (\<lambda>ref. (ref, GStr (snd (section_snapshot sectionsByID ref)))) refs,
      sortedUniqueStrings (filter (\<lambda>ref. map_of sectionsByID ref = None) refs))"

definition section_requirements :: "SpecSection \<Rightarrow> gval list" where
  "section_requirements sec =
     map (\<lambda>entry. gval_of (JObj (entry @ [(''spec_section_ref'', JStr (ss_id sec))])))
       (filter (\<lambda>entry. length entry \<noteq> 0) (map specEvidenceRequirementToMap (ss_evidence_required sec)))"

definition commissionSpecEvidenceRequirements :: "string list \<Rightarrow> (string \<times> SpecSection) list \<Rightarrow> gval list" where
  "commissionSpecEvidenceRequirements refs sectionsByID =
     concat (map (\<lambda>ref. case map_of sectionsByID ref of None \<Rightarrow> [] | Some sec \<Rightarrow> section_requirements sec) refs)"

definition commissionSpecSnapshotSource :: "string \<Rightarrow> string" where
  "commissionSpecSnapshotSource projectRoot =
     (if trim_space projectRoot \<noteq> [] then ''project_specification_set'' else ''decision_record'')"

definition commissionSpecSnapshotState :: "string list \<Rightarrow> string" where
  "commissionSpecSnapshotState unresolvedRefs = (if length unresolvedRefs = 0 then ''resolved'' else ''ref_only'')"

text \<open>No refs give no snapshot (three nil values): None.\<close>

definition commissionSpecSnapshot ::
  "(string \<Rightarrow> SpecSection list result) \<Rightarrow> payload \<Rightarrow> string list \<Rightarrow> Time
     \<Rightarrow> (payload \<times> payload \<times> gval list) option result" where
  "commissionSpecSnapshot loadSections args sectionRefs now =
     (let refs = sortedUniqueStrings sectionRefs; projectRoot = stringArg args ''project_root''
      in if length refs = 0 then Inr None
         else (case commissionSpecSectionsByID loadSections projectRoot of
             Inl e \<Rightarrow> Inl e
           | Inr sectionsByID \<Rightarrow>
               (case commissionSpecSectionSnapshots refs sectionsByID of
                  (snapshotSections, revisionHashes, unresolvedRefs) \<Rightarrow>
                    if projectRoot \<noteq> [] \<and> length unresolvedRefs > 0
                    then Inl (''spec_section_refs not found in ProjectSpecificationSet: '' @ join '', '' unresolvedRefs)
                    else Inr (Some
                      ([(''captured_at'', GStr (format_rfc3339 now)),
                        (''section_refs'', GArr (stringSliceToAny refs)),
                        (''revision_hashes'', GMap revisionHashes),
                        (''snapshot_source'', GStr (commissionSpecSnapshotSource projectRoot)),
                        (''snapshot_state'', GStr (commissionSpecSnapshotState unresolvedRefs)),
                        (''spec_section_set'', GArr snapshotSections)] @
                       (if length unresolvedRefs > 0
                        then [(''unresolved_refs'', GArr (stringSliceToAny unresolvedRefs))] else []),
                       revisionHashes,
                       commissionSpecEvidenceRequirements refs sectionsByID)))))"

definition workCommissionSpecSectionRefs :: "commission \<Rightarrow> string list" where
  "workCommissionSpecSectionRefs commission =
     sortedUniqueStrings
       (stringSliceField commission ''spec_section_refs'' @ stringSliceField commission ''section_refs'' @
        (case mapArg commission ''spec_snapshot'' of
           None \<Rightarrow> []
         | Some snapshot \<Rightarrow> stringSliceField snapshot ''section_refs''))"

section \<open>The freshness report\<close>

record commissionFreshnessIssue =
  is_code :: string
  is_field :: string
  is_ref :: string
  is_expected :: string
  is_actual :: string

record commissionFreshnessGap =
  gp_code :: string
  gp_field :: string
  gp_ref :: string
  gp_reason :: string

record commissionFreshnessReport =
  fr_issues :: "commissionFreshnessIssue list"
  fr_gaps :: "commissionFreshnessGap list"

definition issue :: "string \<Rightarrow> string \<Rightarrow> string \<Rightarrow> string \<Rightarrow> string \<Rightarrow> commissionFreshnessIssue" where
  "issue code field ref expected actual =
     \<lparr>is_code = code, is_field = field, is_ref = ref, is_expected = expected, is_actual = actual\<rparr>"

definition hashFreshnessIssues ::
  "string \<Rightarrow> string \<Rightarrow> string \<Rightarrow> string \<Rightarrow> string \<Rightarrow> commissionFreshnessIssue list" where
  "hashFreshnessIssues code field ref expected actual =
     (if expected \<noteq> [] \<and> expected = actual then [] else [issue code field ref expected actual])"

definition decisionFreshnessIssues :: "Store \<Rightarrow> commission \<Rightarrow> commissionFreshnessIssue list" where
  "decisionFreshnessIssues store commission =
     (let decisionRef = stringField commission ''decision_ref'';
          expectedHash = stringField commission ''decision_revision_hash''
      in case store_get store decisionRef of
           Inl e \<Rightarrow> [issue ''decision_missing'' ''decision_ref'' decisionRef [] []]
         | Inr decision \<Rightarrow>
             if art_kind decision \<noteq> KindDecisionRecord
             then [issue ''decision_kind_changed'' ''decision_ref'' decisionRef [] (art_kind decision)]
             else if art_status decision \<noteq> StatusActive
             then [issue ''decision_not_active'' ''decision.status'' decisionRef [] (art_status decision)]
             else hashFreshnessIssues ''decision_revision_hash_changed'' ''decision_revision_hash'' decisionRef
                    expectedHash (decisionRevisionHash store decision))"

definition problemBlockedStatus :: "string \<Rightarrow> bool" where
  "problemBlockedStatus status \<longleftrightarrow> status \<in> {StatusSuperseded, StatusDeprecated, StatusRefreshDue}"

definition problemFreshnessIssues :: "Store \<Rightarrow> commission \<Rightarrow> commissionFreshnessIssue list" where
  "problemFreshnessIssues store commission =
     (let problemRef = stringField commission ''problem_card_ref'';
          expectedHash = stringField commission ''problem_revision_hash''
      in if expectedHash = []
         then [issue ''problem_revision_hash_missing'' ''problem_revision_hash'' problemRef [] []]
         else (case store_get store problemRef of
             Inl e \<Rightarrow> [issue ''problem_missing'' ''problem_card_ref'' problemRef [] []]
           | Inr problem \<Rightarrow>
               if art_kind problem \<noteq> KindProblemCard
               then [issue ''problem_kind_changed'' ''problem_card_ref'' problemRef [] (art_kind problem)]
               else if problemBlockedStatus (art_status problem)
               then [issue ''problem_not_fresh'' ''problem.status'' problemRef [] (art_status problem)]
               else hashFreshnessIssues ''problem_revision_hash_changed'' ''problem_revision_hash'' problemRef
                      expectedHash (artifactRevisionHash problem [])))"

definition startAdmittedBaseSHA :: "payload \<Rightarrow> string" where
  "startAdmittedBaseSHA args =
     (let baseSHA = stringArg args ''base_sha''
      in if baseSHA \<noteq> [] then baseSHA
         else (case mapArg args ''payload'' of
             None \<Rightarrow> []
           | Some payload \<Rightarrow>
               (let inner = stringField payload ''base_sha''
                in if inner \<noteq> [] then inner else stringField payload ''current_base_sha'')))"

definition admittedBaseFreshnessIssues :: "commission \<Rightarrow> payload \<Rightarrow> commissionFreshnessIssue list" where
  "admittedBaseFreshnessIssues commission args =
     (let baseSHA = startAdmittedBaseSHA args
      in if baseSHA = [] then []
         else hashFreshnessIssues ''admitted_base_sha_changed'' ''base_sha'' (stringField commission ''id'')
                (stringField commission ''base_sha'') baseSHA)"

definition scopeFreshnessIssues :: "commission \<Rightarrow> payload \<Rightarrow> commissionFreshnessIssue list" where
  "scopeFreshnessIssues commission args =
     (case mapArg commission ''scope'' of
        None \<Rightarrow> [issue ''scope_missing'' ''scope'' [] [] []]
      | Some scope \<Rightarrow>
          (case workCommissionScopeHash scope of
             Inl e \<Rightarrow> [issue ''scope_invalid'' ''scope'' [] [] e]
           | Inr scopeHash \<Rightarrow>
               (let wc = stringField commission ''id''
                in hashFreshnessIssues ''scope_hash_changed'' ''scope_hash'' wc
                     (stringField commission ''scope_hash'') scopeHash @
                   hashFreshnessIssues ''scope_embedded_hash_changed'' ''scope.hash'' wc
                     (stringField scope ''hash'') scopeHash @
                   hashFreshnessIssues ''base_sha_changed'' ''base_sha'' wc
                     (stringField commission ''base_sha'') (stringField scope ''base_sha'') @
                   admittedBaseFreshnessIssues commission args)))"

text \<open>\<open>cleanStringMap\<close> writes in map order; a key occurs once in a JSON object.\<close>

definition resolvedSpecFreshnessIssues ::
  "(string \<Rightarrow> SpecSection list result) \<Rightarrow> commission \<Rightarrow> string list \<Rightarrow> string \<Rightarrow> Time
     \<Rightarrow> commissionFreshnessIssue list" where
  "resolvedSpecFreshnessIssues loadSections commission refs projectRoot now =
     (let expectedHashes = stringMapField commission ''spec_revision_hashes''
      in case commissionSpecSnapshot loadSections [(''project_root'', GStr projectRoot)] refs now of
           Inl e \<Rightarrow> [issue ''spec_revision_unavailable'' ''spec_revision_hashes'' [] [] e]
         | Inr snapshot \<Rightarrow>
             (let currentHashes = (case snapshot of None \<Rightarrow> [] | Some (m, hashes, reqs) \<Rightarrow> hashes)
              in concat (map (\<lambda>ref.
                   hashFreshnessIssues ''spec_revision_hash_changed'' (''spec_revision_hashes.'' @ ref) ref
                     (case map_of expectedHashes ref of Some h \<Rightarrow> h | None \<Rightarrow> [])
                     (stringField currentHashes ref)) refs)))"

definition specFreshnessIssues ::
  "(string \<Rightarrow> SpecSection list result) \<Rightarrow> commission \<Rightarrow> payload \<Rightarrow> Time \<Rightarrow> commissionFreshnessIssue list" where
  "specFreshnessIssues loadSections commission args now =
     (let refs = workCommissionSpecSectionRefs commission; projectRoot = stringArg args ''project_root''
      in if length refs = 0 then []
         else if projectRoot \<noteq> [] then resolvedSpecFreshnessIssues loadSections commission refs projectRoot now
         else [])"

definition specFreshnessGaps :: "commission \<Rightarrow> payload \<Rightarrow> commissionFreshnessGap list" where
  "specFreshnessGaps commission args =
     (if length (workCommissionSpecSectionRefs commission) = 0 then []
      else if stringArg args ''project_root'' \<noteq> [] then []
      else [\<lparr>gp_code = ''spec_revision_gate_deferred'', gp_field = ''spec_revision_hashes'', gp_ref = [],
             gp_reason = ''ProjectSpecificationSet root was not supplied to the lifecycle call''\<rparr>])"

definition startAutonomyEnvelopeRevision :: "payload \<Rightarrow> string" where
  "startAutonomyEnvelopeRevision args =
     (let revision = firstStringField ''autonomy_envelope_revision'' [args, mapArg_or_nil args ''payload'']
      in if revision \<noteq> [] then revision
         else firstStringField ''revision''
           [mapArg_or_nil args ''autonomy_envelope_snapshot'', mapArg_or_nil args ''autonomy_envelope''])"

definition autonomyEnvelopeFreshnessIssues :: "commission \<Rightarrow> payload \<Rightarrow> commissionFreshnessIssue list" where
  "autonomyEnvelopeFreshnessIssues commission args =
     (let expectedRevision = stringField commission ''autonomy_envelope_revision'';
          currentRevision = startAutonomyEnvelopeRevision args
      in if expectedRevision = [] then []
         else if currentRevision = [] then []
         else hashFreshnessIssues ''autonomy_envelope_revision_changed'' ''autonomy_envelope_revision''
                (stringField commission ''autonomy_envelope_ref'') expectedRevision currentRevision)"

definition workCommissionHasAutonomyEnvelopeSnapshot :: "commission \<Rightarrow> bool" where
  "workCommissionHasAutonomyEnvelopeSnapshot commission \<longleftrightarrow>
     mapArg commission ''autonomy_envelope_snapshot'' \<noteq> None"

definition deferredFreshnessGaps :: "commission \<Rightarrow> commissionFreshnessGap list" where
  "deferredFreshnessGaps commission =
     (if stringField commission ''implementation_plan_revision'' \<noteq> []
      then [\<lparr>gp_code = ''implementation_plan_gate_deferred'', gp_field = ''implementation_plan_revision'',
             gp_ref = stringField commission ''implementation_plan_ref'',
             gp_reason = ''ImplementationPlan is not a persisted artifact kind yet''\<rparr>] else []) @
     (if stringField commission ''autonomy_envelope_revision'' \<noteq> []
        \<and> \<not> workCommissionHasAutonomyEnvelopeSnapshot commission
      then [\<lparr>gp_code = ''autonomy_envelope_gate_deferred'', gp_field = ''autonomy_envelope_revision'',
             gp_ref = stringField commission ''autonomy_envelope_ref'',
             gp_reason = ''AutonomyEnvelope is not a persisted artifact kind yet''\<rparr>] else [])"

definition workCommissionFreshnessReport ::
  "(string \<Rightarrow> SpecSection list result) \<Rightarrow> Store \<Rightarrow> commission \<Rightarrow> payload \<Rightarrow> Time \<Rightarrow> commissionFreshnessReport" where
  "workCommissionFreshnessReport loadSections store commission args now =
     (if stringArg args ''action'' \<noteq> ''start_after_preflight'' then \<lparr>fr_issues = [], fr_gaps = []\<rparr>
      else \<lparr>fr_issues = decisionFreshnessIssues store commission @ problemFreshnessIssues store commission @
              scopeFreshnessIssues commission args @ specFreshnessIssues loadSections commission args now @
              autonomyEnvelopeFreshnessIssues commission args,
            fr_gaps = specFreshnessGaps commission args @ deferredFreshnessGaps commission\<rparr>)"

definition commissionFreshnessBlocked :: "commissionFreshnessReport \<Rightarrow> bool" where
  "commissionFreshnessBlocked report \<longleftrightarrow> length (fr_issues report) > 0"

definition commissionFreshnessIssueCodes :: "commissionFreshnessReport \<Rightarrow> string list" where
  "commissionFreshnessIssueCodes report = sortedUniqueStrings (map is_code (fr_issues report))"

definition commissionFreshnessBlockError :: "commissionFreshnessReport \<Rightarrow> string" where
  "commissionFreshnessBlockError report =
     ''commission_freshness_blocked: '' @ join '','' (commissionFreshnessIssueCodes report)"

definition commissionFreshnessIssueMap :: "commissionFreshnessIssue \<Rightarrow> payload" where
  "commissionFreshnessIssueMap i =
     putOptionalString (putOptionalString (putOptionalString
       [(''code'', GStr (is_code i)), (''field'', GStr (is_field i))]
       ''ref'' (is_ref i)) ''expected'' (is_expected i)) ''actual'' (is_actual i)"

definition commissionFreshnessIssueMaps :: "commissionFreshnessIssue list \<Rightarrow> gval list" where
  "commissionFreshnessIssueMaps issues = map (\<lambda>i. GMap (commissionFreshnessIssueMap i)) issues"

definition commissionFreshnessGapMap :: "commissionFreshnessGap \<Rightarrow> payload" where
  "commissionFreshnessGapMap gap =
     putOptionalString
       [(''code'', GStr (gp_code gap)), (''field'', GStr (gp_field gap)), (''reason'', GStr (gp_reason gap))]
       ''ref'' (gp_ref gap)"

definition commissionFreshnessGapMaps :: "commissionFreshnessGap list \<Rightarrow> gval list" where
  "commissionFreshnessGapMaps gaps = map (\<lambda>gap. GMap (commissionFreshnessGapMap gap)) gaps"

definition workCommissionArgsWithFreshnessGaps :: "payload \<Rightarrow> commissionFreshnessReport \<Rightarrow> payload" where
  "workCommissionArgsWithFreshnessGaps args report =
     (if length (fr_gaps report) = 0 then args
      else put ''payload''
        (GMap (put ''freshness_gaps'' (GArr (commissionFreshnessGapMaps (fr_gaps report)))
          (mapArg_or_nil args ''payload''))) args)"

section \<open>When a commission may start\<close>

lemma hashFreshnessIssues_Nil [simp]:
  "hashFreshnessIssues code field ref expected actual = [] \<longleftrightarrow> expected \<noteq> [] \<and> expected = actual"
  by (auto simp: hashFreshnessIssues_def)

lemma recorded_hash:
  "(case map_of m ref of None \<Rightarrow> False | Some h \<Rightarrow> h \<noteq> [] \<and> h = x) \<longleftrightarrow>
     (case map_of m ref of Some h \<Rightarrow> h | None \<Rightarrow> []) \<noteq> [] \<and>
     (case map_of m ref of Some h \<Rightarrow> h | None \<Rightarrow> []) = x"
  by (simp split: option.split)

lemma decision_fresh_iff:
  "decisionFreshnessIssues store c = [] \<longleftrightarrow>
     (case store_get store (stringField c ''decision_ref'') of
        Inl e \<Rightarrow> False
      | Inr d \<Rightarrow> art_kind d = KindDecisionRecord \<and> art_status d = StatusActive
          \<and> stringField c ''decision_revision_hash'' = decisionRevisionHash store d)"
  by (auto simp: decisionFreshnessIssues_def Let_def decisionRevisionHash_def artifactRevisionHash_def
      trim_canonicalJSONHash(2)[symmetric] split: sum.splits)

lemma problem_fresh_iff:
  "problemFreshnessIssues store c = [] \<longleftrightarrow>
     (case store_get store (stringField c ''problem_card_ref'') of
        Inl e \<Rightarrow> False
      | Inr p \<Rightarrow> art_kind p = KindProblemCard
          \<and> art_status p \<notin> {StatusSuperseded, StatusDeprecated, StatusRefreshDue}
          \<and> stringField c ''problem_revision_hash'' = artifactRevisionHash p [])"
  by (auto simp: problemFreshnessIssues_def problemBlockedStatus_def Let_def artifactRevisionHash_def
      trim_canonicalJSONHash(2)[symmetric] split: sum.splits)

definition admitted_base :: "payload \<Rightarrow> string \<Rightarrow> bool" where
  "admitted_base args base \<longleftrightarrow> startAdmittedBaseSHA args \<in> {[], base}"

definition scope_consistent :: "commission \<Rightarrow> bool" where
  "scope_consistent c \<longleftrightarrow>
     (case mapArg c ''scope'' of
        None \<Rightarrow> False
      | Some scope \<Rightarrow> workCommissionScopeHash scope = Inr (stringField c ''scope_hash'')
          \<and> stringField c ''scope_hash'' \<noteq> []
          \<and> stringField scope ''hash'' = stringField c ''scope_hash''
          \<and> stringField c ''base_sha'' \<noteq> [] \<and> stringField scope ''base_sha'' = stringField c ''base_sha'')"

lemma scope_fresh_iff:
  "scopeFreshnessIssues c args = [] \<longleftrightarrow>
     scope_consistent c \<and> admitted_base args (stringField c ''base_sha'')"
  by (auto simp: scopeFreshnessIssues_def scope_consistent_def admitted_base_def
      admittedBaseFreshnessIssues_def Let_def split: option.splits sum.splits)

definition specs_unchanged :: "(string \<Rightarrow> SpecSection list result) \<Rightarrow> commission \<Rightarrow> string \<Rightarrow> Time \<Rightarrow> bool" where
  "specs_unchanged loadSections c projectRoot now \<longleftrightarrow>
     (let refs = workCommissionSpecSectionRefs c; recorded = stringMapField c ''spec_revision_hashes''
      in if refs = [] then True
         else (case commissionSpecSnapshot loadSections [(''project_root'', GStr projectRoot)] refs now of
             Inr (Some (m, hashes, reqs)) \<Rightarrow>
               list_all (\<lambda>ref. case map_of recorded ref of
                   None \<Rightarrow> False
                 | Some h \<Rightarrow> h \<noteq> [] \<and> h = stringField hashes ref) refs
           | _ \<Rightarrow> False))"

lemma spec_refs_canonical [simp]:
  "sorted_unique (workCommissionSpecSectionRefs c) = workCommissionSpecSectionRefs c"
  by (simp add: workCommissionSpecSectionRefs_def)

lemma spec_snapshot_Some:
  "commissionSpecSnapshot loadSections args refs now = Inr None \<longleftrightarrow> sorted_unique refs = []"
  by (auto simp: commissionSpecSnapshot_def Let_def split: sum.splits prod.splits if_splits)

lemma spec_fresh_iff:
  "specFreshnessIssues loadSections c args now = [] \<longleftrightarrow>
     stringArg args ''project_root'' = [] \<or> specs_unchanged loadSections c (stringArg args ''project_root'') now"
proof (cases "commissionSpecSnapshot loadSections
    [(''project_root'', GStr (stringArg args ''project_root''))] (workCommissionSpecSectionRefs c) now")
  case (Inl e)
  then show ?thesis
    by (auto simp: specFreshnessIssues_def resolvedSpecFreshnessIssues_def specs_unchanged_def Let_def)
next
  case (Inr snapshot)
  show ?thesis
  proof (cases snapshot)
    case None
    then show ?thesis using Inr
      by (auto simp: spec_snapshot_Some specFreshnessIssues_def specs_unchanged_def)
  next
    case (Some s)
    obtain m hs reqs where "s = (m, hs, reqs)" by (cases s)
    then show ?thesis using Inr Some
      by (auto simp: specFreshnessIssues_def resolvedSpecFreshnessIssues_def specs_unchanged_def
          Let_def recorded_hash list_all_iff)
  qed
qed

lemma envelope_fresh_iff:
  "autonomyEnvelopeFreshnessIssues c args = [] \<longleftrightarrow>
     stringField c ''autonomy_envelope_revision'' = [] \<or>
     startAutonomyEnvelopeRevision args \<in> {[], stringField c ''autonomy_envelope_revision''}"
  by (auto simp: autonomyEnvelopeFreshnessIssues_def Let_def)

text \<open>
  C11. A commission may start exactly when everything it was cut from is unchanged: its decision
  is an active decision record with the recorded revision hash, its problem is a fresh problem
  card with the recorded hash, its scope has the recorded hash (twice) and the recorded base
  commit, the base commit and the envelope revision the runner names are the recorded ones, and,
  when the runner names the project, each of its specification sections still has the recorded
  hash. No other action is ever stopped by this gate. The gate looks at nothing else: not at the
  revision of the implementation plan, the lease or the deadline of the commission, which
  \<open>spec/target-system/EXECUTION_CONTRACT.md\<close> wants checked here as well.
\<close>

theorem start_gate_iff:
  "\<not> commissionFreshnessBlocked (workCommissionFreshnessReport loadSections store c args now) \<longleftrightarrow>
     (if stringArg args ''action'' \<noteq> ''start_after_preflight'' then True
      else (case store_get store (stringField c ''decision_ref'') of
              Inl e \<Rightarrow> False
            | Inr d \<Rightarrow> art_kind d = KindDecisionRecord \<and> art_status d = StatusActive
                \<and> stringField c ''decision_revision_hash'' = decisionRevisionHash store d)
         \<and> (case store_get store (stringField c ''problem_card_ref'') of
              Inl e \<Rightarrow> False
            | Inr p \<Rightarrow> art_kind p = KindProblemCard
                \<and> art_status p \<notin> {StatusSuperseded, StatusDeprecated, StatusRefreshDue}
                \<and> stringField c ''problem_revision_hash'' = artifactRevisionHash p [])
         \<and> scope_consistent c \<and> admitted_base args (stringField c ''base_sha'')
         \<and> (if stringArg args ''project_root'' = [] then True
            else specs_unchanged loadSections c (stringArg args ''project_root'') now)
         \<and> (if stringField c ''autonomy_envelope_revision'' = [] then True
            else startAutonomyEnvelopeRevision args
                   \<in> {[], stringField c ''autonomy_envelope_revision''}))"
proof (cases "stringArg args ''action'' = ''start_after_preflight''")
  case True
  then have "\<not> commissionFreshnessBlocked (workCommissionFreshnessReport loadSections store c args now) \<longleftrightarrow>
      decisionFreshnessIssues store c = [] \<and> problemFreshnessIssues store c = []
      \<and> scopeFreshnessIssues c args = [] \<and> specFreshnessIssues loadSections c args now = []
      \<and> autonomyEnvelopeFreshnessIssues c args = []"
    by (auto simp: commissionFreshnessBlocked_def workCommissionFreshnessReport_def)
  then show ?thesis
    unfolding decision_fresh_iff problem_fresh_iff scope_fresh_iff spec_fresh_iff envelope_fresh_iff
    using True by (simp add: conj_assoc del: insert_iff)
next
  case False
  then show ?thesis by (simp add: commissionFreshnessBlocked_def workCommissionFreshnessReport_def)
qed

end
