(* ===== verification/CommissionEvents.thy ===== *)
theory CommissionEvents
  imports Freshness
begin

text \<open>
  The part of \<open>internal/cli/serve_commission.go\<close> that writes a WorkCommission: the lifecycle
  events appended to its log and the runtime run they belong to, the state a lifecycle event
  leads to, and, when the local evidence passed, the completion, the projection debt and the
  delivery decision. The payload is passed and returned; \<open>t\<close> is the clock reading of an event.
\<close>

section \<open>Runtime runs\<close>

definition workCommissionLifecycleActionCreatesRuntimeRun :: "string \<Rightarrow> bool" where
  "workCommissionLifecycleActionCreatesRuntimeRun action \<longleftrightarrow>
     trim_space action \<in>
       {''record_preflight'', ''start_after_preflight'', ''record_run_event'', ''complete_or_block''}"

definition workCommissionLifecycleEventClosesRuntimeRun :: "payload \<Rightarrow> bool" where
  "workCommissionLifecycleEventClosesRuntimeRun event =
     (if stringField event ''action'' = ''complete_or_block'' then True
      else if stringField event ''event'' = ''freshness_blocked'' then True
      else if stringField event ''action'' = ''record_preflight'' \<and> stringField event ''verdict'' = ''blocked''
      then True else False)"

definition workCommissionLifecycleRuntimeRunOrdinal :: "commission \<Rightarrow> nat" where
  "workCommissionLifecycleRuntimeRunOrdinal commission =
     fold (\<lambda>event ordinal.
         if \<not> workCommissionLifecycleEventClosesRuntimeRun event then ordinal else ordinal + 1)
       (mapSliceField commission ''events'') 1"

definition workCommissionLifecycleOrdinalRuntimeRunID :: "commission \<Rightarrow> string" where
  "workCommissionLifecycleOrdinalRuntimeRunID commission =
     stringField commission ''id'' @ ''#runtime-run-'' @
     pad3 (workCommissionLifecycleRuntimeRunOrdinal commission)"

definition workCommissionLifecycleRuntimeRunID :: "commission \<Rightarrow> payload \<Rightarrow> string" where
  "workCommissionLifecycleRuntimeRunID commission args =
     (if \<not> workCommissionLifecycleActionCreatesRuntimeRun (stringArg args ''action'') then []
      else (let payload = mapArg_or_nil args ''payload'';
                runtimeRunID = firstStringField ''runtime_run_id'' [args, payload];
                runID = firstStringField ''run_id'' [args, payload];
                carrierRef = firstStringField ''carrier_ref'' [args, payload]
            in if runtimeRunID \<noteq> [] then runtimeRunID
               else if runID \<noteq> [] then runID
               else if carrierRef \<noteq> [] then carrierRef
               else workCommissionLifecycleOrdinalRuntimeRunID commission))"

section \<open>Events\<close>

definition stored_events :: "commission \<Rightarrow> gval list" where
  "stored_events commission = (case map_of commission ''events'' of Some (GArr events) \<Rightarrow> events | _ \<Rightarrow> [])"

definition lifecycle_event :: "commission \<Rightarrow> payload \<Rightarrow> Time \<Rightarrow> payload" where
  "lifecycle_event commission args t =
     (let event = [(''action'', GStr (stringArg args ''action'')),
                   (''runner_id'', GStr (stringArg args ''runner_id'')),
                   (''event'', GStr (stringArg args ''event'')),
                   (''verdict'', GStr (stringArg args ''verdict'')),
                   (''reason'', GStr (stringArg args ''reason'')),
                   (''recorded_at'', GStr (format_rfc3339 t))];
          withPayload = (case mapArg args ''payload'' of
              None \<Rightarrow> event | Some payload \<Rightarrow> put ''payload'' (GMap payload) event);
          runtimeRunID = workCommissionLifecycleRuntimeRunID commission args
      in if runtimeRunID \<noteq> [] then put ''runtime_run_id'' (GStr runtimeRunID) withPayload else withPayload)"

definition appendLifecycleEvent :: "commission \<Rightarrow> payload \<Rightarrow> Time \<Rightarrow> commission" where
  "appendLifecycleEvent commission args t =
     put ''events'' (GArr (stored_events commission @ [GMap (lifecycle_event commission args t)])) commission"

definition transition_event_args :: "commission \<Rightarrow> payload \<Rightarrow> string \<Rightarrow> string \<Rightarrow> payload" where
  "transition_event_args commission args action event =
     (let payload = [(''previous_state'', GStr (stringField commission ''state''))];
          payload' = (case mapArg commission ''lease'' of
              None \<Rightarrow> payload | Some lease \<Rightarrow> put ''previous_lease'' (GMap lease) payload)
      in [(''action'', GStr action), (''runner_id'', GStr (stringArg args ''runner_id'')),
          (''event'', GStr event), (''reason'', GStr (stringArg args ''reason'')),
          (''payload'', GMap payload')])"

definition appendRequeueLifecycleEvent :: "commission \<Rightarrow> payload \<Rightarrow> Time \<Rightarrow> commission" where
  "appendRequeueLifecycleEvent commission args t =
     appendLifecycleEvent commission
       (transition_event_args commission args ''requeue'' ''commission_requeued'') t"

definition appendCancelLifecycleEvent :: "commission \<Rightarrow> payload \<Rightarrow> Time \<Rightarrow> commission" where
  "appendCancelLifecycleEvent commission args t =
     appendLifecycleEvent commission
       (transition_event_args commission args ''cancel'' ''commission_cancelled'') t"

definition appendFreshnessBlockLifecycleEvent ::
  "commission \<Rightarrow> payload \<Rightarrow> commissionFreshnessReport \<Rightarrow> Time \<Rightarrow> commission" where
  "appendFreshnessBlockLifecycleEvent commission args report t =
     (let eventArgs = workCommissionArgsWithFreshnessGaps args report;
          eventArgs' = put ''reason'' (GStr (commissionFreshnessBlockError report))
            (put ''verdict'' (GStr ''blocked'') (put ''event'' (GStr ''freshness_blocked'') eventArgs));
          payload = put ''freshness_mismatches'' (GArr (commissionFreshnessIssueMaps (fr_issues report)))
            (mapArg_or_nil eventArgs' ''payload'')
      in appendLifecycleEvent commission (put ''payload'' (GMap payload) eventArgs') t)"

definition appendAutonomyEnvelopeBlockLifecycleEvent ::
  "commission \<Rightarrow> payload \<Rightarrow> Report \<Rightarrow> Time \<Rightarrow> commission" where
  "appendAutonomyEnvelopeBlockLifecycleEvent commission args report t =
     (let eventArgs = put ''reason'' (GStr (commissionAutonomyEnvelopeBlockError report))
            (put ''verdict'' (GStr ''blocked'') (put ''event'' (GStr ''autonomy_envelope_blocked'') args));
          payload = put ''autonomy_envelope_findings'' (GArr (autonomyEnvelopeFindingMaps (rp_findings report)))
            (mapArg_or_nil eventArgs ''payload'')
      in appendLifecycleEvent commission (put ''payload'' (GMap payload) eventArgs) t)"

section \<open>Completion and delivery\<close>

definition workCommissionProjectionPublication :: "payload \<Rightarrow> ProjectionPublication" where
  "workCommissionProjectionPublication args =
     (let payload = mapArg_or_nil args ''payload'';
          publication = mapArg_or_nil payload ''external_publication'';
          own = firstStringField ''state'' [publication];
          state = (if own = [] then firstStringField ''external_publication_state'' [args, payload] else own)
      in \<lparr>pp_state = NormalizeProjectionPublicationState state,
          pp_carrier = firstStringField ''carrier'' [publication],
          pp_target = firstStringField ''target'' [publication],
          pp_last_error = firstStringField ''last_error'' [publication],
          pp_retry_policy = firstStringField ''retry_policy'' [publication]\<rparr>)"

definition lastWorkCommissionLifecycleEvent :: "commission \<Rightarrow> payload" where
  "lastWorkCommissionLifecycleEvent commission =
     (let events = mapSliceField commission ''events'' in if length events = 0 then [] else last events)"

definition workCommissionLocalExecution :: "commission \<Rightarrow> payload" where
  "workCommissionLocalExecution commission =
     (let event = lastWorkCommissionLifecycleEvent commission
      in [(''state'', GStr ''evidence_passed''), (''verdict'', GStr ''pass''),
          (''runtime_run_id'', GStr (stringField event ''runtime_run_id'')),
          (''recorded_at'', GStr (stringField event ''recorded_at''))])"

definition projectionDebtPayload :: "ProjectionDebt \<Rightarrow> payload" where
  "projectionDebtPayload debt =
     [(''carrier'', GStr (debt_carrier debt)), (''target'', GStr (debt_target debt)),
      (''last_error'', GStr (debt_last_error debt)), (''retry_policy'', GStr (debt_retry_policy debt))]"

definition completeWorkCommissionAfterLocalEvidence :: "commission \<Rightarrow> payload \<Rightarrow> commission" where
  "completeWorkCommissionAfterLocalEvidence commission args =
     (let policy = NormalizeProjectionPolicy (stringField commission ''projection_policy'');
          publication = workCommissionProjectionPublication args;
          completion = CompletionAfterLocalEvidence policy publication;
          commission1 = put ''state'' (GStr (compl_state completion)) commission;
          commission2 = put ''local_execution'' (GMap (workCommissionLocalExecution commission1)) commission1
      in case compl_debt completion of
           None \<Rightarrow> del ''projection_debt'' commission2
         | Some debt \<Rightarrow> put ''projection_debt'' (GMap (projectionDebtPayload debt)) commission2)"

definition workCommissionDeliveryGate :: "string list \<Rightarrow> commission \<Rightarrow> Time \<Rightarrow> DeliveryGate \<times> gval list" where
  "workCommissionDeliveryGate gates commission now =
     (case workCommissionAutonomyEnvelopeReport gates commission now of
        Inl e \<Rightarrow> (GateBlocked,
          [GMap [(''code'', GStr ''autonomy_envelope_invalid''),
                 (''field'', GStr ''autonomy_envelope_snapshot''), (''detail'', GStr e)]])
      | Inr None \<Rightarrow> (GateMissing, [])
      | Inr (Some report) \<Rightarrow>
          if rp_decision report = DecisionAllowed then (GateAllowed, [])
          else (GateBlocked, autonomyEnvelopeFindingMaps (rp_findings report)))"

definition workCommissionDeliveryDecisionPayload ::
  "DeliveryPolicy \<Rightarrow> DeliveryVerdict \<Rightarrow> DeliveryGate \<Rightarrow> DeliveryDecision \<Rightarrow> gval list \<Rightarrow> Time \<Rightarrow> payload" where
  "workCommissionDeliveryDecisionPayload policy verdict gate decision findings now =
     (let payload =
        [(''policy'', GStr (delivery_policy_text policy)),
         (''verdict'', GStr (delivery_verdict_text verdict)),
         (''action'', GStr (delivery_action_text (dd_action decision))),
         (''mode'', GStr (delivery_action_text (dd_action decision))),
         (''auto_apply'', GBool (dd_auto_apply decision)),
         (''reason'', GStr (dd_reason decision)),
         (''autonomy_envelope_decision'', GStr (delivery_gate_text gate)),
         (''workspace_commit_granularity'', GStr ''per_commission''),
         (''recorded_at'', GStr (format_rfc3339 now))]
      in if length findings > 0 then put ''autonomy_envelope_findings'' (GArr findings) payload else payload)"

text \<open>Reading a key that is missing gives Go's nil.\<close>

definition field_value :: "payload \<Rightarrow> string \<Rightarrow> gval" where
  "field_value p key = (case map_of p key of Some v \<Rightarrow> v | None \<Rightarrow> GNil)"

definition workCommissionAutoApplyPayload :: "payload \<Rightarrow> payload" where
  "workCommissionAutoApplyPayload delivery =
     [(''allowed'', field_value delivery ''auto_apply''),
      (''decision'', field_value delivery ''action''),
      (''reason'', field_value delivery ''reason''),
      (''delivery_policy'', field_value delivery ''policy''),
      (''verdict'', field_value delivery ''verdict''),
      (''autonomy_envelope_decision'', field_value delivery ''autonomy_envelope_decision''),
      (''workspace_commit_granularity'', field_value delivery ''workspace_commit_granularity'')]"

definition withWorkCommissionDeliveryDecision ::
  "string list \<Rightarrow> commission \<Rightarrow> payload \<Rightarrow> Time \<Rightarrow> commission" where
  "withWorkCommissionDeliveryDecision gates commission args now =
     (let policy = NormalizeDeliveryPolicy (stringField commission ''delivery_policy'');
          verdict = NormalizeDeliveryVerdict (stringArg args ''verdict'');
          (gate, findings) = workCommissionDeliveryGate gates commission now;
          decision = DeliveryAfterLocalEvidence policy verdict gate;
          payload = workCommissionDeliveryDecisionPayload policy verdict gate decision findings now
      in put ''auto_apply'' (GMap (workCommissionAutoApplyPayload payload))
           (put ''delivery_decision'' (GMap payload) commission))"

definition applyLifecycleState :: "string list \<Rightarrow> commission \<Rightarrow> payload \<Rightarrow> Time \<Rightarrow> commission" where
  "applyLifecycleState gates commission args now =
     (let action = stringArg args ''action''; verdict = stringArg args ''verdict''
      in if action = ''start_after_preflight'' then put ''state'' (GStr ''running'') commission
         else if action = ''record_preflight'' \<and> verdict = ''blocked''
         then put ''state'' (GStr ''blocked_stale'') commission
         else if action = ''complete_or_block'' \<and> (verdict = ''pass'' \<or> verdict = ''completed'')
         then withWorkCommissionDeliveryDecision gates
                (completeWorkCommissionAfterLocalEvidence commission args) args now
         else if action = ''complete_or_block'' \<and> verdict = ''failed''
         then put ''state'' (GStr ''failed'') commission
         else if action = ''complete_or_block'' \<and> verdict = ''blocked''
         then put ''state'' (GStr ''blocked_policy'') commission
         else commission)"

end
