(* ===== verification/CommissionStore.thy ===== *)
theory CommissionStore
  imports CommissionEvents
begin

text \<open>
  How \<open>serve_commission.go\<close> keeps WorkCommissions: the rows of kind WorkCommission of the table of
  artifacts, decoded when they are loaded and encoded when they are updated, and the creation of
  a commission from a payload: defaults, required fields, the canonical scope, the authority of
  the specification and the envelope. A handler gets the environment: the clock, the order in
  which the envelope's gates are visited, the sections of a project, and the random bytes of new
  ids (\<open>None\<close>: the generator fails), and the orders in which Go ranges over the maps of a plan.
\<close>

section \<open>The environment\<close>

text \<open>
  A handler reads the clock several times: for its guards, when it records an event, when it
  decides the delivery. \<open>env_random env i\<close> is the i-th reading of the generator.
\<close>

record Env =
  env_now :: Time
  env_event :: Time
  env_delivery :: Time
  env_gates :: "string list"
  env_sections :: "string \<Rightarrow> SpecSection list result"
  env_random :: "nat \<Rightarrow> string option"
  env_known_order :: "DecisionRef list \<Rightarrow> DecisionRef list"
  env_cycle_order :: "DecisionRef list \<Rightarrow> DecisionRef list"

section \<open>Rows\<close>

text \<open>
  A text that is the JSON null leaves a nil map, whose assignment panics; any other text that is
  no object is an error.
\<close>

definition decodeWorkCommissionPayload :: "string \<Rightarrow> StructuredData \<Rightarrow> commission result" where
  "decodeWorkCommissionPayload artifactID structuredData =
     (let decoded = (case structuredData of
            Encoded p \<Rightarrow> Inr (json_norm_payload p)
          | Text text \<Rightarrow>
              if trim_space text = []
              then Inl (''WorkCommission '' @ artifactID @ '' has no structured_data'')
              else (case json_unmarshal text of
                  Some (GMap m) \<Rightarrow> Inr m
                | Some GNil \<Rightarrow> Inl ''panic: assignment to entry in nil map''
                | _ \<Rightarrow> Inl (''decode WorkCommission '' @ artifactID)))
      in case decoded of
           Inl e \<Rightarrow> Inl e
         | Inr payload \<Rightarrow>
             Inr (if stringField payload ''id'' = [] then put ''id'' (GStr artifactID) payload else payload))"

fun decode_rows :: "Artifact list \<Rightarrow> commission list result" where
  "decode_rows [] = Inr []"
| "decode_rows (row # rows) =
     (case decodeWorkCommissionPayload (art_id row) (art_data row) of
        Inl e \<Rightarrow> Inl e
      | Inr commission \<Rightarrow>
          (case decode_rows rows of Inl e \<Rightarrow> Inl e | Inr commissions \<Rightarrow> Inr (commission # commissions)))"

definition commission_rows :: "Store \<Rightarrow> Artifact list" where
  "commission_rows store = filter (\<lambda>row. art_kind row = KindWorkCommission) (st_artifacts store)"

definition loadWorkCommissionPayloads :: "Store \<Rightarrow> commission list result" where
  "loadWorkCommissionPayloads store = decode_rows (commission_rows store)"

definition loadWorkCommissionPayloadsForClaim :: "Store \<Rightarrow> commission list result" where
  "loadWorkCommissionPayloadsForClaim store = decode_rows (commission_rows store)"

definition loadWorkCommissionPayload :: "Store \<Rightarrow> string \<Rightarrow> commission result" where
  "loadWorkCommissionPayload store commissionID =
     (case store_get store commissionID of
        Inl e \<Rightarrow> Inl e
      | Inr item \<Rightarrow>
          if art_kind item \<noteq> KindWorkCommission
          then Inl (commissionID @ '' is '' @ art_kind item @ '', not WorkCommission'')
          else decodeWorkCommissionPayload commissionID (art_data item))"

definition loadWorkCommissionPayloadForUpdate :: "Store \<Rightarrow> string \<Rightarrow> commission result" where
  "loadWorkCommissionPayloadForUpdate store commissionID =
     (case find (\<lambda>row. art_id row = commissionID \<and> art_kind row = KindWorkCommission) (st_artifacts store) of
        None \<Rightarrow> Inl ''commission_not_found''
      | Some row \<Rightarrow> decodeWorkCommissionPayload commissionID (art_data row))"

definition workCommissionTitle :: "commission \<Rightarrow> string" where
  "workCommissionTitle commission =
     (let wc = stringField commission ''id''; decisionRef = stringField commission ''decision_ref''
      in if decisionRef = [] then ''WorkCommission '' @ wc
         else ''WorkCommission '' @ wc @ '' for '' @ decisionRef)"

definition renderWorkCommissionBody :: "commission \<Rightarrow> string" where
  "renderWorkCommissionBody commission =
     join [CHR 0x0A]
       [''# WorkCommission '' @ stringField commission ''id'',
        [],
        ''- State: '' @ stringField commission ''state'',
        ''- Decision: '' @ stringField commission ''decision_ref'',
        ''- ProblemCard: '' @ stringField commission ''problem_card_ref'',
        ''- Projection policy: '' @ stringField commission ''projection_policy'',
        ''- Delivery policy: '' @ stringField commission ''delivery_policy'',
        ''- Valid until: '' @ stringField commission ''valid_until'']"

definition updated_row :: "commission \<Rightarrow> Artifact \<Rightarrow> Artifact" where
  "updated_row commission row =
     row\<lparr>art_version := art_version row + 1,
         art_title := workCommissionTitle commission,
         art_body := renderWorkCommissionBody commission,
         art_valid_until := stringField commission ''valid_until'',
         art_data := Encoded commission\<rparr>"

definition updateWorkCommissionPayload :: "commission \<Rightarrow> Store \<Rightarrow> Store result" where
  "updateWorkCommissionPayload commission store =
     (let hit = (\<lambda>row. art_id row = stringField commission ''id'' \<and> art_kind row = KindWorkCommission)
      in if \<not> list_ex hit (st_artifacts store) then Inl ''commission_not_found''
         else Inr (store\<lparr>st_artifacts :=
             map (\<lambda>row. if hit row then updated_row commission row else row) (st_artifacts store)\<rparr>))"

section \<open>New commissions\<close>

definition generateWorkCommissionID :: "Time \<Rightarrow> string option \<Rightarrow> string" where
  "generateWorkCommissionID now random =
     (case random of
        None \<Rightarrow> ''wc-'' @ format_day now @ ''-'' @ append_int 9 (unix_nano now mod 1000000000)
      | Some bytes \<Rightarrow> ''wc-'' @ format_day now @ ''-'' @ hex_string bytes)"

definition ensureWorkCommissionScopeSnapshot :: "commission \<Rightarrow> payload \<Rightarrow> commission result" where
  "ensureWorkCommissionScopeSnapshot commission scope =
     (case workCommissionScopeHash scope of
        Inl e \<Rightarrow> Inl e
      | Inr scopeHash \<Rightarrow>
          (let c1 = (if stringField commission ''scope_hash'' = []
                     then put ''scope_hash'' (GStr scopeHash) commission else commission);
               scope1 = (if stringField scope ''hash'' = []
                         then put ''hash'' (GStr scopeHash) scope else scope);
               c2 = put ''scope'' (GMap scope1) c1;
               scopeBaseSHA = stringField scope1 ''base_sha'';
               c3 = (if stringField c2 ''base_sha'' = []
                     then put ''base_sha'' (GStr scopeBaseSHA) c2 else c2)
           in if stringField c2 ''scope_hash'' \<noteq> scopeHash
              then Inl ''scope_hash does not match canonical scope''
              else if stringField scope1 ''hash'' \<noteq> scopeHash
              then Inl ''scope.hash does not match canonical scope''
              else if stringField c3 ''base_sha'' \<noteq> scopeBaseSHA
              then Inl ''base_sha does not match scope.base_sha''
              else Inr c3))"

definition ensureWorkCommissionSpecSnapshot :: "Env \<Rightarrow> commission \<Rightarrow> string list \<Rightarrow> commission" where
  "ensureWorkCommissionSpecSnapshot env commission refs =
     (case mapArg commission ''spec_snapshot'' of
        Some snapshot \<Rightarrow> commission
      | None \<Rightarrow>
          (case commissionSpecSnapshot (env_sections env) [] refs (env_now env) of
             Inl e \<Rightarrow> commission
           | Inr None \<Rightarrow> put ''spec_revision_hashes'' GNil (put ''spec_snapshot'' GNil commission)
           | Inr (Some (snapshot, revisionHashes, _)) \<Rightarrow>
               put ''spec_revision_hashes'' (GMap revisionHashes)
                 (put ''spec_snapshot'' (GMap snapshot) commission)))"

definition commissionHasTacticalSpecReadinessOverride :: "commission \<Rightarrow> bool" where
  "commissionHasTacticalSpecReadinessOverride commission =
     (case mapArg commission ''spec_readiness_override'' of
        None \<Rightarrow> False
      | Some override \<Rightarrow>
          if stringField override ''kind'' \<noteq> ''tactical'' then False
          else if \<not> boolField override ''out_of_spec'' then False
          else if stringField override ''reason'' = [] then False else True)"

definition ensureWorkCommissionSpecAuthority :: "Env \<Rightarrow> commission \<Rightarrow> commission result" where
  "ensureWorkCommissionSpecAuthority env commission =
     (let refs = workCommissionSpecSectionRefs commission
      in if length refs > 0
         then Inr (ensureWorkCommissionSpecSnapshot env
                (put ''spec_section_refs'' (GArr (stringSliceToAny refs)) commission) refs)
         else if commissionHasTacticalSpecReadinessOverride commission then Inr commission
         else Inl (''spec_section_refs is required unless spec_readiness_override records explicit '' @
                   ''out-of-spec tactical work''))"

definition ensureAutonomyEnvelopeFieldMatch :: "commission \<Rightarrow> string \<Rightarrow> string \<Rightarrow> commission result" where
  "ensureAutonomyEnvelopeFieldMatch commission field value =
     (let current = stringField commission field
      in if current = [] then Inr (put field (GStr value) commission)
         else if current = value then Inr commission
         else Inl (field @ '' does not match autonomy_envelope_snapshot''))"

definition withCommissionAutonomyEnvelope :: "Env \<Rightarrow> commission \<Rightarrow> payload \<Rightarrow> commission result" where
  "withCommissionAutonomyEnvelope env commission envelopeSnapshot =
     (case NormalizeSnapshot (env_gates env) envelopeSnapshot of
        Inl e \<Rightarrow> Inl e
      | Inr (normalized, snapshot) \<Rightarrow>
          (let c1 = put ''autonomy_envelope_snapshot'' (GMap normalized) commission
           in case ensureAutonomyEnvelopeFieldMatch c1 ''autonomy_envelope_ref'' (sn_ref snapshot) of
                Inl e \<Rightarrow> Inl e
              | Inr c2 \<Rightarrow>
                  (case ensureAutonomyEnvelopeFieldMatch c2 ''autonomy_envelope_revision'' (sn_revision snapshot) of
                     Inl e \<Rightarrow> Inl e
                   | Inr c3 \<Rightarrow>
                       (let report = Evaluate snapshot (autonomyEnvelopeCommissionRequest c3) (env_now env)
                        in if rp_decision report = DecisionBlocked
                           then Inl (commissionAutonomyEnvelopeBlockError report) else Inr c3))))"

definition ensureWorkCommissionAutonomyEnvelope :: "Env \<Rightarrow> commission \<Rightarrow> commission result" where
  "ensureWorkCommissionAutonomyEnvelope env commission =
     (case mapArg commission ''autonomy_envelope_snapshot'' of
        None \<Rightarrow> Inr commission
      | Some envelopeSnapshot \<Rightarrow> withCommissionAutonomyEnvelope env commission envelopeSnapshot)"

definition put_default :: "string \<Rightarrow> string \<Rightarrow> commission \<Rightarrow> commission" where
  "put_default key value commission =
     (if stringField commission key = [] then put key (GStr value) commission else commission)"

fun required_fields :: "string list \<Rightarrow> commission \<Rightarrow> unit result" where
  "required_fields [] commission = Inr ()"
| "required_fields (key # keys) commission =
     (if stringField commission key = [] then Inl (key @ '' is required'') else required_fields keys commission)"

definition new_commission_fields :: "Env \<Rightarrow> string option \<Rightarrow> commission \<Rightarrow> commission" where
  "new_commission_fields env random commission =
     put_default ''delivery_policy'' defaultDeliveryPolicy
       (put_default ''projection_policy'' ''local_only''
         (put_default ''state'' ''queued''
           (put_default ''id'' (generateWorkCommissionID (env_now env) random) commission)))"

definition normalizeNewWorkCommission :: "Env \<Rightarrow> string option \<Rightarrow> commission \<Rightarrow> commission result" where
  "normalizeNewWorkCommission env random commission =
     (let c1 = new_commission_fields env random commission;
          c2 = put_default ''fetched_at'' (format_rfc3339 (env_now env)) c1;
          c3 = (if map_of c2 ''evidence_requirements'' = None
                then put ''evidence_requirements'' (GArr []) c2 else c2)
      in if \<not> validProjectionPolicy (stringField c1 ''projection_policy'')
         then Inl (''invalid projection_policy: '' @ stringField c1 ''projection_policy'')
         else if \<not> validDeliveryPolicy (stringField c1 ''delivery_policy'')
         then Inl (''invalid delivery_policy: '' @ stringField c1 ''delivery_policy'')
         else if \<not> validWorkCommissionState (stringField c1 ''state'')
         then Inl (''invalid WorkCommission state: '' @ stringField c1 ''state'')
         else (case required_fields
               [''id'', ''decision_ref'', ''decision_revision_hash'', ''problem_card_ref'',
                ''projection_policy'', ''delivery_policy'', ''state'', ''valid_until'', ''fetched_at''] c3 of
             Inl e \<Rightarrow> Inl e
           | Inr _ \<Rightarrow>
               (case mapArg c3 ''scope'' of
                  None \<Rightarrow> Inl ''scope is required''
                | Some scope \<Rightarrow>
                    (case ensureWorkCommissionScopeSnapshot c3 scope of
                       Inl e \<Rightarrow> Inl e
                     | Inr c4 \<Rightarrow>
                         (case ensureWorkCommissionSpecAuthority env c4 of
                            Inl e \<Rightarrow> Inl e
                          | Inr c5 \<Rightarrow> ensureWorkCommissionAutonomyEnvelope env c5)))))"

definition new_commission_row :: "commission \<Rightarrow> Artifact" where
  "new_commission_row commission =
     \<lparr>art_id = stringField commission ''id'', art_kind = KindWorkCommission, art_version = 0,
      art_status = StatusActive, art_title = workCommissionTitle commission,
      art_body = renderWorkCommissionBody commission,
      art_valid_until = stringField commission ''valid_until'', art_links = [],
      art_data = Encoded commission\<rparr>"

text \<open>The commission in its stored form, and the store.\<close>

definition persistWorkCommission ::
  "Env \<Rightarrow> string option \<Rightarrow> commission \<Rightarrow> Store \<Rightarrow> (commission \<times> Store) result" where
  "persistWorkCommission env random commission store =
     (case normalizeNewWorkCommission env random commission of
        Inl e \<Rightarrow> Inl e
      | Inr c \<Rightarrow>
          (case store_create (new_commission_row c) store of
             Inl e \<Rightarrow> Inl e
           | Inr store' \<Rightarrow> Inr (c, store')))"

definition copyStringAnyMap :: "payload \<Rightarrow> payload" where
  "copyStringAnyMap input = fold (\<lambda>(key, value) output. put key value output) (rev input) []"

definition commissionPayload :: "payload \<Rightarrow> payload" where
  "commissionPayload args =
     (case mapArg args ''commission'' of
        Some payload \<Rightarrow> copyStringAnyMap payload
      | None \<Rightarrow> copyStringAnyMap
          (filter (\<lambda>(key, value). key \<notin> {''action'', ''config_hash'', ''project_root''}) args))"

end
