(* ===== verification/CommissionHandlers.thy ===== *)
theory CommissionHandlers
  imports CommissionStore
begin

text \<open>
  The handlers of \<open>serve_commission.go\<close> that work on stored commissions. A handler is one
  transaction: it takes the environment, the arguments of the call and the store, and returns
  its response or error and the store. An error leaves the store alone, except the two that
  record a block of the commission and then report it. A response is the value that is encoded
  as JSON.
\<close>

type_synonym handler = "Env \<Rightarrow> payload \<Rightarrow> Store \<Rightarrow> gval result \<times> Store"

definition commissionResponse :: "string \<Rightarrow> gval \<Rightarrow> gval" where
  "commissionResponse key value = GMap [(key, value)]"

definition commissionResponseMap :: "payload \<Rightarrow> gval" where
  "commissionResponseMap value = GMap value"

definition commission_list :: "commission list \<Rightarrow> gval" where
  "commission_list commissions = GArr (map GMap commissions)"

section \<open>Writers\<close>

text \<open>The common end of a transaction: the update and the commit.\<close>

definition commit_commission :: "commission \<Rightarrow> Store \<Rightarrow> gval result \<Rightarrow> gval result \<times> Store" where
  "commit_commission commission store response =
     (case updateWorkCommissionPayload commission store of
        Inl e \<Rightarrow> (Inl e, store)
      | Inr store' \<Rightarrow> (response, store'))"

definition createWorkCommission :: handler where
  "createWorkCommission env args store =
     (case persistWorkCommission env (env_random env 0) (commissionPayload args) store of
        Inl e \<Rightarrow> (Inl e, store)
      | Inr (commission, store') \<Rightarrow> (Inr (commissionResponse ''commission'' (GMap commission)), store'))"

definition cancelled :: "Env \<Rightarrow> payload \<Rightarrow> commission \<Rightarrow> commission" where
  "cancelled env args commission =
     del ''lease'' (put ''state'' (GStr (tr_target_state cancelWorkCommissionTransition))
       (appendCancelLifecycleEvent commission args (env_event env)))"

definition cancelWorkCommission :: handler where
  "cancelWorkCommission env args store =
     (let commissionID = stringArg args ''commission_id''
      in if commissionID = [] then (Inl ''commission_id is required'', store)
         else (case loadWorkCommissionPayloadForUpdate store commissionID of
             Inl e \<Rightarrow> (Inl e, store)
           | Inr commission \<Rightarrow>
               (case ensureWorkCommissionTransition commission args cancelWorkCommissionTransition (env_now env) of
                  Inl e \<Rightarrow> (Inl e, store)
                | Inr _ \<Rightarrow>
                    (let c = cancelled env args commission
                     in commit_commission c store (Inr (commissionResponse ''commission'' (GMap c)))))))"

definition requeued :: "Env \<Rightarrow> payload \<Rightarrow> commission \<Rightarrow> commission" where
  "requeued env args commission =
     (let c1 = put ''state'' (GStr (tr_target_state requeueWorkCommissionTransition))
            (appendRequeueLifecycleEvent commission args (env_event env));
          c2 = (if tr_refresh_fetched_at requeueWorkCommissionTransition
                then put ''fetched_at'' (GStr (format_rfc3339 (env_now env))) c1 else c1)
      in del ''lease'' c2)"

definition requeueWorkCommission :: handler where
  "requeueWorkCommission env args store =
     (let commissionID = stringArg args ''commission_id''
      in if commissionID = [] then (Inl ''commission_id is required'', store)
         else (case loadWorkCommissionPayloadForUpdate store commissionID of
             Inl e \<Rightarrow> (Inl e, store)
           | Inr commission \<Rightarrow>
               (case ensureWorkCommissionTransition commission args requeueWorkCommissionTransition (env_now env) of
                  Inl e \<Rightarrow> (Inl e, store)
                | Inr _ \<Rightarrow>
                    (let c = requeued env args commission
                     in commit_commission c store (Inr (commissionResponse ''commission'' (GMap c)))))))"

definition claimed :: "Env \<Rightarrow> payload \<Rightarrow> commission \<Rightarrow> commission" where
  "claimed env args commission =
     (let runner = stringArg args ''runner_id''; runnerID = (if runner = [] then ''haft'' else runner)
      in put ''lease''
           (GMap [(''runner_id'', GStr runnerID), (''state'', GStr ''claimed_for_preflight''),
                  (''claimed_at'', GStr (format_rfc3339 (env_now env)))])
           (put ''state'' (GStr ''preflighting'') commission))"

definition claimWorkCommissionForPreflight :: handler where
  "claimWorkCommissionForPreflight env args store =
     (case commissionLeaseAgeCap args of
        Inl e \<Rightarrow> (Inl e, store)
      | Inr leaseAgeCap \<Rightarrow>
          (case loadWorkCommissionPayloadsForClaim store of
             Inl e \<Rightarrow> (Inl e, store)
           | Inr commissions \<Rightarrow>
               (case selectWorkCommissionForClaimWithLeaseCap (env_gates env) commissions args (env_now env)
                       leaseAgeCap of
                  Inl e \<Rightarrow> (Inl e, store)
                | Inr commission \<Rightarrow>
                    (case ensureWorkCommissionLocksetAvailable commissions commission of
                       Inl e \<Rightarrow> (Inl e, store)
                     | Inr _ \<Rightarrow>
                         (let c = claimed env args commission
                          in commit_commission c store (Inr (commissionResponse ''commission'' (GMap c))))))))"

text \<open>The state of a commission its freshness gate or its envelope has stopped.\<close>

definition freshness_blocked ::
  "Env \<Rightarrow> payload \<Rightarrow> commissionFreshnessReport \<Rightarrow> commission \<Rightarrow> commission" where
  "freshness_blocked env args report commission =
     put ''state'' (GStr ''blocked_stale'')
       (appendFreshnessBlockLifecycleEvent commission args report (env_event env))"

definition envelope_blocked :: "Env \<Rightarrow> payload \<Rightarrow> Report \<Rightarrow> commission \<Rightarrow> commission" where
  "envelope_blocked env args report commission =
     put ''state'' (GStr (autonomyEnvelopeBlockState report))
       (appendAutonomyEnvelopeBlockLifecycleEvent commission args report (env_event env))"

definition lifecycle_applied :: "Env \<Rightarrow> payload \<Rightarrow> commission \<Rightarrow> commission" where
  "lifecycle_applied env args commission =
     applyLifecycleState (env_gates env) (appendLifecycleEvent commission args (env_event env)) args
       (env_delivery env)"

text \<open>The envelope is looked at only when work starts; \<open>Inr None\<close> lets the event pass.\<close>

definition start_envelope_report :: "Env \<Rightarrow> payload \<Rightarrow> commission \<Rightarrow> Report option result" where
  "start_envelope_report env args commission =
     (if stringArg args ''action'' \<noteq> ''start_after_preflight'' then Inr None
      else (case workCommissionAutonomyEnvelopeReport (env_gates env) commission (env_now env) of
          Inl e \<Rightarrow> Inl e
        | Inr None \<Rightarrow> Inr None
        | Inr (Some report) \<Rightarrow>
            if commissionAutonomyEnvelopeBlocked report then Inr (Some report) else Inr None))"

definition appendWorkCommissionLifecycle :: handler where
  "appendWorkCommissionLifecycle env args store =
     (let commissionID = stringArg args ''commission_id''
      in if commissionID = [] then (Inl ''commission_id is required'', store)
         else (case loadWorkCommissionPayloadForUpdate store commissionID of
             Inl e \<Rightarrow> (Inl e, store)
           | Inr commission \<Rightarrow>
               (case ensureWorkCommissionLifecycleTransition commission args of
                  Inl e \<Rightarrow> (Inl e, store)
                | Inr _ \<Rightarrow>
                    (let report = workCommissionFreshnessReport (env_sections env) store commission args
                           (env_now env)
                     in if commissionFreshnessBlocked report
                        then commit_commission (freshness_blocked env args report commission) store
                               (Inl (commissionFreshnessBlockError report))
                        else (let args1 = workCommissionArgsWithFreshnessGaps args report
                              in case start_envelope_report env args1 commission of
                                   Inl e \<Rightarrow> (Inl e, store)
                                 | Inr (Some envelopeReport) \<Rightarrow>
                                     commit_commission (envelope_blocked env args1 envelopeReport commission) store
                                       (Inl (commissionAutonomyEnvelopeBlockError envelopeReport))
                                 | Inr None \<Rightarrow>
                                     (let c = lifecycle_applied env args1 commission
                                      in commit_commission c store
                                           (Inr (commissionResponse ''commission'' (GMap c)))))))))"

section \<open>Readers\<close>

definition listRunnableWorkCommissions :: handler where
  "listRunnableWorkCommissions env args store =
     (case loadWorkCommissionPayloads store of
        Inl e \<Rightarrow> (Inl e, store)
      | Inr records \<Rightarrow>
          (case commissionLeaseAgeCap args of
             Inl e \<Rightarrow> (Inl e, store)
           | Inr leaseAgeCap \<Rightarrow>
               (case runnableAndSkippedWorkCommissions (env_gates env) records args (env_now env) leaseAgeCap of
                  (commissions, skipped) \<Rightarrow>
                    (Inr (commissionResponseMap
                       [(''commissions'', commission_list commissions), (''skipped'', commission_list skipped)]),
                     store))))"

definition listed :: "Env \<Rightarrow> payload \<Rightarrow> string \<Rightarrow> int \<Rightarrow> int \<Rightarrow> commission list \<Rightarrow> commission list" where
  "listed env args selector olderThan leaseAgeCap records =
     (let stateFilter = stringArg args ''state''
      in map (\<lambda>c. workCommissionWithOperatorFieldsAndLeaseCap c (env_now env) olderThan leaseAgeCap)
           (filter (\<lambda>c. workCommissionListSelectorMatchesWithLeaseCap (env_gates env) c records selector args
                          (env_now env) olderThan leaseAgeCap
                        \<and> \<not> (stateFilter \<noteq> [] \<and> stringField c ''state'' \<noteq> stateFilter)) records))"

definition listWorkCommissions :: handler where
  "listWorkCommissions env args store =
     (case loadWorkCommissionPayloads store of
        Inl e \<Rightarrow> (Inl e, store)
      | Inr records \<Rightarrow>
          (let given = stringArg args ''selector''; selector = (if given = [] then ''open'' else given)
           in if \<not> validWorkCommissionListSelector selector
              then (Inl (''invalid commission selector: '' @ selector), store)
              else (case commissionAttentionDuration args of
                  Inl e \<Rightarrow> (Inl e, store)
                | Inr olderThan \<Rightarrow>
                    (case commissionLeaseAgeCap args of
                       Inl e \<Rightarrow> (Inl e, store)
                     | Inr leaseAgeCap \<Rightarrow>
                         (Inr (commissionResponse ''commissions''
                            (commission_list (listed env args selector olderThan leaseAgeCap records))), store)))))"

definition drainWorkCommissionStatus :: handler where
  "drainWorkCommissionStatus env args store =
     (case loadWorkCommissionPayloads store of
        Inl e \<Rightarrow> (Inl e, store)
      | Inr records \<Rightarrow>
          (case commissionLeaseAgeCap args of
             Inl e \<Rightarrow> (Inl e, store)
           | Inr leaseAgeCap \<Rightarrow>
               (case runnableAndSkippedWorkCommissions (env_gates env) records args (env_now env) leaseAgeCap of
                  (commissions, skipped) \<Rightarrow>
                    (Inr (commissionResponseMap
                       [(''drain'', GMap
                          [(''empty'', GBool (length commissions = 0)),
                           (''runnable_count'', GInt (int (length commissions))),
                           (''skipped_count'', GInt (int (length skipped))),
                           (''lease_age_cap'', GStr (duration_string leaseAgeCap))]),
                        (''commissions'', commission_list commissions), (''skipped'', commission_list skipped)]),
                     store))))"

definition showWorkCommission :: handler where
  "showWorkCommission env args store =
     (let commissionID = stringArg args ''commission_id''
      in if commissionID = [] then (Inl ''commission_id is required'', store)
         else (case commissionAttentionDuration args of
             Inl e \<Rightarrow> (Inl e, store)
           | Inr olderThan \<Rightarrow>
               (case commissionLeaseAgeCap args of
                  Inl e \<Rightarrow> (Inl e, store)
                | Inr leaseAgeCap \<Rightarrow>
                    (case loadWorkCommissionPayload store commissionID of
                       Inl e \<Rightarrow> (Inl e, store)
                     | Inr commission \<Rightarrow>
                         (Inr (commissionResponse ''commission'' (GMap
                            (workCommissionWithOperatorFieldsAndLeaseCap commission (env_now env) olderThan
                               leaseAgeCap))), store)))))"

end
