(* ===== verification/DecisionCommission.thy ===== *)
theory DecisionCommission
  imports CommissionHandlers ArtifactFields
begin

text \<open>
  The commissions \<open>serve_commission.go\<close> makes from decisions: one from a decision, a batch from
  several, or one for each decision of an implementation plan, with the dependencies of the plan.
  The guard on further commissions of a decision is here too. The plan and the batch persist
  their commissions one after the other: a failure leaves the earlier ones stored.
\<close>

section \<open>Strict arguments\<close>

text \<open>\<open>decodeStrictArgFromArgs\<close> with a list of strings as target; a null element is the empty text.\<close>

definition strictArgBytes :: "gval \<Rightarrow> gval option" where
  "strictArgBytes value =
     (case value of
        GStr text \<Rightarrow>
          (let trimmed = trim_space text
           in if trimmed \<noteq> [] \<and> (hd trimmed = CHR ''['' \<or> hd trimmed = CHR ''{'')
              then json_unmarshal trimmed else Some (GStr text))
      | _ \<Rightarrow> Some (json_norm value))"

definition parseStrictStringArrayFromArgs :: "payload \<Rightarrow> string \<Rightarrow> string list result" where
  "parseStrictStringArrayFromArgs args key =
     (case map_of args key of
        None \<Rightarrow> Inr []
      | Some raw \<Rightarrow>
          (let failure = Inl (key @ '' must be an array of strings'')
           in case strictArgBytes raw of
                None \<Rightarrow> failure
              | Some v \<Rightarrow>
                  if conforms (SList SString) v
                  then Inr (case v of GArr vs \<Rightarrow> map element_text vs | _ \<Rightarrow> []) else failure))"

section \<open>Evidence requirements\<close>

definition evidence_of_command :: "string \<Rightarrow> gval option" where
  "evidence_of_command value =
     (let command = trim_space value
      in if command = [] then None
         else Some (GMap [(''kind'', GStr ''command''), (''command'', GStr command)]))"

text \<open>A blank text gives a nil map, which is null in JSON.\<close>

definition evidenceRequirementFromString :: "string \<Rightarrow> gval" where
  "evidenceRequirementFromString value =
     (case evidence_of_command value of Some requirement \<Rightarrow> requirement | None \<Rightarrow> GNil)"

definition evidenceRequirementsFromStrings :: "string list \<Rightarrow> gval list" where
  "evidenceRequirementsFromStrings values = List.map_filter evidence_of_command values"

fun evidenceRequirementsFromAny :: "gval list \<Rightarrow> gval list" where
  "evidenceRequirementsFromAny [] = []"
| "evidenceRequirementsFromAny (value # values) =
     (case value of
        GStr text \<Rightarrow> evidenceRequirementFromString text # evidenceRequirementsFromAny values
      | GMap entry \<Rightarrow> GMap entry # evidenceRequirementsFromAny values
      | _ \<Rightarrow> evidenceRequirementsFromAny values)"

definition evidenceRequirementsFromString :: "string \<Rightarrow> gval list result" where
  "evidenceRequirementsFromString value =
     (let trimmed = trim_space value
      in if trimmed = [] then Inr []
         else if hd trimmed = CHR ''['' then
           (case json_unmarshal trimmed of
              Some (GArr values) \<Rightarrow> Inr (evidenceRequirementsFromAny values)
            | _ \<Rightarrow> Inl ''parse evidence_requirements JSON'')
         else Inr (evidenceRequirementsFromStrings [trimmed]))"

definition evidenceRequirementsFromArgs :: "payload \<Rightarrow> gval list result" where
  "evidenceRequirementsFromArgs args =
     (case map_of args ''evidence_requirements'' of
        None \<Rightarrow> Inr []
      | Some (GStrs values) \<Rightarrow> Inr (evidenceRequirementsFromStrings values)
      | Some (GArr values) \<Rightarrow> Inr (evidenceRequirementsFromAny values)
      | Some (GStr value) \<Rightarrow> evidenceRequirementsFromString value
      | _ \<Rightarrow> Inl ''evidence_requirements must be an array of strings or objects'')"

section \<open>The input\<close>

record commissionFromDecisionInput =
  in_decision_ref :: string
  in_repo_ref :: string
  in_base_sha :: string
  in_target_branch :: string
  in_allowed_paths :: "string list"
  in_forbidden_paths :: "string list"
  in_allowed_actions :: "string list"
  in_affected_files :: "string list"
  in_allowed_modules :: "string list"
  in_lockset :: "string list"
  in_evidence_requirements :: "gval list"
  in_projection_policy :: string
  in_delivery_policy :: string
  in_state :: string
  in_valid_until :: string
  in_slice_description :: string

definition commissionValidUntil :: "payload \<Rightarrow> Time \<Rightarrow> string result" where
  "commissionValidUntil args now =
     (let value = stringArg args ''valid_until''; validFor = stringArg args ''valid_for''
      in if value \<noteq> [] then
           (if parse_rfc3339 value = None then Inl ''valid_until must be RFC3339'' else Inr value)
         else (case (if validFor \<noteq> [] then parse_duration validFor else Some defaultCommissionValidFor) of
             None \<Rightarrow> Inl ''valid_for must be a Go duration like 168h''
           | Some duration \<Rightarrow>
               if duration \<le> 0 then Inl ''valid_for must be positive''
               else Inr (format_rfc3339 (Add now duration))))"

definition or_default :: "string \<Rightarrow> string \<Rightarrow> string" where
  "or_default value fallback = (let v = trim_space value in if v = [] then fallback else v)"

definition validateCommissionFromDecisionInput ::
  "commissionFromDecisionInput \<Rightarrow> commissionFromDecisionInput result" where
  "validateCommissionFromDecisionInput raw =
     (let input = raw
            \<lparr>in_decision_ref := trim_space (in_decision_ref raw),
             in_repo_ref := trim_space (in_repo_ref raw),
             in_base_sha := trim_space (in_base_sha raw),
             in_target_branch := trim_space (in_target_branch raw),
             in_projection_policy := or_default (in_projection_policy raw) ''local_only'',
             in_delivery_policy := or_default (in_delivery_policy raw) defaultDeliveryPolicy,
             in_state := or_default (in_state raw) ''queued''\<rparr>
      in if in_decision_ref input = [] then Inl ''decision_ref is required''
         else if in_repo_ref input = [] then Inl ''repo_ref is required''
         else if in_base_sha input = [] then Inl ''base_sha is required''
         else if in_target_branch input = [] then Inl ''target_branch is required''
         else if \<not> validProjectionPolicy (in_projection_policy input)
         then Inl (''invalid projection_policy: '' @ in_projection_policy input)
         else if \<not> validDeliveryPolicy (in_delivery_policy input)
         then Inl (''invalid delivery_policy: '' @ in_delivery_policy input)
         else if \<not> validWorkCommissionState (in_state input)
         then Inl (''invalid WorkCommission state: '' @ in_state input)
         else Inr input)"

text \<open>The list arguments in the order they are parsed: the first that fails decides the error.\<close>

fun strict_lists :: "payload \<Rightarrow> string list \<Rightarrow> (string list list) result" where
  "strict_lists args [] = Inr []"
| "strict_lists args (key # keys) =
     (case parseStrictStringArrayFromArgs args key of
        Inl e \<Rightarrow> Inl e
      | Inr vs \<Rightarrow> (case strict_lists args keys of Inl e \<Rightarrow> Inl e | Inr vss \<Rightarrow> Inr (vs # vss)))"

definition decision_input :: "payload \<Rightarrow> string \<Rightarrow> gval list \<Rightarrow> string list list \<Rightarrow> commissionFromDecisionInput" where
  "decision_input args validUntil evidence parsed =
     \<lparr>in_decision_ref = stringArg args ''decision_ref'',
      in_repo_ref = stringArg args ''repo_ref'',
      in_base_sha = stringArg args ''base_sha'',
      in_target_branch = stringArg args ''target_branch'',
      in_allowed_paths = parsed ! 0, in_forbidden_paths = parsed ! 1,
      in_allowed_actions = (if length (parsed ! 5) > 0 then parsed ! 5 else [''edit_files'', ''run_tests'']),
      in_affected_files = parsed ! 2, in_allowed_modules = parsed ! 3, in_lockset = parsed ! 4,
      in_evidence_requirements = evidence,
      in_projection_policy = stringArg args ''projection_policy'',
      in_delivery_policy = stringArg args ''delivery_policy'',
      in_state = stringArg args ''state'', in_valid_until = validUntil,
      in_slice_description = trim_space (stringArg args ''slice_description'')\<rparr>"

definition parseCommissionFromDecisionInput :: "payload \<Rightarrow> Time \<Rightarrow> commissionFromDecisionInput result" where
  "parseCommissionFromDecisionInput args now =
     (case commissionValidUntil args now of
        Inl e \<Rightarrow> Inl e
      | Inr validUntil \<Rightarrow>
          (case evidenceRequirementsFromArgs args of
             Inl e \<Rightarrow> Inl e
           | Inr evidence \<Rightarrow>
               (case strict_lists args [''allowed_paths'', ''forbidden_paths'', ''affected_files'',
                       ''allowed_modules'', ''lockset'', ''allowed_actions''] of
                  Inl e \<Rightarrow> Inl e
                | Inr parsed \<Rightarrow>
                    validateCommissionFromDecisionInput (decision_input args validUntil evidence parsed))))"

section \<open>The decision and its problem\<close>

definition loadActiveDecisionRecord :: "Store \<Rightarrow> string \<Rightarrow> Artifact result" where
  "loadActiveDecisionRecord store decisionRef =
     (case store_get store decisionRef of
        Inl e \<Rightarrow> Inl (''load decision '' @ decisionRef @ '': '' @ e)
      | Inr decision \<Rightarrow>
          if art_kind decision \<noteq> KindDecisionRecord
          then Inl (decisionRef @ '' is '' @ art_kind decision @ '', not DecisionRecord'')
          else if art_status decision \<noteq> StatusActive
          then Inl (''decision_not_active: '' @ decisionRef @ '' is '' @ art_status decision)
          else Inr decision)"

fun appendStringSet :: "string list \<Rightarrow> string list \<Rightarrow> string list" where
  "appendStringSet target [] = target"
| "appendStringSet target (value # values) =
     (let cleaned = trim_space value
      in if cleaned = [] then appendStringSet target values
         else if stringSliceContains target cleaned then appendStringSet target values
         else appendStringSet (target @ [cleaned]) values)"

fun link_problem_refs :: "Store \<Rightarrow> string list \<Rightarrow> Link list \<Rightarrow> string list" where
  "link_problem_refs store refs [] = refs"
| "link_problem_refs store refs (link # links) =
     (if lk_type link \<noteq> ''based_on'' then link_problem_refs store refs links
      else if prefix (IDPrefix KindProblemCard @ ''-'') (lk_ref link)
      then link_problem_refs store (appendStringSet refs [lk_ref link]) links
      else (case store_get store (lk_ref link) of
          Inl e \<Rightarrow> link_problem_refs store refs links
        | Inr portfolio \<Rightarrow>
            if art_kind portfolio \<noteq> KindSolutionPortfolio then link_problem_refs store refs links
            else link_problem_refs store (appendStringSet refs (ResolvePortfolioProblemRefs portfolio)) links))"

definition decisionProblemRefs :: "Store \<Rightarrow> Artifact \<Rightarrow> DecisionFields \<Rightarrow> string list" where
  "decisionProblemRefs store decision flds =
     link_problem_refs store (appendStringSet [] (df_problem_refs flds)) (art_links decision)"

definition primaryProblemRefAndHash :: "Store \<Rightarrow> Artifact \<Rightarrow> DecisionFields \<Rightarrow> (string \<times> string) result" where
  "primaryProblemRefAndHash store decision flds =
     (case decisionProblemRefs store decision flds of
        [] \<Rightarrow> Inl (''decision '' @ art_id decision @ '' has no problem_card_ref'')
      | problemRef # _ \<Rightarrow>
          (case store_get store problemRef of
             Inl e \<Rightarrow> Inr (problemRef, [])
           | Inr problem \<Rightarrow> Inr (problemRef, artifactRevisionHash problem [])))"

definition decisionSpecSectionRefs :: "Artifact \<Rightarrow> DecisionFields \<Rightarrow> string list" where
  "decisionSpecSectionRefs decision flds =
     sortedUniqueStrings
       (df_section_refs flds @ map lk_ref (filter (\<lambda>link. lk_type link = ''governs'') (art_links decision)))"

definition or_else :: "'a list \<Rightarrow> 'a list \<Rightarrow> 'a list" where
  "or_else xs ys = (if length xs = 0 then ys else xs)"

definition workCommissionScopeFromDecision ::
  "Store \<Rightarrow> Artifact \<Rightarrow> commissionFromDecisionInput \<Rightarrow> (payload \<times> string) result" where
  "workCommissionScopeFromDecision store decision input =
     (let decisionAffectedFiles = decisionAffectedFilePaths store decision;
          allowedPaths = or_else (sortedUniqueStrings (in_allowed_paths input)) decisionAffectedFiles
      in if length allowedPaths = 0 then Inl ''allowed_paths is required when decision has no affected_files''
         else (let affectedFiles = or_else (sortedUniqueStrings (in_affected_files input)) allowedPaths;
                   lockset = or_else (sortedUniqueStrings (in_lockset input)) affectedFiles;
                   scope =
                     [(''repo_ref'', GStr (in_repo_ref input)),
                      (''base_sha'', GStr (in_base_sha input)),
                      (''target_branch'', GStr (in_target_branch input)),
                      (''allowed_paths'', GArr (stringSliceToAny allowedPaths)),
                      (''forbidden_paths'', GArr (stringSliceToAny (sortedUniqueStrings (in_forbidden_paths input)))),
                      (''allowed_actions'', GArr (stringSliceToAny (sortedUniqueStrings (in_allowed_actions input)))),
                      (''affected_files'', GArr (stringSliceToAny affectedFiles)),
                      (''allowed_modules'', GArr (stringSliceToAny (sortedUniqueStrings (in_allowed_modules input)))),
                      (''lockset'', GArr (stringSliceToAny lockset))]
               in case workCommissionScopeHash scope of
                    Inl e \<Rightarrow> Inl e
                  | Inr scopeHash \<Rightarrow> Inr (put ''hash'' (GStr scopeHash) scope, scopeHash)))"

section \<open>One commission\<close>

definition autonomyEnvelopeSnapshotFromArgs :: "payload \<Rightarrow> payload option" where
  "autonomyEnvelopeSnapshotFromArgs args =
     (case mapArg args ''autonomy_envelope_snapshot'' of
        Some snapshot \<Rightarrow> Some (copyStringAnyMap snapshot)
      | None \<Rightarrow> map_option copyStringAnyMap (mapArg args ''autonomy_envelope''))"

definition withCommissionSpecReadinessOverride :: "commission \<Rightarrow> payload \<Rightarrow> Time \<Rightarrow> commission" where
  "withCommissionSpecReadinessOverride commission override now =
     (let record1 = copyStringAnyMap override;
          record2 = (if stringField record1 ''recorded_at'' = []
                     then put ''recorded_at'' (GStr (format_rfc3339 now)) record1 else record1)
      in put ''spec_readiness_override'' (GMap record2) commission)"

definition decision_commission ::
  "commissionFromDecisionInput \<Rightarrow> Artifact \<Rightarrow> string \<Rightarrow> string \<times> string \<Rightarrow> payload \<times> string \<Rightarrow> gval list \<Rightarrow> Time
     \<Rightarrow> commission" where
  "decision_commission input decision decisionHash problem scoped evidence now =
     [(''decision_ref'', GStr (art_id decision)),
      (''decision_revision_hash'', GStr decisionHash),
      (''problem_card_ref'', GStr (fst problem)),
      (''problem_revision_hash'', GStr (snd problem)),
      (''scope'', GMap (fst scoped)),
      (''scope_hash'', GStr (snd scoped)),
      (''base_sha'', GStr (in_base_sha input)),
      (''lockset'', GArr (stringSliceToAny (scopeStringSlice (fst scoped) ''lockset''))),
      (''evidence_requirements'', GArr evidence),
      (''projection_policy'', GStr (in_projection_policy input)),
      (''delivery_policy'', GStr (in_delivery_policy input)),
      (''state'', GStr (in_state input)),
      (''valid_until'', GStr (in_valid_until input)),
      (''fetched_at'', GStr (format_rfc3339 now))]"

definition with_slice :: "commissionFromDecisionInput \<Rightarrow> commission \<Rightarrow> commission" where
  "with_slice input commission =
     (if in_slice_description input \<noteq> []
      then put ''slice_description'' (GStr (in_slice_description input)) commission else commission)"

definition with_specs :: "string list \<Rightarrow> (payload \<times> payload \<times> gval list) option \<Rightarrow> commission \<Rightarrow> commission" where
  "with_specs specSectionRefs snapshot commission =
     (case snapshot of
        None \<Rightarrow> commission
      | Some (specSnapshot, specRevisionHashes, _) \<Rightarrow>
          put ''spec_snapshot'' (GMap specSnapshot)
            (put ''spec_revision_hashes'' (GMap specRevisionHashes)
              (put ''spec_section_refs'' (GArr (stringSliceToAny specSectionRefs)) commission)))"

definition with_references :: "payload \<Rightarrow> commission \<Rightarrow> commission" where
  "with_references args commission =
     fold (\<lambda>key c. putOptionalString c key (stringArg args key))
       [''implementation_plan_ref'', ''implementation_plan_revision'', ''autonomy_envelope_ref'',
        ''autonomy_envelope_revision'', ''queue''] commission"

definition with_envelope_and_override :: "Env \<Rightarrow> payload \<Rightarrow> commission \<Rightarrow> commission result" where
  "with_envelope_and_override env args commission =
     (case (case autonomyEnvelopeSnapshotFromArgs args of
              None \<Rightarrow> Inr commission
            | Some envelopeSnapshot \<Rightarrow> withCommissionAutonomyEnvelope env commission envelopeSnapshot) of
        Inl e \<Rightarrow> Inl e
      | Inr c \<Rightarrow>
          Inr (case mapArg args ''spec_readiness_override'' of
                 None \<Rightarrow> c
               | Some override \<Rightarrow> withCommissionSpecReadinessOverride c override (env_now env)))"

definition buildWorkCommissionFromDecision :: "Env \<Rightarrow> Store \<Rightarrow> payload \<Rightarrow> commission result" where
  "buildWorkCommissionFromDecision env store args =
     (case parseCommissionFromDecisionInput args (env_now env) of
        Inl e \<Rightarrow> Inl e
      | Inr input \<Rightarrow>
          (case loadActiveDecisionRecord store (in_decision_ref input) of
             Inl e \<Rightarrow> Inl e
           | Inr decision \<Rightarrow>
               (let flds = UnmarshalDecisionFields decision;
                    specSectionRefs = decisionSpecSectionRefs decision flds
                in case primaryProblemRefAndHash store decision flds of
                     Inl e \<Rightarrow> Inl e
                   | Inr problem \<Rightarrow>
                       (case commissionSpecSnapshot (env_sections env) args specSectionRefs (env_now env) of
                          Inl e \<Rightarrow> Inl e
                        | Inr snapshot \<Rightarrow>
                            (case workCommissionScopeFromDecision store decision input of
                               Inl e \<Rightarrow> Inl e
                             | Inr scoped \<Rightarrow>
                                 (let own = or_else (in_evidence_requirements input)
                                        (evidenceRequirementsFromStrings (df_evidence_requirements flds));
                                      specEvidence = (case snapshot of None \<Rightarrow> [] | Some (_, _, reqs) \<Rightarrow> reqs);
                                      c = decision_commission input decision (decisionRevisionHash store decision)
                                        problem scoped (own @ specEvidence) (env_now env)
                                  in with_envelope_and_override env args
                                       (with_references args (with_specs specSectionRefs snapshot (with_slice input c)))))))))"

section \<open>The guard on further commissions of a decision\<close>

definition commissionStateIsTerminal :: "string \<Rightarrow> bool" where
  "commissionStateIsTerminal state \<longleftrightarrow>
     trim_space state \<in> {''cancelled'', ''expired'', ''completed'', ''completed_with_projection_debt'',
       ''failed'', ''blocked_policy''}"

definition liveCommissionsForDecision :: "commission list \<Rightarrow> string \<Rightarrow> commission list" where
  "liveCommissionsForDecision records decisionRef =
     filter (\<lambda>c. \<not> stringField c ''decision_ref'' \<noteq> decisionRef
               \<and> \<not> commissionStateIsTerminal (stringField c ''state'')) records"

definition quoted :: "string \<Rightarrow> string" where
  "quoted s = CHR 0x22 # s @ [CHR 0x22]"

text \<open>The texts of the errors are abridged to their code and the quoted names.\<close>

definition guardMultiCommissionDecision :: "Store \<Rightarrow> payload \<Rightarrow> unit result" where
  "guardMultiCommissionDecision store args =
     (let decisionRef = trim_space (stringArg args ''decision_ref'');
          sliceDescription = trim_space (stringArg args ''slice_description'')
      in if decisionRef = [] then Inr ()
         else (case loadWorkCommissionPayloads store of
             Inl e \<Rightarrow> Inl e
           | Inr records \<Rightarrow>
               (let existing = liveCommissionsForDecision records decisionRef
                in if length existing = 0 then Inr ()
                   else if sliceDescription = []
                   then Inl (''multi_commission_requires_slice_description: decision '' @ quoted decisionRef @
                     '' already has '' @ show_nat (length existing) @ '' non-terminal commission(s) ('' @
                     join '', '' (map (\<lambda>c. stringField c ''id'') existing) @ '')'')
                   else (case find (\<lambda>c. trim_space (stringField c ''slice_description'') = []) existing of
                       None \<Rightarrow> Inr ()
                     | Some c \<Rightarrow> Inl (''multi_commission_existing_lacks_slice_description: decision '' @
                         quoted decisionRef @ '' already has commission '' @ quoted (stringField c ''id''))))))"

definition createWorkCommissionFromDecision :: handler where
  "createWorkCommissionFromDecision env args store =
     (case guardMultiCommissionDecision store args of
        Inl e \<Rightarrow> (Inl e, store)
      | Inr _ \<Rightarrow>
          (case buildWorkCommissionFromDecision env store args of
             Inl e \<Rightarrow> (Inl e, store)
           | Inr commission \<Rightarrow>
               (case persistWorkCommission env (env_random env 0) commission store of
                  Inl e \<Rightarrow> (Inl e, store)
                | Inr (c, store') \<Rightarrow> (Inr (commissionResponse ''commission'' (GMap c)), store'))))"

section \<open>Batches and plans\<close>

text \<open>Persisting one after the other; the commissions that were stored before a failure stay.\<close>

fun persist_all :: "Env \<Rightarrow> commission list \<Rightarrow> Store \<Rightarrow> commission list result \<times> Store" where
  "persist_all env [] store = (Inr [], store)"
| "persist_all env (commission # commissions) store =
     (case persistWorkCommission env (env_random env 0) commission store of
        Inl e \<Rightarrow> (Inl (''persist commission for '' @ stringField commission ''decision_ref'' @ '': '' @ e), store)
      | Inr (c, store1) \<Rightarrow>
          (case persist_all env commissions store1 of
             (Inl e, store2) \<Rightarrow> (Inl e, store2)
           | (Inr cs, store2) \<Rightarrow> (Inr (c # cs), store2)))"

definition commissionArgsForDecision :: "payload \<Rightarrow> string \<Rightarrow> payload" where
  "commissionArgsForDecision args decisionRef =
     del ''decision_refs'' (put ''decision_ref'' (GStr decisionRef) (copyStringAnyMap args))"

fun build_batch :: "Env \<Rightarrow> Store \<Rightarrow> payload \<Rightarrow> nat \<Rightarrow> string list \<Rightarrow> commission list result" where
  "build_batch env store args i [] = Inr []"
| "build_batch env store args i (decisionRef # decisionRefs) =
     (case buildWorkCommissionFromDecision env store (commissionArgsForDecision args decisionRef) of
        Inl e \<Rightarrow> Inl (''build commission for '' @ decisionRef @ '': '' @ e)
      | Inr commission \<Rightarrow>
          (case normalizeNewWorkCommission env (env_random env i) commission of
             Inl e \<Rightarrow> Inl (''normalize commission for '' @ decisionRef @ '': '' @ e)
           | Inr c \<Rightarrow>
               (case build_batch env store args (Suc i) decisionRefs of
                  Inl e \<Rightarrow> Inl e
                | Inr cs \<Rightarrow> Inr (c # cs))))"

definition createWorkCommissionBatchFromDecisions :: handler where
  "createWorkCommissionBatchFromDecisions env args store =
     (case parseStrictStringArrayFromArgs args ''decision_refs'' of
        Inl e \<Rightarrow> (Inl e, store)
      | Inr decisionRefs \<Rightarrow>
          if length decisionRefs = 0 then (Inl ''decision_refs is required'', store)
          else (case build_batch env store args 0 (sortedUniqueStrings decisionRefs) of
              Inl e \<Rightarrow> (Inl e, store)
            | Inr commissions \<Rightarrow>
                (case persist_all env commissions store of
                   (Inl e, store') \<Rightarrow> (Inl e, store')
                 | (Inr cs, store') \<Rightarrow> (Inr (commissionResponse ''commissions'' (commission_list cs)), store'))))"

definition implementationPlanPayload :: "payload \<Rightarrow> payload result" where
  "implementationPlanPayload args =
     (case mapArg args ''plan'' of
        None \<Rightarrow> Inl ''plan is required''
      | Some plan \<Rightarrow>
          if stringField plan ''id'' = [] then Inl ''plan.id is required''
          else if stringField plan ''revision'' = [] then Inl ''plan.revision is required''
          else Inr plan)"

definition implementationPlanDecisionRef :: "payload \<Rightarrow> string" where
  "implementationPlanDecisionRef entry =
     (let ref = stringField entry ''ref'' in if ref \<noteq> [] then ref else stringField entry ''decision_ref'')"

definition implementationPlanDecisionEntry :: "gval \<Rightarrow> nat \<Rightarrow> payload result" where
  "implementationPlanDecisionEntry value index =
     (let label = ''plan.decisions['' @ show_nat index @ '']''
      in case value of
           GStr entry \<Rightarrow>
             if trim_space entry = [] then Inl (label @ '' is empty'') else Inr [(''ref'', GStr entry)]
         | GMap entry \<Rightarrow>
             if implementationPlanDecisionRef entry = [] then Inl (label @ ''.ref is required'') else Inr entry
         | _ \<Rightarrow> Inl (label @ '' must be a decision ref string or object''))"

fun plan_entries_from :: "nat \<Rightarrow> gval list \<Rightarrow> payload list result" where
  "plan_entries_from index [] = Inr []"
| "plan_entries_from index (value # values) =
     (case implementationPlanDecisionEntry value index of
        Inl e \<Rightarrow> Inl e
      | Inr entry \<Rightarrow>
          (case plan_entries_from (Suc index) values of Inl e \<Rightarrow> Inl e | Inr entries \<Rightarrow> Inr (entry # entries)))"

definition implementationPlanDecisionEntries :: "Env \<Rightarrow> payload \<Rightarrow> payload list result" where
  "implementationPlanDecisionEntries env plan =
     (case map_of plan ''decisions'' of
        Some (GArr raw) \<Rightarrow>
          if length raw = 0 then Inl ''plan.decisions is required''
          else (case plan_entries_from 0 raw of
              Inl e \<Rightarrow> Inl e
            | Inr entries \<Rightarrow>
                (case ParsePayload (env_known_order env) (env_cycle_order env) plan of
                   Inl e \<Rightarrow> Inl e
                 | Inr _ \<Rightarrow> Inr entries))
      | _ \<Rightarrow> Inl ''plan.decisions is required'')"

definition planDecisionStringSlice :: "payload \<Rightarrow> string \<Rightarrow> string list" where
  "planDecisionStringSlice payload key = stringSliceField payload key"

definition planDecisionAnySlice :: "payload \<Rightarrow> string \<Rightarrow> gval list" where
  "planDecisionAnySlice payload key = (case map_of payload key of Some (GArr values) \<Rightarrow> values | _ \<Rightarrow> [])"

fun firstStringSliceField :: "string \<Rightarrow> payload list \<Rightarrow> string list" where
  "firstStringSliceField key [] = []"
| "firstStringSliceField key (values # maps) =
     (let value = planDecisionStringSlice values key
      in if length value > 0 then value else firstStringSliceField key maps)"

fun firstMapField :: "string \<Rightarrow> payload list \<Rightarrow> payload option" where
  "firstMapField key [] = None"
| "firstMapField key (values # maps) =
     (case mapArg values key of Some value \<Rightarrow> Some value | None \<Rightarrow> firstMapField key maps)"

fun firstEvidenceRequirements :: "payload list \<Rightarrow> gval list" where
  "firstEvidenceRequirements [] = []"
| "firstEvidenceRequirements (values # maps) =
     (case evidenceRequirementsFromArgs values of
        Inl e \<Rightarrow> firstEvidenceRequirements maps
      | Inr requirements \<Rightarrow>
          if length requirements = 0 then firstEvidenceRequirements maps else requirements)"

definition commissionArgsForPlanDecision :: "payload \<Rightarrow> payload \<Rightarrow> payload \<Rightarrow> string \<Rightarrow> payload" where
  "commissionArgsForPlanDecision args plan entry decisionRef =
     (let maps = [entry, mapArg_or_nil plan ''defaults'', plan, args];
          texts = fold (\<lambda>key m. put key (GStr (firstStringField key maps)) m)
            [''repo_ref'', ''base_sha'', ''target_branch'', ''projection_policy'', ''delivery_policy'',
             ''state'', ''valid_for'', ''valid_until'', ''queue'']
            (put ''decision_ref'' (GStr decisionRef) (copyStringAnyMap args));
          enveloped = (case firstMapField ''autonomy_envelope_snapshot'' maps of
              None \<Rightarrow> texts
            | Some envelope \<Rightarrow> put ''autonomy_envelope_snapshot'' (GMap envelope) texts);
          parsed = fold (\<lambda>key m. put key (GArr (stringSliceToAny (firstStringSliceField key maps))) m)
            [''allowed_paths'', ''forbidden_paths'', ''allowed_actions'', ''affected_files'',
             ''allowed_modules'', ''lockset''] enveloped
      in del ''plan''
           (put ''implementation_plan_revision'' (GStr (stringField plan ''revision''))
             (put ''implementation_plan_ref'' (GStr (stringField plan ''id''))
               (put ''evidence_requirements'' (GArr (firstEvidenceRequirements maps)) parsed))))"

record implementationPlanCommission =
  ipc_decision_ref :: string
  ipc_dependency_refs :: "string list"
  ipc_commission :: commission

fun plan_drafts ::
  "Env \<Rightarrow> Store \<Rightarrow> payload \<Rightarrow> payload \<Rightarrow> nat \<Rightarrow> payload list \<Rightarrow> implementationPlanCommission list result" where
  "plan_drafts env store args plan i [] = Inr []"
| "plan_drafts env store args plan i (entry # entries) =
     (let decisionRef = implementationPlanDecisionRef entry
      in case buildWorkCommissionFromDecision env store (commissionArgsForPlanDecision args plan entry decisionRef) of
           Inl e \<Rightarrow> Inl (''build commission for '' @ decisionRef @ '': '' @ e)
         | Inr built \<Rightarrow>
             (let commission = putOptionalAnySlice
                    (putOptionalString
                      (putOptionalString built ''implementation_plan_ref'' (stringField plan ''id''))
                      ''implementation_plan_revision'' (stringField plan ''revision''))
                    ''plan_tags'' (planDecisionAnySlice entry ''tags'')
              in case normalizeNewWorkCommission env (env_random env i) commission of
                   Inl e \<Rightarrow> Inl (''normalize commission for '' @ decisionRef @ '': '' @ e)
                 | Inr c \<Rightarrow>
                     (case plan_drafts env store args plan (Suc i) entries of
                        Inl e \<Rightarrow> Inl e
                      | Inr drafts \<Rightarrow>
                          Inr (\<lparr>ipc_decision_ref = decisionRef,
                                ipc_dependency_refs = planDecisionStringSlice entry ''depends_on'',
                                ipc_commission = c\<rparr> # drafts))))"

text \<open>The ids of the drafts by decision; a later draft of a decision replaces an earlier one.\<close>

definition draft_ids :: "implementationPlanCommission list \<Rightarrow> (string \<times> string) list" where
  "draft_ids drafts = rev (map (\<lambda>d. (ipc_decision_ref d, stringField (ipc_commission d) ''id'')) drafts)"

definition draft_id :: "implementationPlanCommission list \<Rightarrow> string \<Rightarrow> string" where
  "draft_id drafts decisionRef = (case map_of (draft_ids drafts) decisionRef of Some i \<Rightarrow> i | None \<Rightarrow> [])"

fun attach_dependencies ::
  "implementationPlanCommission list \<Rightarrow> implementationPlanCommission list
     \<Rightarrow> implementationPlanCommission list result" where
  "attach_dependencies drafts [] = Inr []"
| "attach_dependencies drafts (draft # rest) =
     (let decisionRefs = sortedUniqueStrings (ipc_dependency_refs draft);
          commissionIDs = map (draft_id drafts) decisionRefs
      in case find (\<lambda>ref. draft_id drafts ref = []) decisionRefs of
           Some ref \<Rightarrow>
             Inl (''plan decision '' @ ipc_decision_ref draft @ '' depends on unknown decision '' @ ref)
         | None \<Rightarrow>
             (case attach_dependencies drafts rest of
                Inl e \<Rightarrow> Inl e
              | Inr ds \<Rightarrow>
                  Inr ((if length decisionRefs = 0 then draft
                        else draft\<lparr>ipc_commission :=
                          put ''depends_on_decisions'' (GArr (stringSliceToAny decisionRefs))
                            (put ''depends_on'' (GArr (stringSliceToAny (sortedUniqueStrings commissionIDs)))
                              (ipc_commission draft))\<rparr>) # ds)))"

definition attachImplementationPlanDependencies ::
  "implementationPlanCommission list \<Rightarrow> implementationPlanCommission list result" where
  "attachImplementationPlanDependencies drafts = attach_dependencies drafts drafts"

definition planDraftCommissions :: "implementationPlanCommission list \<Rightarrow> commission list" where
  "planDraftCommissions drafts = map ipc_commission drafts"

definition buildWorkCommissionsFromPlan :: "Env \<Rightarrow> Store \<Rightarrow> payload \<Rightarrow> payload \<Rightarrow> commission list result" where
  "buildWorkCommissionsFromPlan env store args plan =
     (case implementationPlanDecisionEntries env plan of
        Inl e \<Rightarrow> Inl e
      | Inr entries \<Rightarrow>
          (case plan_drafts env store args plan 0 entries of
             Inl e \<Rightarrow> Inl e
           | Inr drafts \<Rightarrow>
               (case attachImplementationPlanDependencies drafts of
                  Inl e \<Rightarrow> Inl e
                | Inr ds \<Rightarrow> Inr (planDraftCommissions ds))))"

definition implementationPlanSummary :: "payload \<Rightarrow> payload" where
  "implementationPlanSummary plan =
     fold (\<lambda>key m. putOptionalString m key (stringField plan key))
       [''title'', ''failure_policy'', ''projection_policy'', ''delivery_policy'', ''queue'']
       [(''id'', GStr (stringField plan ''id'')), (''revision'', GStr (stringField plan ''revision''))]"

definition createWorkCommissionsFromPlan :: handler where
  "createWorkCommissionsFromPlan env args store =
     (case implementationPlanPayload args of
        Inl e \<Rightarrow> (Inl e, store)
      | Inr plan \<Rightarrow>
          (case buildWorkCommissionsFromPlan env store args plan of
             Inl e \<Rightarrow> (Inl e, store)
           | Inr commissions \<Rightarrow>
               (case persist_all env commissions store of
                  (Inl e, store') \<Rightarrow> (Inl e, store')
                | (Inr cs, store') \<Rightarrow>
                    (Inr (commissionResponseMap
                       [(''implementation_plan'', GMap (implementationPlanSummary plan)),
                        (''commissions'', commission_list cs)]), store'))))"

section \<open>The tool\<close>

definition handleHaftCommission :: handler where
  "handleHaftCommission env args store =
     (let action = stringArg args ''action''
      in if action = ''create'' then createWorkCommission env args store
         else if action = ''create_from_decision'' then createWorkCommissionFromDecision env args store
         else if action = ''create_from_plan'' then createWorkCommissionsFromPlan env args store
         else if action = ''create_batch_from_decisions''
         then createWorkCommissionBatchFromDecisions env args store
         else if action = ''list'' then listWorkCommissions env args store
         else if action = ''list_runnable'' then listRunnableWorkCommissions env args store
         else if action = ''drain_status'' then drainWorkCommissionStatus env args store
         else if action = ''show'' then showWorkCommission env args store
         else if action = ''claim_for_preflight'' then claimWorkCommissionForPreflight env args store
         else if action = ''requeue'' then requeueWorkCommission env args store
         else if action = ''cancel'' then cancelWorkCommission env args store
         else if action \<in> {''record_preflight'', ''start_after_preflight'', ''record_run_event'',
           ''complete_or_block''} then appendWorkCommissionLifecycle env args store
         else (Inl (''unknown haft_commission action: '' @ action), store))"

end
