(* ===== verification/NewCommission.thy ===== *)
theory NewCommission
  imports CommissionStore
begin

text \<open>
  What \<open>normalizeNewWorkCommission\<close> guarantees of every commission that is stored: its required
  fields, a scope with its canonical hash and base commit, a specification or an explicit
  override, and an envelope that admits it.
\<close>

section \<open>Frames\<close>

text \<open>\<open>same_except K p q\<close>: the payloads agree on every key outside \<open>K\<close>.\<close>

definition same_except :: "string set \<Rightarrow> payload \<Rightarrow> payload \<Rightarrow> bool" where
  "same_except K p q \<longleftrightarrow> (\<forall>k. k \<notin> K \<longrightarrow> map_of q k = map_of p k)"

lemma same_except_refl [simp]: "same_except K p p"
  by (simp add: same_except_def)

lemma same_except_trans: "same_except K p q \<Longrightarrow> same_except L q r \<Longrightarrow> K \<subseteq> M \<Longrightarrow> L \<subseteq> M \<Longrightarrow> same_except M p r"
  unfolding same_except_def by (metis subsetD)

lemma same_except_mono: "same_except K p q \<Longrightarrow> K \<subseteq> M \<Longrightarrow> same_except M p q"
  unfolding same_except_def by blast

lemma same_except_put: "same_except K p q \<Longrightarrow> k \<in> K \<Longrightarrow> same_except K p (put k v q)"
  by (auto simp: same_except_def)

lemma same_except_del: "same_except K p q \<Longrightarrow> k \<in> K \<Longrightarrow> same_except K p (del k q)"
  by (auto simp: same_except_def)

lemma same_except_map: "same_except K p q \<Longrightarrow> k \<notin> K \<Longrightarrow> map_of q k = map_of p k"
  by (simp add: same_except_def)

lemma same_except_field:
  assumes "same_except K p q" "k \<notin> K"
  shows "stringField q k = stringField p k" "mapArg q k = mapArg p k" "stringSliceField q k = stringSliceField p k"
    "boolField q k = boolField p k"
  using same_except_map[OF assms]
  by (simp_all add: stringField_def mapArg_def stringSliceField_def boolField_def)

lemma put_default_frame: "k \<in> K \<Longrightarrow> same_except K p q \<Longrightarrow> same_except K p (put_default k v q)"
  by (simp add: put_default_def same_except_put)

lemma put_default_field:
  "stringField (put_default k v p) j =
     (if j = k \<and> stringField p k = [] then trim_space v else stringField p j)"
  by (simp add: put_default_def)

section \<open>The scope\<close>

lemma canonical_scope_put_hash [simp]: "canonical_scope_fields (put ''hash'' v scope) = canonical_scope_fields scope"
  by (simp add: canonical_scope_fields_def scopeStringSlice_def)

lemma scope_hash_put_hash [simp]: "workCommissionScopeHash (put ''hash'' v scope) = workCommissionScopeHash scope"
  by (simp add: workCommissionScopeHash_def canonicalScopeFields_def cong: sum.case_cong)

lemma scope_hash_Inr:
  assumes "workCommissionScopeHash scope = Inr h"
  shows "h \<noteq> []" "trim_space h = h" "stringField scope ''base_sha'' \<noteq> []" "stringField scope ''repo_ref'' \<noteq> []"
    "stringSliceField scope ''lockset'' \<noteq> []" "stringSliceField scope ''allowed_paths'' \<noteq> []"
proof -
  have v: "validateCanonicalScopeFields (canonical_scope_fields scope) = Inr ()"
    and h: "h = canonicalJSONHash (JObj (canonical_scope_fields scope))"
    using assms by (auto simp: workCommissionScopeHash_def canonicalScopeFields_def split: sum.splits)
  show "h \<noteq> []" "trim_space h = h" by (simp_all add: h)
  show "stringField scope ''base_sha'' \<noteq> []" "stringField scope ''repo_ref'' \<noteq> []"
    "stringSliceField scope ''lockset'' \<noteq> []" "stringSliceField scope ''allowed_paths'' \<noteq> []"
    using v by (auto simp: validateCanonicalScopeFields_def canonical_scope_fields_def empty_jval_def
        scopeStringSlice_def split: if_splits)
qed

lemma ensure_scope:
  assumes "ensureWorkCommissionScopeSnapshot c scope = Inr c'"
  shows "same_except {''scope_hash'', ''scope'', ''base_sha''} c c'" "scope_consistent c'"
    "\<exists>scope'. mapArg c' ''scope'' = Some scope' \<and> same_except {''hash''} scope scope'"
proof -
  obtain h where h: "workCommissionScopeHash scope = Inr h"
    using assms by (auto simp: ensureWorkCommissionScopeSnapshot_def split: sum.splits)
  note hash = scope_hash_Inr[OF h]
  let ?c1 = "put_default ''scope_hash'' h c"
  let ?s1 = "put_default ''hash'' h scope"
  let ?c2 = "put ''scope'' (GMap ?s1) ?c1"
  let ?c3 = "put_default ''base_sha'' (stringField ?s1 ''base_sha'') ?c2"
  have c': "c' = ?c3" and eq: "stringField ?c2 ''scope_hash'' = h" "stringField ?s1 ''hash'' = h"
    "stringField ?c3 ''base_sha'' = stringField ?s1 ''base_sha''"
    using assms by (auto simp: ensureWorkCommissionScopeSnapshot_def h Let_def put_default_def split: if_splits)
  show "same_except {''scope_hash'', ''scope'', ''base_sha''} c c'"
    unfolding c' by (intro put_default_frame same_except_put same_except_refl) simp_all
  have scope: "mapArg c' ''scope'' = Some ?s1" by (simp add: c' put_default_def)
  moreover have "same_except {''hash''} scope ?s1" by (rule put_default_frame) simp_all
  ultimately show "\<exists>scope'. mapArg c' ''scope'' = Some scope' \<and> same_except {''hash''} scope scope'" by blast
  have "workCommissionScopeHash ?s1 = Inr h" using h by (simp add: put_default_def)
  moreover have "stringField c' ''scope_hash'' = h" using eq(1) by (simp add: c' put_default_field)
  moreover have "stringField c' ''base_sha'' = stringField ?s1 ''base_sha''" using eq(3) c' by simp
  moreover have "stringField ?s1 ''base_sha'' \<noteq> []" using hash(3) by (simp add: put_default_field)
  ultimately show "scope_consistent c'"
    using scope eq(2) hash(1) by (simp add: scope_consistent_def)
qed

section \<open>The specification and the envelope\<close>

lemma ensure_spec_snapshot_frame:
  "same_except {''spec_snapshot'', ''spec_revision_hashes''} c (ensureWorkCommissionSpecSnapshot env c refs)"
  by (auto simp: ensureWorkCommissionSpecSnapshot_def intro!: same_except_put split: option.split sum.split)

lemma ensure_spec:
  assumes "ensureWorkCommissionSpecAuthority env c = Inr c'"
  shows "same_except {''spec_section_refs'', ''spec_snapshot'', ''spec_revision_hashes''} c c'"
    "stringSliceField c' ''spec_section_refs'' \<noteq> [] \<or> commissionHasTacticalSpecReadinessOverride c'"
proof -
  let ?refs = "workCommissionSpecSectionRefs c"
  have "same_except {''spec_section_refs'', ''spec_snapshot'', ''spec_revision_hashes''} c c'
      \<and> (stringSliceField c' ''spec_section_refs'' \<noteq> [] \<or> commissionHasTacticalSpecReadinessOverride c')"
  proof (cases "length ?refs > 0")
    case True
    let ?c1 = "put ''spec_section_refs'' (GArr (stringSliceToAny ?refs)) c"
    have c': "c' = ensureWorkCommissionSpecSnapshot env ?c1 ?refs"
      using assms True by (simp add: ensureWorkCommissionSpecAuthority_def Let_def)
    have 1: "same_except {''spec_section_refs''} c ?c1" by (rule same_except_put) simp_all
    have 2: "same_except {''spec_snapshot'', ''spec_revision_hashes''} ?c1 c'"
      unfolding c' by (rule ensure_spec_snapshot_frame)
    have "stringSliceField c' ''spec_section_refs'' = ?refs"
      using same_except_field(3)[OF 2, of "''spec_section_refs''"]
      by (simp add: workCommissionSpecSectionRefs_def clean_sorted_unique)
    then show ?thesis using same_except_trans[OF 1 2] True by auto
  next
    case False
    then show ?thesis using assms by (auto simp: ensureWorkCommissionSpecAuthority_def split: if_splits)
  qed
  then show "same_except {''spec_section_refs'', ''spec_snapshot'', ''spec_revision_hashes''} c c'"
    "stringSliceField c' ''spec_section_refs'' \<noteq> [] \<or> commissionHasTacticalSpecReadinessOverride c'"
    by blast+
qed

lemma ensure_field_match:
  assumes "ensureAutonomyEnvelopeFieldMatch c field value = Inr c'" "trim_space value = value"
  shows "same_except {field} c c'" "stringField c' field = value"
  using assms by (auto simp: ensureAutonomyEnvelopeFieldMatch_def Let_def intro: same_except_put split: if_splits)

definition envelope_keys :: "string set" where
  "envelope_keys = {''autonomy_envelope_snapshot'', ''autonomy_envelope_ref'', ''autonomy_envelope_revision''}"

lemma NormalizeSnapshot_Inr:
  assumes "NormalizeSnapshot gates p = Inr (m, sn)"
  shows "SnapshotFromMap gates p = Inr sn" "m = Map sn"
  using assms by (auto simp: NormalizeSnapshot_def split: sum.splits)

lemma request_cong:
  "mapArg c ''scope'' = mapArg d ''scope'' \<Longrightarrow> autonomyEnvelopeCommissionRequest c = autonomyEnvelopeCommissionRequest d"
  by (simp add: autonomyEnvelopeCommissionRequest_def mapArg_or_nil_def)

lemma SnapshotFromMap_shape:
  assumes "SnapshotFromMap gates p = Inr sn"
  obtains vu ra h where "sn = snapshot_fields p vu ra\<lparr>sn_hash := h\<rparr>"
  using assms
  by (auto simp: SnapshotFromMap_def Let_def
      simp del: firstString.simps firstStringSlice.simps requiredTime.simps split: sum.splits if_splits)

lemma snapshot_texts_trimmed:
  assumes "SnapshotFromMap gates p = Inr sn"
  shows "trim_space (sn_ref sn) = sn_ref sn" "trim_space (sn_revision sn) = sn_revision sn"
proof -
  obtain vu ra h where "sn = snapshot_fields p vu ra\<lparr>sn_hash := h\<rparr>" using assms by (rule SnapshotFromMap_shape)
  then have "snapshot_canonical sn" using snapshot_fields_canonical by simp
  then show "trim_space (sn_ref sn) = sn_ref sn" "trim_space (sn_revision sn) = sn_revision sn"
    by (simp_all add: snapshot_canonical_def)
qed

lemma with_envelope:
  assumes "withCommissionAutonomyEnvelope env c envelopeSnapshot = Inr c'"
  obtains m sn where "NormalizeSnapshot (env_gates env) envelopeSnapshot = Inr (m, sn)"
    "same_except envelope_keys c c'" "mapArg c' ''autonomy_envelope_snapshot'' = Some m"
    "stringField c' ''autonomy_envelope_ref'' = sn_ref sn"
    "stringField c' ''autonomy_envelope_revision'' = sn_revision sn"
    "rp_decision (Evaluate sn (autonomyEnvelopeCommissionRequest c') (env_now env)) = DecisionAllowed"
proof -
  obtain m sn where n: "NormalizeSnapshot (env_gates env) envelopeSnapshot = Inr (m, sn)"
    using assms by (auto simp: withCommissionAutonomyEnvelope_def split: sum.splits)
  let ?c1 = "put ''autonomy_envelope_snapshot'' (GMap m) c"
  obtain c2 where c2: "ensureAutonomyEnvelopeFieldMatch ?c1 ''autonomy_envelope_ref'' (sn_ref sn) = Inr c2"
    and c3: "ensureAutonomyEnvelopeFieldMatch c2 ''autonomy_envelope_revision'' (sn_revision sn) = Inr c'"
    and d: "rp_decision (Evaluate sn (autonomyEnvelopeCommissionRequest c') (env_now env)) \<noteq> DecisionBlocked"
    using assms by (auto simp: withCommissionAutonomyEnvelope_def n Let_def split: sum.splits if_splits)
  note t = snapshot_texts_trimmed[OF NormalizeSnapshot_Inr(1)[OF n]]
  note f2 = ensure_field_match[OF c2 t(1)] and f3 = ensure_field_match[OF c3 t(2)]
  have 1: "same_except {''autonomy_envelope_snapshot''} c ?c1" by (rule same_except_put) simp_all
  have "same_except envelope_keys c c2" by (rule same_except_trans[OF 1 f2(1)]) (simp_all add: envelope_keys_def)
  then have frame: "same_except envelope_keys c c'"
    by (rule same_except_trans[OF _ f3(1)]) (simp_all add: envelope_keys_def)
  have "mapArg c2 ''autonomy_envelope_snapshot'' = Some m"
    using same_except_field(2)[OF f2(1), of "''autonomy_envelope_snapshot''"] by simp
  then have snap: "mapArg c' ''autonomy_envelope_snapshot'' = Some m"
    using same_except_field(2)[OF f3(1), of "''autonomy_envelope_snapshot''"] by simp
  have ref: "stringField c' ''autonomy_envelope_ref'' = sn_ref sn"
    using same_except_field(1)[OF f3(1), of "''autonomy_envelope_ref''"] f2(2) by simp
  have "rp_decision (Evaluate sn (autonomyEnvelopeCommissionRequest c') (env_now env)) = DecisionAllowed"
    using d by (auto simp: Evaluate_def Let_def split: if_splits)
  then show thesis using that[OF n frame snap ref f3(2)] by simp
qed

lemma ensure_envelope:
  assumes "ensureWorkCommissionAutonomyEnvelope env c = Inr c'"
  shows "same_except envelope_keys c c'"
    "case mapArg c ''autonomy_envelope_snapshot'' of
       None \<Rightarrow> c' = c
     | Some p \<Rightarrow> (\<exists>sn. SnapshotFromMap (env_gates env) p = Inr sn
         \<and> mapArg c' ''autonomy_envelope_snapshot'' = Some (Map sn)
         \<and> stringField c' ''autonomy_envelope_ref'' = sn_ref sn
         \<and> stringField c' ''autonomy_envelope_revision'' = sn_revision sn
         \<and> rp_decision (Evaluate sn (autonomyEnvelopeCommissionRequest c') (env_now env)) = DecisionAllowed)"
proof -
  have "same_except envelope_keys c c' \<and>
    (case mapArg c ''autonomy_envelope_snapshot'' of
       None \<Rightarrow> c' = c
     | Some p \<Rightarrow> (\<exists>sn. SnapshotFromMap (env_gates env) p = Inr sn
         \<and> mapArg c' ''autonomy_envelope_snapshot'' = Some (Map sn)
         \<and> stringField c' ''autonomy_envelope_ref'' = sn_ref sn
         \<and> stringField c' ''autonomy_envelope_revision'' = sn_revision sn
         \<and> rp_decision (Evaluate sn (autonomyEnvelopeCommissionRequest c') (env_now env)) = DecisionAllowed))"
  proof (cases "mapArg c ''autonomy_envelope_snapshot''")
    case None
    then show ?thesis using assms by (simp add: ensureWorkCommissionAutonomyEnvelope_def)
  next
    case (Some p)
    then have "withCommissionAutonomyEnvelope env c p = Inr c'"
      using assms by (simp add: ensureWorkCommissionAutonomyEnvelope_def)
    then obtain m sn where "NormalizeSnapshot (env_gates env) p = Inr (m, sn)"
      "same_except envelope_keys c c'" "mapArg c' ''autonomy_envelope_snapshot'' = Some m"
      "stringField c' ''autonomy_envelope_ref'' = sn_ref sn"
      "stringField c' ''autonomy_envelope_revision'' = sn_revision sn"
      "rp_decision (Evaluate sn (autonomyEnvelopeCommissionRequest c') (env_now env)) = DecisionAllowed"
      by (rule with_envelope)
    then show ?thesis using Some NormalizeSnapshot_Inr[of "env_gates env" p m sn] by auto
  qed
  then show "same_except envelope_keys c c'"
    "case mapArg c ''autonomy_envelope_snapshot'' of
       None \<Rightarrow> c' = c
     | Some p \<Rightarrow> (\<exists>sn. SnapshotFromMap (env_gates env) p = Inr sn
         \<and> mapArg c' ''autonomy_envelope_snapshot'' = Some (Map sn)
         \<and> stringField c' ''autonomy_envelope_ref'' = sn_ref sn
         \<and> stringField c' ''autonomy_envelope_revision'' = sn_revision sn
         \<and> rp_decision (Evaluate sn (autonomyEnvelopeCommissionRequest c') (env_now env)) = DecisionAllowed)"
    by blast+
qed

section \<open>New commissions are sound\<close>

definition new_commission_keys :: "string set" where
  "new_commission_keys =
     {''id'', ''state'', ''projection_policy'', ''delivery_policy'', ''fetched_at'', ''evidence_requirements'',
      ''scope_hash'', ''scope'', ''base_sha'', ''spec_section_refs'', ''spec_snapshot'',
      ''spec_revision_hashes''} \<union> envelope_keys"

definition required_keys :: "string list" where
  "required_keys =
     [''id'', ''decision_ref'', ''decision_revision_hash'', ''problem_card_ref'', ''projection_policy'',
      ''delivery_policy'', ''state'', ''valid_until'', ''fetched_at'']"

lemma required_fields_ok: "required_fields keys c = Inr () \<longleftrightarrow> list_all (\<lambda>k. stringField c k \<noteq> []) keys"
  by (induction keys) auto

definition filled :: "Env \<Rightarrow> string option \<Rightarrow> commission \<Rightarrow> commission" where
  "filled env random c =
     (let c2 = put_default ''fetched_at'' (format_rfc3339 (env_now env)) (new_commission_fields env random c)
      in if map_of c2 ''evidence_requirements'' = None then put ''evidence_requirements'' (GArr []) c2 else c2)"

text \<open>The stages of \<open>normalizeNewWorkCommission\<close> when it succeeds.\<close>

lemma normalize_stages:
  assumes "normalizeNewWorkCommission env random c0 = Inr c"
  obtains scope c4 c5 where
    "validProjectionPolicy (stringField (filled env random c0) ''projection_policy'')"
    "validDeliveryPolicy (stringField (filled env random c0) ''delivery_policy'')"
    "IsKnownState (stringField (filled env random c0) ''state'')"
    "list_all (\<lambda>k. stringField (filled env random c0) k \<noteq> []) required_keys"
    "mapArg (filled env random c0) ''scope'' = Some scope"
    "ensureWorkCommissionScopeSnapshot (filled env random c0) scope = Inr c4"
    "ensureWorkCommissionSpecAuthority env c4 = Inr c5"
    "ensureWorkCommissionAutonomyEnvelope env c5 = Inr c"
proof -
  have f: "stringField (filled env random c0) k = stringField (new_commission_fields env random c0) k"
    if "k \<noteq> ''fetched_at''" "k \<noteq> ''evidence_requirements''" for k
    using that by (simp add: filled_def Let_def put_default_def)
  show thesis
    using assms that
    unfolding normalizeNewWorkCommission_def Let_def filled_def[unfolded Let_def, symmetric]
      required_keys_def[symmetric]
    by (auto simp: f validWorkCommissionState_def required_fields_ok
        split: if_splits sum.splits option.splits)
qed

definition default_keys :: "string set" where
  "default_keys = {''id'', ''state'', ''projection_policy'', ''delivery_policy'', ''fetched_at'', ''evidence_requirements''}"

lemma filled_defaults: "same_except default_keys c (filled env random c)"
  by (auto simp: filled_def new_commission_fields_def Let_def default_keys_def
      intro!: put_default_frame same_except_put)

lemma filled_frame: "same_except new_commission_keys c (filled env random c)"
  by (rule same_except_mono[OF filled_defaults])
    (auto simp: default_keys_def new_commission_keys_def)

lemma normalize_frame:
  assumes "normalizeNewWorkCommission env random c0 = Inr c"
  shows "same_except new_commission_keys c0 c"
proof -
  obtain scope c4 c5 where s: "ensureWorkCommissionScopeSnapshot (filled env random c0) scope = Inr c4"
    "ensureWorkCommissionSpecAuthority env c4 = Inr c5" "ensureWorkCommissionAutonomyEnvelope env c5 = Inr c"
    using assms by (rule normalize_stages)
  have "same_except new_commission_keys c0 c4"
    by (rule same_except_trans[OF filled_frame ensure_scope(1)[OF s(1)]]) (auto simp: new_commission_keys_def)
  then have "same_except new_commission_keys c0 c5"
    by (rule same_except_trans[OF _ ensure_spec(1)[OF s(2)]]) (auto simp: new_commission_keys_def)
  then show ?thesis
    by (rule same_except_trans[OF _ ensure_envelope(1)[OF s(3)]]) (auto simp: new_commission_keys_def)
qed

lemma scope_consistent_cong:
  assumes "same_except K c d" "K \<inter> {''scope'', ''scope_hash'', ''base_sha''} = {}"
  shows "scope_consistent d = scope_consistent c"
proof -
  have n: "''scope'' \<notin> K" "''scope_hash'' \<notin> K" "''base_sha'' \<notin> K" using assms(2) by auto
  show ?thesis
    using same_except_field(2)[OF assms(1) n(1)] same_except_field(1)[OF assms(1) n(2)]
      same_except_field(1)[OF assms(1) n(3)] by (simp add: scope_consistent_def cong: option.case_cong)
qed

lemma override_cong:
  assumes "same_except K c d" "''spec_readiness_override'' \<notin> K"
  shows "commissionHasTacticalSpecReadinessOverride d = commissionHasTacticalSpecReadinessOverride c"
  using same_except_field[OF assms] by (simp add: commissionHasTacticalSpecReadinessOverride_def)

lemma normalize_sound:
  assumes "normalizeNewWorkCommission env random c0 = Inr c"
  shows "list_all (\<lambda>k. stringField c k \<noteq> []) required_keys"
    "validProjectionPolicy (stringField c ''projection_policy'')"
    "validDeliveryPolicy (stringField c ''delivery_policy'')" "IsKnownState (stringField c ''state'')"
    "scope_consistent c"
    "stringSliceField c ''spec_section_refs'' \<noteq> [] \<or> commissionHasTacticalSpecReadinessOverride c"
proof -
  obtain scope c4 c5 where
    s: "validProjectionPolicy (stringField (filled env random c0) ''projection_policy'')"
    "validDeliveryPolicy (stringField (filled env random c0) ''delivery_policy'')"
    "IsKnownState (stringField (filled env random c0) ''state'')"
    "list_all (\<lambda>k. stringField (filled env random c0) k \<noteq> []) required_keys"
    "mapArg (filled env random c0) ''scope'' = Some scope"
    "ensureWorkCommissionScopeSnapshot (filled env random c0) scope = Inr c4"
    "ensureWorkCommissionSpecAuthority env c4 = Inr c5" "ensureWorkCommissionAutonomyEnvelope env c5 = Inr c"
    using assms by (rule normalize_stages)
  let ?K = "{''scope_hash'', ''scope'', ''base_sha'', ''spec_section_refs'', ''spec_snapshot'',
      ''spec_revision_hashes''} \<union> envelope_keys"
  have f5: "same_except ?K (filled env random c0) c5"
    by (rule same_except_trans[OF ensure_scope(1)[OF s(6)] ensure_spec(1)[OF s(7)]]) auto
  have f: "same_except ?K (filled env random c0) c"
    by (rule same_except_trans[OF f5 ensure_envelope(1)[OF s(8)]]) auto
  have keys: "k \<notin> ?K" if "k \<in> set required_keys" for k
    using that by (auto simp: required_keys_def envelope_keys_def)
  have fields: "stringField c k = stringField (filled env random c0) k" if "k \<in> set required_keys" for k
    using same_except_field(1)[OF f keys[OF that]] .
  show "list_all (\<lambda>k. stringField c k \<noteq> []) required_keys"
    using s(4) fields by (simp add: list_all_iff)
  show "validProjectionPolicy (stringField c ''projection_policy'')"
    "validDeliveryPolicy (stringField c ''delivery_policy'')" "IsKnownState (stringField c ''state'')"
    using s(1-3) fields by (simp_all add: required_keys_def)
  have c45: "same_except {''spec_section_refs'', ''spec_snapshot'', ''spec_revision_hashes''} c4 c5"
    by (rule ensure_spec(1)[OF s(7)])
  have c5c: "same_except envelope_keys c5 c" by (rule ensure_envelope(1)[OF s(8)])
  show "scope_consistent c"
    using ensure_scope(2)[OF s(6)] scope_consistent_cong[OF c45] scope_consistent_cong[OF c5c]
    by (simp add: envelope_keys_def)
  show "stringSliceField c ''spec_section_refs'' \<noteq> [] \<or> commissionHasTacticalSpecReadinessOverride c"
    using ensure_spec(2)[OF s(7)] same_except_field(3)[OF c5c, of "''spec_section_refs''"] override_cong[OF c5c]
    by (simp add: envelope_keys_def)
qed

lemma normalize_envelope:
  assumes "normalizeNewWorkCommission env random c0 = Inr c"
  shows "case mapArg c0 ''autonomy_envelope_snapshot'' of
       None \<Rightarrow> mapArg c ''autonomy_envelope_snapshot'' = None
     | Some p \<Rightarrow> (\<exists>sn. SnapshotFromMap (env_gates env) p = Inr sn
         \<and> mapArg c ''autonomy_envelope_snapshot'' = Some (Map sn)
         \<and> stringField c ''autonomy_envelope_ref'' = sn_ref sn
         \<and> stringField c ''autonomy_envelope_revision'' = sn_revision sn
         \<and> rp_decision (Evaluate sn (autonomyEnvelopeCommissionRequest c) (env_now env)) = DecisionAllowed)"
proof -
  obtain scope c4 c5 where
    s: "ensureWorkCommissionScopeSnapshot (filled env random c0) scope = Inr c4"
    "ensureWorkCommissionSpecAuthority env c4 = Inr c5" "ensureWorkCommissionAutonomyEnvelope env c5 = Inr c"
    using assms by (rule normalize_stages)
  have "mapArg (filled env random c0) ''autonomy_envelope_snapshot'' = mapArg c0 ''autonomy_envelope_snapshot''"
    using same_except_field(2)[OF filled_defaults, of "''autonomy_envelope_snapshot''"] by (simp add: default_keys_def)
  then have "mapArg c5 ''autonomy_envelope_snapshot'' = mapArg c0 ''autonomy_envelope_snapshot''"
    using same_except_field(2)[OF ensure_scope(1)[OF s(1)], of "''autonomy_envelope_snapshot''"]
      same_except_field(2)[OF ensure_spec(1)[OF s(2)], of "''autonomy_envelope_snapshot''"] by simp
  then show ?thesis using ensure_envelope(2)[OF s(3)]
    by (cases "mapArg c0 ''autonomy_envelope_snapshot''") simp_all
qed

text \<open>
  C13. Every commission that passes \<open>normalizeNewWorkCommission\<close>, so every one the tool stores, has
  all its required fields, known policies and a known state, a scope whose canonical hash it
  carries twice with the base commit, sections of the specification or an explicit tactical
  override, and, when it was given an envelope, that envelope in normal form, its reference and
  revision, and its admission now. Apart from the defaults and these fields nothing is changed.
\<close>

theorem new_commission_sound:
  assumes "normalizeNewWorkCommission env random c0 = Inr c"
  shows "list_all (\<lambda>k. stringField c k \<noteq> []) required_keys
    \<and> validProjectionPolicy (stringField c ''projection_policy'')
    \<and> validDeliveryPolicy (stringField c ''delivery_policy'') \<and> IsKnownState (stringField c ''state'')
    \<and> scope_consistent c
    \<and> (stringSliceField c ''spec_section_refs'' \<noteq> [] \<or> commissionHasTacticalSpecReadinessOverride c)
    \<and> (case mapArg c0 ''autonomy_envelope_snapshot'' of
         None \<Rightarrow> mapArg c ''autonomy_envelope_snapshot'' = None
       | Some p \<Rightarrow> (\<exists>sn. SnapshotFromMap (env_gates env) p = Inr sn
           \<and> mapArg c ''autonomy_envelope_snapshot'' = Some (Map sn)
           \<and> stringField c ''autonomy_envelope_ref'' = sn_ref sn
           \<and> stringField c ''autonomy_envelope_revision'' = sn_revision sn
           \<and> rp_decision (Evaluate sn (autonomyEnvelopeCommissionRequest c) (env_now env)) = DecisionAllowed))
    \<and> same_except new_commission_keys c0 c"
  using normalize_sound[OF assms] normalize_envelope[OF assms] normalize_frame[OF assms] by (intro conjI)

definition example_env :: Env where
  "example_env = \<lparr>env_now = example_now, env_event = example_now, env_delivery = example_now,
     env_gates = RequiredGates, env_sections = (\<lambda>root. Inr []), env_random = (\<lambda>i. Some ''abcd''),
     env_known_order = (\<lambda>ks. ks), env_cycle_order = rev\<rparr>"

definition example_payload :: payload where
  "example_payload =
     [(''id'', GStr ''wc-1''), (''state'', GStr ''queued''), (''projection_policy'', GStr ''local_only''),
      (''delivery_policy'', GStr ''workspace_patch_manual''), (''fetched_at'', GStr ''2026-01-01T00:00:00Z''),
      (''evidence_requirements'', GArr []), (''decision_ref'', GStr ''dec-1''),
      (''decision_revision_hash'', GStr ''h1''), (''problem_card_ref'', GStr ''prob-1''),
      (''valid_until'', GStr ''2027-01-01T00:00:00Z''),
      (''scope'', GMap [(''repo_ref'', GStr ''repo''), (''base_sha'', GStr ''abc''),
         (''target_branch'', GStr ''main''), (''allowed_paths'', GArr [GStr ''src'']),
         (''allowed_actions'', GArr [GStr ''edit'']), (''affected_files'', GArr [GStr ''src'']),
         (''lockset'', GArr [GStr ''src''])]),
      (''spec_readiness_override'', GMap [(''kind'', GStr ''tactical''), (''out_of_spec'', GBool True),
         (''reason'', GStr ''hotfix'')])]"

lemma example_fields:
  "stringField example_payload ''id'' = ''wc-1''" "stringField example_payload ''state'' = ''queued''"
  "stringField example_payload ''projection_policy'' = ''local_only''"
  "stringField example_payload ''delivery_policy'' = ''workspace_patch_manual''"
  "stringField example_payload ''fetched_at'' = ''2026-01-01T00:00:00Z''"
  "stringField example_payload ''decision_ref'' = ''dec-1''"
  "stringField example_payload ''decision_revision_hash'' = ''h1''"
  "stringField example_payload ''problem_card_ref'' = ''prob-1''"
  "stringField example_payload ''valid_until'' = ''2027-01-01T00:00:00Z''"
  "stringField example_payload ''scope_hash'' = []" "stringField example_payload ''base_sha'' = []"
  by (simp_all add: example_payload_def stringField_def plain_char_def)

lemma example_filled: "filled example_env None example_payload = example_payload"
proof -
  have "map_of example_payload ''evidence_requirements'' \<noteq> None" by (simp add: example_payload_def)
  then show ?thesis
    by (auto simp: filled_def new_commission_fields_def put_default_def example_fields Let_def)
qed

lemma example_scope:
  obtains scope h where "mapArg example_payload ''scope'' = Some scope"
    "workCommissionScopeHash scope = Inr h" "stringField scope ''hash'' = []" "stringField scope ''base_sha'' = ''abc''"
proof -
  have "clean_strings [''src''] = [''src'']" "clean_strings [''edit''] = [''edit'']"
    by (simp_all add: plain_char_def)
  then have c: "sorted_unique [''src''] = [''src'']" "sorted_unique [''edit''] = [''edit'']"
    by (simp_all add: sorted_unique_def)
  obtain scope where s: "mapArg example_payload ''scope'' = Some scope" by (simp add: example_payload_def mapArg_def)
  then have "validateCanonicalScopeFields (canonical_scope_fields scope) = Inr ()"
    by (auto simp: example_payload_def mapArg_def validateCanonicalScopeFields_def canonical_scope_fields_def
        scopeStringSlice_def stringSliceField_def stringField_def empty_jval_def c plain_char_def)
  then have "workCommissionScopeHash scope = Inr (canonicalJSONHash (JObj (canonical_scope_fields scope)))"
    by (simp add: workCommissionScopeHash_def canonicalScopeFields_def)
  moreover have "stringField scope ''hash'' = []" "stringField scope ''base_sha'' = ''abc''"
    using s by (auto simp: example_payload_def mapArg_def stringField_def plain_char_def)
  ultimately show thesis using that[OF s] by blast
qed

lemma example_normalized: "\<exists>c. normalizeNewWorkCommission example_env None example_payload = Inr c"
proof -
  obtain scope h where s: "mapArg example_payload ''scope'' = Some scope"
    "workCommissionScopeHash scope = Inr h" "stringField scope ''hash'' = []" "stringField scope ''base_sha'' = ''abc''"
    by (rule example_scope)
  note h = scope_hash_Inr(1,2)[OF s(2)]
  have "\<exists>c4. ensureWorkCommissionScopeSnapshot example_payload scope = Inr c4"
    by (simp add: ensureWorkCommissionScopeSnapshot_def s example_fields h Let_def plain_char_def)
  then obtain c4 where c4: "ensureWorkCommissionScopeSnapshot example_payload scope = Inr c4" by blast
  note same = same_except_field[OF ensure_scope(1)[OF c4]]
  have "workCommissionSpecSectionRefs c4 = []"
    using same(3)[of "''spec_section_refs''"] same(3)[of "''section_refs''"] same(2)[of "''spec_snapshot''"]
    by (simp add: workCommissionSpecSectionRefs_def example_payload_def stringSliceField_def mapArg_def)
  moreover have "commissionHasTacticalSpecReadinessOverride c4"
    using same(2)[of "''spec_readiness_override''"]
    by (simp add: commissionHasTacticalSpecReadinessOverride_def example_payload_def mapArg_def
        stringField_def boolField_def plain_char_def)
  ultimately have c5: "ensureWorkCommissionSpecAuthority example_env c4 = Inr c4"
    by (simp add: ensureWorkCommissionSpecAuthority_def)
  have "ensureWorkCommissionAutonomyEnvelope example_env c4 = Inr c4"
    using same(2)[of "''autonomy_envelope_snapshot''"]
    by (simp add: ensureWorkCommissionAutonomyEnvelope_def example_payload_def mapArg_def)
  moreover have "required_fields required_keys example_payload = Inr ()"
    by (simp add: required_fields_ok required_keys_def example_fields)
  moreover have "IsKnownState ''queued''" by (simp add: state_tests state_sets plain_char_def)
  ultimately show ?thesis
    using s(1) c4 c5
    unfolding normalizeNewWorkCommission_def Let_def filled_def[unfolded Let_def, symmetric]
      required_keys_def[symmetric] example_filled
    by (simp add: new_commission_fields_def put_default_def example_fields validProjectionPolicy_def
        validDeliveryPolicy_def validWorkCommissionState_def)
qed

theorem new_commission_sound_witness:
  "\<exists>c. normalizeNewWorkCommission example_env None example_payload = Inr c \<and> scope_consistent c"
proof -
  obtain c where "normalizeNewWorkCommission example_env None example_payload = Inr c"
    using example_normalized by blast
  then show ?thesis using new_commission_sound by blast
qed

end
