(* ===== verification/CommissionSystem.thy ===== *)
theory CommissionSystem
  imports DecisionCommission NewCommission
begin

text \<open>
  The commissions as the system of all calls sees them. \<open>view store\<close> maps the id of each stored
  commission to its payload; a handler changes the view at one id, or adds new ids. The steps of
  the system are the calls of the tool, with any environment and arguments, and anything else
  that leaves the rows of commissions alone.
\<close>

section \<open>Payloads at rest\<close>

lemma float_of_int_GFloat: "\<exists>m e. float_of_int i = GFloat m e"
  by (simp only: float_of_int_def Let_def split: if_split) blast

lemma float_of_int_cases: obtains m e where "float_of_int i = GFloat m e"
  using float_of_int_GFloat by blast

lemma float_of_int_not_GStr [simp]: "float_of_int i \<noteq> GStr s"
  using float_of_int_GFloat[of i] by auto

lemma parse_number_float: "parse_number s = Some (v, rest) \<Longrightarrow> \<exists>m e. v = GFloat m e"
  by (auto simp: parse_number_def float_value_def Let_def split: prod.splits list.splits if_splits option.splits)

lemma number_at_rest_cases: obtains (float) m e where "number_at_rest s = GFloat m e" | (literal) "number_at_rest s = GJsonNumber s"
proof (cases "parse_number s")
  case None
  then show thesis by (cases "s = []") (auto simp: number_at_rest_def intro: float literal)
next
  case (Some r)
  then obtain v rest where r: "parse_number s = Some (v, rest)" by (cases r) auto
  then obtain m e where "v = GFloat m e" using parse_number_float by blast
  then show thesis using r by (cases "s = []"; cases "rest = []") (auto simp: number_at_rest_def intro: float literal)
qed

lemma number_at_rest_not_GStr [simp]: "number_at_rest s \<noteq> GStr t"
  by (cases s rule: number_at_rest_cases) simp_all

lemma json_norm_idem [simp]: "json_norm (json_norm v) = json_norm v"
proof (induction v)
  case (GInt i)
  obtain m e where "float_of_int i = GFloat m e" by (rule float_of_int_cases)
  then show ?case by simp
next
  case (GInt64 i)
  obtain m e where "float_of_int i = GFloat m e" by (rule float_of_int_cases)
  then show ?case by simp
next
  case (GJsonNumber s)
  show ?case by (cases s rule: number_at_rest_cases) simp_all
next
  case (GMap kvs)
  then show ?case by (auto simp: snds.simps)
qed auto

lemma json_norm_payload_idem [simp]: "json_norm_payload (json_norm_payload p) = json_norm_payload p"
  by (induction p) (auto simp: json_norm_payload_def)

lemma json_norm_GStr_iff [simp]: "json_norm v = GStr s \<longleftrightarrow> v = GStr s"
proof (cases v)
  case (GInt i)
  obtain m e where "float_of_int i = GFloat m e" by (rule float_of_int_cases)
  then show ?thesis using GInt by simp
next
  case (GInt64 i)
  obtain m e where "float_of_int i = GFloat m e" by (rule float_of_int_cases)
  then show ?thesis using GInt64 by simp
next
  case (GJsonNumber t)
  show ?thesis by (cases t rule: number_at_rest_cases) (simp_all add: GJsonNumber)
qed auto

lemma text_of_json_norm [simp]: "text_of (json_norm v) = text_of v"
proof (cases "\<exists>s. v = GStr s")
  case False
  then have "\<nexists>s. json_norm v = GStr s" by simp
  then show ?thesis using False by (auto simp: text_of_def split: gval.split)
qed auto

lemma stringField_text_of: "stringField p k = (case map_of p k of None \<Rightarrow> [] | Some v \<Rightarrow> text_of v)"
  by (auto simp: stringField_def text_of_def split: option.split gval.split)

lemma stringField_norm [simp]: "stringField (json_norm_payload p) k = stringField p k"
  by (simp add: stringField_text_of map_of_json_norm_payload split: option.split)

lemma anySliceToStrings_norm [simp]: "anySliceToStrings (map json_norm vs) = anySliceToStrings vs"
proof (induction vs)
  case (Cons v vs)
  have cons: "anySliceToStrings (w # ws) =
      (if text_of w = [] then anySliceToStrings ws else text_of w # anySliceToStrings ws)" for w ws
    by (auto simp: text_of_def Let_def split: gval.split)
  show ?case using Cons by (simp add: cons del: anySliceToStrings.simps)
qed simp

lemma stringSliceField_norm [simp]: "stringSliceField (json_norm_payload p) k = stringSliceField p k"
proof (cases "map_of p k")
  case (Some v)
  show ?thesis
  proof (cases v)
    case (GInt i)
    obtain m e where "float_of_int i = GFloat m e" by (rule float_of_int_cases)
    then show ?thesis using GInt Some by (simp add: stringSliceField_def map_of_json_norm_payload)
  next
    case (GInt64 i)
    obtain m e where "float_of_int i = GFloat m e" by (rule float_of_int_cases)
    then show ?thesis using GInt64 Some by (simp add: stringSliceField_def map_of_json_norm_payload)
  next
    case (GJsonNumber t)
    then show ?thesis using Some
      by (cases t rule: number_at_rest_cases) (simp_all add: stringSliceField_def map_of_json_norm_payload)
  qed (use Some in \<open>simp_all add: stringSliceField_def map_of_json_norm_payload cleanStringSlice_def\<close>)
qed (simp add: stringSliceField_def map_of_json_norm_payload)

section \<open>The view of a store\<close>

definition is_commission :: "string \<Rightarrow> Artifact \<Rightarrow> bool" where
  "is_commission i row \<longleftrightarrow> art_id row = i \<and> art_kind row = KindWorkCommission"

definition row_commission :: "Artifact \<Rightarrow> commission" where
  "row_commission row = (case art_data row of Encoded p \<Rightarrow> json_norm_payload p | Text t \<Rightarrow> [])"

definition view :: "Store \<Rightarrow> string \<Rightarrow> commission option" where
  "view store i = map_option row_commission (find (is_commission i) (st_artifacts store))"

lemma find_filter_conj: "find P (filter Q xs) = find (\<lambda>x. P x \<and> Q x) xs"
  by (induction xs) auto

lemma view_of_rows: "view store i = map_option row_commission (find (\<lambda>row. art_id row = i) (commission_rows store))"
  by (simp add: view_def commission_rows_def find_filter_conj is_commission_def[abs_def])

text \<open>
  A stored commission: encoded by this program, with its id and state valid and the title of the
  row derived from the payload. The columns body and valid-until are not: a waiver changes them
  without the payload.
\<close>

definition row_ok :: "Artifact \<Rightarrow> bool" where
  "row_ok row \<longleftrightarrow>
     (case art_data row of
        Text t \<Rightarrow> False
      | Encoded p \<Rightarrow>
          art_id row \<noteq> [] \<and> stringField p ''id'' = art_id row
          \<and> IsKnownState (stringField p ''state'')
          \<and> art_title row = workCommissionTitle p)"

definition store_ok :: "Store \<Rightarrow> bool" where
  "store_ok store \<longleftrightarrow> distinct (store_ids store) \<and> list_all row_ok (commission_rows store)"

definition commissions :: "Store \<Rightarrow> commission list" where
  "commissions store = map row_commission (commission_rows store)"

lemma decode_row_ok:
  assumes "row_ok row"
  shows "decodeWorkCommissionPayload (art_id row) (art_data row) = Inr (row_commission row)"
    "stringField (row_commission row) ''id'' = art_id row"
    "IsKnownState (stringField (row_commission row) ''state'')"
    "json_norm_payload (row_commission row) = row_commission row"
  using assms by (auto simp: row_ok_def decodeWorkCommissionPayload_def row_commission_def Let_def
      split: StructuredData.splits)

lemma decode_rows_ok: "list_all row_ok rows \<Longrightarrow> decode_rows rows = Inr (map row_commission rows)"
  by (induction rows) (simp_all add: decode_row_ok)

lemma load_ok:
  assumes "store_ok store"
  shows "loadWorkCommissionPayloads store = Inr (commissions store)"
    "loadWorkCommissionPayloadsForClaim store = Inr (commissions store)"
  using assms by (simp_all add: store_ok_def loadWorkCommissionPayloads_def
      loadWorkCommissionPayloadsForClaim_def decode_rows_ok commissions_def)

lemma commission_rows_iff:
  "row \<in> set (commission_rows store) \<longleftrightarrow> row \<in> set (st_artifacts store) \<and> is_commission (art_id row) row"
  by (simp add: commission_rows_def is_commission_def)

lemma view_row:
  assumes "view store i = Some c" "store_ok store"
  obtains row where "find (is_commission i) (st_artifacts store) = Some row" "row \<in> set (commission_rows store)"
    "art_id row = i" "c = row_commission row" "row_ok row"
proof -
  obtain row where f: "find (is_commission i) (st_artifacts store) = Some row" and "c = row_commission row"
    using assms(1) by (auto simp: view_def)
  moreover have "row \<in> set (st_artifacts store)" "is_commission i row"
    using f unfolding find_Some_iff by auto
  then have "row \<in> set (commission_rows store)" "art_id row = i"
    by (auto simp: commission_rows_iff is_commission_def)
  moreover have "row_ok row"
    using \<open>row \<in> set (commission_rows store)\<close> assms(2) by (auto simp: store_ok_def list_all_iff)
  ultimately show thesis using that by blast
qed

lemma view_Some:
  assumes "view store i = Some c" "store_ok store"
  shows "stringField c ''id'' = i" "IsKnownState (stringField c ''state'')" "json_norm_payload c = c"
    "i \<noteq> []" "c \<in> set (commissions store)" "loadWorkCommissionPayloadForUpdate store i = Inr c"
proof -
  obtain row where row: "find (is_commission i) (st_artifacts store) = Some row"
    "row \<in> set (commission_rows store)" "art_id row = i" "c = row_commission row" "row_ok row"
    using assms by (rule view_row)
  show "stringField c ''id'' = i" "IsKnownState (stringField c ''state'')" "json_norm_payload c = c"
    using row decode_row_ok[of row] by auto
  show "i \<noteq> []" using row(3,5) by (auto simp: row_ok_def split: StructuredData.splits)
  show "c \<in> set (commissions store)" using row(2,4) by (simp add: commissions_def)
  show "loadWorkCommissionPayloadForUpdate store i = Inr c"
    using row decode_row_ok(1)[of row]
    by (simp add: loadWorkCommissionPayloadForUpdate_def is_commission_def[abs_def])
qed

lemma view_None: "view store i = None \<Longrightarrow> loadWorkCommissionPayloadForUpdate store i = Inl ''commission_not_found''"
  by (simp add: view_def loadWorkCommissionPayloadForUpdate_def is_commission_def[abs_def])

lemma find_unique:
  "distinct (map f xs) \<Longrightarrow> x \<in> set xs \<Longrightarrow> P x \<Longrightarrow> (\<And>y. P y \<Longrightarrow> f y = f x) \<Longrightarrow> find P xs = Some x"
proof (induction xs)
  case (Cons y ys)
  show ?case
  proof (cases "P y")
    case True
    then have "f y = f x" using Cons.prems(4) by blast
    then have "x \<notin> set ys" using Cons.prems(1) by (metis distinct.simps(2) image_eqI list.set_map list.simps(9))
    then show ?thesis using Cons.prems(2) True by simp
  next
    case False
    then have x: "x \<in> set ys" using Cons.prems(2,3) by auto
    have "distinct (map f ys)" using Cons.prems(1) by simp
    then have "find P ys = Some x" using x Cons.prems(3,4) by (rule Cons.IH)
    then show ?thesis using False by simp
  qed
qed simp

lemma mem_commissions:
  assumes "store_ok store"
  shows "c \<in> set (commissions store) \<longleftrightarrow> view store (stringField c ''id'') = Some c"
proof
  assume "c \<in> set (commissions store)"
  then obtain row where row: "row \<in> set (commission_rows store)" "c = row_commission row"
    by (auto simp: commissions_def)
  then have "row_ok row" using assms by (auto simp: store_ok_def list_all_iff)
  then have i: "stringField c ''id'' = art_id row" using row(2) decode_row_ok(2) by simp
  have "distinct (map art_id (st_artifacts store))"
    using assms by (simp add: store_ok_def store_ids_def)
  moreover have "row \<in> set (st_artifacts store)" "is_commission (art_id row) row"
    using row(1) by (auto simp: commission_rows_iff)
  ultimately have "find (is_commission (art_id row)) (st_artifacts store) = Some row"
    by (rule find_unique[where f = art_id]) (simp add: is_commission_def)
  then show "view store (stringField c ''id'') = Some c" using i row(2) by (simp add: view_def)
qed (use assms view_Some(5) in blast)

section \<open>Updates and insertions\<close>

lemma row_commission_updated [simp]: "row_commission (updated_row c row) = json_norm_payload c"
  by (simp add: row_commission_def updated_row_def)

lemma updated_row_fields [simp]:
  "art_id (updated_row c row) = art_id row" "art_kind (updated_row c row) = art_kind row"
  by (simp_all add: updated_row_def)

lemma find_map_row:
  assumes "\<And>row. art_id (f row) = art_id row \<and> art_kind (f row) = art_kind row"
  shows "find (is_commission i) (map f rows) = map_option f (find (is_commission i) rows)"
  by (induction rows) (auto simp: is_commission_def assms)

text \<open>What an update does: the payload is replaced, nothing else that can be seen changes.\<close>

definition put_commission :: "commission \<Rightarrow> Artifact \<Rightarrow> Artifact" where
  "put_commission c row = (if is_commission (stringField c ''id'') row then updated_row c row else row)"

lemma put_commission_fields [simp]:
  "art_id (put_commission c row) = art_id row" "art_kind (put_commission c row) = art_kind row"
  by (simp_all add: put_commission_def)

lemma update_eq:
  "updateWorkCommissionPayload c store =
     (if list_ex (is_commission (stringField c ''id'')) (st_artifacts store)
      then Inr (store\<lparr>st_artifacts := map (put_commission c) (st_artifacts store)\<rparr>)
      else Inl ''commission_not_found'')"
proof -
  have 1: "(\<lambda>row. art_id row = stringField c ''id'' \<and> art_kind row = KindWorkCommission)
      = is_commission (stringField c ''id'')"
    by (simp add: is_commission_def fun_eq_iff)
  show ?thesis
    unfolding updateWorkCommissionPayload_def Let_def 1 put_commission_def[abs_def] by simp
qed

lemma find_list_ex: "list_ex P xs \<longleftrightarrow> find P xs \<noteq> None"
  by (induction xs) auto

lemma commission_rows_put:
  "commission_rows (store\<lparr>st_artifacts := map (put_commission c) (st_artifacts store)\<rparr>)
     = map (put_commission c) (commission_rows store)"
  by (simp add: commission_rows_def filter_map comp_def)

lemma row_ok_put:
  assumes "row_ok row" "art_kind row = KindWorkCommission" "IsKnownState (stringField c ''state'')"
  shows "row_ok (put_commission c row)"
proof (cases "is_commission (stringField c ''id'') row")
  case True
  obtain p where p: "art_data row = Encoded p"
    using assms(1) by (cases "art_data row") (simp_all add: row_ok_def)
  have "art_id row \<noteq> []" using assms(1) unfolding row_ok_def p by simp
  with True assms(3) show ?thesis
    unfolding put_commission_def row_ok_def updated_row_def is_commission_def by simp
qed (use assms in \<open>simp add: put_commission_def\<close>)

lemma update_view:
  assumes "store_ok store" "view store i = Some c0" "stringField c ''id'' = i"
    "IsKnownState (stringField c ''state'')"
  obtains store' where "updateWorkCommissionPayload c store = Inr store'" "store_ok store'"
    "view store' = (view store)(i \<mapsto> json_norm_payload c)" "store_ids store' = store_ids store"
proof -
  let ?store' = "store\<lparr>st_artifacts := map (put_commission c) (st_artifacts store)\<rparr>"
  have found: "find (is_commission i) (st_artifacts store) \<noteq> None" using assms(2) by (auto simp: view_def)
  have "updateWorkCommissionPayload c store = Inr ?store'"
    using found by (simp add: update_eq assms(3) find_list_ex)
  moreover have ids: "store_ids ?store' = store_ids store" by (simp add: store_ids_def)
  moreover have "store_ok ?store'"
    unfolding store_ok_def ids commission_rows_put
    using assms(1,4) row_ok_put
    by (auto simp: store_ok_def list_all_iff commission_rows_iff is_commission_def)
  moreover have "view ?store' j = ((view store)(i \<mapsto> json_norm_payload c)) j" for j
  proof -
    have "view ?store' j = map_option (row_commission \<circ> put_commission c) (find (is_commission j) (st_artifacts store))"
      by (simp add: view_def find_map_row option.map_comp)
    also have "\<dots> = ((view store)(i \<mapsto> json_norm_payload c)) j"
    proof (cases "find (is_commission j) (st_artifacts store)")
      case None
      then show ?thesis using found by (auto simp: view_def)
    next
      case (Some row)
      then have "is_commission j row" unfolding find_Some_iff by blast
      then have "is_commission i row \<longleftrightarrow> j = i" by (auto simp: is_commission_def)
      then show ?thesis using Some by (simp add: view_def put_commission_def assms(3))
    qed
    finally show ?thesis .
  qed
  ultimately show thesis using that by blast
qed

lemma find_commission_append:
  "art_id row \<notin> set (map art_id rows) \<Longrightarrow> is_commission (art_id row) row \<Longrightarrow>
   find (is_commission i) (rows @ [row]) =
     (if i = art_id row then Some row else find (is_commission i) rows)"
  by (induction rows) (auto simp: is_commission_def)

lemma create_view:
  assumes "store_ok store" "store_create (new_commission_row c) store = Inr store'"
    "stringField c ''id'' \<noteq> []" "IsKnownState (stringField c ''state'')"
  shows "view store (stringField c ''id'') = None" "store_ok store'"
    "view store' = (view store)(stringField c ''id'' \<mapsto> json_norm_payload c)"
proof -
  let ?row = "new_row (new_commission_row c)"
  have id: "art_id ?row = stringField c ''id''" by (simp add: new_commission_row_def)
  have kind: "is_commission (art_id ?row) ?row"
    by (simp add: is_commission_def new_row_def new_commission_row_def)
  have fresh: "art_id ?row \<notin> set (map art_id (st_artifacts store))"
    and s: "store' = store\<lparr>st_artifacts := st_artifacts store @ [?row]\<rparr>"
    using assms(2) by (auto simp: store_create_Inr store_ids_def)
  show "view store (stringField c ''id'') = None"
  proof (cases "find (is_commission (stringField c ''id'')) (st_artifacts store)")
    case (Some row)
    then have "row \<in> set (st_artifacts store)" "art_id row = stringField c ''id''"
      unfolding find_Some_iff by (auto simp: is_commission_def)
    then show ?thesis using fresh id by (metis image_eqI list.set_map)
  qed (simp add: view_def)
  have "row_ok ?row"
    using assms(3,4) by (simp add: row_ok_def new_row_def new_commission_row_def)
  moreover have "commission_rows store' = commission_rows store @ [?row]"
    using kind by (simp add: s commission_rows_def is_commission_def)
  ultimately show "store_ok store'"
    using assms(1) fresh by (simp add: store_ok_def store_ids_def s)
  show "view store' = (view store)(stringField c ''id'' \<mapsto> json_norm_payload c)"
  proof
    fix j
    show "view store' j = ((view store)(stringField c ''id'' \<mapsto> json_norm_payload c)) j"
      using find_commission_append[OF fresh kind, of j] id
      by (simp add: view_def s row_commission_def new_row_def new_commission_row_def)
  qed
qed

section \<open>How one commission evolves\<close>

definition volatile_keys :: "string set" where
  "volatile_keys = {''state'', ''lease'', ''events'', ''fetched_at'', ''local_execution'', ''projection_debt'',
     ''delivery_decision'', ''auto_apply''}"

definition lifecycle_actions :: "string set" where
  "lifecycle_actions = {''record_preflight'', ''start_after_preflight'', ''record_run_event'', ''complete_or_block''}"

definition outcome_states :: "string set" where
  "outcome_states = {StateRunning, StateBlockedStale, StateNeedsHumanReview, StateBlockedPolicy,
     StateCompleted, StateCompletedWithProjectionDebt, StateFailed}"

text \<open>The state machine: which state an action of the tool may lead to.\<close>

definition moves :: "string \<Rightarrow> string \<Rightarrow> string \<Rightarrow> bool" where
  "moves action s s' \<longleftrightarrow>
     (if action = ''cancel'' then IsKnownState s \<and> \<not> IsTerminalState s \<and> s' = StateCancelled
      else if action = ''requeue'' then IsRecoverableState s \<and> s' = StateQueued
      else if action = ''claim_for_preflight'' then IsRunnableState s \<and> s' = StatePreflighting
      else if action \<in> lifecycle_actions
      then IsExecutingState s \<and> s' \<in> insert s outcome_states
      else False)"

definition evolves :: "string \<Rightarrow> commission \<Rightarrow> commission \<Rightarrow> bool" where
  "evolves action c c' \<longleftrightarrow>
     same_except volatile_keys c c'
     \<and> moves action (stringField c ''state'') (stringField c' ''state'')
     \<and> (\<exists>new. stored_events c' = stored_events c @ new
            \<and> length new = (if action = ''claim_for_preflight'' then 0 else 1))"

lemma norm_frame:
  assumes "json_norm_payload c = c" "same_except K c c1"
  shows "same_except K c (json_norm_payload c1)"
  unfolding same_except_def
proof (intro allI impI)
  fix k assume "k \<notin> K"
  then have "map_of (json_norm_payload c1) k = map_option json_norm (map_of c k)"
    using same_except_map[OF assms(2)] by (simp add: map_of_json_norm_payload)
  also have "\<dots> = map_of c k" using map_of_json_norm_payload[of c k] assms(1) by simp
  finally show "map_of (json_norm_payload c1) k = map_of c k" .
qed

lemma stored_events_norm_fix:
  assumes "json_norm_payload c = c"
  shows "map json_norm (stored_events c) = stored_events c"
proof (cases "map_of c ''events''")
  case (Some v)
  have "json_norm v = v" using map_of_json_norm_payload[of c "''events''"] assms Some by simp
  then show ?thesis using Some by (auto simp: stored_events_def split: gval.split)
qed (simp add: stored_events_def)

lemma stored_events_append [simp]:
  "stored_events (appendLifecycleEvent c args t) = stored_events c @ [GMap (lifecycle_event c args t)]"
  by (simp add: appendLifecycleEvent_def stored_events_def)

lemma append_event_frame: "same_except {''events''} c (appendLifecycleEvent c args t)"
  by (simp add: appendLifecycleEvent_def same_except_put)

lemma stored_events_put [simp]: "k \<noteq> ''events'' \<Longrightarrow> stored_events (put k v c) = stored_events c"
  by (simp add: stored_events_def)

lemma stored_events_del [simp]: "k \<noteq> ''events'' \<Longrightarrow> stored_events (del k c) = stored_events c"
  by (simp add: stored_events_def)

lemma stored_events_norm_append:
  assumes "json_norm_payload c = c" "stored_events c1 = stored_events c @ [e]"
  shows "stored_events (json_norm_payload c1) = stored_events c @ [json_norm e]"
proof -
  obtain es where "map_of c1 ''events'' = Some (GArr es)" "es = stored_events c @ [e]"
    using assms(2) by (auto simp: stored_events_def split: option.splits gval.splits)
  then show ?thesis using stored_events_norm_fix[OF assms(1)]
    by (simp add: stored_events_def[of "json_norm_payload c1"] map_of_json_norm_payload)
qed

lemma stored_events_norm_same:
  assumes "json_norm_payload c = c" "map_of c1 ''events'' = map_of c ''events''"
  shows "stored_events (json_norm_payload c1) = stored_events c"
  using assms map_of_json_norm_payload[of c1 "''events''"] map_of_json_norm_payload[of c "''events''"]
  by (simp add: stored_events_def)

lemma evolves_logged:
  assumes "json_norm_payload c = c" "same_except volatile_keys c c1" "stored_events c1 = stored_events c @ [e]"
    "moves action (stringField c ''state'') (stringField c1 ''state'')" "action \<noteq> ''claim_for_preflight''"
  shows "evolves action c (json_norm_payload c1)"
  using norm_frame[OF assms(1,2)] stored_events_norm_append[OF assms(1,3)] assms(4,5)
  by (simp add: evolves_def)

subsection \<open>The payloads the handlers write\<close>

lemma cancelled_effect:
  "same_except volatile_keys c (cancelled env args c)"
  "stringField (cancelled env args c) ''state'' = ''cancelled''"
  "\<exists>e. stored_events (cancelled env args c) = stored_events c @ [e]"
proof -
  have "same_except volatile_keys c (appendCancelLifecycleEvent c args (env_event env))"
    unfolding appendCancelLifecycleEvent_def
    by (rule same_except_mono[OF append_event_frame]) (simp add: volatile_keys_def)
  then show "same_except volatile_keys c (cancelled env args c)"
    by (auto simp: cancelled_def volatile_keys_def intro!: same_except_put same_except_del)
qed (simp_all add: cancelled_def cancelWorkCommissionTransition_def appendCancelLifecycleEvent_def plain_char_def)

lemma requeued_effect:
  "same_except volatile_keys c (requeued env args c)"
  "stringField (requeued env args c) ''state'' = ''queued''"
  "\<exists>e. stored_events (requeued env args c) = stored_events c @ [e]"
proof -
  have "same_except volatile_keys c (appendRequeueLifecycleEvent c args (env_event env))"
    unfolding appendRequeueLifecycleEvent_def
    by (rule same_except_mono[OF append_event_frame]) (simp add: volatile_keys_def)
  then show "same_except volatile_keys c (requeued env args c)"
    by (auto simp: requeued_def Let_def volatile_keys_def intro!: same_except_put same_except_del)
qed (simp_all add: requeued_def requeueWorkCommissionTransition_def appendRequeueLifecycleEvent_def
    Let_def plain_char_def)

lemma claimed_effect:
  "same_except {''state'', ''lease''} c (claimed env args c)"
  "stringField (claimed env args c) ''state'' = ''preflighting''"
  by (auto simp: claimed_def Let_def plain_char_def intro!: same_except_put)

lemma complete_effect:
  "same_except {''state'', ''local_execution'', ''projection_debt''} c (completeWorkCommissionAfterLocalEvidence c args)"
  "stringField (completeWorkCommissionAfterLocalEvidence c args) ''state''
     \<in> {''completed'', ''completed_with_projection_debt''}"
proof -
  let ?d = "CompletionAfterLocalEvidence (NormalizeProjectionPolicy (stringField c ''projection_policy''))
    (workCommissionProjectionPublication args)"
  show "same_except {''state'', ''local_execution'', ''projection_debt''} c (completeWorkCommissionAfterLocalEvidence c args)"
    by (auto simp: completeWorkCommissionAfterLocalEvidence_def Let_def intro!: same_except_put same_except_del
        split: option.split)
  have "compl_state ?d \<in> {''completed'', ''completed_with_projection_debt''}"
    by (simp add: CompletionAfterLocalEvidence_def)
  then show "stringField (completeWorkCommissionAfterLocalEvidence c args) ''state''
     \<in> {''completed'', ''completed_with_projection_debt''}"
    by (auto simp: completeWorkCommissionAfterLocalEvidence_def Let_def plain_char_def split: option.split)
qed

lemma delivery_effect:
  "same_except {''delivery_decision'', ''auto_apply''} c (withWorkCommissionDeliveryDecision gates c args t)"
  by (auto simp: withWorkCommissionDeliveryDecision_def Let_def intro!: same_except_put split: prod.split)

lemma apply_state_frame: "same_except (volatile_keys - {''events''}) c (applyLifecycleState gates c args t)"
proof -
  have "same_except (volatile_keys - {''events''}) c
      (withWorkCommissionDeliveryDecision gates (completeWorkCommissionAfterLocalEvidence c args) args t)"
    by (rule same_except_trans[OF complete_effect(1) delivery_effect]) (auto simp: volatile_keys_def)
  then show ?thesis
    by (auto simp: applyLifecycleState_def Let_def volatile_keys_def intro!: same_except_put)
qed

lemma apply_state_state:
  "stringField (applyLifecycleState gates c args t) ''state'' \<in> insert (stringField c ''state'') outcome_states"
proof -
  let ?done = "completeWorkCommissionAfterLocalEvidence c args"
  have "stringField (withWorkCommissionDeliveryDecision gates ?done args t) ''state'' = stringField ?done ''state''"
    using same_except_field(1)[OF delivery_effect] by simp
  then have "stringField (withWorkCommissionDeliveryDecision gates ?done args t) ''state'' \<in> outcome_states"
    using complete_effect(2)[of c args] by (auto simp: outcome_states_def)
  then show ?thesis
    by (auto simp: applyLifecycleState_def Let_def outcome_states_def plain_char_def)
qed

subsection \<open>What a handler does to the store\<close>

definition changes :: "string \<Rightarrow> Store \<Rightarrow> Store \<Rightarrow> bool" where
  "changes action store store' \<longleftrightarrow>
     store_ok store' \<and>
     (view store' = view store \<or>
      (\<exists>i c c'. view store i = Some c \<and> evolves action c c' \<and> view store' = (view store)(i \<mapsto> c')))"

lemma changes_refl: "store_ok store \<Longrightarrow> changes action store store"
  by (simp add: changes_def)

lemma id_not_volatile: "''id'' \<notin> volatile_keys"
  by (simp add: volatile_keys_def)

lemma moves_known: "moves action s s' \<Longrightarrow> IsKnownState s'"
  by (auto simp: moves_def outcome_states_def state_tests state_sets plain_char_def split: if_splits)

lemma commit_changes:
  assumes "store_ok store" "view store i = Some c" "same_except volatile_keys c c1"
    "evolves action c (json_norm_payload c1)"
  shows "changes action store (snd (commit_commission c1 store response))"
    "fst (commit_commission c1 store response) = response"
    "view (snd (commit_commission c1 store response)) = (view store)(i \<mapsto> json_norm_payload c1)"
proof -
  have i: "stringField c1 ''id'' = i"
    using same_except_field(1)[OF assms(3) id_not_volatile] view_Some(1)[OF assms(2,1)] by simp
  have k: "IsKnownState (stringField c1 ''state'')"
    using assms(4) moves_known by (auto simp: evolves_def)
  obtain store' where s: "updateWorkCommissionPayload c1 store = Inr store'" "store_ok store'"
    "view store' = (view store)(i \<mapsto> json_norm_payload c1)"
    using update_view[OF assms(1,2) i k] by blast
  then show "changes action store (snd (commit_commission c1 store response))"
    "fst (commit_commission c1 store response) = response"
    "view (snd (commit_commission c1 store response)) = (view store)(i \<mapsto> json_norm_payload c1)"
    using assms(2,4) by (auto simp: commit_commission_def changes_def)
qed

lemma load_cases:
  assumes "store_ok store"
  obtains c where "view store i = Some c" "loadWorkCommissionPayloadForUpdate store i = Inr c"
  | "view store i = None" "loadWorkCommissionPayloadForUpdate store i = Inl ''commission_not_found''"
  using view_Some(6)[OF _ assms] view_None by (cases "view store i") auto

lemma cancelled_evolves:
  assumes "json_norm_payload c = c"
    "ensureWorkCommissionTransition c args cancelWorkCommissionTransition now = Inr ()"
  shows "evolves ''cancel'' c (json_norm_payload (cancelled env args c))"
proof -
  obtain e where "stored_events (cancelled env args c) = stored_events c @ [e]" using cancelled_effect(3) by blast
  moreover have "moves ''cancel'' (stringField c ''state'') (stringField (cancelled env args c) ''state'')"
    using assms(2) by (simp add: cancel_guard cancelled_effect(2) moves_def)
  ultimately show ?thesis by (intro evolves_logged[OF assms(1) cancelled_effect(1)]) simp_all
qed

lemma requeued_evolves:
  assumes "json_norm_payload c = c"
    "ensureWorkCommissionTransition c args requeueWorkCommissionTransition now = Inr ()"
  shows "evolves ''requeue'' c (json_norm_payload (requeued env args c))"
proof -
  obtain e where "stored_events (requeued env args c) = stored_events c @ [e]" using requeued_effect(3) by blast
  moreover have "moves ''requeue'' (stringField c ''state'') (stringField (requeued env args c) ''state'')"
    using assms(2) by (simp add: requeue_guard requeued_effect(2) moves_def)
  ultimately show ?thesis by (intro evolves_logged[OF assms(1) requeued_effect(1)]) simp_all
qed

lemma claimed_evolves:
  assumes "json_norm_payload c = c" "IsRunnableState (stringField c ''state'')"
  shows "evolves ''claim_for_preflight'' c (json_norm_payload (claimed env args c))"
    "same_except volatile_keys c (claimed env args c)"
proof -
  show f: "same_except volatile_keys c (claimed env args c)"
    by (rule same_except_mono[OF claimed_effect(1)]) (simp add: volatile_keys_def)
  have "map_of (claimed env args c) ''events'' = map_of c ''events''"
    by (rule same_except_map[OF claimed_effect(1)]) simp
  then show "evolves ''claim_for_preflight'' c (json_norm_payload (claimed env args c))"
    using norm_frame[OF assms(1) f] stored_events_norm_same[OF assms(1)] assms(2) claimed_effect(2)[of env args c]
    by (simp add: evolves_def moves_def)
qed

lemma action_cases: "a \<in> lifecycle_actions \<Longrightarrow> a \<notin> {''cancel'', ''requeue'', ''claim_for_preflight''}"
  by (auto simp: lifecycle_actions_def)

lemma lifecycle_evolves:
  assumes "json_norm_payload c = c" "action \<in> lifecycle_actions" "IsExecutingState (stringField c ''state'')"
    "same_except volatile_keys c c1" "stored_events c1 = stored_events c @ [e]"
    "stringField c1 ''state'' \<in> insert (stringField c ''state'') outcome_states"
  shows "evolves action c (json_norm_payload c1)"
  by (rule evolves_logged[OF assms(1,4,5)])
    (use assms(2,3,6) action_cases[OF assms(2)] in \<open>simp_all add: moves_def\<close>)

lemma lifecycle_applied_effect:
  "same_except volatile_keys c (lifecycle_applied env args c)"
  "stored_events (lifecycle_applied env args c)
     = stored_events c @ [GMap (lifecycle_event c args (env_event env))]"
  "stringField (lifecycle_applied env args c) ''state'' \<in> insert (stringField c ''state'') outcome_states"
proof -
  let ?c1 = "appendLifecycleEvent c args (env_event env)"
  have c1: "same_except {''events''} c ?c1" by (rule append_event_frame)
  have f: "same_except (volatile_keys - {''events''}) ?c1 (lifecycle_applied env args c)"
    unfolding lifecycle_applied_def by (rule apply_state_frame)
  show "same_except volatile_keys c (lifecycle_applied env args c)"
    by (rule same_except_trans[OF c1 f]) (auto simp: volatile_keys_def)
  have "stored_events (lifecycle_applied env args c) = stored_events ?c1"
    using same_except_map[OF f, of "''events''"] by (simp add: stored_events_def)
  then show "stored_events (lifecycle_applied env args c)
     = stored_events c @ [GMap (lifecycle_event c args (env_event env))]" by simp
  have "stringField ?c1 ''state'' = stringField c ''state''"
    using same_except_field(1)[OF c1] by simp
  then show "stringField (lifecycle_applied env args c) ''state'' \<in> insert (stringField c ''state'') outcome_states"
    using apply_state_state[of "env_gates env" ?c1 args "env_delivery env"] by (simp add: lifecycle_applied_def)
qed

lemma freshness_blocked_effect:
  "same_except volatile_keys c (freshness_blocked env args report c)"
  "\<exists>e. stored_events (freshness_blocked env args report c) = stored_events c @ [e]"
  "stringField (freshness_blocked env args report c) ''state'' = ''blocked_stale''"
proof -
  have "same_except volatile_keys c (appendFreshnessBlockLifecycleEvent c args report (env_event env))"
    unfolding appendFreshnessBlockLifecycleEvent_def Let_def
    by (rule same_except_mono[OF append_event_frame]) (simp add: volatile_keys_def)
  then show "same_except volatile_keys c (freshness_blocked env args report c)"
    unfolding freshness_blocked_def by (rule same_except_put) (simp add: volatile_keys_def)
qed (simp_all add: freshness_blocked_def appendFreshnessBlockLifecycleEvent_def Let_def plain_char_def)

lemma envelope_blocked_effect:
  "same_except volatile_keys c (envelope_blocked env args report c)"
  "\<exists>e. stored_events (envelope_blocked env args report c) = stored_events c @ [e]"
  "stringField (envelope_blocked env args report c) ''state'' \<in> {''needs_human_review'', ''blocked_policy''}"
proof -
  have "same_except volatile_keys c (appendAutonomyEnvelopeBlockLifecycleEvent c args report (env_event env))"
    unfolding appendAutonomyEnvelopeBlockLifecycleEvent_def Let_def
    by (rule same_except_mono[OF append_event_frame]) (simp add: volatile_keys_def)
  then show "same_except volatile_keys c (envelope_blocked env args report c)"
    unfolding envelope_blocked_def by (rule same_except_put) (simp add: volatile_keys_def)
qed (simp_all add: envelope_blocked_def appendAutonomyEnvelopeBlockLifecycleEvent_def Let_def
    autonomyEnvelopeBlockState_def plain_char_def)

text \<open>The handlers.\<close>

text \<open>
  The two transitions of the operator are one handler with different tables: load, check, write.
\<close>

locale operator_transition =
  fixes handler :: handler
    and transition :: workCommissionTransition
    and written :: "Env \<Rightarrow> payload \<Rightarrow> commission \<Rightarrow> commission"
    and action :: string
  assumes handler_eq: "handler env args store =
      (let commissionID = stringArg args ''commission_id''
       in if commissionID = [] then (Inl ''commission_id is required'', store)
          else (case loadWorkCommissionPayloadForUpdate store commissionID of
              Inl e \<Rightarrow> (Inl e, store)
            | Inr commission \<Rightarrow>
                (case ensureWorkCommissionTransition commission args transition (env_now env) of
                   Inl e \<Rightarrow> (Inl e, store)
                 | Inr _ \<Rightarrow>
                     (let c = written env args commission
                      in commit_commission c store (Inr (commissionResponse ''commission'' (GMap c)))))))"
    and frame: "same_except volatile_keys c (written env args c)"
    and written_evolves: "json_norm_payload c = c \<Longrightarrow> ensureWorkCommissionTransition c args transition now = Inr ()
      \<Longrightarrow> evolves action c (json_norm_payload (written env args c))"
begin

lemma refused:
  assumes "store_ok store" "i = stringArg args ''commission_id''"
    "case view store i of None \<Rightarrow> True
     | Some c \<Rightarrow> ensureWorkCommissionTransition c args transition (env_now env) \<noteq> Inr ()"
  shows "\<exists>e. handler env args store = (Inl e, store)"
proof (cases "view store i")
  case None
  then show ?thesis using view_None[OF None] assms(2) by (cases "i = []") (auto simp: handler_eq Let_def)
next
  case (Some c)
  then show ?thesis using view_Some(4,6)[OF Some assms(1)] assms(2,3) by (auto simp: handler_eq Let_def split: sum.split)
qed

lemma accepted:
  assumes "store_ok store" "i = stringArg args ''commission_id''" "view store i = Some c"
    "ensureWorkCommissionTransition c args transition (env_now env) = Inr ()"
  shows "fst (handler env args store) = Inr (commissionResponse ''commission'' (GMap (written env args c)))"
    "view (snd (handler env args store)) = (view store)(i \<mapsto> json_norm_payload (written env args c))"
    "changes action store (snd (handler env args store))"
proof -
  note ok = view_Some[OF assms(3,1)]
  have "handler env args store = commit_commission (written env args c) store
      (Inr (commissionResponse ''commission'' (GMap (written env args c))))"
    using assms(2,4) ok(4,6) by (simp add: handler_eq Let_def)
  then show "fst (handler env args store) = Inr (commissionResponse ''commission'' (GMap (written env args c)))"
    "view (snd (handler env args store)) = (view store)(i \<mapsto> json_norm_payload (written env args c))"
    "changes action store (snd (handler env args store))"
    using commit_changes[OF assms(1,3) frame written_evolves[OF ok(3) assms(4)]] by simp_all
qed

lemma handler_changes:
  assumes "store_ok store"
  shows "changes action store (snd (handler env args store))"
proof (cases "view store (stringArg args ''commission_id'')")
  case None
  then show ?thesis using refused[OF assms refl, of args env] changes_refl[OF assms] by auto
next
  case (Some c)
  then show ?thesis
    using refused[OF assms refl, of args env] changes_refl[OF assms] accepted(3)[OF assms refl Some]
    by (cases "ensureWorkCommissionTransition c args transition (env_now env) = Inr ()") auto
qed

end

interpretation cancel: operator_transition cancelWorkCommission cancelWorkCommissionTransition cancelled "''cancel''"
  by unfold_locales (simp_all add: cancelWorkCommission_def cancelled_effect(1) cancelled_evolves)

interpretation requeue: operator_transition requeueWorkCommission requeueWorkCommissionTransition requeued "''requeue''"
  by unfold_locales (simp_all add: requeueWorkCommission_def requeued_effect(1) requeued_evolves)

text \<open>A successful claim: the selected commission, which conflicts with no executing one.\<close>

lemma claim_cases:
  assumes "store_ok store"
  obtains e where "claimWorkCommissionForPreflight env args store = (Inl e, store)"
  | c cap where "selectWorkCommissionForClaimWithLeaseCap (env_gates env) (commissions store) args (env_now env) cap = Inr c"
    "ensureWorkCommissionLocksetAvailable (commissions store) c = Inr ()"
    "view store (stringField c ''id'') = Some c" "IsRunnableState (stringField c ''state'')"
    "claimWorkCommissionForPreflight env args store
       = commit_commission (claimed env args c) store
           (Inr (commissionResponse ''commission'' (GMap (claimed env args c))))"
proof -
  note load = load_ok(2)[OF assms]
  show thesis
  proof (cases "commissionLeaseAgeCap args")
    case (Inl e)
    then show thesis by (intro that(1)[of e]) (simp add: claimWorkCommissionForPreflight_def)
  next
    case cap: (Inr cap)
    show thesis
    proof (cases "selectWorkCommissionForClaimWithLeaseCap (env_gates env) (commissions store) args (env_now env) cap")
      case (Inl e)
      then show thesis by (intro that(1)[of e]) (simp add: claimWorkCommissionForPreflight_def cap load)
    next
      case sel: (Inr c)
      show thesis
      proof (cases "ensureWorkCommissionLocksetAvailable (commissions store) c")
        case (Inl e)
        then show thesis by (intro that(1)[of e]) (simp add: claimWorkCommissionForPreflight_def cap load sel)
      next
        case (Inr u)
        have "view store (stringField c ''id'') = Some c" using select_Inr(1)[OF sel] mem_commissions[OF assms] by simp
        moreover have "IsRunnableState (stringField c ''state'')"
          using select_Inr(2)[OF sel]
          by (simp add: workCommissionRunnableForRequestWithLeaseCap_def workCommissionRunnable_iff)
        ultimately show thesis
          using Inr by (intro that(2)[OF sel]) (simp_all add: claimWorkCommissionForPreflight_def cap load sel Let_def)
      qed
    qed
  qed
qed

lemma claim_changes:
  assumes "store_ok store"
  shows "changes ''claim_for_preflight'' store (snd (claimWorkCommissionForPreflight env args store))"
proof (cases rule: claim_cases[OF assms, of env args])
  case (1 e)
  then show ?thesis by (simp add: changes_refl assms)
next
  case (2 c cap)
  note ev = claimed_evolves[OF view_Some(3)[OF 2(3) assms] 2(4)]
  show ?thesis unfolding 2(5) by (rule commit_changes(1)[OF assms 2(3) ev(2) ev(1)])
qed

lemma lifecycle_changes:
  assumes "store_ok store" "stringArg args ''action'' \<in> lifecycle_actions"
  shows "changes (stringArg args ''action'') store (snd (appendWorkCommissionLifecycle env args store))"
proof (cases rule: load_cases[OF assms(1), of "stringArg args ''commission_id''"])
  case (1 c)
  note normal = view_Some(3)[OF 1(1) assms(1)]
  show ?thesis
  proof (cases "stringArg args ''commission_id'' = [] \<or> ensureWorkCommissionLifecycleTransition c args \<noteq> Inr ()")
    case True
    then show ?thesis using 1 assms(1)
      by (auto simp: appendWorkCommissionLifecycle_def Let_def changes_refl split: sum.split)
  next
    case False
    then have ex: "IsExecutingState (stringField c ''state'')"
      using lifecycle_guard_executing[of c args] by (simp add: workCommissionActiveLeaseState_def)
    have commit: "changes (stringArg args ''action'') store (snd (commit_commission c1 store response))"
      if "same_except volatile_keys c c1" "\<exists>e. stored_events c1 = stored_events c @ [e]"
        "stringField c1 ''state'' \<in> insert (stringField c ''state'') outcome_states" for c1 response
      using commit_changes(1)[OF assms(1) 1(1) that(1)] lifecycle_evolves[OF normal assms(2) ex that(1) _ that(3)]
        that(2) by blast
    have "changes (stringArg args ''action'') store (snd (commit_commission (freshness_blocked env as r c) store response))"
      for as r response
      by (rule commit[OF freshness_blocked_effect(1,2)]) (simp add: freshness_blocked_effect(3) outcome_states_def)
    moreover have "changes (stringArg args ''action'') store (snd (commit_commission (envelope_blocked env as r c) store response))"
      for as r response
      by (rule commit[OF envelope_blocked_effect(1,2)])
        (use envelope_blocked_effect(3)[of env as r c] in \<open>auto simp: outcome_states_def\<close>)
    moreover have "changes (stringArg args ''action'') store (snd (commit_commission (lifecycle_applied env as c) store response))"
      for as response
      by (rule commit[OF lifecycle_applied_effect(1)]) (use lifecycle_applied_effect in blast)+
    ultimately show ?thesis
      using False 1(2) assms(1)
      by (simp add: appendWorkCommissionLifecycle_def Let_def changes_refl split: sum.split option.split)
  qed
qed (auto simp: appendWorkCommissionLifecycle_def Let_def changes_refl assms)

subsection \<open>What creation does to the store\<close>

definition created :: "commission \<Rightarrow> bool" where
  "created c \<longleftrightarrow> (\<exists>env random c0 c1. normalizeNewWorkCommission env random c0 = Inr c1 \<and> c = json_norm_payload c1)"

definition adds :: "Store \<Rightarrow> Store \<Rightarrow> bool" where
  "adds store store' \<longleftrightarrow>
     store_ok store' \<and>
     (\<forall>i. case view store i of
            Some c \<Rightarrow> view store' i = Some c
          | None \<Rightarrow> pred_option created (view store' i))"

lemma adds_refl: "store_ok store \<Longrightarrow> adds store store"
  by (simp add: adds_def split: option.split)

lemma adds_trans:
  assumes "adds s1 s2" "adds s2 s3"
  shows "adds s1 s3"
  unfolding adds_def
proof (intro conjI allI)
  show "store_ok s3" using assms(2) by (simp add: adds_def)
  fix i
  have 1: "case view s1 i of Some c \<Rightarrow> view s2 i = Some c | None \<Rightarrow> pred_option created (view s2 i)"
    and 2: "case view s2 i of Some c \<Rightarrow> view s3 i = Some c | None \<Rightarrow> pred_option created (view s3 i)"
    using assms by (simp_all only: adds_def)
  show "case view s1 i of Some c \<Rightarrow> view s3 i = Some c | None \<Rightarrow> pred_option created (view s3 i)"
    using 1 2 by (cases "view s1 i"; cases "view s2 i") simp_all
qed

lemma persist_adds:
  assumes "store_ok store" "persistWorkCommission env random c0 store = Inr (c, store')"
  shows "adds store store'" "normalizeNewWorkCommission env random c0 = Inr c"
    "view store (stringField c ''id'') = None"
    "view store' = (view store)(stringField c ''id'' \<mapsto> json_norm_payload c)"
proof -
  show n: "normalizeNewWorkCommission env random c0 = Inr c"
    using assms(2) by (auto simp: persistWorkCommission_def split: sum.splits)
  have s: "store_create (new_commission_row c) store = Inr store'"
    using assms(2) by (auto simp: persistWorkCommission_def split: sum.splits)
  have "stringField c ''id'' \<noteq> []" using normalize_sound(1)[OF n] by (simp add: required_keys_def)
  note cv = create_view[OF assms(1) s this normalize_sound(4)[OF n]]
  show "view store (stringField c ''id'') = None" by (rule cv(1))
  show "view store' = (view store)(stringField c ''id'' \<mapsto> json_norm_payload c)" by (rule cv(3))
  have "created (json_norm_payload c)" unfolding created_def using n by blast
  then show "adds store store'" using cv by (auto simp: adds_def split: option.split)
qed

lemma persist_all_adds:
  "store_ok store \<Longrightarrow> adds store (snd (persist_all env cs store))"
proof (induction cs arbitrary: store)
  case (Cons c cs)
  show ?case
  proof (cases "persistWorkCommission env (env_random env 0) c store")
    case (Inr r)
    obtain c1 store1 where r: "r = (c1, store1)" by (cases r)
    have a: "adds store store1" using persist_adds(1)[OF Cons.prems] Inr r by blast
    then have "adds store1 (snd (persist_all env cs store1))" using Cons.IH by (simp add: adds_def)
    then have "adds store (snd (persist_all env cs store1))" using a adds_trans by blast
    then show ?thesis using Inr r by (auto split: prod.splits sum.splits)
  qed (simp add: adds_refl Cons.prems)
qed (simp add: adds_refl)

lemma create_adds:
  assumes "store_ok store"
  shows "adds store (snd (createWorkCommission env args store))"
    "adds store (snd (createWorkCommissionFromDecision env args store))"
    "adds store (snd (createWorkCommissionsFromPlan env args store))"
    "adds store (snd (createWorkCommissionBatchFromDecisions env args store))"
proof -
  have all: "adds store store'" if "persist_all env cs store = (r, store')" for cs r store'
    using persist_all_adds[OF assms, of env cs] that by simp
  show "adds store (snd (createWorkCommission env args store))"
    using persist_adds(1)[OF assms] adds_refl[OF assms]
    by (auto simp: createWorkCommission_def split: sum.split)
  show "adds store (snd (createWorkCommissionFromDecision env args store))"
    using persist_adds(1)[OF assms] adds_refl[OF assms]
    by (auto simp: createWorkCommissionFromDecision_def split: sum.split)
  show "adds store (snd (createWorkCommissionsFromPlan env args store))"
    using all adds_refl[OF assms]
    by (auto simp: createWorkCommissionsFromPlan_def split: sum.split prod.split)
  show "adds store (snd (createWorkCommissionBatchFromDecisions env args store))"
    using all adds_refl[OF assms]
    by (auto simp: createWorkCommissionBatchFromDecisions_def split: sum.split prod.split)
qed

lemma readers_keep_store:
  "snd (listWorkCommissions env args store) = store"
  "snd (listRunnableWorkCommissions env args store) = store"
  "snd (drainWorkCommissionStatus env args store) = store"
  "snd (showWorkCommission env args store) = store"
  by (simp_all add: listWorkCommissions_def listRunnableWorkCommissions_def drainWorkCommissionStatus_def
      showWorkCommission_def Let_def split: sum.split prod.split)

definition creating_actions :: "string set" where
  "creating_actions = {''create'', ''create_from_decision'', ''create_from_plan'', ''create_batch_from_decisions''}"

lemma handle_effect:
  assumes "store_ok store"
  shows "if stringArg args ''action'' \<in> creating_actions
         then adds store (snd (handleHaftCommission env args store))
         else changes (stringArg args ''action'') store (snd (handleHaftCommission env args store))"
proof -
  let ?a = "stringArg args ''action''"
  consider "?a = ''create''" | "?a = ''create_from_decision''" | "?a = ''create_from_plan''"
    | "?a = ''create_batch_from_decisions''" | "?a = ''list''" | "?a = ''list_runnable''" | "?a = ''drain_status''"
    | "?a = ''show''" | "?a = ''claim_for_preflight''" | "?a = ''requeue''" | "?a = ''cancel''"
    | "?a \<in> lifecycle_actions"
    | "?a \<notin> creating_actions \<union> {''list'', ''list_runnable'', ''drain_status'', ''show'', ''claim_for_preflight'',
         ''requeue'', ''cancel''} \<union> lifecycle_actions"
    unfolding creating_actions_def by blast
  then show ?thesis
  proof cases
    case 12
    have "handleHaftCommission env args store = appendWorkCommissionLifecycle env args store"
      using 12 by (auto simp: handleHaftCommission_def lifecycle_actions_def)
    then show ?thesis using 12 lifecycle_changes[OF assms 12] by (auto simp: creating_actions_def lifecycle_actions_def)
  next
    case 13
    then have "snd (handleHaftCommission env args store) = store"
      by (simp add: handleHaftCommission_def creating_actions_def lifecycle_actions_def)
    then show ?thesis using 13 changes_refl[OF assms] by simp
  qed (simp_all add: handleHaftCommission_def creating_actions_def create_adds[OF assms] readers_keep_store
      changes_refl[OF assms] claim_changes[OF assms] requeue.handler_changes[OF assms] cancel.handler_changes[OF assms])
qed

end
