(* ===== verification/CommissionExample.thy ===== *)
theory CommissionExample
  imports CommissionSystem
begin

text \<open>
  A small store of three commissions, one of them terminal, on which the properties of the
  handlers are instantiated.
\<close>

definition stored_example :: "string \<Rightarrow> string \<Rightarrow> string list \<Rightarrow> Artifact" where
  "stored_example i state after = new_row (new_commission_row
     [(''id'', GStr i), (''state'', GStr state), (''depends_on'', GStrs after),
      (''lockset'', GStrs [''src'']), (''valid_until'', GStr ''2027-01-01T00:00:00Z'')])"

definition example_store :: Store where
  "example_store = \<lparr>st_artifacts =
      [stored_example ''wc-1'' ''cancelled'' [], stored_example ''wc-2'' ''queued'' [''wc-1''],
       stored_example ''wc-3'' ''queued'' []], st_files = []\<rparr>"

lemma stored_example_ok:
  "trim_space i = i \<Longrightarrow> i \<noteq> [] \<Longrightarrow> IsKnownState state \<Longrightarrow> trim_space state = state \<Longrightarrow>
   row_ok (stored_example i state after)"
  "art_id (stored_example i state after) = trim_space i"
  "art_kind (stored_example i state after) = KindWorkCommission"
  by (simp_all add: stored_example_def row_ok_def new_row_def new_commission_row_def stringField_def)

lemma example_rows:
  "commission_rows example_store = st_artifacts example_store"
  "store_ids example_store = [''wc-1'', ''wc-2'', ''wc-3'']"
  by (simp_all add: commission_rows_def example_store_def stored_example_ok(2,3) store_ids_def plain_char_def)

lemma example_store_ok: "store_ok example_store"
proof -
  have "IsKnownState ''cancelled''" "IsKnownState ''queued''"
    by (simp_all add: state_tests state_sets plain_char_def)
  then have "list_all row_ok (st_artifacts example_store)"
    by (simp add: example_store_def stored_example_ok(1) plain_char_def)
  then show ?thesis by (simp add: store_ok_def example_rows)
qed

lemma example_view:
  "\<exists>c. view example_store ''wc-1'' = Some c \<and> stringField c ''state'' = ''cancelled''"
  by (simp add: view_of_rows example_rows)
    (simp add: example_store_def stored_example_ok(2) plain_char_def stored_example_def row_commission_def
      new_row_def new_commission_row_def stringField_def json_norm_payload_def)

lemma example_queued:
  "\<exists>c. view example_store ''wc-2'' = Some c \<and> stringField c ''state'' = ''queued''"
  by (simp add: view_of_rows example_rows)
    (simp add: example_store_def stored_example_ok(2) plain_char_def stored_example_def row_commission_def
      new_row_def new_commission_row_def stringField_def json_norm_payload_def)

definition claim_args :: payload where
  "claim_args = [(''action'', GStr ''claim_for_preflight'')]"

definition running_store :: Store where
  "running_store = \<lparr>st_artifacts = [stored_example ''wc-4'' ''running'' []], st_files = []\<rparr>"

definition finish_args :: payload where
  "finish_args = [(''action'', GStr ''complete_or_block''), (''verdict'', GStr ''pass''),
     (''commission_id'', GStr ''wc-4'')]"

lemma running_rows:
  "commission_rows running_store = st_artifacts running_store" "store_ids running_store = [''wc-4'']"
  by (simp_all add: commission_rows_def running_store_def stored_example_ok(2,3) store_ids_def plain_char_def)

lemma running_store_ok: "store_ok running_store"
proof -
  have "IsKnownState ''running''" by (simp add: state_tests state_sets plain_char_def)
  then have "list_all row_ok (st_artifacts running_store)"
    by (simp add: running_store_def stored_example_ok(1) plain_char_def)
  then show ?thesis by (simp add: store_ok_def running_rows)
qed

lemma running_view:
  "\<exists>c. view running_store ''wc-4'' = Some c \<and> stringField c ''state'' = ''running''
     \<and> stringField c ''projection_policy'' = []"
  by (simp add: view_of_rows running_rows)
    (simp add: running_store_def stored_example_ok(2) plain_char_def stored_example_def row_commission_def
      new_row_def new_commission_row_def stringField_def json_norm_payload_def)

end
