(* ===== verification/CommissionEffects.thy ===== *)
theory CommissionEffects
  imports CommissionSystem CommissionExample
begin

text \<open>
  What a single call does, as a caller and the operator see it: the exact effect of each writer on
  the view of the store, and what an error leaves behind.
\<close>

section \<open>The outcomes of a lifecycle call\<close>

lemma lifecycle_commit:
  assumes "store_ok store" "view store i = Some c" "action \<in> lifecycle_actions"
    "IsExecutingState (stringField c ''state'')"
    "same_except volatile_keys c c1" "\<exists>e. stored_events c1 = stored_events c @ [e]"
    "stringField c1 ''state'' \<in> insert (stringField c ''state'') outcome_states"
  obtains store' where "commit_commission c1 store r = (r, store')"
    "view store' = (view store)(i \<mapsto> json_norm_payload c1)"
proof -
  obtain e where e: "stored_events c1 = stored_events c @ [e]" using assms(6) by blast
  have "evolves action c (json_norm_payload c1)"
    by (rule lifecycle_evolves[OF view_Some(3)[OF assms(2,1)] assms(3,4,5) e assms(7)])
  note cc = commit_changes(2,3)[OF assms(1,2,5) this, of r]
  show thesis
    by (rule that[of "snd (commit_commission c1 store r)"]) (use cc in \<open>simp_all add: prod_eq_iff\<close>)
qed

text \<open>
  A lifecycle call is refused and changes nothing, or is stopped by the freshness gate, or by the
  envelope, or is applied.
\<close>

lemma lifecycle_outcomes:
  assumes "store_ok store" "stringArg args ''action'' \<in> lifecycle_actions"
    "report = (\<lambda>c. workCommissionFreshnessReport (env_sections env) store c args (env_now env))"
    "gapped = (\<lambda>c. workCommissionArgsWithFreshnessGaps args (report c))"
  obtains e where "appendWorkCommissionLifecycle env args store = (Inl e, store)"
  | c store' where "view store (stringArg args ''commission_id'') = Some c"
      "ensureWorkCommissionLifecycleTransition c args = Inr ()" "commissionFreshnessBlocked (report c)"
      "appendWorkCommissionLifecycle env args store = (Inl (commissionFreshnessBlockError (report c)), store')"
      "view store' = (view store)(stringArg args ''commission_id''
         \<mapsto> json_norm_payload (freshness_blocked env args (report c) c))"
  | c store' r where "view store (stringArg args ''commission_id'') = Some c"
      "ensureWorkCommissionLifecycleTransition c args = Inr ()" "\<not> commissionFreshnessBlocked (report c)"
      "start_envelope_report env (gapped c) c = Inr (Some r)"
      "appendWorkCommissionLifecycle env args store = (Inl (commissionAutonomyEnvelopeBlockError r), store')"
      "view store' = (view store)(stringArg args ''commission_id''
         \<mapsto> json_norm_payload (envelope_blocked env (gapped c) r c))"
  | c store' where "view store (stringArg args ''commission_id'') = Some c"
      "ensureWorkCommissionLifecycleTransition c args = Inr ()" "\<not> commissionFreshnessBlocked (report c)"
      "start_envelope_report env (gapped c) c = Inr None"
      "appendWorkCommissionLifecycle env args store
         = (Inr (commissionResponse ''commission'' (GMap (lifecycle_applied env (gapped c) c))), store')"
      "view store' = (view store)(stringArg args ''commission_id''
         \<mapsto> json_norm_payload (lifecycle_applied env (gapped c) c))"
proof -
  let ?i = "stringArg args ''commission_id''" and ?call = "appendWorkCommissionLifecycle env args store"
  show thesis
  proof (cases "view store ?i")
    case None
    then show thesis
      using that(1) view_None[OF None] by (cases "?i = []") (simp_all add: appendWorkCommissionLifecycle_def)
  next
    case (Some c)
    note ok = view_Some[OF Some assms(1)]
    show thesis
    proof (cases "ensureWorkCommissionLifecycleTransition c args")
      case (Inl e)
      then show thesis using that(1) ok(4,6) by (simp add: appendWorkCommissionLifecycle_def)
    next
      case (Inr u)
      then have guard: "ensureWorkCommissionLifecycleTransition c args = Inr ()" by simp
      then have ex: "IsExecutingState (stringField c ''state'')"
        using lifecycle_guard_executing[of c args] by (simp add: workCommissionActiveLeaseState_def)
      note commit = lifecycle_commit[OF assms(1) Some assms(2) ex]
      show thesis
      proof (cases "commissionFreshnessBlocked (report c)")
        case True
        let ?c1 = "freshness_blocked env args (report c) c"
        have call: "?call = commit_commission ?c1 store (Inl (commissionFreshnessBlockError (report c)))"
          using guard True ok(4,6) by (simp add: appendWorkCommissionLifecycle_def Let_def assms(3))
        have out: "stringField ?c1 ''state'' \<in> insert (stringField c ''state'') outcome_states"
          by (simp add: freshness_blocked_effect(3) outcome_states_def)
        show thesis
          by (rule commit[OF freshness_blocked_effect(1,2) out, where r = "Inl (commissionFreshnessBlockError (report c))"])
            (use that(2)[OF Some guard True] call in auto)
      next
        case fresh: False
        show thesis
        proof (cases "start_envelope_report env (gapped c) c")
          case (Inl e)
          then show thesis
            using that(1)[of e] guard fresh ok(4,6) by (simp add: appendWorkCommissionLifecycle_def Let_def assms(3,4))
        next
          case env: (Inr stop)
          show thesis
          proof (cases stop)
            case (Some r)
            let ?c1 = "envelope_blocked env (gapped c) r c"
            have call: "?call = commit_commission ?c1 store (Inl (commissionAutonomyEnvelopeBlockError r))"
              using guard fresh env Some ok(4,6)
              by (simp add: appendWorkCommissionLifecycle_def Let_def assms(3,4))
            have out: "stringField ?c1 ''state'' \<in> insert (stringField c ''state'') outcome_states"
              using envelope_blocked_effect(3)[of env "gapped c" r c] by (auto simp: outcome_states_def)
            show thesis
              by (rule commit[OF envelope_blocked_effect(1,2) out, where r = "Inl (commissionAutonomyEnvelopeBlockError r)"])
                (use that(3)[OF \<open>view store ?i = Some c\<close> guard fresh] env Some call in auto)
          next
            case None
            let ?c1 = "lifecycle_applied env (gapped c) c"
              and ?r = "Inr (commissionResponse ''commission'' (GMap (lifecycle_applied env (gapped c) c))) :: gval result"
            have call: "?call = commit_commission ?c1 store ?r"
              using guard fresh env None ok(4,6)
              by (simp add: appendWorkCommissionLifecycle_def Let_def assms(3,4))
            have ev: "\<exists>e. stored_events ?c1 = stored_events c @ [e]"
              using lifecycle_applied_effect(2) by blast
            show thesis
              by (rule commit[OF lifecycle_applied_effect(1) ev lifecycle_applied_effect(3), where r = ?r])
                (use that(4)[OF \<open>view store ?i = Some c\<close> guard fresh] env None call in auto)
          qed
        qed
      qed
    qed
  qed
qed

section \<open>Every call\<close>

text \<open>
  C3. Every call of the tool refines the state machine of the commissions. A creating call keeps
  every stored commission as it is and adds only commissions that passed the checks of creation;
  any other call changes at most one commission, by a move its action allows, freezing all but
  the volatile fields and appending one event to the log (none for a claim).
\<close>

theorem every_call_is_a_move:
  assumes "store_ok store"
  shows "let a = stringArg args ''action''; store' = snd (handleHaftCommission env args store)
    in store_ok store'
       \<and> (if a \<in> creating_actions
          then list_all (\<lambda>c. view store' (stringField c ''id'') = Some c) (commissions store)
            \<and> list_all (\<lambda>c. c \<in> set (commissions store) \<or> created c) (commissions store')
          else view store' = view store
            \<or> (\<exists>i c c'. view store i = Some c \<and> view store' = (view store)(i \<mapsto> c')
                \<and> same_except volatile_keys c c'
                \<and> moves a (stringField c ''state'') (stringField c' ''state'')
                \<and> (\<exists>new. stored_events c' = stored_events c @ new
                      \<and> length new = (if a = ''claim_for_preflight'' then 0 else 1))))"
proof -
  let ?a = "stringArg args ''action''" and ?s = "snd (handleHaftCommission env args store)"
  have h: "if ?a \<in> creating_actions then adds store ?s else changes ?a store ?s" by (rule handle_effect[OF assms])
  show ?thesis
  proof (cases "?a \<in> creating_actions")
    case True
    then have add: "adds store ?s" using h by simp
    then have ok: "store_ok ?s" by (simp add: adds_def)
    have point: "case view store i of Some c \<Rightarrow> view ?s i = Some c | None \<Rightarrow> pred_option created (view ?s i)" for i
      using add by (simp only: adds_def)
    have "view ?s (stringField c ''id'') = Some c" if "c \<in> set (commissions store)" for c
      using that point[of "stringField c ''id''"] mem_commissions[OF assms] by simp
    moreover have "c \<in> set (commissions store) \<or> created c" if "c \<in> set (commissions ?s)" for c
      using that point[of "stringField c ''id''"] mem_commissions[OF assms] mem_commissions[OF ok]
      by (cases "view store (stringField c ''id'')") auto
    ultimately show ?thesis using True ok by (simp add: Let_def list_all_iff)
  next
    case False
    then show ?thesis using h unfolding changes_def evolves_def Let_def by auto
  qed
qed

theorem every_call_is_a_move_witness:
  "store_ok (snd (handleHaftCommission example_env claim_args example_store))"
  using every_call_is_a_move[OF example_store_ok, where env = example_env and args = claim_args] by (simp add: Let_def)

section \<open>Errors\<close>

definition stopped :: "Store \<Rightarrow> Store \<Rightarrow> bool" where
  "stopped store store' \<longleftrightarrow>
     (\<exists>i c c'. view store i = Some c \<and> view store' = (view store)(i \<mapsto> c')
        \<and> stringField c' ''state'' \<in> {StateBlockedStale, StateNeedsHumanReview, StateBlockedPolicy})"

lemma stoppedI:
  "view store i = Some c \<Longrightarrow> view store' = (view store)(i \<mapsto> c')
   \<Longrightarrow> stringField c' ''state'' \<in> {StateBlockedStale, StateNeedsHumanReview, StateBlockedPolicy}
   \<Longrightarrow> stopped store store'"
  unfolding stopped_def by blast

text \<open>The handlers that are all or nothing.\<close>

definition atomic :: "gval result \<times> Store \<Rightarrow> Store \<Rightarrow> bool" where
  "atomic outcome store = (case outcome of (Inl e, store') \<Rightarrow> store' = store | (Inr r, store') \<Rightarrow> True)"

lemma commit_atomic [simp]: "atomic (commit_commission c store (Inr r)) store"
  by (simp add: atomic_def commit_commission_def split: sum.split)

lemma refuse_atomic [simp]: "atomic (Inl e, store) store" "atomic (Inr r, store') store"
  by (simp_all add: atomic_def)

lemma atomic_handlers:
  "atomic (createWorkCommission env args store) store"
  "atomic (createWorkCommissionFromDecision env args store) store"
  "atomic (cancelWorkCommission env args store) store"
  "atomic (requeueWorkCommission env args store) store"
  "atomic (claimWorkCommissionForPreflight env args store) store"
  by (auto simp: createWorkCommission_def createWorkCommissionFromDecision_def cancelWorkCommission_def
      requeueWorkCommission_def claimWorkCommissionForPreflight_def Let_def split: sum.split prod.split)

lemma atomic_if:
  "(P \<Longrightarrow> atomic x store) \<Longrightarrow> (\<not> P \<Longrightarrow> atomic y store) \<Longrightarrow> atomic (if P then x else y) store"
  by simp

lemma atomic_readers:
  "atomic (listWorkCommissions env args store) store" "atomic (listRunnableWorkCommissions env args store) store"
  "atomic (drainWorkCommissionStatus env args store) store" "atomic (showWorkCommission env args store) store"
  using readers_keep_store[of env args store] unfolding atomic_def by (auto split: sum.split prod.split)

lemma only_start_blocks:
  "commissionFreshnessBlocked (workCommissionFreshnessReport sections store c args now) \<Longrightarrow>
     stringArg args ''action'' = ''start_after_preflight''"
  by (simp add: commissionFreshnessBlocked_def workCommissionFreshnessReport_def split: if_splits)

lemma gaps_keep_args [simp]:
  "k \<noteq> ''payload'' \<Longrightarrow> stringArg (workCommissionArgsWithFreshnessGaps args report) k = stringArg args k"
  by (simp add: workCommissionArgsWithFreshnessGaps_def stringArg_def)

lemma only_start_looks_at_envelope:
  "start_envelope_report env args c = Inr (Some r) \<Longrightarrow> stringArg args ''action'' = ''start_after_preflight''"
  by (simp add: start_envelope_report_def split: if_splits)

lemma lifecycle_errors:
  assumes "store_ok store" "stringArg args ''action'' \<in> lifecycle_actions"
    "appendWorkCommissionLifecycle env args store = (Inl e, store')"
  shows "store' = store \<or> stringArg args ''action'' = ''start_after_preflight'' \<and> stopped store store'"
proof (cases rule: lifecycle_outcomes[OF assms(1,2) refl refl, of env])
  case (2 c s)
  have "stopped store s" by (rule stoppedI[OF 2(1,5)]) (simp add: freshness_blocked_effect(3))
  then show ?thesis using 2(4) assms(3) only_start_blocks[OF 2(3)] by auto
next
  case (3 c s r)
  have "stopped store s"
    by (rule stoppedI[OF 3(1,6)], unfold stringField_norm) (use envelope_blocked_effect(3) in blast)
  then show ?thesis using 3(5) assms(3) only_start_looks_at_envelope[OF 3(4)] by auto
qed (use assms(3) in auto)

text \<open>
  C7. What an error leaves behind: nothing changes, except that a batch or plan may have stored a
  part of its commissions, and that a start stopped by the freshness gate or the envelope leaves
  the commission blocked or waiting for review.
\<close>

theorem failed_calls:
  assumes "store_ok store"
  shows "case handleHaftCommission env args store of
      (Inr r, store') \<Rightarrow> True
    | (Inl e, store') \<Rightarrow>
        if stringArg args ''action'' \<in> {''create_from_plan'', ''create_batch_from_decisions''}
        then adds store store'
        else store' = store \<or> stringArg args ''action'' = ''start_after_preflight'' \<and> stopped store store'"
proof -
  let ?a = "stringArg args ''action''"
  consider "?a \<in> lifecycle_actions"
    | "?a \<notin> lifecycle_actions" "?a \<in> {''create_from_plan'', ''create_batch_from_decisions''}"
    | "?a \<notin> lifecycle_actions" "?a \<notin> {''create_from_plan'', ''create_batch_from_decisions''}" by blast
  then show ?thesis
  proof cases
    case 1
    have "handleHaftCommission env args store = appendWorkCommissionLifecycle env args store"
      using 1 by (auto simp: handleHaftCommission_def lifecycle_actions_def)
    then show ?thesis
      using lifecycle_errors[OF assms 1] 1 by (auto simp: lifecycle_actions_def split: prod.split sum.split)
  next
    case 2
    then have "adds store (snd (handleHaftCommission env args store))"
      using handle_effect[OF assms, of args env] by (auto simp: creating_actions_def)
    then show ?thesis using 2 by (auto split: prod.split sum.split)
  next
    case 3
    then have "atomic (handleHaftCommission env args store) store"
      unfolding handleHaftCommission_def Let_def
      by (intro atomic_if atomic_handlers atomic_readers refuse_atomic) (simp_all add: lifecycle_actions_def)
    then show ?thesis using 3 by (auto simp: atomic_def split: prod.split sum.split)
  qed
qed

theorem failed_calls_witness:
  "case handleHaftCommission example_env claim_args example_store of
     (Inr r, store') \<Rightarrow> True | (Inl e, store') \<Rightarrow> store' = example_store"
proof -
  have "stringArg claim_args ''action'' = ''claim_for_preflight''"
    by (simp add: claim_args_def stringArg_def plain_char_def)
  then show ?thesis
    using failed_calls[OF example_store_ok, where env = example_env and args = claim_args] by (auto split: prod.splits sum.splits)
qed

section \<open>The transitions of the operator\<close>

text \<open>The event of a transition: who did what, why, and from which state and lease.\<close>

definition records_transition :: "commission \<Rightarrow> payload \<Rightarrow> string \<Rightarrow> payload \<Rightarrow> bool" where
  "records_transition c args action event \<longleftrightarrow>
     stringField event ''action'' = action
     \<and> stringField event ''reason'' = stringArg args ''reason''
     \<and> stringField event ''runner_id'' = stringArg args ''runner_id''
     \<and> (case mapArg event ''payload'' of
          None \<Rightarrow> False
        | Some p \<Rightarrow> stringField p ''previous_state'' = stringField c ''state''
            \<and> mapArg p ''previous_lease'' = mapArg c ''lease'')"

lemma stringField_Cons:
  "stringField ((k, v) # p) j = (if k = j then text_of v else stringField p j)"
  by (auto simp: stringField_text_of)

lemma text_of_GStr [simp]: "text_of (GStr s) = trim_space s"
  by (simp add: text_of_def)

lemma stringArg_field: "stringArg p k = stringField p k"
  by (simp add: stringArg_def stringField_def)

lemma mapArg_Cons:
  "mapArg ((k, v) # p) j = (if k = j then (case v of GMap m \<Rightarrow> Some m | _ \<Rightarrow> None) else mapArg p j)"
  by (simp add: mapArg_def)

lemma lifecycle_event_fields:
  "k \<in> {''action'', ''runner_id'', ''event'', ''verdict'', ''reason''} \<Longrightarrow>
     stringField (lifecycle_event c args t) k = stringArg args k"
  "mapArg (lifecycle_event c args t) ''payload'' = mapArg args ''payload''"
proof -
  define run where "run = workCommissionLifecycleRuntimeRunID c args"
  define head where "head = [(''action'', GStr (stringArg args ''action'')), (''runner_id'', GStr (stringArg args ''runner_id'')),
    (''event'', GStr (stringArg args ''event'')), (''verdict'', GStr (stringArg args ''verdict'')),
    (''reason'', GStr (stringArg args ''reason'')), (''recorded_at'', GStr (format_rfc3339 t))]"
  have event: "stringField (lifecycle_event c args t) j = stringField head j"
      if "j \<noteq> ''payload''" "j \<noteq> ''runtime_run_id''" for j
    using that unfolding lifecycle_event_def Let_def head_def[symmetric] run_def[symmetric]
    by (simp add: stringField_def split: option.split)
  have "k \<noteq> ''payload''" "k \<noteq> ''runtime_run_id''" "stringField head k = stringArg args k"
    if "k \<in> {''action'', ''runner_id'', ''event'', ''verdict'', ''reason''}"
    using that by (auto simp: head_def stringField_Cons)
  then show "stringField (lifecycle_event c args t) k = stringArg args k"
    if "k \<in> {''action'', ''runner_id'', ''event'', ''verdict'', ''reason''}" using event that by simp
  have "mapArg head ''payload'' = None" by (simp add: head_def mapArg_Cons) (simp add: mapArg_def)
  then show "mapArg (lifecycle_event c args t) ''payload'' = mapArg args ''payload''"
    unfolding lifecycle_event_def Let_def head_def[symmetric] run_def[symmetric]
    by (cases "mapArg args ''payload''") (simp_all add: mapArg_def)
qed

lemma transition_event:
  assumes "action \<in> {''cancel'', ''requeue''}"
  shows "records_transition c args action (lifecycle_event c (transition_event_args c args action event) t)"
proof -
  let ?args = "transition_event_args c args action event"
  have "stringArg ?args ''action'' = action" "stringArg ?args ''reason'' = stringArg args ''reason''"
    "stringArg ?args ''runner_id'' = stringArg args ''runner_id''"
    using assms
    by (auto simp: transition_event_args_def Let_def stringArg_field stringField_Cons plain_char_def)
  moreover have "mapArg ?args ''payload'' = Some (case mapArg c ''lease'' of
        None \<Rightarrow> [(''previous_state'', GStr (stringField c ''state''))]
      | Some lease \<Rightarrow> put ''previous_lease'' (GMap lease) [(''previous_state'', GStr (stringField c ''state''))])"
    by (simp add: transition_event_args_def Let_def mapArg_Cons)
  ultimately show ?thesis
    by (simp add: records_transition_def lifecycle_event_fields stringField_Cons mapArg_Cons split: option.split)
      (simp add: mapArg_def)
qed

lemma cancelled_exact:
  "same_except {''state'', ''lease'', ''events''} c (cancelled env args c)"
  "map_of (cancelled env args c) ''lease'' = None"
  "\<exists>e. stored_events (cancelled env args c) = stored_events c @ [GMap e] \<and> records_transition c args ''cancel'' e"
proof -
  have "same_except {''state'', ''lease'', ''events''} c (appendCancelLifecycleEvent c args (env_event env))"
    unfolding appendCancelLifecycleEvent_def by (rule same_except_mono[OF append_event_frame]) simp
  then show "same_except {''state'', ''lease'', ''events''} c (cancelled env args c)"
    by (auto simp: cancelled_def intro!: same_except_put same_except_del)
qed (use transition_event[of "''cancel''" c args] in
  \<open>auto simp: cancelled_def cancelWorkCommissionTransition_def appendCancelLifecycleEvent_def\<close>)

lemma requeued_exact:
  "same_except {''state'', ''lease'', ''events'', ''fetched_at''} c (requeued env args c)"
  "map_of (requeued env args c) ''lease'' = None"
  "map_of (requeued env args c) ''fetched_at'' = Some (GStr (format_rfc3339 (env_now env)))"
  "\<exists>e. stored_events (requeued env args c) = stored_events c @ [GMap e] \<and> records_transition c args ''requeue'' e"
proof -
  have "same_except {''state'', ''lease'', ''events'', ''fetched_at''} c (appendRequeueLifecycleEvent c args (env_event env))"
    unfolding appendRequeueLifecycleEvent_def by (rule same_except_mono[OF append_event_frame]) simp
  then show "same_except {''state'', ''lease'', ''events'', ''fetched_at''} c (requeued env args c)"
    by (auto simp: requeued_def Let_def intro!: same_except_put same_except_del)
qed (use transition_event[of "''requeue''" c args] in
  \<open>auto simp: requeued_def requeueWorkCommissionTransition_def appendRequeueLifecycleEvent_def Let_def\<close>)

text \<open>
  What a cancel does. It succeeds exactly on a stored commission of a known state that is not
  terminal, with a reason; then the commission is cancelled, holds no lease, and its log ends with
  the event that records the reason, the runner, the previous state and the previous lease; the
  rest of it and every other commission are unchanged. Otherwise it is an error and nothing
  changes.
\<close>

theorem cancel_effect:
  assumes "store_ok store"
  shows "case view store (stringArg args ''commission_id'') of
      None \<Rightarrow> \<exists>e. cancelWorkCommission env args store = (Inl e, store)
    | Some c \<Rightarrow>
        if IsKnownState (stringField c ''state'') \<and> \<not> IsTerminalState (stringField c ''state'')
           \<and> stringArg args ''reason'' \<noteq> []
        then \<exists>c' e. fst (cancelWorkCommission env args store) = Inr (commissionResponse ''commission'' (GMap c'))
               \<and> view (snd (cancelWorkCommission env args store))
                   = (view store)(stringArg args ''commission_id'' \<mapsto> json_norm_payload c')
               \<and> same_except {''state'', ''lease'', ''events''} c c'
               \<and> stringField c' ''state'' = StateCancelled \<and> map_of c' ''lease'' = None
               \<and> stored_events c' = stored_events c @ [GMap e] \<and> records_transition c args ''cancel'' e
        else \<exists>e. cancelWorkCommission env args store = (Inl e, store)"
proof (cases "view store (stringArg args ''commission_id'')")
  case None
  then show ?thesis using cancel.refused[OF assms refl, of args env] by simp
next
  case (Some c)
  show ?thesis
  proof (cases "ensureWorkCommissionTransition c args cancelWorkCommissionTransition (env_now env) = Inr ()")
    case True
    then show ?thesis
      using Some cancel.accepted(1,2)[OF assms refl Some True] cancelled_exact[where c = c and env = env and args = args] cancelled_effect(2)[where c = c and env = env and args = args]
      unfolding cancel_guard by auto
  next
    case False
    then have "\<exists>e. cancelWorkCommission env args store = (Inl e, store)"
      using Some cancel.refused[OF assms refl, of args env] by simp
    then show ?thesis using False Some unfolding cancel_guard by auto
  qed
qed

theorem cancel_effect_witness:
  "\<exists>c. view (snd (cancelWorkCommission example_env
      [(''commission_id'', GStr ''wc-2''), (''reason'', GStr ''obsolete'')] example_store)) ''wc-2'' = Some c
      \<and> stringField c ''state'' = StateCancelled"
proof -
  let ?args = "[(''commission_id'', GStr ''wc-2''), (''reason'', GStr ''obsolete'')]"
  obtain c where c: "view example_store ''wc-2'' = Some c" "stringField c ''state'' = ''queued''"
    using example_queued by blast
  have args: "stringArg ?args ''commission_id'' = ''wc-2''" "stringArg ?args ''reason'' = ''obsolete''"
    by (simp_all add: stringArg_def plain_char_def)
  have "IsKnownState ''queued''" "\<not> IsTerminalState ''queued''"
    by (simp_all add: state_tests state_sets plain_char_def)
  then show ?thesis
    using cancel_effect[OF example_store_ok, where args = ?args and env = example_env] c unfolding args by auto
qed

text \<open>
  What a requeue does. It succeeds exactly on a stored commission in a recoverable state that
  has not expired, with a reason; then the commission is queued again with a fresh fetch time and
  no lease, and its log ends with the event of the transition. Otherwise nothing changes.
\<close>

theorem requeue_effect:
  assumes "store_ok store"
  shows "case view store (stringArg args ''commission_id'') of
      None \<Rightarrow> \<exists>e. requeueWorkCommission env args store = (Inl e, store)
    | Some c \<Rightarrow>
        if IsRecoverableState (stringField c ''state'') \<and> \<not> workCommissionExpired c (env_now env)
           \<and> stringArg args ''reason'' \<noteq> []
        then \<exists>c' e. fst (requeueWorkCommission env args store) = Inr (commissionResponse ''commission'' (GMap c'))
               \<and> view (snd (requeueWorkCommission env args store))
                   = (view store)(stringArg args ''commission_id'' \<mapsto> json_norm_payload c')
               \<and> same_except {''state'', ''lease'', ''events'', ''fetched_at''} c c'
               \<and> stringField c' ''state'' = StateQueued \<and> map_of c' ''lease'' = None
               \<and> map_of c' ''fetched_at'' = Some (GStr (format_rfc3339 (env_now env)))
               \<and> stored_events c' = stored_events c @ [GMap e] \<and> records_transition c args ''requeue'' e
        else \<exists>e. requeueWorkCommission env args store = (Inl e, store)"
proof (cases "view store (stringArg args ''commission_id'')")
  case None
  then show ?thesis using requeue.refused[OF assms refl, of args env] by simp
next
  case (Some c)
  show ?thesis
  proof (cases "ensureWorkCommissionTransition c args requeueWorkCommissionTransition (env_now env) = Inr ()")
    case True
    obtain e where e: "stored_events (requeued env args c) = stored_events c @ [GMap e]"
      "records_transition c args ''requeue'' e"
      using requeued_exact(4) by blast
    note written = requeue.accepted(1,2)[OF assms refl Some True] requeued_exact(1) requeued_effect(2)
      requeued_exact(2,3) e
    have "\<exists>c' e. fst (requeueWorkCommission env args store) = Inr (commissionResponse ''commission'' (GMap c'))
               \<and> view (snd (requeueWorkCommission env args store))
                   = (view store)(stringArg args ''commission_id'' \<mapsto> json_norm_payload c')
               \<and> same_except {''state'', ''lease'', ''events'', ''fetched_at''} c c'
               \<and> stringField c' ''state'' = StateQueued \<and> map_of c' ''lease'' = None
               \<and> map_of c' ''fetched_at'' = Some (GStr (format_rfc3339 (env_now env)))
               \<and> stored_events c' = stored_events c @ [GMap e] \<and> records_transition c args ''requeue'' e"
      by (intro exI[of _ "requeued env args c"] exI[of _ e] conjI) (fact written)+
    moreover have "IsRecoverableState (stringField c ''state'') \<and> \<not> workCommissionExpired c (env_now env)
        \<and> stringArg args ''reason'' \<noteq> []"
      using True unfolding requeue_guard by blast
    ultimately show ?thesis unfolding Some option.case by (simp only: if_True simp_thms)
  next
    case False
    then have "\<exists>e. requeueWorkCommission env args store = (Inl e, store)"
      using Some requeue.refused[OF assms refl, of args env] by simp
    then show ?thesis using False Some unfolding requeue_guard by auto
  qed
qed

theorem requeue_effect_witness:
  "\<exists>e. requeueWorkCommission example_env
      [(''commission_id'', GStr ''wc-1''), (''reason'', GStr ''again'')] example_store = (Inl e, example_store)"
proof -
  let ?args = "[(''commission_id'', GStr ''wc-1''), (''reason'', GStr ''again'')]"
  obtain c where c: "view example_store ''wc-1'' = Some c" "stringField c ''state'' = ''cancelled''"
    using example_view by blast
  have args: "stringArg ?args ''commission_id'' = ''wc-1''" by (simp add: stringArg_def plain_char_def)
  have "\<not> IsRecoverableState ''cancelled''" by (simp add: state_tests state_sets plain_char_def)
  then show ?thesis using requeue_effect[OF example_store_ok, where args = ?args and env = example_env] c unfolding args by auto
qed

section \<open>Claims\<close>

lemma claim_outcome:
  assumes "store_ok store" "commissionLeaseAgeCap args = Inr cap"
  shows "case selectWorkCommissionForClaimWithLeaseCap (env_gates env) (commissions store) args (env_now env) cap of
      Inl e \<Rightarrow> claimWorkCommissionForPreflight env args store = (Inl e, store)
    | Inr c \<Rightarrow>
        if list_ex (workCommissionLocksetConflicts c) (commissions store)
        then claimWorkCommissionForPreflight env args store = (Inl ''commission_lock_conflict'', store)
        else \<exists>c'. fst (claimWorkCommissionForPreflight env args store) = Inr (commissionResponse ''commission'' (GMap c'))
               \<and> view (snd (claimWorkCommissionForPreflight env args store))
                   = (view store)(stringField c ''id'' \<mapsto> json_norm_payload c')
               \<and> same_except {''state'', ''lease''} c c' \<and> stringField c' ''state'' = StatePreflighting
               \<and> (case mapArg c' ''lease'' of
                    None \<Rightarrow> False
                  | Some lease \<Rightarrow> stringField lease ''claimed_at'' = trim_space (format_rfc3339 (env_now env))
                      \<and> stringField lease ''runner_id''
                          = (if stringArg args ''runner_id'' = [] then ''haft'' else stringArg args ''runner_id''))"
proof (cases "selectWorkCommissionForClaimWithLeaseCap (env_gates env) (commissions store) args (env_now env) cap")
  case (Inl e)
  then show ?thesis using assms load_ok(2)[OF assms(1)] by (simp add: claimWorkCommissionForPreflight_def)
next
  case (Inr c)
  note load = load_ok(2)[OF assms(1)]
  show ?thesis
  proof (cases "list_ex (workCommissionLocksetConflicts c) (commissions store)")
    case True
    then show ?thesis
      using Inr assms load by (simp add: claimWorkCommissionForPreflight_def ensureWorkCommissionLocksetAvailable_def)
  next
    case False
    let ?c = "claimed env args c" and ?r = "Inr (commissionResponse ''commission'' (GMap (claimed env args c)))"
    have stored: "view store (stringField c ''id'') = Some c"
      using select_Inr(1)[OF Inr] mem_commissions[OF assms(1)] by simp
    have "IsRunnableState (stringField c ''state'')"
      using select_Inr(2)[OF Inr]
      by (simp add: workCommissionRunnableForRequestWithLeaseCap_def workCommissionRunnable_iff)
    note ev = claimed_evolves[OF view_Some(3)[OF stored assms(1)] this]
    have "claimWorkCommissionForPreflight env args store = commit_commission ?c store ?r"
      using Inr assms load False
      by (simp add: claimWorkCommissionForPreflight_def ensureWorkCommissionLocksetAvailable_def Let_def)
    then have "fst (claimWorkCommissionForPreflight env args store) = ?r"
      "view (snd (claimWorkCommissionForPreflight env args store)) = (view store)(stringField c ''id'' \<mapsto> json_norm_payload ?c)"
      using commit_changes(2,3)[OF assms(1) stored ev(2) ev(1)] by simp_all
    moreover have "mapArg ?c ''lease'' = Some [(''runner_id'', GStr (if stringArg args ''runner_id'' = [] then ''haft'' else stringArg args ''runner_id'')),
        (''state'', GStr ''claimed_for_preflight''), (''claimed_at'', GStr (format_rfc3339 (env_now env)))]"
      by (simp add: claimed_def Let_def)
    ultimately show ?thesis
      using Inr False claimed_effect[where c = c and env = env and args = args]
      by (auto simp: stringField_Cons plain_char_def)
  qed
qed

text \<open>
  C10. What a claim does, for a sound lease cap. It fails and changes nothing when the selection
  fails, or when the selected commission clashes with an executing one; it does not look for
  another candidate then. Otherwise the selected commission is preflighting under the lease of
  the runner, taken now, and nothing else changes.
\<close>

theorem claim_effect:
  assumes "store_ok store" "commissionLeaseAgeCap args = Inr cap"
  shows "case selectWorkCommissionForClaimWithLeaseCap (env_gates env) (commissions store) args (env_now env) cap of
      Inl e \<Rightarrow> claimWorkCommissionForPreflight env args store = (Inl e, store)
    | Inr c \<Rightarrow>
        if list_ex (workCommissionLocksetConflicts c) (commissions store)
        then claimWorkCommissionForPreflight env args store = (Inl ''commission_lock_conflict'', store)
        else \<exists>c'. fst (claimWorkCommissionForPreflight env args store) = Inr (commissionResponse ''commission'' (GMap c'))
               \<and> view (snd (claimWorkCommissionForPreflight env args store))
                   = (view store)(stringField c ''id'' \<mapsto> json_norm_payload c')
               \<and> same_except {''state'', ''lease''} c c' \<and> stringField c' ''state'' = StatePreflighting
               \<and> (case mapArg c' ''lease'' of
                    None \<Rightarrow> False
                  | Some lease \<Rightarrow> stringField lease ''claimed_at'' = trim_space (format_rfc3339 (env_now env))
                      \<and> stringField lease ''runner_id''
                          = (if stringArg args ''runner_id'' = [] then ''haft'' else stringArg args ''runner_id''))"
  by (rule claim_outcome[OF assms])

theorem claim_effect_witness:
  "(\<exists>e. claimWorkCommissionForPreflight example_env claim_args example_store = (Inl e, example_store))
   \<or> (\<exists>c. fst (claimWorkCommissionForPreflight example_env claim_args example_store)
            = Inr (commissionResponse ''commission'' (GMap c)) \<and> stringField c ''state'' = StatePreflighting)"
proof -
  have "commissionLeaseAgeCap claim_args = Inr defaultCommissionLeaseAgeCap"
    by (simp add: commissionLeaseAgeCap_def claim_args_def stringField_def)
  from claim_effect[OF example_store_ok this, of example_env]
  show ?thesis by (auto split: sum.splits if_splits)
qed

text \<open>
  C15. What the listing a drain reads says about the next claim, made on the same store at the same
  time without an id. The runnable commissions it lists are the stored ones a claim may select, in
  order. When there is none the claim fails and changes nothing. Otherwise the claim is decided by the
  first one listed alone: it is taken, unless its locks clash with those of an executing commission;
  then the claim fails with a lock conflict, whatever else is listed.
\<close>

theorem drain_agrees_with_claim:
  assumes "store_ok store" "commissionLeaseAgeCap args = Inr cap" "stringArg args ''commission_id'' = []"
  shows "case runnableAndSkippedWorkCommissions (env_gates env) (commissions store) args (env_now env) cap of
    (run, skipped) \<Rightarrow>
      fst (listRunnableWorkCommissions env args store) =
        Inr (commissionResponseMap [(''commissions'', commission_list run), (''skipped'', commission_list skipped)])
      \<and> run = filter (\<lambda>c. workCommissionRunnableForRequestWithLeaseCap (env_gates env) c (commissions store) args
                         (env_now env) cap) (commissions store)
      \<and> (case run of
           [] \<Rightarrow> isl (fst (claimWorkCommissionForPreflight env args store))
                \<and> snd (claimWorkCommissionForPreflight env args store) = store
         | c # _ \<Rightarrow>
             if list_ex (workCommissionLocksetConflicts c) (commissions store)
             then claimWorkCommissionForPreflight env args store = (Inl ''commission_lock_conflict'', store)
             else \<not> isl (fst (claimWorkCommissionForPreflight env args store))
                  \<and> map_option (\<lambda>c'. stringField c' ''state'')
                      (view (snd (claimWorkCommissionForPreflight env args store)) (stringField c ''id''))
                    = Some StatePreflighting)"
proof -
  let ?run = "filter (\<lambda>c. workCommissionRunnableForRequestWithLeaseCap (env_gates env) c (commissions store) args
    (env_now env) cap) (commissions store)"
  let ?sel = "selectWorkCommissionForClaimWithLeaseCap (env_gates env) (commissions store) args (env_now env) cap"
  have sel: "case ?run of [] \<Rightarrow> isl ?sel | c # _ \<Rightarrow> ?sel = Inr c"
    unfolding selectWorkCommissionForClaimWithLeaseCap_def by (rule select_first[OF assms(3)])
  have listing: "case runnableAndSkippedWorkCommissions (env_gates env) (commissions store) args (env_now env) cap of
      (run, skipped) \<Rightarrow> run = ?run \<and> fst (listRunnableWorkCommissions env args store) =
        Inr (commissionResponseMap [(''commissions'', commission_list run), (''skipped'', commission_list skipped)])"
    using load_ok(1)[OF assms(1)] assms(2)
    by (simp add: runnableAndSkippedWorkCommissions_def runnableAndSkipped_loop_eq listRunnableWorkCommissions_def)
  have "case ?run of
      [] \<Rightarrow> isl (fst (claimWorkCommissionForPreflight env args store))
           \<and> snd (claimWorkCommissionForPreflight env args store) = store
    | c # _ \<Rightarrow>
        if list_ex (workCommissionLocksetConflicts c) (commissions store)
        then claimWorkCommissionForPreflight env args store = (Inl ''commission_lock_conflict'', store)
        else \<not> isl (fst (claimWorkCommissionForPreflight env args store))
             \<and> map_option (\<lambda>c'. stringField c' ''state'')
                 (view (snd (claimWorkCommissionForPreflight env args store)) (stringField c ''id''))
               = Some StatePreflighting"
  proof (cases ?run)
    case Nil
    then obtain e where "?sel = Inl e" using sel by (cases ?sel) auto
    then show ?thesis using Nil claim_outcome[OF assms(1,2), of env] by simp
  next
    case (Cons c cs)
    then have "?sel = Inr c" using sel by simp
    then show ?thesis using Cons claim_outcome[OF assms(1,2), of env] by auto
  qed
  then show ?thesis using listing by (auto split: prod.splits)
qed

theorem drain_agrees_with_claim_witness:
  "\<exists>run skipped. fst (listRunnableWorkCommissions example_env claim_args example_store) =
     Inr (commissionResponseMap [(''commissions'', commission_list run), (''skipped'', commission_list skipped)])"
proof -
  have "commissionLeaseAgeCap claim_args = Inr defaultCommissionLeaseAgeCap"
    "stringArg claim_args ''commission_id'' = []"
    by (simp_all add: commissionLeaseAgeCap_def claim_args_def stringField_def stringArg_def)
  from drain_agrees_with_claim[OF example_store_ok this, of example_env]
  show ?thesis by (auto split: prod.splits)
qed

end
