(* ===== verification/TacticalOverride.thy ===== *)
theory TacticalOverride
  imports CommissionSystem
begin

text \<open>
  A run out of the specification (\<open>internal/cli/harness.go\<close>): whether the project is ready for a
  run, which commissions a run selects, and the record it leaves in them when the operator runs it
  although the project is not ready. This is the one writer of commissions beside the tool.
\<close>

section \<open>Readiness\<close>

datatype Readiness = ReadinessReady | ReadinessNeedsInit | ReadinessNeedsOnboard | ReadinessMissing

definition readiness_text :: "Readiness \<Rightarrow> string" where
  "readiness_text r =
     (case r of ReadinessReady \<Rightarrow> ''ready'' | ReadinessNeedsInit \<Rightarrow> ''needs_init''
      | ReadinessNeedsOnboard \<Rightarrow> ''needs_onboard'' | ReadinessMissing \<Rightarrow> ''missing'')"

datatype harnessRunReadinessKind =
  harnessRunReadinessAdmissible | harnessRunReadinessBlocked | harnessRunReadinessTacticalAllowed

record harnessRunReadinessGate =
  rg_Kind :: harnessRunReadinessKind
  rg_ProjectStatus :: Readiness
  rg_BlockReason :: string
  rg_OverrideReason :: string

text \<open>The status is one of the four the inspection yields, so the switch needs no default.\<close>

definition harnessRunReadinessBlockReason :: "Readiness \<Rightarrow> string" where
  "harnessRunReadinessBlockReason status =
     (case status of
        ReadinessReady \<Rightarrow> []
      | ReadinessNeedsInit \<Rightarrow>
          ''haft harness run blocked: project readiness is needs_init; run `haft init` before harness execution.''
      | ReadinessNeedsOnboard \<Rightarrow>
          ''haft harness run blocked: project readiness is needs_onboard; .haft exists but the ''
          @ ''ProjectSpecificationSet is missing or incomplete. Run onboarding and `haft spec check`, or pass ''
          @ ''`--force-skip-specs '' @ [CHR 0x22] @ ''...'' @ [CHR 0x22, CHR 0x60]
          @ '' to record out-of-spec tactical WorkCommissions.''
      | ReadinessMissing \<Rightarrow>
          ''haft harness run blocked: project readiness is missing; select an existing project before harness execution.'')"

definition harnessRunReadinessGateFor :: "Readiness \<Rightarrow> string \<Rightarrow> harnessRunReadinessGate" where
  "harnessRunReadinessGateFor status tacticalReason =
     (let reason = harnessRunReadinessBlockReason status; cleanReason = trim_space tacticalReason
      in if reason = []
         then \<lparr>rg_Kind = harnessRunReadinessAdmissible, rg_ProjectStatus = status,
               rg_BlockReason = [], rg_OverrideReason = []\<rparr>
         else if status = ReadinessNeedsOnboard \<and> cleanReason \<noteq> []
         then \<lparr>rg_Kind = harnessRunReadinessTacticalAllowed, rg_ProjectStatus = status,
               rg_BlockReason = reason, rg_OverrideReason = cleanReason\<rparr>
         else \<lparr>rg_Kind = harnessRunReadinessBlocked, rg_ProjectStatus = status,
               rg_BlockReason = reason, rg_OverrideReason = []\<rparr>)"

section \<open>The selected commissions\<close>

definition uniqueStringsPreserveOrder :: "string list \<Rightarrow> string list" where
  "uniqueStringsPreserveOrder values = dedup_from {} (clean_strings values)"

record harnessRunSelection =
  sel_CommissionIDs :: "string list"
  sel_DecisionRefs :: "string list"
  sel_PlanRef :: string

definition harnessRunSelectionFromCommissions :: "commission list \<Rightarrow> harnessRunSelection" where
  "harnessRunSelectionFromCommissions selected =
     \<lparr>sel_CommissionIDs = uniqueStringsPreserveOrder (cleanStringSlice (map (\<lambda>c. stringField c ''id'') selected)),
      sel_DecisionRefs = uniqueStringsPreserveOrder (cleanStringSlice (map (\<lambda>c. stringField c ''decision_ref'') selected)),
      sel_PlanRef = trim_space (fold (\<lambda>c planRef. if planRef = [] then stringField c ''implementation_plan_ref'' else planRef)
        selected [])\<rparr>"

section \<open>The record of a run out of the specification\<close>

definition harnessRunSpecReadinessOverride :: "harnessRunReadinessGate \<Rightarrow> payload option" where
  "harnessRunSpecReadinessOverride gate =
     (if rg_Kind gate \<noteq> harnessRunReadinessTacticalAllowed then None
      else Some [(''kind'', GStr ''tactical''), (''out_of_spec'', GBool True),
                 (''project_readiness'', GStr (readiness_text (rg_ProjectStatus gate))),
                 (''reason'', GStr (rg_OverrideReason gate))])"

definition tactical_event :: "harnessRunReadinessGate \<Rightarrow> payload \<Rightarrow> payload" where
  "tactical_event gate override =
     [(''event'', GStr ''tactical_override''), (''runner_id'', GStr ''haft-cli''),
      (''reason'', GStr (rg_OverrideReason gate)), (''payload'', GMap (copyStringAnyMap override))]"

definition overridden :: "Env \<Rightarrow> harnessRunReadinessGate \<Rightarrow> payload \<Rightarrow> commission \<Rightarrow> commission" where
  "overridden env gate override commission =
     appendLifecycleEvent (withCommissionSpecReadinessOverride commission override (env_now env))
       (tactical_event gate override) (env_event env)"

text \<open>One transaction: an error undoes the commissions recorded before it.\<close>

fun override_loop :: "Env \<Rightarrow> harnessRunReadinessGate \<Rightarrow> payload \<Rightarrow> string list \<Rightarrow> Store \<Rightarrow> Store result" where
  "override_loop env gate override [] store = Inr store"
| "override_loop env gate override (commissionID # commissionIDs) store =
     (case loadWorkCommissionPayloadForUpdate store commissionID of
        Inl e \<Rightarrow> Inl e
      | Inr commission \<Rightarrow>
          (case updateWorkCommissionPayload (overridden env gate override commission) store of
             Inl e \<Rightarrow> Inl e
           | Inr store' \<Rightarrow> override_loop env gate override commissionIDs store'))"

definition recordHarnessRunTacticalOverride ::
  "Env \<Rightarrow> harnessRunSelection \<Rightarrow> harnessRunReadinessGate \<Rightarrow> Store \<Rightarrow> unit result \<times> Store"
where
  "recordHarnessRunTacticalOverride env selection gate store =
     (case harnessRunSpecReadinessOverride gate of
        None \<Rightarrow> (Inr (), store)
      | Some override \<Rightarrow>
          if length (sel_CommissionIDs selection) = 0 then (Inr (), store)
          else (case override_loop env gate override (sel_CommissionIDs selection) store of
              Inl e \<Rightarrow> (Inl e, store)
            | Inr store' \<Rightarrow> (Inr (), store')))"

section \<open>What the record leaves alone\<close>

definition override_keys :: "string set" where
  "override_keys = {''spec_readiness_override'', ''events''}"

lemma overridden_frame: "same_except override_keys c (overridden env gate override c)"
proof -
  have "same_except override_keys c (withCommissionSpecReadinessOverride c override (env_now env))"
    by (simp add: withCommissionSpecReadinessOverride_def Let_def same_except_put override_keys_def)
  then show ?thesis unfolding overridden_def
    by (rule same_except_trans[OF _ append_event_frame]) (auto simp: override_keys_def)
qed

lemma overridden_events:
  "\<exists>e. stored_events (overridden env gate override c) = stored_events c @ [e]"
  by (simp add: overridden_def withCommissionSpecReadinessOverride_def Let_def)

text \<open>
  What a marked commission keeps: everything but the record and the log, and the log up to new
  events of this kind.
\<close>

definition tactical_mark :: "gval \<Rightarrow> bool" where
  "tactical_mark e = (case e of GMap m \<Rightarrow> stringField m ''event'' = ''tactical_override'' | _ \<Rightarrow> False)"

definition marked :: "commission \<Rightarrow> commission \<Rightarrow> bool" where
  "marked c c' \<longleftrightarrow>
     same_except override_keys c c' \<and> prefix (stored_events c) (stored_events c')
     \<and> list_all tactical_mark (drop (length (stored_events c)) (stored_events c'))"

definition marks :: "Store \<Rightarrow> Store \<Rightarrow> bool" where
  "marks store store' \<longleftrightarrow> store_ok store' \<and> (\<forall>i. rel_option marked (view store i) (view store' i))"

lemma marked_refl [simp]: "marked c c"
  by (simp add: marked_def same_except_def)

lemma marked_trans:
  assumes "marked a b" "marked b c"
  shows "marked a c"
proof -
  obtain es where es: "stored_events b = stored_events a @ es" using assms(1) by (auto simp: marked_def prefix_def)
  obtain fs where fs: "stored_events c = stored_events b @ fs" using assms(2) by (auto simp: marked_def prefix_def)
  have "same_except override_keys a c"
    using assms by (auto simp: marked_def intro: same_except_trans[OF _ _ subset_refl subset_refl])
  then show ?thesis using assms es fs by (simp add: marked_def)
qed

lemma marks_refl: "store_ok store \<Longrightarrow> marks store store"
  by (simp add: marks_def option.rel_refl)

lemma marks_trans: "marks s1 s2 \<Longrightarrow> marks s2 s3 \<Longrightarrow> marks s1 s3"
  unfolding marks_def by (metis (no_types, lifting) marked_trans option.rel_cases option.rel_inject(2) option.rel_distinct(1,2) rel_option_None1)

lemma overridden_event:
  "stored_events (overridden env gate override c) = stored_events c @
     [GMap (lifecycle_event (withCommissionSpecReadinessOverride c override (env_now env)) (tactical_event gate override) (env_event env))]"
  by (simp add: overridden_def withCommissionSpecReadinessOverride_def Let_def)

lemma overridden_marked:
  assumes "json_norm_payload c = c"
  shows "marked c (json_norm_payload (overridden env gate override c))"
proof -
  note ev = stored_events_norm_append[OF assms overridden_event]
  have event: "stringField (lifecycle_event d (tactical_event gate override) t) ''event'' = ''tactical_override''" for d t
    by (simp add: lifecycle_event_def tactical_event_def Let_def stringArg_def stringField_def plain_char_def split: option.split)
  have "tactical_mark (json_norm (GMap m)) \<longleftrightarrow> stringField m ''event'' = ''tactical_override''" for m
    using stringField_norm[of m "''event''"] by (simp add: tactical_mark_def json_norm_payload_def)
  then show ?thesis
    using norm_frame[OF assms overridden_frame] event by (simp add: marked_def ev del: json_norm.simps)
qed

lemma override_loop_marks:
  "override_loop env gate override ids store = Inr store' \<Longrightarrow> store_ok store \<Longrightarrow> marks store store'"
proof (induction ids arbitrary: store)
  case (Cons x ids)
  obtain c where "loadWorkCommissionPayloadForUpdate store x = Inr c"
    using Cons.prems(1) by (auto split: sum.splits)
  then have c: "view store x = Some c"
    using view_None[of store x] view_Some(6)[OF _ Cons.prems(2)] by (cases "view store x") auto
  note ok = view_Some[OF c Cons.prems(2)]
  let ?c1 = "overridden env gate override c"
  have "stringField ?c1 ''id'' = x" "IsKnownState (stringField ?c1 ''state'')"
    using same_except_field(1)[OF overridden_frame, of "''id''"] same_except_field(1)[OF overridden_frame, of "''state''"]
      ok(1,2) by (simp_all add: override_keys_def)
  then obtain s1 where s1: "updateWorkCommissionPayload ?c1 store = Inr s1" "store_ok s1"
    "view s1 = (view store)(x \<mapsto> json_norm_payload ?c1)"
    using update_view[OF Cons.prems(2) c] by blast
  have "marks store s1"
    using s1(2,3) c overridden_marked[OF ok(3)] by (simp add: marks_def option.rel_refl)
  moreover have "override_loop env gate override ids s1 = Inr store'" using Cons.prems(1) ok(6) s1(1) by simp
  ultimately show ?case using Cons.IH s1(2) marks_trans by blast
qed (simp add: marks_refl)

lemma record_marks:
  assumes "store_ok store"
  shows "marks store (snd (recordHarnessRunTacticalOverride env selection gate store))"
  using assms override_loop_marks[OF _ assms] marks_refl[OF assms]
  by (simp add: recordHarnessRunTacticalOverride_def split: option.split sum.split)

end
