(* ===== verification/ArtifactRefresh.thy ===== *)
theory ArtifactRefresh
  imports CommissionSystem
begin

text \<open>
  The writers that rewrite an artifact of any kind, commissions included: the waiver, the
  supersession and the deprecation of \<open>internal/artifact/refresh.go\<close>, and the import of a markdown
  file of \<open>internal/cli/sync.go\<close>. Reading and writing back is one step here. The YAML of a file is
  decoded by a library, so the import gets the decoded header with the body; the columns mode,
  context and the two time stamps are not in the model of a row, so whether the file is newer than
  the row is an argument, and the markdown copies these operations write beside the database are
  left out.
\<close>

section \<open>The table\<close>

definition store_update :: "Artifact \<Rightarrow> Store \<Rightarrow> Store result" where
  "store_update a store =
     (if \<not> list_ex (\<lambda>row. art_id row = art_id a) (st_artifacts store)
      then Inl (''artifact '' @ art_id a @ '' not found'')
      else Inr (store\<lparr>st_artifacts :=
          map (\<lambda>row. if art_id row = art_id a
                then a\<lparr>art_version := art_version a + 1, art_links := art_links row\<rparr> else row)
            (st_artifacts store)\<rparr>))"

text \<open>
  The links are kept with their source row: one whose source is no artifact, which the database
  stores without a check, is dropped.
\<close>

definition AddLink :: "string \<Rightarrow> string \<Rightarrow> string \<Rightarrow> Store \<Rightarrow> Store" where
  "AddLink sourceID targetID linkType store =
     store\<lparr>st_artifacts :=
       map (\<lambda>row. if art_id row = sourceID \<and> \<lparr>lk_ref = targetID, lk_type = linkType\<rparr> \<notin> set (art_links row)
             then row\<lparr>art_links := art_links row @ [\<lparr>lk_ref = targetID, lk_type = linkType\<rparr>]\<rparr> else row)
         (st_artifacts store)\<rparr>"

section \<open>Waiver, supersession, deprecation\<close>

abbreviation "newline \<equiv> CHR 0x0A"

text \<open>\<open>Format("2006-01-02")\<close>.\<close>

definition format_date :: "Time \<Rightarrow> string" where
  "format_date t =
     (case civil_from_days ((tm_sec t + tm_off t) div 86400) of
        (y, m, d) \<Rightarrow> append_int 4 y @ ''-'' @ append_int 2 m @ ''-'' @ append_int 2 d)"

definition BuildWaiverSection :: "Time \<Rightarrow> string \<Rightarrow> string \<Rightarrow> string \<Rightarrow> string" where
  "BuildWaiverSection now newValidUntil reason evidence =
     [newline] @ ''## Waiver ('' @ format_date now @ '')'' @ [newline, newline] @
     ''**Extended until:** '' @ newValidUntil @ [newline] @
     ''**Reason:** '' @ reason @ [newline] @
     (if evidence \<noteq> [] then ''**Evidence:** '' @ evidence @ [newline] else [])"

definition WaiveArtifact ::
  "Time \<Rightarrow> string \<Rightarrow> string \<Rightarrow> string \<Rightarrow> string \<Rightarrow> Store \<Rightarrow> Artifact result \<times> Store"
where
  "WaiveArtifact now artifactRef reason newValidUntil evidence store =
     (case store_get store artifactRef of
        Inl e \<Rightarrow> (Inl (''artifact '' @ artifactRef @ '' not found: '' @ e), store)
      | Inr a \<Rightarrow>
          (let newValidUntil = (if newValidUntil = [] then format_rfc3339 (Add now (90 * 24 * nano_hour)) else newValidUntil);
               a = a\<lparr>art_valid_until := newValidUntil, art_status := StatusActive,
                     art_body := art_body a @ BuildWaiverSection now newValidUntil reason evidence\<rparr>
           in case store_update a store of
                Inl e \<Rightarrow> (Inl (''update artifact: '' @ e), store)
              | Inr store' \<Rightarrow> (Inr (a\<lparr>art_version := art_version a + 1\<rparr>), store')))"

definition BuildSupersedeSection :: "Time \<Rightarrow> string \<Rightarrow> string \<Rightarrow> string" where
  "BuildSupersedeSection now newArtifactRef reason =
     [newline] @ ''## Superseded ('' @ format_date now @ '')'' @ [newline, newline] @
     ''**Replaced by:** '' @ newArtifactRef @ [newline] @ ''**Reason:** '' @ reason @ [newline]"

definition SupersedeArtifact ::
  "Time \<Rightarrow> string \<Rightarrow> string \<Rightarrow> string \<Rightarrow> Store \<Rightarrow> Artifact result \<times> Store"
where
  "SupersedeArtifact now artifactRef newArtifactRef reason store =
     (case store_get store artifactRef of
        Inl e \<Rightarrow> (Inl (''artifact '' @ artifactRef @ '' not found: '' @ e), store)
      | Inr a \<Rightarrow>
          (let a = a\<lparr>art_status := StatusSuperseded,
                     art_body := art_body a @ BuildSupersedeSection now newArtifactRef reason\<rparr>
           in case store_update a store of
                Inl e \<Rightarrow> (Inl (''update artifact: '' @ e), store)
              | Inr store' \<Rightarrow>
                  (Inr (a\<lparr>art_version := art_version a + 1\<rparr>),
                   if newArtifactRef \<noteq> [] then AddLink newArtifactRef artifactRef ''supersedes'' store' else store')))"

definition BuildDeprecateSection :: "Time \<Rightarrow> string \<Rightarrow> string" where
  "BuildDeprecateSection now reason =
     [newline] @ ''## Deprecated ('' @ format_date now @ '')'' @ [newline, newline] @
     ''**Reason:** '' @ reason @ [newline]"

definition DeprecateArtifact :: "Time \<Rightarrow> string \<Rightarrow> string \<Rightarrow> Store \<Rightarrow> Artifact result \<times> Store" where
  "DeprecateArtifact now artifactRef reason store =
     (case store_get store artifactRef of
        Inl e \<Rightarrow> (Inl (''artifact '' @ artifactRef @ '' not found: '' @ e), store)
      | Inr a \<Rightarrow>
          (let a = a\<lparr>art_status := StatusDeprecated, art_body := art_body a @ BuildDeprecateSection now reason\<rparr>
           in case store_update a store of
                Inl e \<Rightarrow> (Inl (''update artifact: '' @ e), store)
              | Inr store' \<Rightarrow> (Inr (a\<lparr>art_version := art_version a + 1\<rparr>), store')))"

section \<open>Import of a markdown file\<close>

record frontmatter =
  fm_ID :: string
  fm_Kind :: string
  fm_Version :: int
  fm_Status :: string
  fm_Title :: string
  fm_ValidUntil :: string
  fm_Links :: "Link list"

text \<open>The artifact of a file has no structured data: the header carries none.\<close>

definition synced_artifact :: "frontmatter \<Rightarrow> string \<Rightarrow> Artifact" where
  "synced_artifact fm body =
     \<lparr>art_id = fm_ID fm, art_kind = fm_Kind fm, art_version = fm_Version fm, art_status = fm_Status fm,
      art_title = fm_Title fm, art_body = body, art_valid_until = fm_ValidUntil fm,
      art_links = remdups (fm_Links fm), art_data = Text []\<rparr>"

definition sync_update :: "Artifact \<Rightarrow> Store \<Rightarrow> string result \<times> Store" where
  "sync_update art store =
     (case store_update art store of Inl e \<Rightarrow> (Inl e, store) | Inr store' \<Rightarrow> (Inr ''updated'', store'))"

text \<open>
  A creation fails only when the id is taken, which is the error the import answers with an update.
\<close>

definition syncOneFile ::
  "(Artifact \<Rightarrow> bool) \<Rightarrow> (frontmatter \<times> string) result \<Rightarrow> Store \<Rightarrow> string result \<times> Store"
where
  "syncOneFile file_is_newer parsed store =
     (case parsed of
        Inl e \<Rightarrow> (Inl (''parse frontmatter: '' @ e), store)
      | Inr (fm, body) \<Rightarrow>
          if fm_ID fm = [] \<or> fm_Kind fm = [] then (Inl ''missing id or kind in frontmatter'', store)
          else (let art = synced_artifact fm body
                in case store_get store (fm_ID fm) of
                     Inr existing \<Rightarrow>
                       if \<not> file_is_newer existing then (Inr ''unchanged'', store) else sync_update art store
                   | Inl _ \<Rightarrow>
                       (case store_create art store of
                          Inr store' \<Rightarrow> (Inr ''created'', store')
                        | Inl e \<Rightarrow> sync_update art store)))"

section \<open>What these writers do to the commissions\<close>

text \<open>A change of rows that keeps id, kind, title and structured data is not seen by the commissions.\<close>

lemma silent_rows:
  assumes "store_ok store"
    "\<And>row. row \<in> set (st_artifacts store) \<Longrightarrow>
       art_id (f row) = art_id row \<and> art_kind (f row) = art_kind row \<and> art_title (f row) = art_title row
       \<and> art_data (f row) = art_data row"
    "store' = store\<lparr>st_artifacts := map f (st_artifacts store)\<rparr>"
  shows "store_ok store'" "view store' = view store" "store_ids store' = store_ids store"
proof -
  have rows: "commission_rows store' = map f (commission_rows store)"
    using assms(2) unfolding assms(3) commission_rows_def
    by (simp add: filter_map comp_def cong: filter_cong)
  have row: "row_ok (f row) \<longleftrightarrow> row_ok row" "row_commission (f row) = row_commission row"
    if "row \<in> set (st_artifacts store)" for row
    using assms(2)[OF that] by (auto simp: row_ok_def row_commission_def split: StructuredData.split)
  show ids: "store_ids store' = store_ids store"
    using assms(2) by (simp add: store_ids_def assms(3))
  show "store_ok store'"
    using assms(1) row(1) unfolding store_ok_def ids rows by (auto simp: list_all_iff commission_rows_def)
  have "map_option row_commission (find (is_commission i) (map f rows))
      = map_option row_commission (find (is_commission i) rows)" if "set rows \<subseteq> set (st_artifacts store)" for i rows
    using that by (induction rows) (auto simp: is_commission_def assms(2) row(2))
  then show "view store' = view store" by (simp add: view_def fun_eq_iff assms(3))
qed

lemma store_get_row:
  assumes "store_get store i = Inr a"
  shows "a \<in> set (st_artifacts store)" "art_id a = i"
  using assms by (auto simp: store_get_def find_Some_iff split: option.splits)

lemma row_by_id:
  assumes "distinct (store_ids store)" "a \<in> set (st_artifacts store)" "row \<in> set (st_artifacts store)" "art_id row = art_id a"
  shows "row = a"
  using assms unfolding store_ids_def by (metis inj_onD distinct_map)

text \<open>An artifact written back with another body, status or deadline.\<close>

definition rewritten :: "Artifact \<Rightarrow> Artifact \<Rightarrow> bool" where
  "rewritten a b \<longleftrightarrow> art_id b = art_id a \<and> art_kind b = art_kind a \<and> art_title b = art_title a \<and> art_data b = art_data a"

lemma store_update_silent:
  assumes "store_ok store" "store_get store i = Inr a" "rewritten a b"
  obtains store' where "store_update b store = Inr store'" "store_ok store'" "view store' = view store"
    "store_ids store' = store_ids store"
proof -
  let ?f = "\<lambda>row. if art_id row = art_id b then b\<lparr>art_version := art_version b + 1, art_links := art_links row\<rparr> else row"
  let ?s = "store\<lparr>st_artifacts := map ?f (st_artifacts store)\<rparr>"
  note a = store_get_row[OF assms(2)]
  have id: "art_id b = art_id a" using assms(3) by (simp add: rewritten_def)
  have "list_ex (\<lambda>row. art_id row = art_id b) (st_artifacts store)"
    using a(1) id by (auto simp: list_ex_iff)
  then have "store_update b store = Inr ?s" by (simp add: store_update_def)
  moreover have "art_id (?f row) = art_id row \<and> art_kind (?f row) = art_kind row \<and> art_title (?f row) = art_title row
      \<and> art_data (?f row) = art_data row" if "row \<in> set (st_artifacts store)" for row
    using row_by_id[OF _ a(1) that] assms(1,3) by (auto simp: store_ok_def rewritten_def)
  ultimately show thesis using that silent_rows[OF assms(1), of ?f ?s] by blast
qed

lemma AddLink_silent:
  assumes "store_ok store"
  shows "store_ok (AddLink s t ty store)" "view (AddLink s t ty store) = view store"
  unfolding AddLink_def by (rule silent_rows[OF assms], auto)+

text \<open>
  Waiving, superseding or deprecating an artifact, a commission included, leaves every commission as
  it is: they read the payload, which these operations do not touch.
\<close>

lemma waive_silent:
  assumes "store_ok store"
  shows "store_ok (snd (WaiveArtifact now ref reason until evidence store))"
    "view (snd (WaiveArtifact now ref reason until evidence store)) = view store"
proof -
  have "store_ok s \<and> view s = view store" if "s = snd (WaiveArtifact now ref reason until evidence store)" for s
  proof (cases "store_get store ref")
    case (Inr a)
    let ?u = "if until = [] then format_rfc3339 (Add now (90 * 24 * nano_hour)) else until"
    let ?b = "a\<lparr>art_valid_until := ?u, art_status := StatusActive,
      art_body := art_body a @ BuildWaiverSection now ?u reason evidence\<rparr>"
    have "rewritten a ?b" by (simp add: rewritten_def)
    then obtain store' where "store_update ?b store = Inr store'" "store_ok store'" "view store' = view store"
      using store_update_silent[OF assms Inr] by blast
    then show ?thesis using that Inr by (simp add: WaiveArtifact_def Let_def)
  qed (use assms that in \<open>simp add: WaiveArtifact_def\<close>)
  then show "store_ok (snd (WaiveArtifact now ref reason until evidence store))"
    "view (snd (WaiveArtifact now ref reason until evidence store)) = view store" by blast+
qed

lemma supersede_silent:
  assumes "store_ok store"
  shows "store_ok (snd (SupersedeArtifact now ref new reason store))"
    "view (snd (SupersedeArtifact now ref new reason store)) = view store"
proof -
  have "store_ok s \<and> view s = view store" if "s = snd (SupersedeArtifact now ref new reason store)" for s
  proof (cases "store_get store ref")
    case (Inr a)
    let ?b = "a\<lparr>art_status := StatusSuperseded, art_body := art_body a @ BuildSupersedeSection now new reason\<rparr>"
    have "rewritten a ?b" by (simp add: rewritten_def)
    then obtain store' where "store_update ?b store = Inr store'" "store_ok store'" "view store' = view store"
      using store_update_silent[OF assms Inr] by blast
    then show ?thesis using that Inr AddLink_silent by (simp add: SupersedeArtifact_def Let_def)
  qed (use assms that in \<open>simp add: SupersedeArtifact_def\<close>)
  then show "store_ok (snd (SupersedeArtifact now ref new reason store))"
    "view (snd (SupersedeArtifact now ref new reason store)) = view store" by blast+
qed

lemma deprecate_silent:
  assumes "store_ok store"
  shows "store_ok (snd (DeprecateArtifact now ref reason store))"
    "view (snd (DeprecateArtifact now ref reason store)) = view store"
proof -
  have "store_ok s \<and> view s = view store" if "s = snd (DeprecateArtifact now ref reason store)" for s
  proof (cases "store_get store ref")
    case (Inr a)
    let ?b = "a\<lparr>art_status := StatusDeprecated, art_body := art_body a @ BuildDeprecateSection now reason\<rparr>"
    have "rewritten a ?b" by (simp add: rewritten_def)
    then obtain store' where "store_update ?b store = Inr store'" "store_ok store'" "view store' = view store"
      using store_update_silent[OF assms Inr] by blast
    then show ?thesis using that Inr by (simp add: DeprecateArtifact_def Let_def)
  qed (use assms that in \<open>simp add: DeprecateArtifact_def\<close>)
  then show "store_ok (snd (DeprecateArtifact now ref reason store))"
    "view (snd (DeprecateArtifact now ref reason store)) = view store" by blast+
qed

text \<open>
  The import leaves them as they are when the file neither names a stored commission nor claims to be
  one. The import reads no directory of commissions, but it believes the header of any file.
\<close>

definition file_spares_commissions :: "(frontmatter \<times> string) result \<Rightarrow> Store \<Rightarrow> bool" where
  "file_spares_commissions parsed store =
     (case parsed of
        Inl e \<Rightarrow> True
      | Inr (fm, body) \<Rightarrow>
          fm_Kind fm \<noteq> KindWorkCommission \<and> list_all (\<lambda>row. art_id row \<noteq> fm_ID fm) (commission_rows store))"

lemma spared_rows:
  assumes "\<And>row. row \<in> set (st_artifacts store) \<Longrightarrow> art_id row = art_id a \<Longrightarrow> art_kind row \<noteq> KindWorkCommission"
    "art_kind a \<noteq> KindWorkCommission" "store_update a store = Inr store'"
  shows "commission_rows store' = commission_rows store" "store_ids store' = store_ids store"
proof -
  have "filter (\<lambda>row. art_kind row = KindWorkCommission) (map (\<lambda>row. if art_id row = art_id a
        then a\<lparr>art_version := art_version a + 1, art_links := art_links row\<rparr> else row) rows)
      = filter (\<lambda>row. art_kind row = KindWorkCommission) rows" if "set rows \<subseteq> set (st_artifacts store)" for rows
    using that by (induction rows) (auto simp: assms(1,2))
  then show "commission_rows store' = commission_rows store"
    using assms(3) by (auto simp: store_update_def commission_rows_def split: if_splits)
  show "store_ids store' = store_ids store"
    using assms(3) by (auto simp: store_update_def store_ids_def split: if_splits)
qed

lemma sync_spares:
  assumes "file_spares_commissions parsed store" "distinct (store_ids store)"
  shows "commission_rows (snd (syncOneFile newer parsed store)) = commission_rows store"
    "distinct (store_ids (snd (syncOneFile newer parsed store)))"
proof -
  have "commission_rows s = commission_rows store \<and> distinct (store_ids s)"
    if s: "s = snd (syncOneFile newer parsed store)" for s
  proof (cases parsed)
    case (Inr p)
    obtain fm body where p: "p = (fm, body)" by (cases p)
    let ?a = "synced_artifact fm body"
    have kind: "art_kind ?a \<noteq> KindWorkCommission" "art_id ?a = fm_ID fm"
      using assms(1) Inr p by (simp_all add: file_spares_commissions_def synced_artifact_def)
    have other: "art_kind row \<noteq> KindWorkCommission" if "row \<in> set (st_artifacts store)" "art_id row = art_id ?a" for row
      using that assms(1) Inr p kind(2) by (auto simp: file_spares_commissions_def list_all_iff commission_rows_def)
    have upd: "commission_rows (snd (sync_update ?a store)) = commission_rows store
        \<and> distinct (store_ids (snd (sync_update ?a store)))"
      using spared_rows[OF other kind(1)] assms(2) by (auto simp: sync_update_def split: sum.split)
    have new: "commission_rows store' = commission_rows store \<and> distinct (store_ids store')"
      if "store_create ?a store = Inr store'" for store'
      using that store_create_distinct[OF that assms(2)] kind(1)
      by (auto simp: store_create_Inr commission_rows_def new_row_def)
    show ?thesis
      using upd new assms(2) unfolding s Inr p
      by (auto simp: syncOneFile_def Let_def split: sum.split)
  qed (use assms(2) s in \<open>simp add: syncOneFile_def\<close>)
  then show "commission_rows (snd (syncOneFile newer parsed store)) = commission_rows store"
    "distinct (store_ids (snd (syncOneFile newer parsed store)))" by blast+
qed

text \<open>
  A file that is newer than the artifact of its id erases the structured data, whatever it says. When
  the artifact is a commission, no commission can be listed or claimed from then on.
\<close>

lemma sync_erases_data:
  assumes "store_get store (fm_ID fm) = Inr a" "newer a" "fm_ID fm \<noteq> []" "fm_Kind fm \<noteq> []"
    "syncOneFile newer (Inr (fm, body)) store = (outcome, store')"
  shows "outcome = Inr ''updated'' \<and> (case store_get store' (fm_ID fm) of Inl e \<Rightarrow> False | Inr b \<Rightarrow> art_data b = Text [])"
proof -
  note a = store_get_row[OF assms(1)]
  have hit: "list_ex (\<lambda>row. art_id row = fm_ID fm) (st_artifacts store)" using a by (auto simp: list_ex_iff)
  have found: "\<exists>b. find (\<lambda>row. art_id row = fm_ID fm) (map (\<lambda>row. if art_id row = fm_ID fm
        then (synced_artifact fm body)\<lparr>art_version := v, art_links := art_links row\<rparr> else row) rows) = Some b
      \<and> art_data b = Text []" if "list_ex (\<lambda>row. art_id row = fm_ID fm) rows" for rows v
    using that by (induction rows) (auto simp: synced_artifact_def)
  have id: "art_id (synced_artifact fm body) = fm_ID fm" by (simp add: synced_artifact_def)
  show ?thesis
    using assms found[OF hit, of "art_version (synced_artifact fm body) + 1"] hit
    by (auto simp: syncOneFile_def Let_def sync_update_def store_update_def id store_get_def)
qed

lemma empty_data_unreadable:
  assumes "row \<in> set (commission_rows store)" "art_data row = Text []"
  shows "\<exists>e. loadWorkCommissionPayloads store = Inl e"
proof -
  have "\<exists>e. decode_rows rows = Inl e" if "row \<in> set rows" for rows
    using that assms(2)
    by (induction rows) (auto simp: decodeWorkCommissionPayload_def split: sum.split)
  then show ?thesis using assms(1) by (simp add: loadWorkCommissionPayloads_def)
qed

end
