(* ===== verification/CommissionRuns.thy ===== *)
theory CommissionRuns
  imports TacticalOverride ArtifactRefresh
begin

text \<open>
  The runs of the whole system: any sequence of the program's writes to the table of artifacts, with
  any arguments, clocks and random bytes. A write is a call of the tool for commissions, the record of
  a run out of the specification, a waiver, a supersession or a deprecation of any artifact, the import
  of a markdown file that neither names a commission nor claims to be one, or any write that leaves the
  rows of commissions alone. The safety properties of the commissions are invariants of these runs.
  An import that does overwrite a commission is no step: it erases the payload
  (\<open>ArtifactRefresh.sync_erases_data\<close>), and nothing can be said of the commissions then.
\<close>

section \<open>Steps\<close>

inductive step :: "Store \<Rightarrow> Store \<Rightarrow> bool" where
  call: "step store (snd (handleHaftCommission env args store))"
| override: "step store (snd (recordHarnessRunTacticalOverride env selection gate store))"
| waive: "step store (snd (WaiveArtifact now ref reason until evidence store))"
| supersede: "step store (snd (SupersedeArtifact now ref new reason store))"
| deprecate: "step store (snd (DeprecateArtifact now ref reason store))"
| sync: "file_spares_commissions parsed store \<Longrightarrow> step store (snd (syncOneFile newer parsed store))"
| other: "commission_rows store' = commission_rows store \<Longrightarrow> distinct (store_ids store') \<Longrightarrow> step store store'"

text \<open>Every step is a call of the tool or at most marks commissions.\<close>

lemma marks_of_view: "store_ok store' \<Longrightarrow> view store' = view store \<Longrightarrow> marks store store'"
  by (simp add: marks_def option.rel_refl)

lemma marks_of_rows:
  assumes "store_ok store" "commission_rows store' = commission_rows store" "distinct (store_ids store')"
  shows "marks store store'"
  using assms by (intro marks_of_view) (simp_all add: store_ok_def view_of_rows fun_eq_iff)

lemma stepE [consumes 2, case_names call mark]:
  assumes "step store store'" "store_ok store"
  obtains env args where "store' = snd (handleHaftCommission env args store)" | "marks store store'"
proof -
  have distinct: "distinct (store_ids store)" using assms(2) by (simp add: store_ok_def)
  from assms(1) show thesis
  proof (cases rule: step.cases)
    case call
    then show thesis by (rule that(1))
  next
    case override
    then show thesis using that(2) record_marks[OF assms(2)] by simp
  next
    case waive
    then show thesis using that(2) marks_of_view waive_silent[OF assms(2)] by simp
  next
    case supersede
    then show thesis using that(2) marks_of_view supersede_silent[OF assms(2)] by simp
  next
    case deprecate
    then show thesis using that(2) marks_of_view deprecate_silent[OF assms(2)] by simp
  next
    case sync
    then show thesis using that(2) marks_of_rows[OF assms(2)] sync_spares[OF _ distinct] by simp
  next
    case other
    then show thesis using that(2) marks_of_rows[OF assms(2)] by simp
  qed
qed

lemma step_cases:
  assumes "step store store'" "store_ok store"
  obtains (same) "store_ok store'" "view store' = view store"
  | (change) action i c c' where "store_ok store'" "view store i = Some c" "evolves action c c'"
      "view store' = (view store)(i \<mapsto> c')"
  | (add) "adds store store'"
  | (mark) "marks store store'"
  using assms
proof (cases rule: stepE)
  case (call env args)
  have h: "if stringArg args ''action'' \<in> creating_actions then adds store store'
      else changes (stringArg args ''action'') store store'"
    using handle_effect[OF assms(2), of args env] call by simp
  show thesis
  proof (cases "stringArg args ''action'' \<in> creating_actions")
    case True
    then show thesis using h add by simp
  next
    case False
    then have "changes (stringArg args ''action'') store store'" using h by simp
    then show thesis using same change unfolding changes_def by blast
  qed
qed (rule mark)

lemma step_store_ok: "step store store' \<Longrightarrow> store_ok store \<Longrightarrow> store_ok store'"
  by (erule (1) step_cases) (simp_all add: adds_def marks_def)

lemma steps_store_ok: "step\<^sup>*\<^sup>* store store' \<Longrightarrow> store_ok store \<Longrightarrow> store_ok store'"
  by (induction rule: rtranclp_induct) (auto intro: step_store_ok)

section \<open>The life of one commission\<close>

text \<open>
  What of a commission may change in its life: the keys the tool writes and the record of a run out
  of the specification. A terminal one only gets such records.
\<close>

definition history_keys :: "string set" where
  "history_keys = insert ''spec_readiness_override'' volatile_keys"

definition later :: "commission \<Rightarrow> commission \<Rightarrow> bool" where
  "later c c' \<longleftrightarrow>
     same_except history_keys c c' \<and> prefix (stored_events c) (stored_events c')
     \<and> (if IsTerminalState (stringField c ''state'') then marked c c' else True)"

lemma later_refl [simp]: "later c c"
  by (simp add: later_def same_except_def)

lemma marked_state: "marked c c' \<Longrightarrow> stringField c' ''state'' = stringField c ''state''"
  using same_except_field(1)[of override_keys c c' "''state''"] by (simp add: marked_def override_keys_def)

lemma marked_frame: "marked c c' \<Longrightarrow> same_except history_keys c c'"
  using same_except_mono[of override_keys c c' history_keys]
  by (simp add: marked_def override_keys_def history_keys_def volatile_keys_def)

lemma marked_later: "marked c c' \<Longrightarrow> later c c'"
  using marked_frame by (auto simp: later_def marked_def)

lemma volatile_frame: "same_except volatile_keys c c' \<Longrightarrow> same_except history_keys c c'"
  by (erule same_except_mono) (auto simp: history_keys_def)

lemma later_trans:
  assumes "later a b" "later b c"
  shows "later a c"
proof -
  have "same_except history_keys a c"
    using assms by (auto simp: later_def intro: same_except_trans[OF _ _ subset_refl subset_refl])
  moreover have "prefix (stored_events a) (stored_events c)"
    using assms unfolding later_def by (meson prefix_order.trans)
  moreover have "if IsTerminalState (stringField a ''state'') then marked a c else True"
    using assms marked_state[of a b] marked_trans[of a b c] by (auto simp: later_def split: if_splits)
  ultimately show ?thesis by (simp add: later_def)
qed

lemma moves_not_terminal: "moves action s s' \<Longrightarrow> \<not> IsTerminalState s"
  by (auto simp: moves_def state_tests state_sets split: if_splits)

lemma evolves_later: "evolves action c c' \<Longrightarrow> later c c'"
  using moves_not_terminal volatile_frame by (auto simp: evolves_def later_def)

lemma adds_keep:
  assumes "adds store store'" "view store i = Some c"
  shows "view store' i = Some c"
proof -
  have "case view store i of Some c \<Rightarrow> view store' i = Some c | None \<Rightarrow> pred_option created (view store' i)"
    using assms(1) by (simp only: adds_def)
  then show ?thesis using assms(2) by simp
qed

lemma step_later:
  assumes "step store store'" "store_ok store" "view store i = Some c"
  obtains c' where "view store' i = Some c'" "later c c'"
  using assms(1,2)
proof (cases rule: step_cases)
  case same
  then show thesis using assms(3) that by simp
next
  case (change action j d d')
  then show thesis using assms(3) that evolves_later by (cases "i = j") auto
next
  case add
  then show thesis using adds_keep[OF add assms(3)] that by simp
next
  case mark
  then have "rel_option marked (Some c) (view store' i)" using assms(3) unfolding marks_def by metis
  then show thesis using that marked_later by (auto simp: option_rel_Some1)
qed

lemma steps_later:
  assumes "step\<^sup>*\<^sup>* store store'" "store_ok store" "view store i = Some c"
  shows "\<exists>c'. view store' i = Some c' \<and> later c c'"
  using assms(1)
proof (induction rule: rtranclp_induct)
  case base
  then show ?case using assms(3) by simp
next
  case (step store1 store2)
  then obtain c1 where c1: "view store1 i = Some c1" "later c c1" by blast
  have "store_ok store1" using steps_store_ok[OF step.hyps(1) assms(2)] .
  then obtain c2 where "view store2 i = Some c2" "later c1 c2" using step_later[OF step.hyps(2) _ c1(1)] by blast
  then show ?case using later_trans[OF c1(2)] by blast
qed

text \<open>A call of the tool changes no terminal commission.\<close>

lemma call_keeps_terminal:
  assumes "store_ok store" "view store i = Some c" "IsTerminalState (stringField c ''state'')"
  shows "view (snd (handleHaftCommission env args store)) i = Some c"
proof -
  let ?a = "stringArg args ''action''" and ?s = "snd (handleHaftCommission env args store)"
  have h: "if ?a \<in> creating_actions then adds store ?s else changes ?a store ?s"
    using handle_effect[OF assms(1), of args env] by simp
  show ?thesis
  proof (cases "?a \<in> creating_actions")
    case True
    then show ?thesis using h adds_keep[OF _ assms(2)] by simp
  next
    case False
    then have "changes ?a store ?s" using h by simp
    then show ?thesis
      unfolding changes_def using assms(2,3) moves_not_terminal by (fastforce simp: evolves_def)
  qed
qed

section \<open>Mutual exclusion\<close>

text \<open>
  Creation is not a claim: a commission may be stored in any known state, also an executing one,
  without a look at the locksets. An orderly step creates none that executes.
\<close>

definition new_idle :: "Store \<Rightarrow> Store \<Rightarrow> bool" where
  "new_idle store store' \<longleftrightarrow>
     (\<forall>i c. view store i = None \<and> view store' i = Some c \<longrightarrow> \<not> workCommissionActiveLeaseState c)"

inductive orderly :: "Store \<Rightarrow> Store \<Rightarrow> bool" where
  "step store store' \<Longrightarrow> new_idle store store' \<Longrightarrow> orderly store store'"

inductive_simps orderly_iff: "orderly store store'"

lemma orderly_steps: "orderly\<^sup>*\<^sup>* store store' \<Longrightarrow> step\<^sup>*\<^sup>* store store'"
  by (induction rule: rtranclp_induct) (auto simp: orderly_iff intro: rtranclp.rtrancl_into_rtrancl)

text \<open>
  Holders of locks: each has a fixed request, and two active holders must not clash. A table of
  holders stays exclusive when one moves without becoming active, when one that clashes with no
  active one becomes active, and when idle ones are added.
\<close>

locale lock_table =
  fixes active :: "'c \<Rightarrow> bool"
    and clash :: "'c \<Rightarrow> 'c \<Rightarrow> bool"
    and successor :: "'c \<Rightarrow> 'c \<Rightarrow> bool"
  assumes clash_sym: "clash a b \<longleftrightarrow> clash b a"
    and clash_successor: "successor a a' \<Longrightarrow> clash a' b \<longleftrightarrow> clash a b"
begin

definition exclusive :: "('i \<Rightarrow> 'c option) \<Rightarrow> bool" where
  "exclusive m \<longleftrightarrow>
     (\<forall>i j a b. i \<noteq> j \<and> m i = Some a \<and> m j = Some b \<and> active a \<and> active b \<longrightarrow> \<not> clash a b)"

lemma exclusive_update:
  assumes "exclusive m" "m i = Some c" "successor c c'"
    "active c' \<Longrightarrow> active c \<or> (\<forall>j b. j \<noteq> i \<and> m j = Some b \<and> active b \<longrightarrow> \<not> clash c b)"
  shows "exclusive (m(i \<mapsto> c'))"
proof -
  have new: "\<not> clash c' b" if "j \<noteq> i" "m j = Some b" "active c'" "active b" for j b
    using that assms clash_successor[OF assms(3)] unfolding exclusive_def by metis
  show ?thesis
    unfolding exclusive_def
  proof (intro allI impI)
    fix j k a b
    assume h: "j \<noteq> k \<and> (m(i \<mapsto> c')) j = Some a \<and> (m(i \<mapsto> c')) k = Some b \<and> active a \<and> active b"
    show "\<not> clash a b"
    proof (cases "j = i")
      case True
      then show ?thesis using h new[of k b] by auto
    next
      case j: False
      show ?thesis
      proof (cases "k = i")
        case True
        then show ?thesis using h j new[of j a] clash_sym[of a b] by auto
      next
        case False
        then show ?thesis using h j assms(1) unfolding exclusive_def by auto
      qed
    qed
  qed
qed

lemma exclusive_map:
  assumes "exclusive m" "\<And>i. rel_option (\<lambda>c c'. successor c c' \<and> (active c' \<longrightarrow> active c)) (m i) (m' i)"
  shows "exclusive m'"
proof -
  have old: "\<exists>c. m i = Some c \<and> successor c c' \<and> (active c' \<longrightarrow> active c)" if "m' i = Some c'" for i c'
    using assms(2)[of i] that by (auto simp: option_rel_Some2)
  have "\<not> clash a' b'" if h: "i \<noteq> j" "m' i = Some a'" "m' j = Some b'" "active a'" "active b'" for i j a' b'
  proof -
    obtain a where a: "m i = Some a" "successor a a'" "active a" using old[OF h(2)] h(4) by blast
    obtain b where b: "m j = Some b" "successor b b'" "active b" using old[OF h(3)] h(5) by blast
    have "\<not> clash a b" using assms(1) h(1) a(1,3) b(1,3) unfolding exclusive_def by blast
    then show ?thesis using clash_successor[OF a(2)] clash_successor[OF b(2)] clash_sym by metis
  qed
  then show ?thesis unfolding exclusive_def by blast
qed

lemma exclusive_extend:
  assumes "exclusive m" "\<And>i c. m i = Some c \<Longrightarrow> m' i = Some c"
    "\<And>i c. m i = None \<Longrightarrow> m' i = Some c \<Longrightarrow> \<not> active c"
  shows "exclusive m'"
proof -
  have "m i = Some c" if "m' i = Some c" "active c" for i c
    using that assms(2,3)[of i] by (cases "m i") auto
  then show ?thesis using assms(1) unfolding exclusive_def by metis
qed

end

definition clashes :: "commission \<Rightarrow> commission \<Rightarrow> bool" where
  "clashes a b \<longleftrightarrow>
     commissionRepoRef a = commissionRepoRef b \<and> LocksetsOverlap (commissionLockset a) (commissionLockset b)"

lemma request_frozen:
  assumes "same_except history_keys c c'"
  shows "commissionRepoRef c' = commissionRepoRef c" "commissionLockset c' = commissionLockset c"
    "stringSliceField c' ''depends_on'' = stringSliceField c ''depends_on''"
    "stringField c' ''id'' = stringField c ''id''"
proof -
  have "mapArg c' ''scope'' = mapArg c ''scope''" "stringSliceField c' ''lockset'' = stringSliceField c ''lockset''"
    by (rule same_except_field[OF assms], simp add: history_keys_def volatile_keys_def)+
  then show "commissionRepoRef c' = commissionRepoRef c" "commissionLockset c' = commissionLockset c"
    unfolding commissionRepoRef_def commissionLockset_def by (simp_all cong: if_cong)
  show "stringSliceField c' ''depends_on'' = stringSliceField c ''depends_on''"
    "stringField c' ''id'' = stringField c ''id''"
    by (rule same_except_field[OF assms], simp add: history_keys_def volatile_keys_def)+
qed

interpretation locks: lock_table workCommissionActiveLeaseState clashes "same_except history_keys"
proof
  show "clashes a b \<longleftrightarrow> clashes b a" for a b
    using LocksetsOverlap_sym[of "commissionLockset a" "commissionLockset b"] by (auto simp: clashes_def)
  show "clashes a' b \<longleftrightarrow> clashes a b" if "same_except history_keys a a'" for a a' b
    using request_frozen(1,2)[OF that] by (simp add: clashes_def)
qed

text \<open>A commission that begins to execute was claimed: no executing one clashes with it.\<close>

lemma moves_active:
  assumes "moves action s s'" "IsExecutingState s'"
  shows "IsExecutingState s \<or> action = ''claim_for_preflight''"
  using assms by (auto simp: moves_def state_tests state_sets plain_char_def split: if_splits)

definition claimable :: "Store \<Rightarrow> commission \<Rightarrow> bool" where
  "claimable store c \<longleftrightarrow>
     (\<forall>j b. j \<noteq> stringField c ''id'' \<and> view store j = Some b \<and> workCommissionActiveLeaseState b
        \<longrightarrow> \<not> clashes c b)
     \<and> workCommissionDependenciesSatisfied c (commissions store)"

lemma available_claimable:
  assumes "store_ok store" "ensureWorkCommissionLocksetAvailable (commissions store) c = Inr ()"
    "view store j = Some b" "j \<noteq> stringField c ''id''" "workCommissionActiveLeaseState b"
  shows "\<not> clashes c b"
proof
  assume "clashes c b"
  then have "workCommissionLocksetConflicts c b"
    using view_Some(1)[OF assms(3,1)] assms(4,5) by (simp add: workCommissionLocksetConflicts_def clashes_def)
  then have "list_ex (workCommissionLocksetConflicts c) (commissions store)"
    using view_Some(5)[OF assms(3,1)] unfolding list_ex_iff by blast
  then show False using assms(2) by (simp add: ensureWorkCommissionLocksetAvailable_def)
qed

lemma claim_claimable:
  assumes "store_ok store"
  obtains (same) "view (snd (claimWorkCommissionForPreflight env args store)) = view store"
  | (claim) i c where "view store i = Some c" "claimable store c"
      "evolves ''claim_for_preflight'' c (json_norm_payload (claimed env args c))"
      "view (snd (claimWorkCommissionForPreflight env args store))
         = (view store)(i \<mapsto> json_norm_payload (claimed env args c))"
proof (cases rule: claim_cases[OF assms, of env args])
  case (1 e)
  then show thesis using same by simp
next
  case (2 c cap)
  note ev = claimed_evolves[OF view_Some(3)[OF 2(3) assms] 2(4)]
  have "claimable store c"
    using available_claimable[OF assms 2(2)] select_Inr(2)[OF 2(1)]
    by (auto simp: claimable_def workCommissionRunnableForRequestWithLeaseCap_def)
  then show thesis
    using claim[OF 2(3) _ ev(1)] commit_changes(3)[OF assms 2(3) ev(2) ev(1)] unfolding 2(5) by blast
qed

text \<open>The steps again, with what is known of a commission that begins to execute.\<close>

lemma step_claims:
  assumes "step store store'" "store_ok store"
  obtains (same) "view store' = view store"
  | (change) i c c' where "view store i = Some c" "same_except history_keys c c'"
      "view store' = (view store)(i \<mapsto> c')"
      "workCommissionActiveLeaseState c' \<Longrightarrow> workCommissionActiveLeaseState c \<or> claimable store c"
  | (add) "adds store store'"
  | (mark) "marks store store'"
  using assms
proof (cases rule: stepE)
  case (call env args)
  let ?a = "stringArg args ''action''"
  have h: "if ?a \<in> creating_actions then adds store store' else changes ?a store store'"
    using handle_effect[OF assms(2), of args env] call by simp
  consider "?a \<in> creating_actions" | "?a = ''claim_for_preflight''"
    | "?a \<notin> creating_actions" "?a \<noteq> ''claim_for_preflight''" by blast
  then show thesis
  proof cases
    case 1
    then show thesis using h add by simp
  next
    case 2
    then have s: "store' = snd (claimWorkCommissionForPreflight env args store)"
      using call by (simp add: handleHaftCommission_def)
    show thesis
    proof (cases rule: claim_claimable[OF assms(2), of env args])
      case 1
      then show thesis using s same by simp
    next
      case (2 i c)
      then show thesis using s change[OF 2(1)] by (auto simp: evolves_def intro: volatile_frame)
    qed
  next
    case 3
    have active: "workCommissionActiveLeaseState c' \<Longrightarrow> workCommissionActiveLeaseState c"
      if "evolves ?a c c'" for c c'
      using that moves_active 3(2) unfolding evolves_def workCommissionActiveLeaseState_def by blast
    have "changes ?a store store'" using h 3(1) by simp
    then consider "view store' = view store"
      | i c c' where "view store i = Some c" "evolves ?a c c'" "view store' = (view store)(i \<mapsto> c')"
      unfolding changes_def by blast
    then show thesis
    proof cases
      case 1
      then show thesis by (rule same)
    next
      case 2
      then show thesis using change[OF 2(1) _ 2(3)] active[OF 2(2)] by (auto simp: evolves_def intro: volatile_frame)
    qed
  qed
qed (rule mark)

text \<open>A mark keeps the state, so nothing begins to execute.\<close>

lemma marked_active: "marked c c' \<Longrightarrow> workCommissionActiveLeaseState c' \<longleftrightarrow> workCommissionActiveLeaseState c"
  by (simp add: workCommissionActiveLeaseState_def marked_state)

lemma orderly_exclusive:
  assumes "orderly store store'" "store_ok store" "locks.exclusive (view store)"
  shows "locks.exclusive (view store')"
proof -
  have st: "step store store'" and idle: "new_idle store store'" using assms(1) by (simp_all add: orderly_iff)
  from st assms(2) show ?thesis
  proof (cases rule: step_claims)
    case same
    then show ?thesis using assms(3) by simp
  next
    case (change i c c')
    have "workCommissionActiveLeaseState c \<or>
        (\<forall>j b. j \<noteq> i \<and> view store j = Some b \<and> workCommissionActiveLeaseState b \<longrightarrow> \<not> clashes c b)"
      if "workCommissionActiveLeaseState c'"
      using change(4)[OF that] view_Some(1)[OF change(1) assms(2)] unfolding claimable_def by blast
    then show ?thesis unfolding change(3) by (rule locks.exclusive_update[OF assms(3) change(1,2)])
  next
    case add
    show ?thesis
      by (rule locks.exclusive_extend[OF assms(3) adds_keep[OF add]]) (use idle in \<open>auto simp: new_idle_def\<close>)
  next
    case mark
    show ?thesis
    proof (rule locks.exclusive_map[OF assms(3)])
      fix i
      have "rel_option marked (view store i) (view store' i)" using mark unfolding marks_def by blast
      then show "rel_option (\<lambda>c c'. same_except history_keys c c'
          \<and> (workCommissionActiveLeaseState c' \<longrightarrow> workCommissionActiveLeaseState c)) (view store i) (view store' i)"
        by (rule option.rel_mono_strong) (simp add: marked_frame marked_active)
    qed
  qed
qed

section \<open>Dependencies\<close>

lemma find_commission:
  assumes "store_ok store"
  shows "find (\<lambda>k. stringField k ''id'' = d) (rev (commissions store)) = view store d"
proof (cases "find (\<lambda>k. stringField k ''id'' = d) (rev (commissions store))")
  case None
  then have "\<not> (\<exists>k \<in> set (commissions store). stringField k ''id'' = d)"
    by (auto simp: find_None_iff)
  then have "view store d = None" using view_Some(1,5)[OF _ assms, of d] by (cases "view store d") auto
  then show ?thesis using None by simp
next
  case (Some k)
  then have "k \<in> set (rev (commissions store))" "stringField k ''id'' = d"
    unfolding find_Some_iff using nth_mem by blast+
  then show ?thesis using Some mem_commissions[OF assms, of k] by simp
qed

definition dependencies_done :: "Store \<Rightarrow> commission \<Rightarrow> bool" where
  "dependencies_done store c \<longleftrightarrow>
     list_all (\<lambda>d. case view store d of None \<Rightarrow> False | Some k \<Rightarrow> IsCompletionState (stringField k ''state''))
       (stringSliceField c ''depends_on'')"

lemma dependencies_done_iff:
  assumes "store_ok store"
  shows "workCommissionDependenciesSatisfied c (commissions store) \<longleftrightarrow> dependencies_done store c"
  unfolding dependencies_satisfied_iff dependencies_done_def find_commission[OF assms]
    workCommissionDependencySatisfied_def SatisfiesDependencyState_def ..

lemma completion_is_terminal: "IsCompletionState s \<Longrightarrow> IsTerminalState s"
  by (auto simp: state_tests state_sets)

lemma dependencies_stay_done:
  assumes "step store store'" "store_ok store" "dependencies_done store c"
  shows "dependencies_done store' c"
proof -
  have "case view store' d of None \<Rightarrow> False | Some k \<Rightarrow> IsCompletionState (stringField k ''state'')"
    if d: "case view store d of None \<Rightarrow> False | Some k \<Rightarrow> IsCompletionState (stringField k ''state'')" for d
  proof (cases "view store d")
    case (Some k)
    then obtain k' where "view store' d = Some k'" "later k k'" using step_later[OF assms(1,2)] by blast
    then show ?thesis using d Some completion_is_terminal marked_state[of k k'] by (simp add: later_def)
  qed (use d in simp)
  then show ?thesis using assms(3) unfolding dependencies_done_def by (meson list.pred_mono_strong)
qed

definition executing_ready :: "Store \<Rightarrow> bool" where
  "executing_ready store \<longleftrightarrow>
     (\<forall>i c. view store i = Some c \<and> workCommissionActiveLeaseState c \<longrightarrow> dependencies_done store c)"

lemma dependencies_done_frozen:
  "same_except history_keys c c' \<Longrightarrow> dependencies_done store c' \<longleftrightarrow> dependencies_done store c"
  by (simp add: dependencies_done_def request_frozen(3))

lemma orderly_ready:
  assumes "orderly store store'" "store_ok store" "executing_ready store"
  shows "executing_ready store'"
proof -
  have st: "step store store'" and idle: "new_idle store store'" using assms(1) by (simp_all add: orderly_iff)
  have keep: "dependencies_done store' c" if "view store i = Some c" "workCommissionActiveLeaseState c" for i c
    using that assms(3) dependencies_stay_done[OF st assms(2)] unfolding executing_ready_def by blast
  from st assms(2) show ?thesis
  proof (cases rule: step_claims)
    case same
    then show ?thesis using keep unfolding executing_ready_def same by blast
  next
    case (change i c c')
    have "dependencies_done store' c'" if "workCommissionActiveLeaseState c'"
    proof -
      have "dependencies_done store c"
        using change(4)[OF that] change(1) assms(3) dependencies_done_iff[OF assms(2)]
        unfolding claimable_def executing_ready_def by blast
      then show ?thesis
        using dependencies_stay_done[OF st assms(2)] dependencies_done_frozen[OF change(2)] by blast
    qed
    then show ?thesis using keep change(3) by (auto simp: executing_ready_def split: if_splits)
  next
    case add
    have "dependencies_done store' c" if "view store' i = Some c" "workCommissionActiveLeaseState c" for i c
    proof (cases "view store i")
      case None
      then show ?thesis using idle that by (auto simp: new_idle_def)
    next
      case (Some d)
      then show ?thesis using keep adds_keep[OF add Some] that by simp
    qed
    then show ?thesis unfolding executing_ready_def by blast
  next
    case mark
    have "dependencies_done store' c'" if c': "view store' i = Some c'" "workCommissionActiveLeaseState c'" for i c'
    proof -
      have "rel_option marked (view store i) (Some c')" using mark c'(1) unfolding marks_def by metis
      then obtain c where "view store i = Some c" "marked c c'" by (auto simp: option_rel_Some2)
      then show ?thesis using keep c'(2) marked_active dependencies_done_frozen[OF marked_frame] by blast
    qed
    then show ?thesis unfolding executing_ready_def by blast
  qed
qed

text \<open>Both hold at the start when nothing executes, and then along every orderly run.\<close>

definition all_idle :: "Store \<Rightarrow> bool" where
  "all_idle store = list_all (\<lambda>c. \<not> workCommissionActiveLeaseState c) (commissions store)"

lemma orderly_run:
  assumes "store_ok store0" "all_idle store0" "orderly\<^sup>*\<^sup>* store0 store"
  shows "store_ok store" "locks.exclusive (view store)" "executing_ready store"
proof -
  have idle: "\<not> workCommissionActiveLeaseState c" if "view store0 i = Some c" for i c
    using view_Some(5)[OF that assms(1)] assms(2) by (auto simp: all_idle_def list_all_iff)
  have "store_ok store \<and> locks.exclusive (view store) \<and> executing_ready store"
    using assms(3)
  proof (induction rule: rtranclp_induct)
    case base
    then show ?case using assms(1) idle by (auto simp: locks.exclusive_def executing_ready_def)
  next
    case (step store1 store2)
    then show ?case using orderly_exclusive orderly_ready step_store_ok by (auto simp: orderly_iff)
  qed
  then show "store_ok store" "locks.exclusive (view store)" "executing_ready store" by auto
qed

end
