(* ===== verification/CommissionSafety.thy ===== *)
theory CommissionSafety
  imports CommissionRuns CommissionExample
begin

text \<open>
  What holds of the stored commissions along every run of the system, whichever of its writers acts:
  readable rows, histories that only grow, final terminal states, no two executing commissions with clashing locksets, and
  no executing commission with an unfinished dependency.
\<close>

section \<open>An example\<close>

lemma example_idle: "all_idle example_store"
  by (simp add: all_idle_def commissions_def example_rows)
    (simp add: example_store_def stored_example_def row_commission_def new_row_def new_commission_row_def
      workCommissionActiveLeaseState_def state_tests state_sets stringField_def json_norm_payload_def plain_char_def)

text \<open>A claim is an orderly step, whatever its outcome.\<close>

lemma claim_orderly:
  assumes "store_ok store" "stringArg args ''action'' = ''claim_for_preflight''"
  shows "orderly store (snd (handleHaftCommission env args store))"
proof -
  have "changes ''claim_for_preflight'' store (snd (handleHaftCommission env args store))"
    using handle_effect[OF assms(1), of args env] assms(2) by (simp add: creating_actions_def)
  then have "new_idle store (snd (handleHaftCommission env args store))"
    unfolding changes_def new_idle_def by (auto split: if_splits)
  then show ?thesis using step.call by (simp add: orderly_iff)
qed

lemma example_claim:
  "orderly example_store (snd (handleHaftCommission example_env claim_args example_store))"
  by (rule claim_orderly[OF example_store_ok]) (simp add: claim_args_def stringArg_def stringField_def plain_char_def)

lemma example_runs:
  "step\<^sup>*\<^sup>* example_store (snd (handleHaftCommission example_env claim_args example_store))"
  "orderly\<^sup>*\<^sup>* example_store (snd (handleHaftCommission example_env claim_args example_store))"
  by (rule r_into_rtranclp, rule step.call) (rule r_into_rtranclp, rule example_claim)

section \<open>Properties of the runs\<close>

lemma commission_ids:
  assumes "store_ok store"
  shows "distinct (map (\<lambda>c. stringField c ''id'') (commissions store))"
proof -
  have "map (\<lambda>c. stringField c ''id'') (commissions store) = map art_id (commission_rows store)"
    using assms decode_row_ok(2) by (simp add: commissions_def store_ok_def list_all_iff)
  moreover have "distinct (map art_id (commission_rows store))"
    using assms unfolding store_ok_def store_ids_def commission_rows_def by (blast intro: distinct_map_filter)
  ultimately show ?thesis by simp
qed

text \<open>
  C6. Along every run (calls of the tool, records of runs out of the specification, waivers,
  supersessions and deprecations of any artifact, imports of files that neither name a commission nor
  claim to be one, and writes to other artifacts) the stored commissions stay readable: all of them
  load, their ids are distinct and not empty, each is in a known state, and the id and the title of a
  row are those of its payload. The columns status, body and deadline may differ from the payload.
\<close>

theorem stored_rows_well_formed:
  assumes "store_ok store0" "step\<^sup>*\<^sup>* store0 store"
  shows "store_ok store
    \<and> (case loadWorkCommissionPayloads store of
         Inl e \<Rightarrow> False
       | Inr cs \<Rightarrow> distinct (map (\<lambda>c. stringField c ''id'') cs)
           \<and> list_all (\<lambda>c. stringField c ''id'' \<noteq> [] \<and> IsKnownState (stringField c ''state'')) cs)"
proof -
  have ok: "store_ok store" using steps_store_ok[OF assms(2,1)] .
  have "stringField c ''id'' \<noteq> [] \<and> IsKnownState (stringField c ''state'')" if "c \<in> set (commissions store)" for c
    using that mem_commissions[OF ok] view_Some(2,4)[OF _ ok] by blast
  then show ?thesis using ok load_ok(1)[OF ok] commission_ids[OF ok] by (simp add: list_all_iff)
qed

theorem stored_rows_well_formed_witness:
  "store_ok (snd (handleHaftCommission example_env claim_args example_store))"
  using stored_rows_well_formed[OF example_store_ok example_runs(1)] by blast

text \<open>
  C5. No commission is lost or rewritten: whatever happens later, it is still stored under its
  id; everything in it but the state, the lease, the log, the fetch time, the outcome fields and the
  record of a run out of the specification is unchanged (its decision, problem, scope, locks,
  dependencies, policies, envelope and deadline); and its log has only grown at the end.
\<close>

theorem commission_history:
  assumes "store_ok store0" "step\<^sup>*\<^sup>* store0 store" "view store0 i = Some c"
  shows "case view store i of
           None \<Rightarrow> False
         | Some c' \<Rightarrow> same_except history_keys c c' \<and> prefix (stored_events c) (stored_events c')
             \<and> stringField c' ''id'' = i"
proof -
  obtain c' where c': "view store i = Some c'" "later c c'" using steps_later[OF assms(2,1,3)] by blast
  have "stringField c' ''id'' = i" using view_Some(1)[OF c'(1) steps_store_ok[OF assms(2,1)]] .
  then show ?thesis using c' by (simp add: later_def)
qed

theorem commission_history_witness:
  "view (snd (handleHaftCommission example_env claim_args example_store)) ''wc-1'' \<noteq> None"
proof -
  obtain c where "view example_store ''wc-1'' = Some c" using example_view by blast
  from commission_history[OF example_store_ok example_runs(1) this]
  show ?thesis by (auto split: option.splits)
qed

text \<open>
  C4. A terminal state is final: a commission that is completed, completed with projection debt,
  cancelled or expired stays stored in that state whatever happens later. All that a later write can
  still do to it is to mark it for a run out of the specification, which replaces that record, appends
  an event of that kind to its log and keeps everything else; no call of the tool changes it at all.
\<close>

theorem terminal_is_final:
  assumes "store_ok store0" "step\<^sup>*\<^sup>* store0 store" "view store0 i = Some c"
    "IsTerminalState (stringField c ''state'')"
  shows "case loadWorkCommissionPayloadForUpdate store i of
           Inl e \<Rightarrow> False
         | Inr c' \<Rightarrow>
             stringField c' ''state'' = stringField c ''state''
             \<and> same_except override_keys c c' \<and> prefix (stored_events c) (stored_events c')
             \<and> list_all tactical_mark (drop (length (stored_events c)) (stored_events c'))
             \<and> loadWorkCommissionPayloadForUpdate (snd (handleHaftCommission env args store)) i = Inr c'"
proof -
  have ok: "store_ok store" using steps_store_ok[OF assms(2,1)] .
  obtain c' where c': "view store i = Some c'" "later c c'" using steps_later[OF assms(2,1,3)] by blast
  then have m: "marked c c'" using assms(4) by (simp add: later_def)
  have "view (snd (handleHaftCommission env args store)) i = Some c'"
    using call_keeps_terminal[OF ok c'(1)] assms(4) marked_state[OF m] by simp
  then have "loadWorkCommissionPayloadForUpdate (snd (handleHaftCommission env args store)) i = Inr c'"
    using view_Some(6) step_store_ok[OF step.call ok] by blast
  then show ?thesis using m marked_state[OF m] view_Some(6)[OF c'(1) ok] by (simp add: marked_def)
qed

theorem terminal_is_final_witness:
  "\<exists>c. loadWorkCommissionPayloadForUpdate (snd (handleHaftCommission example_env claim_args example_store)) ''wc-1''
     = Inr c \<and> stringField c ''state'' = ''cancelled''"
proof -
  obtain c where c: "view example_store ''wc-1'' = Some c" "stringField c ''state'' = ''cancelled''"
    using example_view by blast
  have "IsTerminalState (stringField c ''state'')" unfolding c(2) by (simp add: state_tests state_sets plain_char_def)
  from terminal_is_final[OF example_store_ok example_runs(1) c(1) this, of example_env claim_args]
  show ?thesis
    by (cases "loadWorkCommissionPayloadForUpdate (snd (handleHaftCommission example_env claim_args example_store)) ''wc-1''")
      (simp_all add: c(2))
qed

text \<open>
  C1. Mutual exclusion: when nothing executes at the start and no call creates a commission that
  already executes, then at every later time two executing commissions of one repository hold
  locksets that do not overlap.
\<close>

theorem mutual_exclusion:
  assumes "store_ok store0" "all_idle store0" "orderly\<^sup>*\<^sup>* store0 store"
  shows "case loadWorkCommissionPayloads store of
           Inl e \<Rightarrow> False
         | Inr cs \<Rightarrow> sorted_wrt (\<lambda>a b. \<not> (workCommissionActiveLeaseState a \<and> workCommissionActiveLeaseState b
             \<and> commissionRepoRef a = commissionRepoRef b
             \<and> LocksetsOverlap (commissionLockset a) (commissionLockset b))) cs"
proof -
  note run = orderly_run[OF assms]
  let ?cs = "commissions store" and ?id = "\<lambda>c. stringField c ''id''"
  have "\<not> (workCommissionActiveLeaseState a \<and> workCommissionActiveLeaseState b \<and> clashes a b)"
    if "a \<in> set ?cs" "b \<in> set ?cs" "?id a \<noteq> ?id b" for a b
    using that run(2) mem_commissions[OF run(1)] unfolding locks.exclusive_def by blast
  moreover have "?id (?cs ! i) \<noteq> ?id (?cs ! j)" if "i < j" "j < length ?cs" for i j
    using commission_ids[OF run(1)] that by (simp add: distinct_conv_nth)
  ultimately have "sorted_wrt (\<lambda>a b. \<not> (workCommissionActiveLeaseState a \<and> workCommissionActiveLeaseState b
      \<and> clashes a b)) ?cs"
    unfolding sorted_wrt_iff_nth_less by simp
  then show ?thesis using load_ok(1)[OF run(1)] unfolding clashes_def by simp
qed

theorem mutual_exclusion_witness:
  "case loadWorkCommissionPayloads (snd (handleHaftCommission example_env claim_args example_store)) of
     Inl e \<Rightarrow> False
   | Inr cs \<Rightarrow> sorted_wrt (\<lambda>a b. \<not> (workCommissionActiveLeaseState a \<and> workCommissionActiveLeaseState b
       \<and> commissionRepoRef a = commissionRepoRef b
       \<and> LocksetsOverlap (commissionLockset a) (commissionLockset b))) cs"
  by (rule mutual_exclusion[OF example_store_ok example_idle example_runs(2)])

text \<open>
  C2. Work never runs ahead of its dependencies: along an orderly run, every dependency of an
  executing commission is a stored commission that is completed.
\<close>

theorem dependencies_first:
  assumes "store_ok store0" "all_idle store0" "orderly\<^sup>*\<^sup>* store0 store"
  shows "case loadWorkCommissionPayloads store of
           Inl e \<Rightarrow> False
         | Inr cs \<Rightarrow> list_all (\<lambda>c. if workCommissionActiveLeaseState c
               then list_all (\<lambda>d. list_ex (\<lambda>k. stringField k ''id'' = d \<and> IsCompletionState (stringField k ''state'')) cs)
                      (stringSliceField c ''depends_on'')
               else True) cs"
proof -
  note run = orderly_run[OF assms]
  have "list_ex (\<lambda>k. stringField k ''id'' = d \<and> IsCompletionState (stringField k ''state'')) (commissions store)"
    if c: "c \<in> set (commissions store)" "workCommissionActiveLeaseState c" "d \<in> set (stringSliceField c ''depends_on'')" for c d
  proof -
    have "dependencies_done store c"
      using c(1,2) run(3) mem_commissions[OF run(1)] unfolding executing_ready_def by blast
    then obtain k where "view store d = Some k" "IsCompletionState (stringField k ''state'')"
      using c(3) by (auto simp: dependencies_done_def list_all_iff split: option.splits)
    then show ?thesis using view_Some(1,5)[OF _ run(1)] unfolding list_ex_iff by blast
  qed
  then show ?thesis using load_ok(1)[OF run(1)] by (simp add: list_all_iff)
qed

theorem dependencies_first_witness:
  "isl (loadWorkCommissionPayloads (snd (handleHaftCommission example_env claim_args example_store))) = False"
  using dependencies_first[OF example_store_ok example_idle example_runs(2)]
  by (auto split: sum.splits)

end
