(* ===== verification/CommissionOutcomes.thy ===== *)
theory CommissionOutcomes
  imports CommissionEffects
begin

text \<open>
  How work ends and begins: when a start is accepted, what local evidence completes, and the
  runtime runs that the log of a commission is divided into.
\<close>

section \<open>Starting\<close>

lemma start_is_lifecycle: "''start_after_preflight'' \<in> lifecycle_actions" "''complete_or_block'' \<in> lifecycle_actions"
  by (simp_all add: lifecycle_actions_def)

lemma start_guard:
  "stringArg args ''action'' = ''start_after_preflight'' \<Longrightarrow>
   ensureWorkCommissionLifecycleTransition c args = Inr () \<longleftrightarrow>
     stringField c ''state'' = StatePreflighting
     \<or> stringField c ''state'' = StateRunning \<and> stringArg args ''verdict'' = ''pass''"
  by (simp add: lifecycle_guard lifecycle_allowed_states_def workCommissionLifecycleAllowedStatesByAction_def)

lemma envelope_passes_iff:
  "stringArg args ''action'' = ''start_after_preflight'' \<Longrightarrow>
   start_envelope_report env args c = Inr None \<longleftrightarrow>
     (case workCommissionAutonomyEnvelopeReport (env_gates env) c (env_now env) of
        Inl e \<Rightarrow> False
      | Inr None \<Rightarrow> True
      | Inr (Some r) \<Rightarrow> rp_decision r \<noteq> DecisionBlocked)"
  by (simp add: start_envelope_report_def commissionAutonomyEnvelopeBlocked_def split: sum.split option.split)

definition may_start :: "Env \<Rightarrow> payload \<Rightarrow> Store \<Rightarrow> commission \<Rightarrow> bool" where
  "may_start env args store c \<longleftrightarrow>
     (stringField c ''state'' = StatePreflighting
      \<or> stringField c ''state'' = StateRunning \<and> stringArg args ''verdict'' = ''pass'')
     \<and> \<not> commissionFreshnessBlocked (workCommissionFreshnessReport (env_sections env) store c args (env_now env))
     \<and> (case workCommissionAutonomyEnvelopeReport (env_gates env) c (env_now env) of
          Inl e \<Rightarrow> False
        | Inr None \<Rightarrow> True
        | Inr (Some r) \<Rightarrow> rp_decision r \<noteq> DecisionBlocked)"

lemma applied_start:
  assumes "stringArg args ''action'' = ''start_after_preflight''"
  shows "stringField (lifecycle_applied env args c) ''state'' = StateRunning"
  using assms by (simp add: lifecycle_applied_def applyLifecycleState_def Let_def plain_char_def)

text \<open>
  A start looks at neither the lease, nor the deadline, nor the revision of the implementation plan:
  two commissions that differ in these alone start alike. The contract in
  \<open>spec/target-system/EXECUTION_CONTRACT.md\<close> asks for all three checks.
\<close>

lemma start_ignores_lease:
  assumes "same_except {''lease'', ''valid_until'', ''implementation_plan_ref'', ''implementation_plan_revision''} c c'"
  shows "may_start env args store c' \<longleftrightarrow> may_start env args store c"
proof -
  note fs = same_except_field[OF assms]
  have maps: "stringMapField c' ''spec_revision_hashes'' = stringMapField c ''spec_revision_hashes''"
    using same_except_map[OF assms, of "''spec_revision_hashes''"] by (simp add: stringMapField_def)
  have refs: "workCommissionSpecSectionRefs c' = workCommissionSpecSectionRefs c"
    by (simp add: workCommissionSpecSectionRefs_def fs)
  have report: "workCommissionAutonomyEnvelopeReport gates c' now = workCommissionAutonomyEnvelopeReport gates c now" for gates now
  proof -
    have req: "autonomyEnvelopeCommissionRequest c' = autonomyEnvelopeCommissionRequest c"
      by (rule request_cong) (simp add: fs)
    have snap: "mapArg c' ''autonomy_envelope_snapshot'' = mapArg c ''autonomy_envelope_snapshot''" by (simp add: fs)
    show ?thesis unfolding workCommissionAutonomyEnvelopeReport_def req snap ..
  qed
  have fields: "stringField c' ''decision_ref'' = stringField c ''decision_ref''"
    "stringField c' ''decision_revision_hash'' = stringField c ''decision_revision_hash''"
    "stringField c' ''problem_card_ref'' = stringField c ''problem_card_ref''"
    "stringField c' ''problem_revision_hash'' = stringField c ''problem_revision_hash''"
    "stringField c' ''id'' = stringField c ''id''"
    "stringField c' ''scope_hash'' = stringField c ''scope_hash''"
    "stringField c' ''base_sha'' = stringField c ''base_sha''"
    "stringField c' ''autonomy_envelope_revision'' = stringField c ''autonomy_envelope_revision''"
    "stringField c' ''autonomy_envelope_ref'' = stringField c ''autonomy_envelope_ref''"
    "mapArg c' ''scope'' = mapArg c ''scope''"
    by (simp_all add: fs)
  have "fr_issues (workCommissionFreshnessReport loads store c' args now)
      = fr_issues (workCommissionFreshnessReport loads store c args now)" for loads now
  proof (cases "stringArg args ''action'' = ''start_after_preflight''")
    case True
    show ?thesis
      unfolding workCommissionFreshnessReport_def decisionFreshnessIssues_def problemFreshnessIssues_def
        scopeFreshnessIssues_def admittedBaseFreshnessIssues_def specFreshnessIssues_def
        resolvedSpecFreshnessIssues_def autonomyEnvelopeFreshnessIssues_def maps refs fields
      by (simp add: True)
  qed (simp add: workCommissionFreshnessReport_def)
  then have "commissionFreshnessBlocked (workCommissionFreshnessReport loads store c' args now)
      \<longleftrightarrow> commissionFreshnessBlocked (workCommissionFreshnessReport loads store c args now)" for loads now
    by (simp add: commissionFreshnessBlocked_def)
  then show ?thesis unfolding may_start_def report by (simp add: fs)
qed

text \<open>
  C8. When work starts: the commission is stored and in preflight (or is already running and
  reports a pass), its decision, problem, scope, base commit, specification and envelope revision
  pass the freshness gate, and its envelope, if it has one, is valid and does not block it. Then it is
  running and its log has grown by the event of the start. Otherwise the call is an error and no
  commission comes to run. These are all the conditions of the code: who holds the lease, whether the
  deadline has passed and whether the plan was revised since, which the contract wants checked, play
  no part.
\<close>

theorem start_effect:
  assumes "store_ok store" "stringArg args ''action'' = ''start_after_preflight''"
  shows "let i = stringArg args ''commission_id'';
             (outcome, store') = appendWorkCommissionLifecycle env args store
    in case view store i of
         None \<Rightarrow> isl outcome \<and> store' = store
       | Some c \<Rightarrow>
           if may_start env args store c
           then \<exists>c' e. outcome = Inr (commissionResponse ''commission'' (GMap c'))
                  \<and> view store' = (view store)(i \<mapsto> json_norm_payload c')
                  \<and> stringField c' ''state'' = StateRunning \<and> same_except volatile_keys c c'
                  \<and> stored_events c' = stored_events c @ [GMap e]
                  \<and> stringField e ''action'' = ''start_after_preflight''
           else isl outcome \<and> (store' = store \<or> stopped store store')"
proof -
  let ?i = "stringArg args ''commission_id''"
  define report where "report = (\<lambda>c. workCommissionFreshnessReport (env_sections env) store c args (env_now env))"
  define gapped where "gapped = (\<lambda>c. workCommissionArgsWithFreshnessGaps args (report c))"
  have act: "stringArg (gapped c) ''action'' = ''start_after_preflight''" for c
    using assms(2) by (simp add: gapped_def)
  have life: "stringArg args ''action'' \<in> lifecycle_actions" using assms(2) start_is_lifecycle by simp
  show ?thesis
  proof (cases rule: lifecycle_outcomes[where env = env, OF assms(1) life report_def gapped_def])
    case (1 e)
    show ?thesis
    proof (cases "view store ?i")
      case None
      then show ?thesis using 1 by simp
    next
      case (Some c)
      note ok = view_Some[OF Some assms(1)]
      have "\<not> may_start env args store c"
      proof
        assume may: "may_start env args store c"
        have guard: "ensureWorkCommissionLifecycleTransition c args = Inr ()"
          and fresh: "\<not> commissionFreshnessBlocked (report c)"
          and pass: "start_envelope_report env (gapped c) c = Inr None"
          using may start_guard[OF assms(2)] envelope_passes_iff[OF act] unfolding may_start_def report_def by auto
        have ex: "IsExecutingState (stringField c ''state'')"
          using lifecycle_guard_executing[OF guard] by (simp add: workCommissionActiveLeaseState_def)
        let ?c1 = "lifecycle_applied env (gapped c) c"
        have "\<exists>e. stored_events ?c1 = stored_events c @ [e]" using lifecycle_applied_effect(2) by blast
        then obtain s where "commit_commission ?c1 store (Inr (commissionResponse ''commission'' (GMap ?c1)))
            = (Inr (commissionResponse ''commission'' (GMap ?c1)), s)"
          using lifecycle_commit[OF assms(1) Some life ex lifecycle_applied_effect(1) _ lifecycle_applied_effect(3)] by blast
        moreover have "appendWorkCommissionLifecycle env args store
            = commit_commission ?c1 store (Inr (commissionResponse ''commission'' (GMap ?c1)))"
          using guard fresh pass ok(4,6)
          by (simp add: appendWorkCommissionLifecycle_def Let_def report_def gapped_def)
        ultimately show False using 1 by simp
      qed
      then show ?thesis using 1 Some by (simp add: Let_def)
    qed
  next
    case (2 c s)
    have "stopped store s" by (rule stoppedI[OF 2(1,5)]) (simp add: freshness_blocked_effect(3))
    moreover have "\<not> may_start env args store c" using 2(3) by (simp add: may_start_def report_def)
    ultimately show ?thesis using 2 by (simp add: Let_def)
  next
    case (3 c s r)
    have "stopped store s"
      by (rule stoppedI[OF 3(1,6)], unfold stringField_norm) (use envelope_blocked_effect(3) in blast)
    moreover have "\<not> may_start env args store c"
      using 3(4) envelope_passes_iff[OF act[of c], where env = env and c = c] by (simp add: may_start_def)
    ultimately show ?thesis using 3 by (simp add: Let_def)
  next
    case (4 c s)
    let ?c1 = "lifecycle_applied env (gapped c) c" and ?e = "lifecycle_event c (gapped c) (env_event env)"
    have "may_start env args store c"
      using 4(2,3,4) start_guard[OF assms(2), of c] envelope_passes_iff[OF act[of c], where env = env and c = c]
      by (simp add: may_start_def report_def)
    moreover have "stringField ?e ''action'' = ''start_after_preflight''"
      using lifecycle_event_fields(1)[of "''action''"] act by simp
    ultimately show ?thesis
      using 4(1,5,6) applied_start[OF act] lifecycle_applied_effect(1,2) by (auto simp: Let_def)
  qed
qed

theorem start_effect_witness:
  "isl (fst (appendWorkCommissionLifecycle example_env
      [(''action'', GStr ''start_after_preflight''), (''commission_id'', GStr ''wc-1'')] example_store))"
proof -
  let ?args = "[(''action'', GStr ''start_after_preflight''), (''commission_id'', GStr ''wc-1'')]"
  obtain c where c: "view example_store ''wc-1'' = Some c" "stringField c ''state'' = ''cancelled''"
    using example_view by blast
  have args: "stringArg ?args ''action'' = ''start_after_preflight''" "stringArg ?args ''commission_id'' = ''wc-1''"
    by (simp_all add: stringArg_def plain_char_def)
  have "\<not> may_start example_env ?args example_store c" using c(2) by (simp add: may_start_def)
  then show ?thesis
    using start_effect[OF example_store_ok args(1), of example_env] c(1) unfolding args(2)
    by (auto simp: Let_def split: prod.splits)
qed

section \<open>Completing\<close>

text \<open>
  Whether delivery may be automatic: the policy of the commission asks for it and the envelope,
  if there is one, is valid and allows the commission now.
\<close>

definition delivers_itself :: "Env \<Rightarrow> commission \<Rightarrow> bool" where
  "delivers_itself env c \<longleftrightarrow>
     stringField c ''delivery_policy'' = ''workspace_patch_auto_on_pass''
     \<and> (case workCommissionAutonomyEnvelopeReport (env_gates env) c (env_delivery env) of
          Inl e \<Rightarrow> False
        | Inr None \<Rightarrow> True
        | Inr (Some r) \<Rightarrow> rp_decision r = DecisionAllowed)"

lemma missing_envelope_delivers:
  assumes "mapArg c ''autonomy_envelope_snapshot'' = None"
  shows "delivers_itself env c \<longleftrightarrow> stringField c ''delivery_policy'' = ''workspace_patch_auto_on_pass''"
  using assms by (simp add: delivers_itself_def workCommissionAutonomyEnvelopeReport_def)

lemma delivery_gate_blocked_iff:
  "fst (workCommissionDeliveryGate gates c now) \<noteq> GateBlocked \<longleftrightarrow>
     (case workCommissionAutonomyEnvelopeReport gates c now of
        Inl e \<Rightarrow> False | Inr None \<Rightarrow> True | Inr (Some r) \<Rightarrow> rp_decision r = DecisionAllowed)"
  by (simp add: workCommissionDeliveryGate_def split: sum.split option.split)

lemma report_frozen:
  assumes "same_except volatile_keys c c'"
  shows "workCommissionAutonomyEnvelopeReport gates c' now = workCommissionAutonomyEnvelopeReport gates c now"
proof -
  have "mapArg c' ''autonomy_envelope_snapshot'' = mapArg c ''autonomy_envelope_snapshot''"
    "mapArg c' ''scope'' = mapArg c ''scope''"
    by (rule same_except_field(2)[OF assms], simp add: volatile_keys_def)+
  then show ?thesis
    using request_cong[of c' c] unfolding workCommissionAutonomyEnvelopeReport_def by presburger
qed

lemma boolField_put [simp]:
  "boolField (put k v p) j = (if j = k then (case v of GBool b \<Rightarrow> b | _ \<Rightarrow> False) else boolField p j)"
  by (simp add: boolField_def)

lemma boolField_Cons:
  "boolField ((k, v) # p) j = (if k = j then (case v of GBool b \<Rightarrow> b | _ \<Rightarrow> False) else boolField p j)"
  by (simp add: boolField_def)

lemma delivery_payload_fields:
  "boolField (workCommissionDeliveryDecisionPayload p w g d fs now) ''auto_apply'' = dd_auto_apply d"
  "map_of (workCommissionDeliveryDecisionPayload p w g d fs now) ''auto_apply'' = Some (GBool (dd_auto_apply d))"
  by (simp_all add: workCommissionDeliveryDecisionPayload_def Let_def boolField_Cons)

lemma with_delivery:
  "\<exists>d a. mapArg (withWorkCommissionDeliveryDecision gates c args now) ''delivery_decision'' = Some d
     \<and> mapArg (withWorkCommissionDeliveryDecision gates c args now) ''auto_apply'' = Some a
     \<and> boolField d ''auto_apply'' = boolField a ''allowed''
     \<and> boolField a ''allowed'' = dd_auto_apply (DeliveryAfterLocalEvidence
          (NormalizeDeliveryPolicy (stringField c ''delivery_policy''))
          (NormalizeDeliveryVerdict (stringArg args ''verdict''))
          (fst (workCommissionDeliveryGate gates c now)))"
  by (simp add: withWorkCommissionDeliveryDecision_def Let_def delivery_payload_fields
      workCommissionAutoApplyPayload_def field_value_def boolField_Cons split: prod.split)

lemma completion_core:
  assumes "store_ok store" "stringArg args ''action'' = ''complete_or_block''"
    "stringArg args ''verdict'' \<in> {''pass'', ''completed''}"
    "view store (stringArg args ''commission_id'') = Some c" "stringField c ''state'' = StateRunning"
  shows "let (outcome, store') = appendWorkCommissionLifecycle env args store;
             debt = (NormalizeProjectionPolicy (stringField c ''projection_policy'') = ExternalRequired
                     \<and> pp_state (workCommissionProjectionPublication args) \<noteq> PublicationSynced)
    in \<exists>c' d. outcome = Inr (commissionResponse ''commission'' (GMap c'))
         \<and> view store' = (view store)(stringArg args ''commission_id'' \<mapsto> json_norm_payload c')
         \<and> same_except volatile_keys c c'
         \<and> stringField c' ''state'' = (if debt then StateCompletedWithProjectionDebt else StateCompleted)
         \<and> (mapArg c' ''projection_debt'' \<noteq> None \<longleftrightarrow> debt)
         \<and> mapArg c' ''delivery_decision'' = Some d
         \<and> (boolField d ''auto_apply'' \<longleftrightarrow> delivers_itself env c)
         \<and> (\<exists>a. mapArg c' ''auto_apply'' = Some a \<and> (boolField a ''allowed'' \<longleftrightarrow> delivers_itself env c))"
proof -
  let ?i = "stringArg args ''commission_id''"
  let ?debt = "NormalizeProjectionPolicy (stringField c ''projection_policy'') = ExternalRequired
    \<and> pp_state (workCommissionProjectionPublication args) \<noteq> PublicationSynced"
  let ?c1 = "lifecycle_applied env args c" and ?c0 = "appendLifecycleEvent c args (env_event env)"
  let ?done = "completeWorkCommissionAfterLocalEvidence ?c0 args"
  note ok = view_Some[OF assms(4,1)]
  have life: "stringArg args ''action'' \<in> lifecycle_actions" using assms(2) start_is_lifecycle by simp
  have guard: "ensureWorkCommissionLifecycleTransition c args = Inr ()"
    using assms(2,5) by (simp add: lifecycle_guard lifecycle_allowed_states_def workCommissionLifecycleAllowedStatesByAction_def)
  have ex: "IsExecutingState (stringField c ''state'')" using assms(5) by (simp add: state_tests state_sets plain_char_def)
  have free: "workCommissionFreshnessReport (env_sections env) store c args (env_now env) = \<lparr>fr_issues = [], fr_gaps = []\<rparr>"
    using assms(2) by (simp add: workCommissionFreshnessReport_def)
  have call: "appendWorkCommissionLifecycle env args store
      = commit_commission ?c1 store (Inr (commissionResponse ''commission'' (GMap ?c1)))"
    using guard free ok(4,6) assms(2)
    by (simp add: appendWorkCommissionLifecycle_def Let_def commissionFreshnessBlocked_def
        workCommissionArgsWithFreshnessGaps_def start_envelope_report_def)
  have "\<exists>e. stored_events ?c1 = stored_events c @ [e]" using lifecycle_applied_effect(2) by blast
  then obtain s where s: "appendWorkCommissionLifecycle env args store
      = (Inr (commissionResponse ''commission'' (GMap ?c1)), s)" "view s = (view store)(?i \<mapsto> json_norm_payload ?c1)"
    using lifecycle_commit[OF assms(1,4) life ex lifecycle_applied_effect(1) _ lifecycle_applied_effect(3)] call by metis
  have c1: "?c1 = withWorkCommissionDeliveryDecision (env_gates env) ?done args (env_delivery env)"
    using assms(2,3) by (auto simp: lifecycle_applied_def applyLifecycleState_def Let_def)
  have f0: "same_except volatile_keys c ?c0"
    by (rule same_except_mono[OF append_event_frame]) (simp add: volatile_keys_def)
  have f1: "same_except volatile_keys c ?done"
    by (rule same_except_trans[OF f0 complete_effect(1)]) (auto simp: volatile_keys_def)
  have pol: "stringField ?c0 ''projection_policy'' = stringField c ''projection_policy''"
    by (rule same_except_field(1)[OF f0]) (simp add: volatile_keys_def)
  have "stringField ?done ''state'' = (if ?debt then StateCompletedWithProjectionDebt else StateCompleted)"
    "mapArg ?done ''projection_debt'' \<noteq> None \<longleftrightarrow> ?debt"
    by (simp_all add: completeWorkCommissionAfterLocalEvidence_def Let_def pol CompletionAfterLocalEvidence_def plain_char_def)
  then have st: "stringField ?c1 ''state'' = (if ?debt then StateCompletedWithProjectionDebt else StateCompleted)"
    "mapArg ?c1 ''projection_debt'' \<noteq> None \<longleftrightarrow> ?debt"
    unfolding c1 by (subst same_except_field[OF delivery_effect], simp, simp)+
  have del: "stringField ?done ''delivery_policy'' = stringField c ''delivery_policy''"
    by (rule same_except_field(1)[OF f1]) (simp add: volatile_keys_def)
  have verdict: "NormalizeDeliveryVerdict (stringArg args ''verdict'') = VerdictPass"
    using assms(3) by (auto simp: NormalizeDeliveryVerdict_def plain_char_def)
  have policy: "NormalizeDeliveryPolicy (stringField c ''delivery_policy'') = WorkspacePatchAutoOnPass
      \<longleftrightarrow> stringField c ''delivery_policy'' = ''workspace_patch_auto_on_pass''"
    by (simp add: NormalizeDeliveryPolicy_def)
  obtain d a where "mapArg ?c1 ''delivery_decision'' = Some d" "boolField d ''auto_apply'' \<longleftrightarrow> delivers_itself env c"
    "mapArg ?c1 ''auto_apply'' = Some a" "boolField a ''allowed'' \<longleftrightarrow> delivers_itself env c"
    using with_delivery[of "env_gates env" ?done args "env_delivery env"]
    unfolding c1[symmetric] del verdict delivery_auto_iff delivery_gate_blocked_iff report_frozen[OF f1]
      policy delivers_itself_def by auto
  then show ?thesis using s st lifecycle_applied_effect(1)[of c env args] by (auto simp: Let_def)
qed

text \<open>
  C9. Local evidence that passed always completes a running commission: its state is a completion
  state, with projection debt exactly when an external projection is required and not synced, and
  the debt is recorded exactly then; and the patch is marked to be applied automatically exactly
  when the delivery policy asks for it and the envelope, if there is one, allows the commission. A
  commission without an envelope is delivered by its policy alone, although the architecture document
  makes a missing fact a reason for manual delivery (lemma \<open>missing_envelope_delivers\<close>).
\<close>

theorem completion_effect:
  assumes "store_ok store" "stringArg args ''action'' = ''complete_or_block''"
    "stringArg args ''verdict'' \<in> {''pass'', ''completed''}"
    "view store (stringArg args ''commission_id'') = Some c" "stringField c ''state'' = StateRunning"
  shows "let (outcome, store') = appendWorkCommissionLifecycle env args store;
             debt = (NormalizeProjectionPolicy (stringField c ''projection_policy'') = ExternalRequired
                     \<and> pp_state (workCommissionProjectionPublication args) \<noteq> PublicationSynced)
    in \<exists>c' d. outcome = Inr (commissionResponse ''commission'' (GMap c'))
         \<and> view store' = (view store)(stringArg args ''commission_id'' \<mapsto> json_norm_payload c')
         \<and> same_except volatile_keys c c'
         \<and> stringField c' ''state'' = (if debt then StateCompletedWithProjectionDebt else StateCompleted)
         \<and> (mapArg c' ''projection_debt'' \<noteq> None \<longleftrightarrow> debt)
         \<and> mapArg c' ''delivery_decision'' = Some d
         \<and> (boolField d ''auto_apply'' \<longleftrightarrow> delivers_itself env c)"
  using completion_core[OF assms] unfolding Let_def split_beta by blast

theorem completion_effect_witness:
  "\<exists>c. view (snd (appendWorkCommissionLifecycle example_env finish_args running_store)) ''wc-4'' = Some c
     \<and> stringField c ''state'' = StateCompleted"
proof -
  obtain c where c: "view running_store ''wc-4'' = Some c" "stringField c ''state'' = ''running''"
    "stringField c ''projection_policy'' = []"
    using running_view by blast
  have args: "stringArg finish_args ''action'' = ''complete_or_block''"
    "stringArg finish_args ''verdict'' \<in> {''pass'', ''completed''}" "stringArg finish_args ''commission_id'' = ''wc-4''"
    by (simp_all add: finish_args_def stringArg_def plain_char_def)
  have "NormalizeProjectionPolicy [] \<noteq> ExternalRequired" by (simp add: NormalizeProjectionPolicy_def)
  then show ?thesis
    using completion_effect[OF running_store_ok args(1,2), where c = c and env = example_env] c unfolding args(3)
    by (auto simp: Let_def split: prod.splits)
qed

section \<open>Runtime runs\<close>

lemma fold_count:
  "fold (\<lambda>e n. if \<not> P e then n else n + 1) es n = n + length (filter P es)" for n :: nat
  by (induction es arbitrary: n) auto

lemma mapSlice_append [simp]: "mapSlice (vs @ ws) = mapSlice vs @ mapSlice ws"
  by (induction vs) (auto split: gval.split)

lemma ordinal_eq:
  "workCommissionLifecycleRuntimeRunOrdinal c =
     1 + length (filter workCommissionLifecycleEventClosesRuntimeRun (mapSlice (stored_events c)))"
  by (simp add: workCommissionLifecycleRuntimeRunOrdinal_def fold_count mapSliceField_def stored_events_def
      split: option.split gval.split)

text \<open>
  The log divides into runtime runs: their numbers start at one and never fall, an event opens
  the next run exactly when it ends work (a completion, a freshness block, a blocked preflight),
  an event of a runner that names no run of its own carries the number of the current one, and
  two runs of one commission never get the same id.
\<close>

theorem runtime_runs:
  "workCommissionLifecycleRuntimeRunOrdinal (appendLifecycleEvent c args t) =
     workCommissionLifecycleRuntimeRunOrdinal c +
       (if workCommissionLifecycleEventClosesRuntimeRun (lifecycle_event c args t) then 1 else 0)
   \<and> workCommissionLifecycleRuntimeRunOrdinal c \<ge> 1
   \<and> stringField (lifecycle_event c args t) ''runtime_run_id'' =
      trim_space (workCommissionLifecycleRuntimeRunID c args)
   \<and> (workCommissionLifecycleOrdinalRuntimeRunID (put ''events'' es c) = workCommissionLifecycleOrdinalRuntimeRunID c
      \<longleftrightarrow> workCommissionLifecycleRuntimeRunOrdinal (put ''events'' es c) = workCommissionLifecycleRuntimeRunOrdinal c)"
proof -
  have "stringField (lifecycle_event c args t) ''runtime_run_id'' = trim_space (workCommissionLifecycleRuntimeRunID c args)"
    by (auto simp: lifecycle_event_def Let_def stringField_Cons split: option.split)
      (auto simp: stringField_def)
  moreover have "stringField (put ''events'' es c) ''id'' = stringField c ''id''" by simp
  ultimately show ?thesis
    by (simp add: ordinal_eq workCommissionLifecycleOrdinalRuntimeRunID_def)
qed

end
