(* ===== verification/DecisionFresh.thy ===== *)
theory DecisionFresh
  imports DecisionCommission NewCommission CommissionSystem
begin

text \<open>
  The creation of commissions and the freshness gate agree: what is cut from a decision passes
  the decision and scope checks of the gate on the store it was just written to. And the
  dependencies of a plan become the dependencies of its commissions.
\<close>

section \<open>What building a commission fixes\<close>

definition built_keys :: "string set" where
  "built_keys = {''slice_description'', ''spec_section_refs'', ''spec_revision_hashes'', ''spec_snapshot'',
     ''implementation_plan_ref'', ''implementation_plan_revision'', ''queue'', ''spec_readiness_override''}
     \<union> envelope_keys"

lemma putOptionalString_frame:
  "same_except K p q \<Longrightarrow> k \<in> K \<Longrightarrow> same_except K p (putOptionalString q k v)"
  by (simp add: putOptionalString_def Let_def same_except_put)

lemma built_frame:
  assumes "with_envelope_and_override env args
     (with_references args (with_specs refs snapshot (with_slice input c0))) = Inr c"
  shows "same_except built_keys c0 c"
proof -
  let ?c1 = "with_references args (with_specs refs snapshot (with_slice input c0))"
  have 1: "same_except built_keys c0 ?c1"
    unfolding with_references_def with_specs_def with_slice_def
    by (auto simp: built_keys_def envelope_keys_def intro!: putOptionalString_frame same_except_put split: option.split)
  obtain c2 where c2: "same_except envelope_keys ?c1 c2"
    "c = c2 \<or> (\<exists>o'. c = withCommissionSpecReadinessOverride c2 o' (env_now env))"
  proof (cases "autonomyEnvelopeSnapshotFromArgs args")
    case None
    then show thesis
      using assms that[of ?c1] by (auto simp: with_envelope_and_override_def split: option.splits)
  next
    case (Some snap)
    then obtain c2 where c2: "withCommissionAutonomyEnvelope env ?c1 snap = Inr c2"
      using assms by (auto simp: with_envelope_and_override_def split: sum.splits)
    have "same_except envelope_keys ?c1 c2" using c2 by (rule with_envelope)
    moreover have "c = (case mapArg args ''spec_readiness_override'' of
        None \<Rightarrow> c2 | Some o' \<Rightarrow> withCommissionSpecReadinessOverride c2 o' (env_now env))"
      using assms unfolding with_envelope_and_override_def Some option.case c2 sum.case sum.inject by (rule sym)
    then have "c = c2 \<or> (\<exists>o'. c = withCommissionSpecReadinessOverride c2 o' (env_now env))"
      by (simp split: option.splits) blast
    ultimately show thesis by (rule that)
  qed
  have 2: "same_except built_keys c0 c2"
    by (rule same_except_trans[OF 1 c2(1)]) (auto simp: built_keys_def)
  have "same_except built_keys c0 (withCommissionSpecReadinessOverride c2 o' (env_now env))" for o'
    unfolding withCommissionSpecReadinessOverride_def Let_def
    by (rule same_except_put[OF 2]) (simp add: built_keys_def)
  then show ?thesis using c2(2) 2 by blast
qed

text \<open>The facts a built commission records of its decision and problem.\<close>

lemma build_records:
  assumes "buildWorkCommissionFromDecision env store args = Inr c"
  obtains decision problem where
    "store_get store (art_id decision) = Inr decision" "trim_space (art_id decision) = art_id decision"
    "art_kind decision = KindDecisionRecord" "art_status decision = StatusActive"
    "primaryProblemRefAndHash store decision (UnmarshalDecisionFields decision) = Inr problem"
    "stringField c ''decision_ref'' = art_id decision"
    "stringField c ''decision_revision_hash'' = decisionRevisionHash store decision"
    "stringField c ''problem_card_ref'' = trim_space (fst problem)"
    "stringField c ''problem_revision_hash'' = trim_space (snd problem)"
proof -
  obtain input decision problem snapshot scoped ev where s:
    "parseCommissionFromDecisionInput args (env_now env) = Inr input"
    "loadActiveDecisionRecord store (in_decision_ref input) = Inr decision"
    "primaryProblemRefAndHash store decision (UnmarshalDecisionFields decision) = Inr problem"
    "with_envelope_and_override env args (with_references args (with_specs
        (decisionSpecSectionRefs decision (UnmarshalDecisionFields decision)) snapshot (with_slice input
          (decision_commission input decision (decisionRevisionHash store decision) problem scoped ev (env_now env))))) = Inr c"
    using assms by (auto simp: buildWorkCommissionFromDecision_def Let_def split: sum.splits)
  let ?c0 = "decision_commission input decision (decisionRevisionHash store decision) problem scoped ev (env_now env)"
  note frame = same_except_field(1)[OF built_frame[OF s(4)]]
  have "trim_space (in_decision_ref input) = in_decision_ref input"
    using s(1) by (auto simp: parseCommissionFromDecisionInput_def validateCommissionFromDecisionInput_def Let_def
        split: sum.splits if_splits)
  moreover have g: "store_get store (in_decision_ref input) = Inr decision" "art_kind decision = KindDecisionRecord"
    "art_status decision = StatusActive"
    using s(2) by (auto simp: loadActiveDecisionRecord_def split: sum.splits if_splits)
  moreover have "art_id decision = in_decision_ref input"
    using g(1) by (auto simp: store_get_def find_Some_iff split: option.splits)
  ultimately show thesis
    using s(3) frame[of "''decision_ref''"] frame[of "''decision_revision_hash''"] frame[of "''problem_card_ref''"]
      frame[of "''problem_revision_hash''"]
    by (intro that[of decision problem])
      (simp_all add: decision_commission_def stringField_def built_keys_def envelope_keys_def
        decisionRevisionHash_def artifactRevisionHash_def trim_canonicalJSONHash)
qed

section \<open>Created and at once fresh\<close>

lemma scopeStringSlice_norm [simp]: "scopeStringSlice (json_norm_payload p) k = scopeStringSlice p k"
  by (simp add: scopeStringSlice_def)

lemma mapArg_norm: "mapArg p k = Some m \<Longrightarrow> mapArg (json_norm_payload p) k = Some (json_norm_payload m)"
  by (auto simp: mapArg_def map_of_json_norm_payload json_norm_payload_def[of m] split: option.splits gval.splits)

lemma scope_hash_norm: "workCommissionScopeHash (json_norm_payload p) = workCommissionScopeHash p"
proof -
  have "canonical_scope_fields (json_norm_payload p) = canonical_scope_fields p"
    by (simp add: canonical_scope_fields_def)
  then show ?thesis unfolding workCommissionScopeHash_def canonicalScopeFields_def by presburger
qed

lemma scope_consistent_norm: "scope_consistent c \<Longrightarrow> scope_consistent (json_norm_payload c)"
  by (auto simp: scope_consistent_def mapArg_norm scope_hash_norm split: option.splits)

lemma set_appendStringSet: "set (appendStringSet target vs) \<subseteq> set target \<union> range trim_space"
  by (induction target vs rule: appendStringSet.induct) (auto simp: Let_def split: if_splits)

lemma appendStringSet_trimmed:
  "(\<And>r. r \<in> set target \<Longrightarrow> trim_space r = r) \<Longrightarrow> r \<in> set (appendStringSet target vs) \<Longrightarrow> trim_space r = r"
  using set_appendStringSet[of target vs] by auto

lemma link_problem_refs_trimmed:
  "(\<And>r. r \<in> set refs \<Longrightarrow> trim_space r = r) \<Longrightarrow> r \<in> set (link_problem_refs store refs links) \<Longrightarrow> trim_space r = r"
proof (induction links arbitrary: refs)
  case (Cons link links)
  have step: "trim_space r = r"
    if "r \<in> set (link_problem_refs store (appendStringSet refs vs) links)" for vs
    by (rule Cons.IH[OF appendStringSet_trimmed[OF Cons.prems(1)] that])
  show ?case
    using Cons.prems Cons.IH[of refs] step
    by (auto simp del: appendStringSet.simps split: if_splits sum.splits)
qed simp

lemma primary_problem:
  assumes "primaryProblemRefAndHash store decision flds = Inr problem"
  shows "trim_space (fst problem) = fst problem" "trim_space (snd problem) = snd problem"
    "case store_get store (fst problem) of
       Inl e \<Rightarrow> snd problem = [] | Inr p \<Rightarrow> snd problem = artifactRevisionHash p []"
proof -
  obtain ref refs where refs: "decisionProblemRefs store decision flds = ref # refs" and ref: "fst problem = ref"
    using assms by (auto simp: primaryProblemRefAndHash_def split: list.splits sum.splits)
  have "r \<in> set (appendStringSet [] vs) \<Longrightarrow> trim_space r = r" for r vs
    by (rule appendStringSet_trimmed[of "[]"]) simp_all
  moreover have "ref \<in> set (link_problem_refs store (appendStringSet [] (df_problem_refs flds)) (art_links decision))"
    using refs by (simp add: decisionProblemRefs_def)
  ultimately show "trim_space (fst problem) = fst problem" unfolding ref by (rule link_problem_refs_trimmed)
  show g: "case store_get store (fst problem) of
       Inl e \<Rightarrow> snd problem = [] | Inr p \<Rightarrow> snd problem = artifactRevisionHash p []"
    using assms refs by (auto simp: primaryProblemRefAndHash_def split: sum.splits)
  then show "trim_space (snd problem) = snd problem"
    by (auto simp: artifactRevisionHash_def trim_canonicalJSONHash split: sum.splits)
qed

text \<open>
  C12. On the store a commission cut from a decision was just written to, the decision check and the
  scope check of the start gate find nothing: the decision is an active decision record with the
  recorded hash, and the scope has the recorded hash and base commit. When its problem is stored, the
  problem check finds nothing either unless the problem is no card or is superseded, deprecated or due
  for refresh, which creation does not look at. Without a stored problem the recorded hash is empty.
  The checks on what the runner names and on the specification are not covered. A failed creation
  stores nothing.
\<close>

theorem created_from_decision_is_fresh:
  "case createWorkCommissionFromDecision env args store of
     (Inl e, store') \<Rightarrow> store' = store
   | (Inr r, store') \<Rightarrow>
       \<exists>c. r = commissionResponse ''commission'' (GMap c)
         \<and> decisionFreshnessIssues store' (json_norm_payload c) = []
         \<and> scope_consistent (json_norm_payload c)
         \<and> (case store_get store (stringField c ''problem_card_ref'') of
              Inl e \<Rightarrow> stringField c ''problem_revision_hash'' = []
            | Inr p \<Rightarrow> problemFreshnessIssues store' (json_norm_payload c) = [] \<longleftrightarrow>
                art_kind p = KindProblemCard
                \<and> art_status p \<notin> {StatusSuperseded, StatusDeprecated, StatusRefreshDue})"
proof (cases "fst (createWorkCommissionFromDecision env args store)")
  case (Inl e)
  then show ?thesis by (auto simp: createWorkCommissionFromDecision_def split: sum.splits prod.splits)
next
  case (Inr r)
  obtain store' where created: "createWorkCommissionFromDecision env args store = (Inr r, store')"
    using Inr by (metis prod.collapse)
  obtain c0 c where b: "buildWorkCommissionFromDecision env store args = Inr c0"
    and p: "persistWorkCommission env (env_random env 0) c0 store = Inr (c, store')"
    and r: "r = commissionResponse ''commission'' (GMap c)"
    using created by (auto simp: createWorkCommissionFromDecision_def split: sum.splits prod.splits)
  have n: "normalizeNewWorkCommission env (env_random env 0) c0 = Inr c"
    and s: "store_create (new_commission_row c) store = Inr store'"
    using p by (auto simp: persistWorkCommission_def split: sum.splits)
  obtain decision problem where d: "store_get store (art_id decision) = Inr decision"
    "trim_space (art_id decision) = art_id decision"
    "art_kind decision = KindDecisionRecord" "art_status decision = StatusActive"
    "primaryProblemRefAndHash store decision (UnmarshalDecisionFields decision) = Inr problem"
    "stringField c0 ''decision_ref'' = art_id decision"
    "stringField c0 ''decision_revision_hash'' = decisionRevisionHash store decision"
    "stringField c0 ''problem_card_ref'' = trim_space (fst problem)"
    "stringField c0 ''problem_revision_hash'' = trim_space (snd problem)"
    using b by (rule build_records)
  have same: "stringField c k = stringField c0 k"
    if "k \<in> {''decision_ref'', ''decision_revision_hash'', ''problem_card_ref'', ''problem_revision_hash''}" for k
    by (rule same_except_field(1)[OF normalize_frame[OF n]])
      (use that in \<open>auto simp: new_commission_keys_def envelope_keys_def\<close>)
  have kept: "store_get store' i = Inr a" if "store_get store i = Inr a" for i a
  proof -
    have "art_id (new_commission_row c) \<noteq> i"
      using s that by (auto simp: store_create_Inr store_get_def store_ids_def find_Some_iff split: option.splits)
    then show ?thesis using store_get_create[OF s] that by simp
  qed
  have "store_get store' (art_id decision) = Inr decision" using kept[OF d(1)] .
  moreover have "decisionRevisionHash store' decision = decisionRevisionHash store decision"
    using s by (auto simp: store_create_Inr decisionRevisionHash_def decisionAffectedFilePaths_def GetAffectedFiles_def)
  ultimately have "decisionFreshnessIssues store' (json_norm_payload c) = []"
    using d(3,4,6,7) by (simp add: decision_fresh_iff same)
  moreover have "scope_consistent (json_norm_payload c)"
    using normalize_sound(5)[OF n] by (simp add: scope_consistent_norm)
  moreover have "stringField c ''problem_card_ref'' = fst problem"
    "stringField c ''problem_revision_hash'' = snd problem"
    using same[of "''problem_card_ref''"] same[of "''problem_revision_hash''"] d(8,9) primary_problem(1,2)[OF d(5)]
    by simp_all
  then have "case store_get store (stringField c ''problem_card_ref'') of
      Inl e \<Rightarrow> stringField c ''problem_revision_hash'' = []
    | Inr p \<Rightarrow> stringField c ''problem_revision_hash'' = artifactRevisionHash p []"
    using primary_problem(3)[OF d(5)] by (simp cong: sum.case_cong)
  then have "case store_get store (stringField c ''problem_card_ref'') of
      Inl e \<Rightarrow> stringField c ''problem_revision_hash'' = []
    | Inr p \<Rightarrow> problemFreshnessIssues store' (json_norm_payload c) = [] \<longleftrightarrow>
        art_kind p = KindProblemCard \<and> art_status p \<notin> {StatusSuperseded, StatusDeprecated, StatusRefreshDue}"
    using kept[of "stringField c ''problem_card_ref''"]
    by (auto simp: problem_fresh_iff simp del: insert_iff split: sum.splits)
  ultimately show ?thesis using r unfolding created prod.case sum.case by blast
qed

end
