(* ===== verification/GoText.thy ===== *)
theory GoText
  imports ArtifactFields
begin

text \<open>
  More of Go's \<open>strings\<close> package: \<open>ToLower\<close>, \<open>Fields\<close>, \<open>Split\<close>, \<open>ReplaceAll\<close> for one byte and
  \<open>TrimRight\<close> for a set of ASCII bytes. The lower case of a code point beyond ASCII is the
  Unicode table of the library, a parameter \<open>uni\<close> of everything that uses it.
\<close>

section \<open>Lower case\<close>

definition rune_lower :: "(nat \<Rightarrow> nat) \<Rightarrow> nat \<Rightarrow> nat" where
  "rune_lower uni r = (if r < 0x80 then (if 65 \<le> r \<and> r \<le> 90 then r + 32 else r) else uni r)"

text \<open>\<open>strings.Map\<close>: an invalid byte is decoded as U+FFFD and written as its encoding.\<close>

function map_runes :: "(nat \<Rightarrow> nat) \<Rightarrow> string \<Rightarrow> string" where
  "map_runes f s =
     (if s = [] then []
      else (let (r, n) = decode_rune s in encode_rune (f r) @ map_runes f (drop n s)))"
  by pat_completeness auto
termination
proof (relation "measure (\<lambda>(f, s). length s)")
  fix f :: "nat \<Rightarrow> nat" and s p r n
  assume "s \<noteq> []" "p = decode_rune s" "(r, n) = p"
  then show "((f, drop n s), (f, s)) \<in> measure (\<lambda>(f, s). length s)"
    using drop_rune_shorter[of s] by (metis in_measure old.prod.case snd_conv)
qed simp

declare map_runes.simps [simp del]

definition is_ascii :: "string \<Rightarrow> bool" where
  "is_ascii s \<longleftrightarrow> list_all (\<lambda>c. (of_char c :: nat) < 0x80) s"

definition ToLower :: "(nat \<Rightarrow> nat) \<Rightarrow> string \<Rightarrow> string" where
  "ToLower uni s = (if is_ascii s then lower s else map_runes (rune_lower uni) s)"

lemma lower_char_ascii: "(of_char c :: nat) < 0x80 \<Longrightarrow> (of_char (lower_char c) :: nat) < 0x80"
  by (simp add: lower_char_def byte_in_def)

lemma lower_char_idem [simp]: "lower_char (lower_char c) = lower_char c"
  by (simp add: lower_char_def byte_in_def)

lemma ToLower_ascii: "is_ascii s \<Longrightarrow> ToLower uni s = lower s"
  by (simp add: ToLower_def)

section \<open>Splitting\<close>

text \<open>\<open>strings.Fields\<close>: the maximal runs without white space; \<open>acc\<close> is the run read so far.\<close>

function fields_from :: "string \<Rightarrow> string \<Rightarrow> string list" where
  "fields_from acc s =
     (case s of
        [] \<Rightarrow> (if acc = [] then [] else [acc])
      | c # cs \<Rightarrow>
          (case find (\<lambda>w. w \<noteq> [] \<and> prefix w s) space_seqs of
             None \<Rightarrow> fields_from (acc @ [c]) cs
           | Some w \<Rightarrow> (if acc = [] then [] else [acc]) @ fields_from [] (drop (length w) s)))"
  by pat_completeness auto
termination
  by (relation "measure (\<lambda>(acc, s). length s)") (auto simp: find_Some_iff)

declare fields_from.simps [simp del]

definition Fields :: "string \<Rightarrow> string list" where
  "Fields s = fields_from [] s"

text \<open>\<open>strings.Split\<close> at a single byte.\<close>

fun split_at :: "char \<Rightarrow> string \<Rightarrow> string list" where
  "split_at d [] = [[]]"
| "split_at d (c # cs) =
     (if c = d then [] # split_at d cs
      else (case split_at d cs of [] \<Rightarrow> [[c]] | p # ps \<Rightarrow> (c # p) # ps))"

section \<open>Deleting and trimming bytes\<close>

definition remove_byte :: "char \<Rightarrow> string \<Rightarrow> string" where
  "remove_byte d s = filter (\<lambda>c. c \<noteq> d) s"

definition trim_right_bytes :: "string \<Rightarrow> string \<Rightarrow> string" where
  "trim_right_bytes cutset s = rev (dropWhile (\<lambda>c. c \<in> set cutset) (rev s))"

lemma length_trim_right_bytes: "length (trim_right_bytes cutset s) \<le> length s"
  unfolding trim_right_bytes_def by (metis length_dropWhile_le length_rev)

lemma length_trim_space: "length (trim_space s) \<le> length s"
proof -
  have "length (trim_space s) \<le> length (trim_left s)"
    unfolding trim_space_def by (rule prefix_length_le[OF trim_right_prefix])
  also have "\<dots> \<le> length s" unfolding trim_left_def by (rule suffix_length_le[OF strip_suffix])
  finally show ?thesis .
qed

end
