(* ===== verification/Criteria.thy ===== *)
theory Criteria
  imports GoText
begin

text \<open>
  Acceptance criteria as texts (\<open>internal/artifact/decision.go\<close>, \<open>causal.go\<close>): the normal forms of
  reference and scope lists, the key under which two spellings of a criterion are the same, and the
  index from keys to the one candidate that has the key. \<open>uni\<close> is the lower case of the code points
  beyond ASCII.
\<close>

section \<open>Lists of references\<close>

definition compactStrings :: "string list \<Rightarrow> string list" where
  "compactStrings vs = clean_strings vs"

definition normalizeClaimRefs :: "string list \<Rightarrow> string list" where
  "normalizeClaimRefs refs = dedup_from {} (clean_strings refs)"

definition normalizeClaimScope :: "string list \<Rightarrow> string list" where
  "normalizeClaimScope scope = sort (dedup_from {} (clean_strings scope))"

lemma set_normalizeClaimRefs [simp]: "set (normalizeClaimRefs refs) = set (clean_strings refs)"
  by (simp add: normalizeClaimRefs_def)

lemma set_normalizeClaimScope [simp]: "set (normalizeClaimScope refs) = set (clean_strings refs)"
  by (simp add: normalizeClaimScope_def)

lemma normalizeClaimRefs_id:
  "distinct refs \<Longrightarrow> (\<And>r. r \<in> set refs \<Longrightarrow> trim_space r = r \<and> r \<noteq> []) \<Longrightarrow> normalizeClaimRefs refs = refs"
  by (simp add: normalizeClaimRefs_def clean_strings_id dedup_from_id)

lemma distinct_normalizeClaimRefs [simp]: "distinct (normalizeClaimRefs refs)"
  by (simp add: normalizeClaimRefs_def)

lemma normalizeClaimRefs_idem [simp]: "normalizeClaimRefs (normalizeClaimRefs refs) = normalizeClaimRefs refs"
  by (rule normalizeClaimRefs_id) (auto dest: clean_strings_trimmed)

lemma normalizeClaimRefs_Nil [simp]: "normalizeClaimRefs [] = []"
  by (simp add: normalizeClaimRefs_def)

lemma canonical_normalizeClaimScope [simp, canon]: "canonical (normalizeClaimScope scope)"
  by (auto simp: canonical_def normalizeClaimScope_def dest: clean_strings_trimmed)

lemma normalizeClaimScope_canonical: "canonical scope \<Longrightarrow> normalizeClaimScope scope = scope"
  by (simp add: normalizeClaimScope_def clean_strings_canonical canonical_def dedup_from_id sorted_sort_id)

lemma normalizeClaimScope_idem [simp]: "normalizeClaimScope (normalizeClaimScope scope) = normalizeClaimScope scope"
  by (rule normalizeClaimScope_canonical) simp

lemma clean_normalizeClaimScope [simp]: "clean_strings (normalizeClaimScope scope) = normalizeClaimScope scope"
  by (rule clean_strings_canonical) simp

lemma clean_normalizeClaimRefs [simp]: "clean_strings (normalizeClaimRefs refs) = normalizeClaimRefs refs"
  by (rule clean_strings_id) (auto dest: clean_strings_trimmed)

lemma normalizeClaimScope_Nil [simp]: "normalizeClaimScope [] = []"
  by (simp add: normalizeClaimScope_def)

lemma normalizeClaimScope_cong:
  "set (clean_strings xs) = set (clean_strings ys) \<Longrightarrow> normalizeClaimScope xs = normalizeClaimScope ys"
  by (metis canonical_def canonical_normalizeClaimScope set_normalizeClaimScope sorted_distinct_set_unique)

section \<open>The key of a criterion\<close>

definition trimCriterionLeadMarkers :: "string \<Rightarrow> string" where
  "trimCriterionLeadMarkers value =
     (let trimmed = trim_space value
      in if prefix ''- [ ] '' trimmed then trim_space (trim_prefix ''- [ ] '' trimmed)
         else if prefix ''- [x] '' trimmed then trim_space (trim_prefix ''- [x] '' trimmed)
         else if prefix ''- '' trimmed then trim_space (trim_prefix ''- '' trimmed)
         else if prefix ''* '' trimmed then trim_space (trim_prefix ''* '' trimmed)
         else trimmed)"

text \<open>
  The scan for the bracket that opens the last group runs from the end of the text; here it reads
  the reversed text, and what is left when it stops is the reversed \<open>value[:i]\<close>.
\<close>

fun group_start :: "char \<Rightarrow> char \<Rightarrow> int \<Rightarrow> string \<Rightarrow> string option" where
  "group_start opn cls depth [] = None"
| "group_start opn cls depth (c # cs) =
     (if c = cls then group_start opn cls (depth + 1) cs
      else if c = opn then
        (if depth - 1 = 0 then Some (rev cs) else group_start opn cls (depth - 1) cs)
      else group_start opn cls depth cs)"

definition trimTrailingCriterionGroup :: "string \<Rightarrow> char \<Rightarrow> char \<Rightarrow> string \<times> bool" where
  "trimTrailingCriterionGroup value opn cls =
     (if value = [] then (value, False)
      else if last value \<noteq> cls then (value, False)
      else (case group_start opn cls 0 (rev value) of
              Some before \<Rightarrow> (before, True)
            | None \<Rightarrow> (value, False)))"

lemma group_start_shorter: "group_start opn cls depth cs = Some before \<Longrightarrow> length before < length cs"
  by (induction opn cls depth cs rule: group_start.induct) (auto split: if_splits)

lemma group_start_prefix:
  "group_start opn cls depth cs = Some before \<Longrightarrow> prefix before (rev cs)"
proof (induction opn cls depth cs rule: group_start.induct)
  case (2 opn cls depth c cs)
  then show ?case by (auto split: if_splits intro: prefix_order.trans)
qed simp

lemma trimTrailingCriterionGroup_shorter:
  "trimTrailingCriterionGroup value opn cls = (before, True) \<Longrightarrow> length before < length value"
  by (auto simp: trimTrailingCriterionGroup_def split: if_splits option.splits dest: group_start_shorter)

definition trim_criterion_end :: "string \<Rightarrow> string" where
  "trim_criterion_end s = trim_right_bytes ''.,;:'' (trim_space s)"

lemma trim_criterion_end_shorter: "length (trim_criterion_end s) \<le> length s"
  unfolding trim_criterion_end_def by (meson length_trim_right_bytes length_trim_space le_trans)

function strip_groups :: "string \<Rightarrow> string" where
  "strip_groups trimmed =
     (case trimTrailingCriterionGroup trimmed (CHR ''('') (CHR '')'') of
        (next, True) \<Rightarrow> strip_groups (trim_criterion_end next)
      | (_, False) \<Rightarrow>
          (case trimTrailingCriterionGroup trimmed (CHR ''['') (CHR '']'') of
             (next, True) \<Rightarrow> strip_groups (trim_criterion_end next)
           | (_, False) \<Rightarrow> trim_space trimmed))"
  by pat_completeness auto
termination
  by (relation "measure length")
    (auto dest!: trimTrailingCriterionGroup_shorter[OF sym]
      intro: le_less_trans[OF trim_criterion_end_shorter])

declare strip_groups.simps [simp del]

definition stripTrailingCriterionAnnotations :: "string \<Rightarrow> string" where
  "stripTrailingCriterionAnnotations value =
     strip_groups (trim_criterion_end (trimCriterionLeadMarkers value))"

definition criterionMatchKey :: "(nat \<Rightarrow> nat) \<Rightarrow> string \<Rightarrow> string" where
  "criterionMatchKey uni value =
     join '' '' (Fields (ToLower uni (trim_space (trimCriterionLeadMarkers value))))"

definition criterionAliasKeys :: "(nat \<Rightarrow> nat) \<Rightarrow> string \<Rightarrow> string list" where
  "criterionAliasKeys uni value =
     (let exactKey = criterionMatchKey uni value;
          trimmedKey = criterionMatchKey uni (stripTrailingCriterionAnnotations value)
      in (if exactKey \<noteq> [] then [exactKey] else [])
         @ (if trimmedKey \<noteq> [] \<and> trimmedKey \<noteq> exactKey then [trimmedKey] else []))"

section \<open>The index of unambiguous keys\<close>

text \<open>
  Both indexes of the source are built by the same two loops: the first counts each key and keeps
  the first candidate that has it, the second keeps the keys counted once.
\<close>

fun count_aliases :: "(string \<times> 'a) list \<Rightarrow> (string \<Rightarrow> nat) \<Rightarrow> (string \<rightharpoonup> 'a) \<Rightarrow> (string \<Rightarrow> nat) \<times> (string \<rightharpoonup> 'a)"
where
  "count_aliases [] counts aliases = (counts, aliases)"
| "count_aliases ((key, c) # kcs) counts aliases =
     count_aliases kcs (counts(key := counts key + 1))
       (case aliases key of Some _ \<Rightarrow> aliases | None \<Rightarrow> aliases(key \<mapsto> c))"

definition unique_aliases :: "(string \<times> 'a) list \<Rightarrow> string \<rightharpoonup> 'a" where
  "unique_aliases kcs =
     (let (counts, aliases) = count_aliases kcs (\<lambda>_. 0) Map.empty
      in (\<lambda>key. if counts key = 1 then aliases key else None))"

lemma count_aliases_eq:
  "count_aliases kcs counts aliases =
     (\<lambda>key. counts key + length (filter (\<lambda>kc. fst kc = key) kcs), map_of kcs ++ aliases)"
proof (induction kcs counts aliases rule: count_aliases.induct)
  case (2 key c kcs counts aliases)
  have "map_of kcs ++ (case aliases key of Some _ \<Rightarrow> aliases | None \<Rightarrow> aliases(key \<mapsto> c)) =
        map_of ((key, c) # kcs) ++ aliases"
    by (rule ext) (auto simp: map_add_def split: option.splits)
  moreover have "(\<lambda>k. (counts(key := counts key + 1)) k + length (filter (\<lambda>kc. fst kc = k) kcs)) =
        (\<lambda>k. counts k + length (filter (\<lambda>kc. fst kc = k) ((key, c) # kcs)))"
    by (rule ext) simp
  ultimately show ?case using 2 by (simp only: count_aliases.simps)
qed simp

lemma map_of_filter_key: "map_of (filter (\<lambda>kc. fst kc = key) kcs) key = map_of kcs key"
  by (induction kcs) auto

lemma unique_aliases_eq:
  "unique_aliases kcs key = (case filter (\<lambda>kc. fst kc = key) kcs of [kc] \<Rightarrow> Some (snd kc) | _ \<Rightarrow> None)"
proof (cases "filter (\<lambda>kc. fst kc = key) kcs")
  case Nil
  then show ?thesis by (simp add: unique_aliases_def count_aliases_eq)
next
  case (Cons kc rest)
  then have "kc \<in> set (filter (\<lambda>kc. fst kc = key) kcs)" by simp
  then have key: "fst kc = key" by (simp only: set_filter mem_Collect_eq)
  have "map_of kcs key = map_of (kc # rest) key"
    using map_of_filter_key[of key kcs] unfolding Cons by (rule sym)
  then have "map_of kcs key = Some (snd kc)" using key by (cases kc) simp
  then show ?thesis
    using Cons by (simp add: unique_aliases_def count_aliases_eq split: list.split)
qed

section \<open>Criteria of a decision\<close>

fun acceptance_lines :: "string list \<Rightarrow> string list option" where
  "acceptance_lines [] = Some []"
| "acceptance_lines (line # rest) =
     (let trimmed = trim_space line
      in if trimmed = [] then acceptance_lines rest
         else if prefix ''- [ ] '' trimmed then
           map_option ((#) (trim_space (trim_prefix ''- [ ] '' trimmed))) (acceptance_lines rest)
         else if prefix ''- [x] '' trimmed then
           map_option ((#) (trim_space (trim_prefix ''- [x] '' trimmed))) (acceptance_lines rest)
         else if prefix ''- '' trimmed then
           map_option ((#) (trim_space (trim_prefix ''- '' trimmed))) (acceptance_lines rest)
         else if prefix ''* '' trimmed then
           map_option ((#) (trim_space (trim_prefix ''* '' trimmed))) (acceptance_lines rest)
         else None)"

definition explicitAcceptanceCriteria :: "string \<Rightarrow> string list" where
  "explicitAcceptanceCriteria acceptance =
     (case acceptance_lines (split_at (CHR 0x0A) acceptance) of
        Some criteria \<Rightarrow> normalizeClaimScope criteria
      | None \<Rightarrow> [])"

definition buildCriterionAliasIndex :: "(nat \<Rightarrow> nat) \<Rightarrow> string list \<Rightarrow> string \<rightharpoonup> string" where
  "buildCriterionAliasIndex uni candidates =
     unique_aliases (concat (map (\<lambda>c. map (\<lambda>key. (key, c)) (criterionAliasKeys uni c))
       (normalizeClaimScope candidates)))"

fun first_hit :: "(string \<rightharpoonup> 'a) \<Rightarrow> string list \<Rightarrow> 'a option" where
  "first_hit index [] = None"
| "first_hit index (key # keys) =
     (case index key of Some c \<Rightarrow> Some c | None \<Rightarrow> first_hit index keys)"

definition resolveMeasuredCriterion :: "(nat \<Rightarrow> nat) \<Rightarrow> string \<Rightarrow> (string \<rightharpoonup> string) \<Rightarrow> string" where
  "resolveMeasuredCriterion uni value aliasIndex =
     (case first_hit aliasIndex (criterionAliasKeys uni value) of
        Some candidate \<Rightarrow> candidate
      | None \<Rightarrow>
          (let trimmed = trim_space (stripTrailingCriterionAnnotations value)
           in if trimmed \<noteq> [] then trimmed else trim_space value))"

definition measuredCriteriaScope ::
  "(nat \<Rightarrow> nat) \<Rightarrow> string list \<Rightarrow> string list \<Rightarrow> string list \<Rightarrow> string list"
where
  "measuredCriteriaScope uni criteriaMet criteriaNotMet scopeCandidates =
     (let scope = normalizeClaimScope (criteriaMet @ criteriaNotMet);
          aliasIndex = buildCriterionAliasIndex uni scopeCandidates
      in normalizeClaimScope (map (\<lambda>item. resolveMeasuredCriterion uni item aliasIndex) scope))"

lemma first_hit_mem: "first_hit index keys = Some c \<Longrightarrow> \<exists>key\<in>set keys. index key = Some c"
  by (induction keys) (auto split: option.splits)

section \<open>Causal vocabulary\<close>

text \<open>The texts of the errors stop before the quoted input.\<close>

definition normalizeCausalKey :: "(nat \<Rightarrow> nat) \<Rightarrow> string \<Rightarrow> string" where
  "normalizeCausalKey uni raw =
     remove_byte (CHR '' '') (remove_byte (CHR ''-'') (remove_byte (CHR ''_'') (ToLower uni (trim_space raw))))"

definition ParseRealizabilityVerdict :: "(nat \<Rightarrow> nat) \<Rightarrow> string \<Rightarrow> string result" where
  "ParseRealizabilityVerdict uni raw =
     (let key = normalizeCausalKey uni raw
      in if key = [] then Inr []
         else if key = ''realizable'' then Inr ''realizable''
         else if key \<in> {''nonrealizable'', ''notrealizable'', ''unrealizable''} then Inr ''nonrealizable''
         else if key = ''unknown'' then Inr ''unknown''
         else Inl ''realizability must be one of realizable|nonrealizable|unknown'')"

definition ParseCausalSupportBasis :: "(nat \<Rightarrow> nat) \<Rightarrow> string \<Rightarrow> string result" where
  "ParseCausalSupportBasis uni raw =
     (let key = normalizeCausalKey uni raw
      in if key = [] then Inr []
         else if key \<in> {''observational'', ''observationalassociation'', ''observationalassociationsupportbasis''}
         then Inr ''observationalAssociationSupportBasis''
         else if key \<in> {''interventional'', ''interventionalaction'', ''interventionalactionsupportbasis''}
         then Inr ''interventionalActionSupportBasis''
         else if key \<in> {''realizedcounterfactual'', ''realizedcounterfactualsample'',
                         ''realizedcounterfactualsamplesupportbasis''}
         then Inr ''realizedCounterfactualSampleSupportBasis''
         else if key \<in> {''identifiedestimate'', ''identifiedcounterfactual'', ''identifiedcounterfactualestimate'',
                         ''identifiedcounterfactualestimatesupportbasis''}
         then Inr ''identifiedCounterfactualEstimateSupportBasis''
         else if key \<in> {''simulationonly'', ''simulation'', ''simulationonlycounterfactualoutput'',
                         ''simulationonlycounterfactualoutputbasis''}
         then Inr ''simulationOnlyCounterfactualOutputBasis''
         else Inl (''causal_support_basis must be one of observational|interventional|'' @
                   ''realized_counterfactual|identified_estimate|simulation_only''))"

definition realizability_of :: "(nat \<Rightarrow> nat) \<Rightarrow> string \<Rightarrow> string" where
  "realizability_of uni raw = (case ParseRealizabilityVerdict uni raw of Inr v \<Rightarrow> v | Inl _ \<Rightarrow> [])"

definition realizability_values :: "string list" where
  "realizability_values = [[], ''realizable'', ''nonrealizable'', ''unknown'']"

lemma realizability_of_value: "realizability_of uni raw \<in> set realizability_values"
  by (auto simp: realizability_of_def ParseRealizabilityVerdict_def Let_def realizability_values_def)

lemma realizability_of_id: "v \<in> set realizability_values \<Longrightarrow> realizability_of uni v = v"
  by (auto simp: realizability_values_def realizability_of_def ParseRealizabilityVerdict_def
      normalizeCausalKey_def plain_char_def ToLower_def is_ascii_def lower_def lower_char_def byte_in_def
      remove_byte_def)

lemma realizability_of_idem [simp]: "realizability_of uni (realizability_of uni raw) = realizability_of uni raw"
  by (rule realizability_of_id) (rule realizability_of_value)

end
