(* ===== verification/Claims.thy ===== *)
theory Claims
  imports Criteria
begin

text \<open>
  The claims of a decision (\<open>internal/artifact/claim_status.go\<close>): their normal form and ids, how a
  reference or a scope text finds its claim, what an evidence item is bound to, and the status a
  claim gets from a measurement or from the evidence in force. The probability of a claim is only
  copied.
\<close>

section \<open>Claims and evidence\<close>

record DecisionClaim =
  dc_ID :: string
  dc_Claim :: string
  dc_Observable :: string
  dc_Threshold :: string
  dc_Status :: string
  dc_VerifyAfter :: string
  dc_Realizability :: string
  dc_Probability :: "gval option"

record DecisionPrediction =
  dp_Claim :: string
  dp_Observable :: string
  dp_Threshold :: string
  dp_Status :: string
  dp_VerifyAfter :: string
  dp_Realizability :: string
  dp_Probability :: "gval option"

record PredictionInput =
  pi_Claim :: string
  pi_Observable :: string
  pi_Threshold :: string
  pi_VerifyAfter :: string
  pi_Realizability :: string
  pi_Probability :: "gval option"

record EvidenceItem =
  ei_ID :: string
  ei_Type :: string
  ei_Content :: string
  ei_Verdict :: string
  ei_CarrierRef :: string
  ei_CongruenceLevel :: int
  ei_FormalityLevel :: int
  ei_ClaimRefs :: "string list"
  ei_ClaimScope :: "string list"
  ei_ValidUntil :: string
  ei_CausalSupportBasis :: string

definition ClaimStatusUnverified :: string where "ClaimStatusUnverified = ''unverified''"
definition ClaimStatusSupported :: string where "ClaimStatusSupported = ''supported''"
definition ClaimStatusWeakened :: string where "ClaimStatusWeakened = ''weakened''"
definition ClaimStatusRefuted :: string where "ClaimStatusRefuted = ''refuted''"
definition ClaimStatusInconclusive :: string where "ClaimStatusInconclusive = ''inconclusive''"

lemmas claim_status_texts = ClaimStatusUnverified_def ClaimStatusSupported_def ClaimStatusWeakened_def
  ClaimStatusRefuted_def ClaimStatusInconclusive_def

definition validClaimStatuses :: "string list" where
  "validClaimStatuses =
     [ClaimStatusUnverified, ClaimStatusSupported, ClaimStatusWeakened, ClaimStatusRefuted,
      ClaimStatusInconclusive]"

definition normalizeClaimStatus :: "string \<Rightarrow> string" where
  "normalizeClaimStatus value =
     (let normalized = trim_space value
      in if normalized \<in> set validClaimStatuses then normalized else ClaimStatusUnverified)"

record PredictionMeasureMatch =
  MeasurementRecorded :: bool
  CriteriaMet :: bool
  CriteriaNotMet :: bool

section \<open>Ids\<close>

definition canonicalDecisionClaimID :: "nat \<Rightarrow> string" where
  "canonicalDecisionClaimID index = ''claim-'' @ pad3 (index + 1)"

lemma canonicalDecisionClaimID_inj [simp]:
  "canonicalDecisionClaimID m = canonicalDecisionClaimID n \<longleftrightarrow> m = n"
  by (simp add: canonicalDecisionClaimID_def)

lemma finite_taken_ids: "finite {n. canonicalDecisionClaimID n \<in> set seen}"
  by (rule finite_vimageI[of "set seen" canonicalDecisionClaimID, unfolded vimage_def])
    (auto intro: injI)

text \<open>The search for a free generated id; \<open>seen\<close> is the finite set of ids taken.\<close>

function generated_claim_id :: "nat \<Rightarrow> string list \<Rightarrow> string" where
  "generated_claim_id next seen =
     (if canonicalDecisionClaimID next \<notin> set seen then canonicalDecisionClaimID next
      else generated_claim_id (next + 1) seen)"
  by pat_completeness auto
termination
proof (relation "measure (\<lambda>(next, seen). card {n. next \<le> n \<and> canonicalDecisionClaimID n \<in> set seen})", goal_cases)
  case (2 m seen)
  let ?taken = "\<lambda>k. {n. k \<le> n \<and> canonicalDecisionClaimID n \<in> set seen}"
  have "?taken (m + 1) \<subseteq> ?taken m" "m \<in> ?taken m" "m \<notin> ?taken (m + 1)" using 2 by auto
  then have "?taken (m + 1) \<subset> ?taken m" by blast
  moreover have "finite (?taken m)"
    by (rule finite_subset[OF _ finite_taken_ids[of seen]]) auto
  ultimately show ?case by (simp add: psubset_card_mono)
qed simp

declare generated_claim_id.simps [simp del]

definition uniqueDecisionClaimID :: "string \<Rightarrow> nat \<Rightarrow> string list \<Rightarrow> string" where
  "uniqueDecisionClaimID candidate position seenIDs =
     (let candidate = trim_space candidate
      in if candidate \<noteq> [] \<and> candidate \<notin> set seenIDs then candidate
         else generated_claim_id position seenIDs)"

lemma generated_claim_id_least:
  "\<exists>n\<ge>next. generated_claim_id next seen = canonicalDecisionClaimID n
     \<and> canonicalDecisionClaimID n \<notin> set seen
     \<and> (\<forall>m. next \<le> m \<and> m < n \<longrightarrow> canonicalDecisionClaimID m \<in> set seen)"
proof (induction "next" seen rule: generated_claim_id.induct)
  case (1 k seen)
  show ?case
  proof (cases "canonicalDecisionClaimID k \<in> set seen")
    case False
    then show ?thesis by (intro exI[of _ k]) (auto simp: generated_claim_id.simps[of k])
  next
    case True
    with 1 obtain n where n: "k + 1 \<le> n" "generated_claim_id (k + 1) seen = canonicalDecisionClaimID n"
      "canonicalDecisionClaimID n \<notin> set seen"
      "\<forall>m. k + 1 \<le> m \<and> m < n \<longrightarrow> canonicalDecisionClaimID m \<in> set seen" by auto
    have "canonicalDecisionClaimID m \<in> set seen" if "k \<le> m" "m < n" for m
      using that n(4) True by (cases "m = k") auto
    with n True show ?thesis by (intro exI[of _ n]) (simp add: generated_claim_id.simps[of k])
  qed
qed

section \<open>Normal form\<close>

definition blank_claim :: "DecisionClaim \<Rightarrow> bool" where
  "blank_claim claim \<longleftrightarrow> dc_Claim claim = [] \<and> dc_Observable claim = [] \<and> dc_Threshold claim = []"

definition trimmed_claim :: "(nat \<Rightarrow> nat) \<Rightarrow> DecisionClaim \<Rightarrow> DecisionClaim" where
  "trimmed_claim uni value =
     \<lparr> dc_ID = trim_space (dc_ID value), dc_Claim = trim_space (dc_Claim value),
       dc_Observable = trim_space (dc_Observable value), dc_Threshold = trim_space (dc_Threshold value),
       dc_Status = normalizeClaimStatus (dc_Status value),
       dc_VerifyAfter = trim_space (dc_VerifyAfter value),
       dc_Realizability = realizability_of uni (dc_Realizability value),
       dc_Probability = dc_Probability value \<rparr>"

text \<open>\<open>position\<close> is the number of claims kept so far, \<open>seenIDs\<close> their ids.\<close>

fun normalize_claims_from :: "(nat \<Rightarrow> nat) \<Rightarrow> nat \<Rightarrow> string list \<Rightarrow> DecisionClaim list \<Rightarrow> DecisionClaim list"
where
  "normalize_claims_from uni position seenIDs [] = []"
| "normalize_claims_from uni position seenIDs (value # rest) =
     (let claim = trimmed_claim uni value
      in if blank_claim claim then normalize_claims_from uni position seenIDs rest
         else (let id' = uniqueDecisionClaimID (dc_ID claim) position seenIDs
               in claim\<lparr>dc_ID := id'\<rparr> # normalize_claims_from uni (position + 1) (id' # seenIDs) rest))"

definition normalizeDecisionClaims :: "(nat \<Rightarrow> nat) \<Rightarrow> DecisionClaim list \<Rightarrow> DecisionClaim list" where
  "normalizeDecisionClaims uni claims = normalize_claims_from uni 0 [] claims"

definition claim_of_input :: "(nat \<Rightarrow> nat) \<Rightarrow> PredictionInput \<Rightarrow> DecisionClaim" where
  "claim_of_input uni input =
     \<lparr> dc_ID = [], dc_Claim = trim_space (pi_Claim input), dc_Observable = trim_space (pi_Observable input),
       dc_Threshold = trim_space (pi_Threshold input), dc_Status = ClaimStatusUnverified,
       dc_VerifyAfter = trim_space (pi_VerifyAfter input),
       dc_Realizability = realizability_of uni (pi_Realizability input),
       dc_Probability = pi_Probability input \<rparr>"

definition newDecisionClaims :: "(nat \<Rightarrow> nat) \<Rightarrow> PredictionInput list \<Rightarrow> DecisionClaim list" where
  "newDecisionClaims uni inputs =
     normalizeDecisionClaims uni (filter (\<lambda>c. \<not> blank_claim c) (map (claim_of_input uni) inputs))"

definition claim_of_prediction :: "(nat \<Rightarrow> nat) \<Rightarrow> DecisionPrediction \<Rightarrow> DecisionClaim" where
  "claim_of_prediction uni value =
     \<lparr> dc_ID = [], dc_Claim = trim_space (dp_Claim value), dc_Observable = trim_space (dp_Observable value),
       dc_Threshold = trim_space (dp_Threshold value), dc_Status = normalizeClaimStatus (dp_Status value),
       dc_VerifyAfter = trim_space (dp_VerifyAfter value),
       dc_Realizability = realizability_of uni (dp_Realizability value),
       dc_Probability = dp_Probability value \<rparr>"

definition decisionClaimsFromPredictions :: "(nat \<Rightarrow> nat) \<Rightarrow> DecisionPrediction list \<Rightarrow> DecisionClaim list" where
  "decisionClaimsFromPredictions uni predictions =
     normalizeDecisionClaims uni
       (filter (\<lambda>c. \<not> blank_claim c) (map (claim_of_prediction uni) predictions))"

definition prediction_of_claim :: "DecisionClaim \<Rightarrow> DecisionPrediction" where
  "prediction_of_claim claim =
     \<lparr> dp_Claim = dc_Claim claim, dp_Observable = dc_Observable claim, dp_Threshold = dc_Threshold claim,
       dp_Status = dc_Status claim, dp_VerifyAfter = dc_VerifyAfter claim,
       dp_Realizability = dc_Realizability claim, dp_Probability = dc_Probability claim \<rparr>"

definition decisionPredictionsFromClaims :: "(nat \<Rightarrow> nat) \<Rightarrow> DecisionClaim list \<Rightarrow> DecisionPrediction list" where
  "decisionPredictionsFromClaims uni claims =
     map prediction_of_claim (normalizeDecisionClaims uni claims)"

definition newDecisionPredictions :: "(nat \<Rightarrow> nat) \<Rightarrow> PredictionInput list \<Rightarrow> DecisionPrediction list" where
  "newDecisionPredictions uni inputs = decisionPredictionsFromClaims uni (newDecisionClaims uni inputs)"

section \<open>Aliases\<close>

definition decisionClaimAliasValues :: "DecisionClaim \<Rightarrow> string list" where
  "decisionClaimAliasValues node =
     (let claim = trim_space (dc_Claim node);
          observable = trim_space (dc_Observable node);
          threshold = trim_space (dc_Threshold node)
      in (if claim \<noteq> [] then [claim] else [])
         @ (if observable \<noteq> [] then [observable] else [])
         @ (if claim \<noteq> [] \<and> observable \<noteq> [] then [claim @ '' '' @ observable] else [])
         @ (if claim \<noteq> [] \<and> threshold \<noteq> [] then [claim @ '' '' @ threshold] else [])
         @ (if observable \<noteq> [] \<and> threshold \<noteq> [] then [observable @ '' '' @ threshold] else [])
         @ (if claim \<noteq> [] \<and> observable \<noteq> [] \<and> threshold \<noteq> []
            then [claim @ '' '' @ observable @ '' '' @ threshold] else []))"

definition decisionClaimAliasKeys :: "(nat \<Rightarrow> nat) \<Rightarrow> DecisionClaim \<Rightarrow> string list" where
  "decisionClaimAliasKeys uni claim =
     dedup_from {} (filter (\<lambda>key. key \<noteq> []) (map (criterionMatchKey uni) (decisionClaimAliasValues claim)))"

definition alias_entries :: "(nat \<Rightarrow> nat) \<Rightarrow> DecisionClaim list \<Rightarrow> (string \<times> nat) list" where
  "alias_entries uni claims =
     concat (map (\<lambda>(index, claim). map (\<lambda>key. (key, index)) (decisionClaimAliasKeys uni claim))
       (enumerate 0 claims))"

definition buildDecisionClaimAliasIndex :: "(nat \<Rightarrow> nat) \<Rightarrow> DecisionClaim list \<Rightarrow> string \<rightharpoonup> nat" where
  "buildDecisionClaimAliasIndex uni claims = unique_aliases (alias_entries uni claims)"

definition resolvePredictionAlias :: "(nat \<Rightarrow> nat) \<Rightarrow> string \<Rightarrow> (string \<rightharpoonup> nat) \<Rightarrow> nat option" where
  "resolvePredictionAlias uni value aliasIndex = first_hit aliasIndex (criterionAliasKeys uni value)"

definition matchPredictionCriteria ::
  "(nat \<Rightarrow> nat) \<Rightarrow> (string \<rightharpoonup> nat) \<Rightarrow> nat \<Rightarrow> string list \<Rightarrow> string list \<Rightarrow> bool list"
where
  "matchPredictionCriteria uni aliasIndex predictionCount criteria scope =
     fold (\<lambda>value matches.
         case resolvePredictionAlias uni value aliasIndex of
           None \<Rightarrow> matches
         | Some predictionIndex \<Rightarrow> matches[predictionIndex := True])
       (criteria @ scope) (replicate predictionCount False)"

section \<open>References of evidence\<close>

definition resolveDecisionEvidenceClaimRefs ::
  "(nat \<Rightarrow> nat) \<Rightarrow> DecisionClaim list \<Rightarrow> string list \<Rightarrow> string list \<Rightarrow> string list result"
where
  "resolveDecisionEvidenceClaimRefs uni claims explicitRefs scope =
     (let normalizedClaims = normalizeDecisionClaims uni claims;
          normalizedRefs = normalizeClaimRefs explicitRefs
      in if normalizedClaims = [] then
           (if normalizedRefs = [] then Inr []
            else Inl ''claim_refs require a decision with structured claims'')
         else if normalizedRefs \<noteq> [] then
           (let claimIndex = map dc_ID normalizedClaims;
                invalidRefs = filter (\<lambda>ref. ref \<notin> set claimIndex) normalizedRefs
            in if invalidRefs \<noteq> [] then Inl (''unknown claim_refs: '' @ join '', '' invalidRefs)
               else Inr normalizedRefs)
         else
           (let normalizedScope = normalizeClaimScope scope
            in if normalizedScope = [] then Inr []
               else (let aliasIndex = buildDecisionClaimAliasIndex uni normalizedClaims
                     in Inr (normalizeClaimRefs (concat (map (\<lambda>item.
                          case resolvePredictionAlias uni item aliasIndex of
                            None \<Rightarrow> []
                          | Some index \<Rightarrow> [dc_ID (normalizedClaims ! index)]) normalizedScope))))))"

definition claimRefsSubset :: "string list \<Rightarrow> string list \<Rightarrow> bool" where
  "claimRefsSubset sub super =
     list_all (\<lambda>ref. ref \<in> set (normalizeClaimRefs super)) (normalizeClaimRefs sub)"

fun firstNonEmptyString :: "string list \<Rightarrow> string" where
  "firstNonEmptyString [] = []"
| "firstNonEmptyString (v # vs) =
     (let trimmed = trim_space v in if trimmed \<noteq> [] then trimmed else firstNonEmptyString vs)"

definition primaryDecisionClaimScopeLabel :: "DecisionClaim \<Rightarrow> string" where
  "primaryDecisionClaimScopeLabel claim =
     firstNonEmptyString [trim_space (dc_Claim claim), trim_space (dc_Observable claim),
       trim_space (dc_Threshold claim), trim_space (dc_ID claim)]"

definition expandedDecisionClaimScopeLabel :: "DecisionClaim \<Rightarrow> string" where
  "expandedDecisionClaimScopeLabel claim =
     (let parts = compactStrings [trim_space (dc_Claim claim), trim_space (dc_Observable claim),
                                  trim_space (dc_Threshold claim)]
      in if parts = [] then trim_space (dc_ID claim) else join '' | '' parts)"

definition claim_scope_label :: "DecisionClaim list \<Rightarrow> DecisionClaim \<Rightarrow> string" where
  "claim_scope_label claims claim =
     (let baseLabel = primaryDecisionClaimScopeLabel claim;
          expandedLabel = expandedDecisionClaimScopeLabel claim;
          label = (if count_list (map primaryDecisionClaimScopeLabel claims) baseLabel > 1
                   then expandedLabel else baseLabel)
      in if count_list (map expandedDecisionClaimScopeLabel claims) expandedLabel > 1
         then expandedLabel @ '' | '' @ dc_ID claim else label)"

definition decisionClaimScopeLabelIndex :: "DecisionClaim list \<Rightarrow> string \<rightharpoonup> string" where
  "decisionClaimScopeLabelIndex claims =
     fold (\<lambda>claim index. index(dc_ID claim \<mapsto> claim_scope_label claims claim)) claims Map.empty"

definition decisionClaimScopeFromRefs :: "(nat \<Rightarrow> nat) \<Rightarrow> DecisionClaim list \<Rightarrow> string list \<Rightarrow> string list" where
  "decisionClaimScopeFromRefs uni claims refs =
     (let normalizedClaims = normalizeDecisionClaims uni claims;
          normalizedRefs = normalizeClaimRefs refs
      in if normalizedClaims = [] \<or> normalizedRefs = [] then []
         else (let claimIndex = decisionClaimScopeLabelIndex normalizedClaims
               in normalizeClaimScope (concat (map (\<lambda>ref.
                    case claimIndex ref of None \<Rightarrow> [] | Some scope \<Rightarrow> [scope]) normalizedRefs))))"

definition normalizeDecisionEvidenceBinding ::
  "(nat \<Rightarrow> nat) \<Rightarrow> DecisionClaim list \<Rightarrow> string list \<Rightarrow> string list \<Rightarrow> (string list \<times> string list) result"
where
  "normalizeDecisionEvidenceBinding uni claims explicitRefs scope =
     (let normalizedClaims = normalizeDecisionClaims uni claims;
          normalizedRefs = normalizeClaimRefs explicitRefs;
          normalizedScope = normalizeClaimScope scope
      in if normalizedClaims = [] then
           (if normalizedRefs = [] then Inr ([], normalizedScope)
            else Inl ''claim_refs require a decision with structured claims'')
         else if normalizedRefs = [] then
           (case resolveDecisionEvidenceClaimRefs uni normalizedClaims [] normalizedScope of
              Inl e \<Rightarrow> Inl e
            | Inr resolvedRefs \<Rightarrow> Inr (resolvedRefs, normalizedScope))
         else
           (case resolveDecisionEvidenceClaimRefs uni normalizedClaims normalizedRefs [] of
              Inl e \<Rightarrow> Inl e
            | Inr validatedRefs \<Rightarrow>
                if normalizedScope \<noteq> [] then
                  (case resolveDecisionEvidenceClaimRefs uni normalizedClaims [] normalizedScope of
                     Inl e \<Rightarrow> Inl e
                   | Inr scopeRefs \<Rightarrow>
                       if scopeRefs \<noteq> [] \<and> \<not> claimRefsSubset scopeRefs validatedRefs
                       then Inl (''claim_scope resolves to '' @ join '', '' scopeRefs @
                                 '', which does not match explicit claim_refs '' @ join '', '' validatedRefs)
                       else Inr (validatedRefs, normalizedScope))
                else Inr (validatedRefs, decisionClaimScopeFromRefs uni normalizedClaims validatedRefs)))"

section \<open>Statuses\<close>

definition measuredDecisionClaimRefs ::
  "(nat \<Rightarrow> nat) \<Rightarrow> DecisionClaim list \<Rightarrow> string list \<Rightarrow> string list \<Rightarrow> string list \<Rightarrow> string list \<Rightarrow> string list"
where
  "measuredDecisionClaimRefs uni claims criteriaMet criteriaMetScope criteriaNotMet criteriaNotMetScope =
     (let normalized = normalizeDecisionClaims uni claims
      in if normalized = [] then []
         else (let aliasIndex = buildDecisionClaimAliasIndex uni normalized;
                   metMatches = matchPredictionCriteria uni aliasIndex (length normalized) criteriaMet criteriaMetScope;
                   notMetMatches = matchPredictionCriteria uni aliasIndex (length normalized) criteriaNotMet criteriaNotMetScope
               in normalizeClaimRefs (map (\<lambda>(index, claim). dc_ID claim)
                    (filter (\<lambda>(index, claim). metMatches ! index \<or> notMetMatches ! index)
                      (enumerate 0 normalized)))))"

definition ClaimStatusFromPredictionMeasureMatch :: "PredictionMeasureMatch \<Rightarrow> string" where
  "ClaimStatusFromPredictionMeasureMatch m =
     (if CriteriaMet m \<and> CriteriaNotMet m then ClaimStatusWeakened
      else if CriteriaMet m then ClaimStatusSupported
      else if CriteriaNotMet m then ClaimStatusRefuted
      else if MeasurementRecorded m then ClaimStatusInconclusive
      else ClaimStatusUnverified)"

definition adjudicateDecisionClaims ::
  "(nat \<Rightarrow> nat) \<Rightarrow> DecisionClaim list \<Rightarrow> string list \<Rightarrow> string list \<Rightarrow> string list \<Rightarrow> string list \<Rightarrow> string list
     \<Rightarrow> DecisionClaim list"
where
  "adjudicateDecisionClaims uni claims measuredClaimRefs criteriaMet criteriaMetScope criteriaNotMet
      criteriaNotMetScope =
     (let normalized = normalizeDecisionClaims uni claims
      in if normalized = [] then []
         else (let aliasIndex = buildDecisionClaimAliasIndex uni normalized;
                   metMatches = matchPredictionCriteria uni aliasIndex (length normalized) criteriaMet criteriaMetScope;
                   notMetMatches = matchPredictionCriteria uni aliasIndex (length normalized) criteriaNotMet criteriaNotMetScope;
                   measuredRefs = normalizeClaimRefs measuredClaimRefs
               in map (\<lambda>(index, claim).
                    let recorded = dc_ID claim \<in> set measuredRefs \<or> metMatches ! index \<or> notMetMatches ! index
                    in if \<not> recorded then claim
                       else claim\<lparr>dc_Status := ClaimStatusFromPredictionMeasureMatch
                              \<lparr> MeasurementRecorded = recorded, CriteriaMet = metMatches ! index,
                                CriteriaNotMet = notMetMatches ! index \<rparr>\<rparr>)
                  (enumerate 0 normalized)))"

definition groupActiveEvidenceByClaim ::
  "(nat \<Rightarrow> nat) \<Rightarrow> DecisionClaim list \<Rightarrow> EvidenceItem list \<Rightarrow> string \<Rightarrow> EvidenceItem list"
where
  "groupActiveEvidenceByClaim uni claims evidence =
     (let normalizedClaims = normalizeDecisionClaims uni claims
      in fold (\<lambda>item evidenceByClaim.
           if ei_Verdict item = ''superseded'' then evidenceByClaim
           else (case resolveDecisionEvidenceClaimRefs uni normalizedClaims (ei_ClaimRefs item) (ei_ClaimScope item) of
                   Inl _ \<Rightarrow> evidenceByClaim
                 | Inr claimRefs \<Rightarrow>
                     fold (\<lambda>claimRef m. m(claimRef := m claimRef @ [item])) claimRefs evidenceByClaim))
         evidence (\<lambda>_. []))"

definition claimStatusFromEvidenceItems :: "EvidenceItem list \<Rightarrow> string" where
  "claimStatusFromEvidenceItems evidence =
     (if evidence = [] then ClaimStatusUnverified
      else
        (let verdicts = map (\<lambda>item. trim_space (ei_Verdict item)) evidence;
             hasSupport = list_ex (\<lambda>v. v = ''supports'' \<or> v = ''accepted'') verdicts;
             hasWeaken = list_ex (\<lambda>v. v = ''weakens'' \<or> v = ''partial'') verdicts;
             hasRefute = list_ex (\<lambda>v. v = ''refutes'' \<or> v = ''failed'') verdicts;
             hasUnknown = list_ex (\<lambda>v. v \<notin> {''supports'', ''accepted'', ''weakens'', ''partial'',
                                               ''refutes'', ''failed''}) verdicts
         in if hasSupport \<and> hasRefute then ClaimStatusWeakened
            else if hasRefute then ClaimStatusRefuted
            else if hasWeaken then ClaimStatusWeakened
            else if hasSupport then ClaimStatusSupported
            else if hasUnknown then ClaimStatusInconclusive
            else ClaimStatusUnverified))"

definition rebuildDecisionClaimsFromEvidence ::
  "(nat \<Rightarrow> nat) \<Rightarrow> DecisionClaim list \<Rightarrow> EvidenceItem list \<Rightarrow> DecisionClaim list"
where
  "rebuildDecisionClaimsFromEvidence uni claims activeEvidence =
     (let normalizedClaims = normalizeDecisionClaims uni claims
      in if normalizedClaims = [] then []
         else (let evidenceByClaim = groupActiveEvidenceByClaim uni normalizedClaims activeEvidence
               in map (\<lambda>claim. claim\<lparr>dc_Status := claimStatusFromEvidenceItems (evidenceByClaim (dc_ID claim))\<rparr>)
                    normalizedClaims))"

definition evidenceVerdictFromClaimStatus :: "string \<Rightarrow> string option" where
  "evidenceVerdictFromClaimStatus status =
     (if status = ClaimStatusSupported then Some ''supports''
      else if status = ClaimStatusWeakened then Some ''weakens''
      else if status = ClaimStatusRefuted then Some ''refutes''
      else None)"

definition measurement_item :: "string \<Rightarrow> string list \<Rightarrow> string list \<Rightarrow> EvidenceItem" where
  "measurement_item verdict claimRefs claimScope =
     \<lparr> ei_ID = [], ei_Type = ''measurement'', ei_Content = [], ei_Verdict = verdict, ei_CarrierRef = [],
       ei_CongruenceLevel = 0, ei_FormalityLevel = 0, ei_ClaimRefs = claimRefs, ei_ClaimScope = claimScope,
       ei_ValidUntil = [], ei_CausalSupportBasis = [] \<rparr>"

definition measurementClaimEvidence ::
  "(nat \<Rightarrow> nat) \<Rightarrow> DecisionClaim list \<Rightarrow> string list \<Rightarrow> string list \<Rightarrow> string list \<Rightarrow> string list \<Rightarrow> EvidenceItem list"
where
  "measurementClaimEvidence uni claims criteriaMet criteriaMetScope criteriaNotMet criteriaNotMetScope =
     (let normalizedClaims = normalizeDecisionClaims uni claims
      in if normalizedClaims = [] then []
         else (let aliasIndex = buildDecisionClaimAliasIndex uni normalizedClaims;
                   metMatches = matchPredictionCriteria uni aliasIndex (length normalizedClaims) criteriaMet criteriaMetScope;
                   notMetMatches = matchPredictionCriteria uni aliasIndex (length normalizedClaims) criteriaNotMet criteriaNotMetScope
               in concat (map (\<lambda>(index, claim).
                    let m = \<lparr> MeasurementRecorded = (metMatches ! index \<or> notMetMatches ! index),
                              CriteriaMet = metMatches ! index, CriteriaNotMet = notMetMatches ! index \<rparr>
                    in if \<not> MeasurementRecorded m then []
                       else (case evidenceVerdictFromClaimStatus (ClaimStatusFromPredictionMeasureMatch m) of
                               None \<Rightarrow> []
                             | Some verdict \<Rightarrow>
                                 [measurement_item verdict [dc_ID claim]
                                    (decisionClaimScopeFromRefs uni normalizedClaims [dc_ID claim])]))
                  (enumerate 0 normalizedClaims))))"

end
