(* ===== verification/ClaimLaws.thy ===== *)
theory ClaimLaws
  imports Claims
begin

text \<open>
  What holds of the claims of a decision: the normal form of a claim list, the ids, the references
  an evidence item may have, and how the status of a claim follows from the evidence bound to it.
\<close>

section \<open>Normal form\<close>

definition normal_claim :: "(nat \<Rightarrow> nat) \<Rightarrow> DecisionClaim \<Rightarrow> bool" where
  "normal_claim uni claim \<longleftrightarrow> trimmed_claim uni claim = claim \<and> \<not> blank_claim claim \<and> dc_ID claim \<noteq> []"

definition normal_claims :: "(nat \<Rightarrow> nat) \<Rightarrow> DecisionClaim list \<Rightarrow> bool" where
  "normal_claims uni claims \<longleftrightarrow> distinct (map dc_ID claims) \<and> list_all (normal_claim uni) claims"

lemma show_nat_last: "show_nat n \<noteq> [] \<and> plain_char (last (show_nat n))"
proof -
  have "plain_char (char_of (48 + n mod 10))"
    using mod_less_divisor[of 10 n] by (simp add: plain_char_def of_char_of)
  moreover have "n < 10 \<Longrightarrow> n mod 10 = n" by simp
  ultimately show ?thesis by (subst (1 2) show_nat.simps) auto
qed

lemma trim_canonicalDecisionClaimID [simp]:
  "trim_space (canonicalDecisionClaimID n) = canonicalDecisionClaimID n"
  "canonicalDecisionClaimID n \<noteq> []"
  "[] \<noteq> canonicalDecisionClaimID n"
  using show_nat_last[of "n + 1"]
  by (auto simp: canonicalDecisionClaimID_def pad3_def plain_char_def intro: trim_space_plain)

lemma normalizeClaimStatus_idem [simp]:
  "normalizeClaimStatus (normalizeClaimStatus s) = normalizeClaimStatus s"
  by (auto simp: normalizeClaimStatus_def Let_def validClaimStatuses_def claim_status_texts plain_char_def)

lemma trimmed_claim_idem [simp]: "trimmed_claim uni (trimmed_claim uni c) = trimmed_claim uni c"
  by (simp add: trimmed_claim_def)

lemma trimmed_claim_id: "trimmed_claim uni (c\<lparr>dc_ID := i\<rparr>) = (trimmed_claim uni c)\<lparr>dc_ID := trim_space i\<rparr>"
  by (simp add: trimmed_claim_def)

lemma blank_claim_id [simp]: "blank_claim (c\<lparr>dc_ID := i\<rparr>) = blank_claim c"
  by (simp add: blank_claim_def)

lemma uniqueDecisionClaimID_facts:
  "uniqueDecisionClaimID c n seen \<notin> set seen"
  "trim_space (uniqueDecisionClaimID c n seen) = uniqueDecisionClaimID c n seen"
  "uniqueDecisionClaimID c n seen \<noteq> []"
  using generated_claim_id_least[of n seen] by (auto simp: uniqueDecisionClaimID_def Let_def)

lemma normal_claims_from:
  "normal_claims uni (normalize_claims_from uni n seen claims)
     \<and> set (map dc_ID (normalize_claims_from uni n seen claims)) \<inter> set seen = {}"
proof (induction uni n seen claims rule: normalize_claims_from.induct)
  case (2 uni n seen v vs)
  then show ?case
    using uniqueDecisionClaimID_facts[of "dc_ID (trimmed_claim uni v)" n seen]
    by (auto simp: Let_def normal_claims_def normal_claim_def trimmed_claim_id)
qed (simp add: normal_claims_def)

lemma normal_normalizeDecisionClaims [simp]: "normal_claims uni (normalizeDecisionClaims uni claims)"
  by (simp add: normalizeDecisionClaims_def normal_claims_from)

lemma normalize_claims_from_id:
  "normal_claims uni claims \<Longrightarrow> set (map dc_ID claims) \<inter> set seen = {} \<Longrightarrow>
   normalize_claims_from uni n seen claims = claims"
proof (induction uni n seen claims rule: normalize_claims_from.induct)
  case (2 uni n seen v vs)
  from "2.prems" have v: "trimmed_claim uni v = v" "\<not> blank_claim v" "dc_ID v \<noteq> []" "dc_ID v \<notin> set seen"
    by (auto simp: normal_claims_def normal_claim_def)
  then have "trim_space (dc_ID v) = dc_ID v" by (metis DecisionClaim.select_convs(1) trimmed_claim_def)
  with v have u: "uniqueDecisionClaimID (dc_ID v) n seen = dc_ID v" by (simp add: uniqueDecisionClaimID_def)
  have "normalize_claims_from uni (n + 1) (dc_ID v # seen) vs = vs"
    using "2.IH"(2)[OF refl _ refl] v u "2.prems" by (auto simp: normal_claims_def)
  with v u show ?case by (simp add: Let_def)
qed simp

lemma normalizeDecisionClaims_normal: "normal_claims uni claims \<Longrightarrow> normalizeDecisionClaims uni claims = claims"
  by (simp add: normalizeDecisionClaims_def normalize_claims_from_id)

lemma normalizeDecisionClaims_idem [simp]:
  "normalizeDecisionClaims uni (normalizeDecisionClaims uni claims) = normalizeDecisionClaims uni claims"
  by (rule normalizeDecisionClaims_normal) simp

lemma normalize_claims_from_texts:
  "map (dc_ID_update (\<lambda>_. [])) (normalize_claims_from uni n seen claims) =
     map (dc_ID_update (\<lambda>_. [])) (filter (\<lambda>c. \<not> blank_claim c) (map (trimmed_claim uni) claims))"
  by (induction uni n seen claims rule: normalize_claims_from.induct) (auto simp: Let_def)

text \<open>Claims without an id are numbered.\<close>

lemma generated_claim_id_next:
  "set seen = canonicalDecisionClaimID ` {..<n} \<Longrightarrow> generated_claim_id n seen = canonicalDecisionClaimID n"
  by (subst generated_claim_id.simps) auto

lemma normalize_claims_from_numbered:
  "\<forall>c\<in>set claims. trim_space (dc_ID c) = [] \<and> \<not> blank_claim (trimmed_claim uni c) \<Longrightarrow>
   set seen = canonicalDecisionClaimID ` {..<n} \<Longrightarrow>
   normalize_claims_from uni n seen claims =
     map (\<lambda>(i, c). (trimmed_claim uni c)\<lparr>dc_ID := canonicalDecisionClaimID i\<rparr>) (enumerate n claims)"
proof (induction uni n seen claims rule: normalize_claims_from.induct)
  case (2 uni n seen v vs)
  have v: "dc_ID (trimmed_claim uni v) = []" "\<not> blank_claim (trimmed_claim uni v)"
    using "2.prems"(1) by (auto simp: trimmed_claim_def)
  have u: "uniqueDecisionClaimID [] n seen = canonicalDecisionClaimID n"
    using generated_claim_id_next[OF "2.prems"(2)] by (simp add: uniqueDecisionClaimID_def)
  have "set (canonicalDecisionClaimID n # seen) = canonicalDecisionClaimID ` {..<n + 1}"
    using "2.prems"(2) by (auto simp: lessThan_Suc)
  then have "normalize_claims_from uni (n + 1) (canonicalDecisionClaimID n # seen) vs =
     map (\<lambda>(i, c). (trimmed_claim uni c)\<lparr>dc_ID := canonicalDecisionClaimID i\<rparr>) (enumerate (n + 1) vs)"
    using "2.IH"(2)[OF refl _ refl] v u "2.prems"(1) by simp
  with v u show ?case by (simp add: Let_def)
qed simp

lemma normalizeDecisionClaims_numbered:
  "\<forall>c\<in>set claims. trim_space (dc_ID c) = [] \<and> \<not> blank_claim (trimmed_claim uni c) \<Longrightarrow>
   normalizeDecisionClaims uni claims =
     map (\<lambda>(i, c). (trimmed_claim uni c)\<lparr>dc_ID := canonicalDecisionClaimID i\<rparr>) (enumerate 0 claims)"
  unfolding normalizeDecisionClaims_def by (rule normalize_claims_from_numbered) auto

section \<open>Aliases\<close>

lemma unique_aliases_Some:
  "unique_aliases kcs key = Some v \<Longrightarrow> (key, v) \<in> set kcs \<and> (\<forall>w. (key, w) \<in> set kcs \<longrightarrow> w = v)"
proof -
  assume "unique_aliases kcs key = Some v"
  then have eq: "\<exists>k. filter (\<lambda>kc. fst kc = key) kcs = [(k, v)]"
    by (auto simp: unique_aliases_eq split: list.splits)
  have "(key, w) \<in> set kcs \<longleftrightarrow> (key, w) \<in> set (filter (\<lambda>kc. fst kc = key) kcs)" for w by simp
  moreover have "k = key" if "filter (\<lambda>kc. fst kc = key) kcs = [(k, v)]" for k
    using that by (metis (mono_tags, lifting) fst_conv list.set_intros(1) mem_Collect_eq set_filter)
  ultimately show ?thesis using eq by force
qed

lemma set_alias_entries:
  "(key, i) \<in> set (alias_entries uni claims) \<longleftrightarrow>
     i < length claims \<and> key \<in> set (decisionClaimAliasKeys uni (claims ! i))"
  by (force simp: alias_entries_def in_set_enumerate_eq)

lemma aliasIndex_Some:
  "buildDecisionClaimAliasIndex uni claims key = Some i \<Longrightarrow>
     i < length claims \<and> key \<in> set (decisionClaimAliasKeys uni (claims ! i)) \<and>
     (\<forall>j<length claims. key \<in> set (decisionClaimAliasKeys uni (claims ! j)) \<longrightarrow> j = i)"
  unfolding buildDecisionClaimAliasIndex_def by (drule unique_aliases_Some) (auto simp: set_alias_entries)

lemma resolvePredictionAlias_Some:
  "resolvePredictionAlias uni value (buildDecisionClaimAliasIndex uni claims) = Some i \<Longrightarrow>
     i < length claims \<and> (\<exists>key\<in>set (criterionAliasKeys uni value).
       key \<in> set (decisionClaimAliasKeys uni (claims ! i)) \<and>
       (\<forall>j<length claims. key \<in> set (decisionClaimAliasKeys uni (claims ! j)) \<longrightarrow> j = i))"
  unfolding resolvePredictionAlias_def by (drule first_hit_mem) (blast dest: aliasIndex_Some)

lemmas resolved_index_bound = resolvePredictionAlias_Some[THEN conjunct1]

section \<open>References\<close>

definition scope_claim_ids :: "(nat \<Rightarrow> nat) \<Rightarrow> DecisionClaim list \<Rightarrow> string list \<Rightarrow> string list" where
  "scope_claim_ids uni claims scope =
     concat (map (\<lambda>item.
       case resolvePredictionAlias uni item (buildDecisionClaimAliasIndex uni claims) of
         None \<Rightarrow> [] | Some index \<Rightarrow> [dc_ID (claims ! index)]) (normalizeClaimScope scope))"

lemma scope_claim_ids_Nil [simp]: "normalizeClaimScope scope = [] \<Longrightarrow> scope_claim_ids uni claims scope = []"
  by (simp add: scope_claim_ids_def)

lemma scope_claim_ids_normalize [simp]:
  "scope_claim_ids uni claims (normalizeClaimScope scope) = scope_claim_ids uni claims scope"
  by (simp add: scope_claim_ids_def)

lemma set_scope_claim_ids: "set (scope_claim_ids uni claims scope) \<subseteq> set (map dc_ID claims)"
  by (auto simp: scope_claim_ids_def dest!: resolved_index_bound[OF sym] split: option.splits)

lemma normal_claim_ID: "normal_claim uni c \<Longrightarrow> trim_space (dc_ID c) = dc_ID c \<and> dc_ID c \<noteq> []"
  unfolding normal_claim_def trimmed_claim_def by (metis DecisionClaim.select_convs(1))

lemma normal_claims_ID:
  "normal_claims uni claims \<Longrightarrow> i \<in> set (map dc_ID claims) \<Longrightarrow> trim_space i = i \<and> i \<noteq> []"
  by (auto simp: normal_claims_def list_all_iff dest: normal_claim_ID)

lemma normalizeClaimRefs_ids:
  "normal_claims uni claims \<Longrightarrow> set refs \<subseteq> set (map dc_ID claims) \<Longrightarrow> set (normalizeClaimRefs refs) = set refs"
proof -
  assume *: "normal_claims uni claims" "set refs \<subseteq> set (map dc_ID claims)"
  have "clean_strings refs = refs" by (rule clean_strings_id) (use * normal_claims_ID in blast)
  then show ?thesis by simp
qed

text \<open>What \<open>resolveDecisionEvidenceClaimRefs\<close> returns, by the kind of its arguments.\<close>

lemma resolve_scope_only:
  "resolveDecisionEvidenceClaimRefs uni claims [] scope =
     Inr (normalizeClaimRefs (scope_claim_ids uni (normalizeDecisionClaims uni claims) scope))"
  using set_scope_claim_ids[of uni "normalizeDecisionClaims uni claims" scope]
  by (auto simp: resolveDecisionEvidenceClaimRefs_def Let_def scope_claim_ids_def[symmetric])

lemma resolve_refs:
  "normalizeClaimRefs refs \<noteq> [] \<Longrightarrow>
   resolveDecisionEvidenceClaimRefs uni claims refs scope =
     (if normalizeDecisionClaims uni claims = [] then
        Inl ''claim_refs require a decision with structured claims''
      else if set (normalizeClaimRefs refs) \<subseteq> set (map dc_ID (normalizeDecisionClaims uni claims))
      then Inr (normalizeClaimRefs refs)
      else Inl (''unknown claim_refs: '' @ join '', ''
        (filter (\<lambda>r. r \<notin> set (map dc_ID (normalizeDecisionClaims uni claims))) (normalizeClaimRefs refs))))"
proof -
  assume refs: "normalizeClaimRefs refs \<noteq> []"
  let ?ids = "map dc_ID (normalizeDecisionClaims uni claims)"
  have "filter (\<lambda>r. r \<notin> set ?ids) (normalizeClaimRefs refs) = [] \<longleftrightarrow> set (normalizeClaimRefs refs) \<subseteq> set ?ids"
    by (auto simp only: filter_empty_conv)
  with refs show ?thesis unfolding resolveDecisionEvidenceClaimRefs_def Let_def by presburger
qed

lemma resolve_no_refs:
  "normalizeClaimRefs refs = [] \<Longrightarrow>
   resolveDecisionEvidenceClaimRefs uni claims refs scope = resolveDecisionEvidenceClaimRefs uni claims [] scope"
  by (simp add: resolveDecisionEvidenceClaimRefs_def)

lemma resolve_normalized [simp]:
  "resolveDecisionEvidenceClaimRefs uni (normalizeDecisionClaims uni claims) refs scope =
     resolveDecisionEvidenceClaimRefs uni claims refs scope"
  "resolveDecisionEvidenceClaimRefs uni claims (normalizeClaimRefs refs) scope =
     resolveDecisionEvidenceClaimRefs uni claims refs scope"
  "resolveDecisionEvidenceClaimRefs uni claims refs (normalizeClaimScope scope) =
     resolveDecisionEvidenceClaimRefs uni claims refs scope"
  by (simp_all only: resolveDecisionEvidenceClaimRefs_def normalizeDecisionClaims_idem
      normalizeClaimRefs_idem normalizeClaimScope_idem)

lemma resolve_sound:
  "resolveDecisionEvidenceClaimRefs uni claims refs scope = Inr rs \<Longrightarrow>
     distinct rs \<and> set rs \<subseteq> set (map dc_ID (normalizeDecisionClaims uni claims))"
proof (cases "normalizeClaimRefs refs = []")
  case True
  let ?N = "normalizeDecisionClaims uni claims"
  assume "resolveDecisionEvidenceClaimRefs uni claims refs scope = Inr rs"
  then have "rs = normalizeClaimRefs (scope_claim_ids uni ?N scope)"
    using resolve_no_refs[OF True] by (simp add: resolve_scope_only)
  moreover have "set (normalizeClaimRefs (scope_claim_ids uni ?N scope)) = set (scope_claim_ids uni ?N scope)"
    by (rule normalizeClaimRefs_ids[OF normal_normalizeDecisionClaims set_scope_claim_ids])
  ultimately show ?thesis using set_scope_claim_ids[of uni ?N scope] by simp
next
  case False
  assume "resolveDecisionEvidenceClaimRefs uni claims refs scope = Inr rs"
  then show ?thesis by (auto simp: resolve_refs[OF False] split: if_splits)
qed

section \<open>The properties of claim lists\<close>

text \<open>
  C32. The id a claim gets is never one already taken: its own trimmed id when that is free, otherwise
  the first generated id, counting from its position, that is free. The search always ends.
\<close>

theorem fresh_claim_id:
  "uniqueDecisionClaimID candidate position seen \<notin> set seen
   \<and> (if trim_space candidate \<noteq> [] \<and> trim_space candidate \<notin> set seen
      then uniqueDecisionClaimID candidate position seen = trim_space candidate
      else (\<exists>n. uniqueDecisionClaimID candidate position seen = canonicalDecisionClaimID n \<and> position \<le> n
              \<and> canonicalDecisionClaimID ` {position..<n} \<subseteq> set seen))"
  using uniqueDecisionClaimID_facts(1)[of candidate position seen] generated_claim_id_least[of position seen]
  by (auto simp: uniqueDecisionClaimID_def Let_def)

definition stored_claim :: "DecisionClaim \<Rightarrow> bool" where
  "stored_claim c \<longleftrightarrow> dc_ID c \<noteq> [] \<and> trim_space (dc_ID c) = dc_ID c \<and> \<not> blank_claim c
     \<and> dc_Status c \<in> set validClaimStatuses \<and> dc_Realizability c \<in> set realizability_values"

lemma normalizeClaimStatus_valid: "normalizeClaimStatus s \<in> set validClaimStatuses"
  by (simp add: normalizeClaimStatus_def Let_def validClaimStatuses_def)

lemma normal_claim_stored: "normal_claim uni c \<Longrightarrow> stored_claim c"
proof -
  assume "normal_claim uni c"
  then have c: "trimmed_claim uni c = c" "\<not> blank_claim c" "dc_ID c \<noteq> []" by (auto simp: normal_claim_def)
  have "dc_Status (trimmed_claim uni c) \<in> set validClaimStatuses"
    "dc_Realizability (trimmed_claim uni c) \<in> set realizability_values"
    "trim_space (dc_ID (trimmed_claim uni c)) = dc_ID (trimmed_claim uni c)"
    by (simp_all add: trimmed_claim_def normalizeClaimStatus_valid realizability_of_value)
  with c show ?thesis by (simp add: stored_claim_def)
qed

text \<open>
  Normalising the claims of a decision gives claims with distinct, trimmed, non-empty ids, a known
  status and a known realizability verdict; it drops the claims without any text and nothing else,
  and doing it again changes nothing.
\<close>

theorem claims_normal_form:
  "let cs = normalizeDecisionClaims uni claims
   in normalizeDecisionClaims uni cs = cs \<and> distinct (map dc_ID cs) \<and> list_all stored_claim cs
      \<and> map (dc_ID_update (\<lambda>_. [])) cs =
          map (dc_ID_update (\<lambda>_. [])) (filter (\<lambda>c. \<not> blank_claim c) (map (trimmed_claim uni) claims))"
  using normal_normalizeDecisionClaims[of uni claims] normalize_claims_from_texts[of uni 0 "[]" claims]
  by (auto simp: Let_def normal_claims_def normalizeDecisionClaims_def[symmetric] list_all_iff
      intro: normal_claim_stored)

text \<open>The claims made from predictions are numbered from one.\<close>

definition numbered :: "DecisionClaim list \<Rightarrow> DecisionClaim list" where
  "numbered claims = map (\<lambda>(i, c). c\<lparr>dc_ID := canonicalDecisionClaimID i\<rparr>) (enumerate 0 claims)"

lemma normalize_numbered:
  "list_all (\<lambda>c. trimmed_claim uni c = c \<and> \<not> blank_claim c \<and> dc_ID c = []) claims \<Longrightarrow>
   normalizeDecisionClaims uni claims = numbered claims"
proof -
  assume "list_all (\<lambda>c. trimmed_claim uni c = c \<and> \<not> blank_claim c \<and> dc_ID c = []) claims"
  then have all: "\<forall>c\<in>set claims. trimmed_claim uni c = c \<and> \<not> blank_claim c \<and> dc_ID c = []"
    by (simp add: list_all_iff)
  then have "normalizeDecisionClaims uni claims =
      map (\<lambda>(i, c). (trimmed_claim uni c)\<lparr>dc_ID := canonicalDecisionClaimID i\<rparr>) (enumerate 0 claims)"
    by (intro normalizeDecisionClaims_numbered) auto
  also have "\<dots> = numbered claims"
    using all by (auto simp: numbered_def in_set_enumerate_eq)
  finally show ?thesis .
qed

lemma newDecisionClaims_numbered:
  "newDecisionClaims uni inputs = numbered (filter (\<lambda>c. \<not> blank_claim c) (map (claim_of_input uni) inputs))"
  unfolding newDecisionClaims_def
  by (rule normalize_numbered)
    (auto simp: list_all_iff claim_of_input_def trimmed_claim_def normalizeClaimStatus_def validClaimStatuses_def
      claim_status_texts plain_char_def)

lemma decisionClaimsFromPredictions_numbered:
  "decisionClaimsFromPredictions uni predictions =
     numbered (filter (\<lambda>c. \<not> blank_claim c) (map (claim_of_prediction uni) predictions))"
  unfolding decisionClaimsFromPredictions_def
  by (rule normalize_numbered) (auto simp: list_all_iff claim_of_prediction_def trimmed_claim_def)

lemma claim_of_prediction_of_claim:
  "trimmed_claim uni c = c \<Longrightarrow> claim_of_prediction uni (prediction_of_claim c) = c\<lparr>dc_ID := []\<rparr>"
  unfolding trimmed_claim_def claim_of_prediction_def prediction_of_claim_def
  by (cases c) simp

lemma claims_of_predictions_of_claims:
  "decisionClaimsFromPredictions uni (decisionPredictionsFromClaims uni claims) =
     numbered (map (dc_ID_update (\<lambda>_. [])) (normalizeDecisionClaims uni claims))"
proof -
  let ?N = "normalizeDecisionClaims uni claims"
  have c: "trimmed_claim uni c = c" "\<not> blank_claim c" if "c \<in> set ?N" for c
    using that normal_normalizeDecisionClaims[of uni claims]
    by (auto simp: normal_claims_def list_all_iff normal_claim_def)
  then have "map (claim_of_prediction uni) (decisionPredictionsFromClaims uni claims) =
      map (dc_ID_update (\<lambda>_. [])) ?N"
    by (simp add: decisionPredictionsFromClaims_def claim_of_prediction_of_claim)
  moreover have "filter (\<lambda>c. \<not> blank_claim c) (map (dc_ID_update (\<lambda>_. [])) ?N) = map (dc_ID_update (\<lambda>_. [])) ?N"
    using c by (simp add: filter_id_conv)
  ultimately show ?thesis by (simp add: decisionClaimsFromPredictions_numbered)
qed

lemma numbered_erased: "numbered (map (dc_ID_update (\<lambda>_. [])) cs) = numbered cs"
  unfolding numbered_def by (rule nth_equalityI) (simp_all add: nth_enumerate_eq)

lemma numbered_numbered: "numbered (numbered cs) = numbered cs"
  unfolding numbered_def by (rule nth_equalityI) (simp_all add: nth_enumerate_eq)

text \<open>
  The older representation of a decision's claims as predictions loses nothing but the ids: the
  claims made from the recorded predictions of new inputs are those made from the inputs, and going
  from claims to predictions and back gives the normalised claims, numbered again.
\<close>

theorem predictions_roundtrip:
  "decisionClaimsFromPredictions uni (newDecisionPredictions uni inputs) = newDecisionClaims uni inputs
   \<and> decisionClaimsFromPredictions uni (decisionPredictionsFromClaims uni claims) =
       numbered (normalizeDecisionClaims uni claims)"
proof -
  have "normalizeDecisionClaims uni (newDecisionClaims uni inputs) = newDecisionClaims uni inputs"
    by (simp add: newDecisionClaims_def)
  then show ?thesis
    by (simp add: newDecisionPredictions_def claims_of_predictions_of_claims numbered_erased
        newDecisionClaims_numbered numbered_numbered)
qed

text \<open>
  A text never finds a claim by an ambiguous name: the claim it resolves to has one of the keys of
  the text, and no other claim of the decision has that key.
\<close>

theorem alias_unambiguous:
  "case resolvePredictionAlias uni item (buildDecisionClaimAliasIndex uni claims) of
     None \<Rightarrow> True
   | Some i \<Rightarrow> i < length claims
       \<and> (\<exists>key. key \<in> set (criterionAliasKeys uni item)
            \<and> {j. j < length claims \<and> key \<in> set (decisionClaimAliasKeys uni (claims ! j))} = {i})"
proof (cases "resolvePredictionAlias uni item (buildDecisionClaimAliasIndex uni claims)")
  case (Some i)
  from resolvePredictionAlias_Some[OF this] obtain key where i: "i < length claims"
    and key: "key \<in> set (criterionAliasKeys uni item)" "key \<in> set (decisionClaimAliasKeys uni (claims ! i))"
      "\<forall>j<length claims. key \<in> set (decisionClaimAliasKeys uni (claims ! j)) \<longrightarrow> j = i" by blast
  from i key(2,3) have "{j. j < length claims \<and> key \<in> set (decisionClaimAliasKeys uni (claims ! j))} = {i}" by blast
  with Some i key(1) show ?thesis by auto
qed simp

end
