(* ===== verification/ClaimStatus.thy ===== *)
theory ClaimStatus
  imports ClaimLaws
begin

text \<open>
  What the references and the evidence of a decision mean for its claims: when a binding of an
  evidence item is accepted, and the status of each claim as a function of the set of verdicts
  bound to it.
\<close>

section \<open>Binding\<close>

lemma claimRefsSubset_iff:
  "claimRefsSubset sub super \<longleftrightarrow> set (clean_strings sub) \<subseteq> set (clean_strings super)"
  by (auto simp: claimRefsSubset_def list_all_iff)

lemma set_scope_refs:
  "set (normalizeClaimRefs (scope_claim_ids uni (normalizeDecisionClaims uni claims) scope)) =
     set (scope_claim_ids uni (normalizeDecisionClaims uni claims) scope)"
  by (rule normalizeClaimRefs_ids[OF normal_normalizeDecisionClaims set_scope_claim_ids])

text \<open>The binding, with its calls resolved.\<close>

lemma binding_unfold:
  "normalizeDecisionEvidenceBinding uni claims refs scope =
     (let N = normalizeDecisionClaims uni claims; given = normalizeClaimRefs refs;
          sc = normalizeClaimScope scope; named = normalizeClaimRefs (scope_claim_ids uni N scope)
      in if N = [] then (if given = [] then Inr ([], sc)
                         else Inl ''claim_refs require a decision with structured claims'')
         else if given = [] then Inr (named, sc)
         else if \<not> set given \<subseteq> set (map dc_ID N)
         then Inl (''unknown claim_refs: '' @ join '', '' (filter (\<lambda>r. r \<notin> set (map dc_ID N)) given))
         else if sc \<noteq> [] then
           (if named \<noteq> [] \<and> \<not> set named \<subseteq> set given
            then Inl (''claim_scope resolves to '' @ join '', '' named @
                      '', which does not match explicit claim_refs '' @ join '', '' given)
            else Inr (given, sc))
         else Inr (given, decisionClaimScopeFromRefs uni N given))"
proof (cases "normalizeClaimRefs refs = []")
  case True
  then show ?thesis
    by (simp add: normalizeDecisionEvidenceBinding_def Let_def resolve_scope_only)
next
  case False
  have sub: "claimRefsSubset (normalizeClaimRefs xs) (normalizeClaimRefs refs) \<longleftrightarrow>
    set (normalizeClaimRefs xs) \<subseteq> set (normalizeClaimRefs refs)" for xs
    by (simp add: claimRefsSubset_iff)
  have "resolveDecisionEvidenceClaimRefs uni claims (normalizeClaimRefs refs) [] =
     resolveDecisionEvidenceClaimRefs uni claims refs []" by simp
  note r = this[unfolded resolve_refs[OF False]]
  show ?thesis
    unfolding normalizeDecisionEvidenceBinding_def Let_def resolve_normalized resolve_scope_only
      normalizeDecisionClaims_idem scope_claim_ids_normalize
    by (simp add: False resolve_refs[OF False] sub del: set_normalizeClaimRefs set_map split: if_split)
qed

lemma canonical_decisionClaimScopeFromRefs [simp]: "canonical (decisionClaimScopeFromRefs uni claims refs)"
  by (simp add: decisionClaimScopeFromRefs_def Let_def)

text \<open>
  C30. An evidence item is bound to a decision exactly when every reference it gives is the id of a
  claim and, if it gives any, its scope names no other claim. The binding then has distinct
  references to claims of the decision - those given, or else those the scope names - and a sorted
  scope without blanks or repetitions. A scope label is therefore refused as a reference: it is
  accepted as a scope only. (The instructions of \<open>h-verify\<close> allow "prediction id or scope label" in
  \<open>claim_refs\<close>; the code does not.)
\<close>

theorem binding_exact:
  "let N = normalizeDecisionClaims uni claims; ids = set (map dc_ID N); given = normalizeClaimRefs refs;
       named = set (scope_claim_ids uni N scope); b = normalizeDecisionEvidenceBinding uni claims refs scope
   in ((\<exists>r. b = Inr r) \<longleftrightarrow> set given \<subseteq> ids \<and> (given = [] \<or> named \<subseteq> set given))
      \<and> (case b of Inl _ \<Rightarrow> True
         | Inr (rs, sc) \<Rightarrow>
             distinct rs \<and> set rs \<subseteq> ids \<and> canonical sc
             \<and> (if given = [] then set rs = named else rs = given)
             \<and> (if given \<noteq> [] \<and> normalizeClaimScope scope = []
                then sc = decisionClaimScopeFromRefs uni N given else sc = normalizeClaimScope scope))"
proof -
  let ?N = "normalizeDecisionClaims uni claims"
  have none: "?N = [] \<Longrightarrow> scope_claim_ids uni ?N scope = []"
    using set_scope_claim_ids[of uni ?N scope] by simp
  have blank: "normalizeClaimScope scope = [] \<Longrightarrow> scope_claim_ids uni ?N scope = []" by simp
  have nil: "normalizeClaimRefs (scope_claim_ids uni ?N scope) = [] \<longleftrightarrow> scope_claim_ids uni ?N scope = []"
    using set_scope_refs[of uni claims scope] by (metis set_empty)
  show ?thesis
    using none blank nil set_scope_claim_ids[of uni ?N scope]
    by (auto simp: binding_unfold Let_def set_scope_refs simp del: set_normalizeClaimRefs split: if_splits)
qed

section \<open>Status from evidence\<close>

text \<open>
  The reference: a verdict supports, weakens, refutes or says nothing known, and the status of a
  claim depends on which of the four occur.
\<close>

datatype verdict_kind = Supports | Weakens | Refutes | Unknown

definition kind_of :: "string \<Rightarrow> verdict_kind" where
  "kind_of verdict =
     (if verdict \<in> {''supports'', ''accepted''} then Supports
      else if verdict \<in> {''weakens'', ''partial''} then Weakens
      else if verdict \<in> {''refutes'', ''failed''} then Refutes
      else Unknown)"

definition status_of_kinds :: "verdict_kind set \<Rightarrow> string" where
  "status_of_kinds K =
     (if K = {} then ''unverified''
      else if Refutes \<in> K then (if Supports \<in> K then ''weakened'' else ''refuted'')
      else if Weakens \<in> K then ''weakened''
      else if Supports \<in> K then ''supported''
      else ''inconclusive'')"

definition bound_refs :: "(nat \<Rightarrow> nat) \<Rightarrow> DecisionClaim list \<Rightarrow> EvidenceItem \<Rightarrow> string list" where
  "bound_refs uni claims item =
     (if ei_Verdict item = ''superseded'' then []
      else (case resolveDecisionEvidenceClaimRefs uni claims (ei_ClaimRefs item) (ei_ClaimScope item) of
              Inl _ \<Rightarrow> [] | Inr refs \<Rightarrow> refs))"

lemma distinct_bound_refs: "distinct (bound_refs uni claims item)"
  by (auto simp: bound_refs_def dest: resolve_sound split: sum.splits)

lemma bound_refs_normalize [simp]: "bound_refs uni (normalizeDecisionClaims uni claims) = bound_refs uni claims"
  by (rule ext) (simp add: bound_refs_def)

lemma status_from_kinds:
  "claimStatusFromEvidenceItems evidence = status_of_kinds ((\<lambda>e. kind_of (trim_space (ei_Verdict e))) ` set evidence)"
proof -
  let ?k = "\<lambda>e. kind_of (trim_space (ei_Verdict e))"
  have k: "K \<in> ?k ` set evidence \<longleftrightarrow> list_ex (\<lambda>v. kind_of v = K) (map (\<lambda>e. trim_space (ei_Verdict e)) evidence)" for K
    by (auto simp: list_ex_iff)
  have sup: "kind_of v = Supports \<longleftrightarrow> v = ''supports'' \<or> v = ''accepted''" for v by (simp add: kind_of_def)
  have weak: "kind_of v = Weakens \<longleftrightarrow> v = ''weakens'' \<or> v = ''partial''" for v by (simp add: kind_of_def)
  have ref: "kind_of v = Refutes \<longleftrightarrow> v = ''refutes'' \<or> v = ''failed''" for v by (simp add: kind_of_def)
  have unk: "kind_of v = Unknown \<longleftrightarrow>
      v \<notin> {''supports'', ''accepted'', ''weakens'', ''partial'', ''refutes'', ''failed''}" for v
    by (simp add: kind_of_def)
  have some: "Unknown \<in> ?k ` set evidence"
    if "evidence \<noteq> []" "Supports \<notin> ?k ` set evidence" "Weakens \<notin> ?k ` set evidence" "Refutes \<notin> ?k ` set evidence"
  proof -
    obtain e where e: "e \<in> set evidence" using \<open>evidence \<noteq> []\<close> by (cases evidence) auto
    with that have "?k e \<noteq> Supports" "?k e \<noteq> Weakens" "?k e \<noteq> Refutes" by force+
    then have "?k e = Unknown" by (cases "?k e") auto
    with e show ?thesis by force
  qed
  show ?thesis
  proof (cases "evidence = []")
    case False
    then show ?thesis
      using some
      unfolding claimStatusFromEvidenceItems_def status_of_kinds_def k[of Supports] k[of Weakens] k[of Refutes]
        k[of Unknown] sup weak ref unk Let_def claim_status_texts
      by (simp only: image_is_empty set_empty if_False split: if_split) blast
  qed (simp add: claimStatusFromEvidenceItems_def status_of_kinds_def claim_status_texts)
qed

lemma append_to_all:
  "distinct refs \<Longrightarrow> fold (\<lambda>r m. m(r := m r @ [e])) refs m k = (if k \<in> set refs then m k @ [e] else m k)"
  by (induction refs arbitrary: m) auto

lemma groupActiveEvidenceByClaim_eq:
  "groupActiveEvidenceByClaim uni claims evidence k =
     filter (\<lambda>item. k \<in> set (bound_refs uni claims item)) evidence"
proof -
  let ?step = "\<lambda>item m. if ei_Verdict item = ''superseded'' then m
      else (case resolveDecisionEvidenceClaimRefs uni claims (ei_ClaimRefs item) (ei_ClaimScope item) of
              Inl _ \<Rightarrow> m | Inr refs \<Rightarrow> fold (\<lambda>r m. m(r := m r @ [item])) refs m)"
  have step: "?step item m k = m k @ (if k \<in> set (bound_refs uni claims item) then [item] else [])" for item m
    using distinct_bound_refs[of uni claims item]
    by (auto simp: bound_refs_def append_to_all split: sum.splits)
  have "fold ?step evidence m k = m k @ filter (\<lambda>item. k \<in> set (bound_refs uni claims item)) evidence" for m
    by (induction evidence arbitrary: m) (simp_all add: step del: if_split_asm)
  then show ?thesis unfolding groupActiveEvidenceByClaim_def Let_def resolve_normalized by simp
qed

text \<open>A rebuilt claim, with the grouping and the status of its evidence resolved.\<close>

lemma rebuild_by_kinds:
  "rebuildDecisionClaimsFromEvidence uni claims evidence =
     map (\<lambda>claim. claim\<lparr>dc_Status := status_of_kinds
            {kind_of (trim_space (ei_Verdict e)) |e. e \<in> set evidence \<and> dc_ID claim \<in> set (bound_refs uni claims e)}\<rparr>)
       (normalizeDecisionClaims uni claims)"
proof -
  have "(\<lambda>e. kind_of (trim_space (ei_Verdict e))) ` set (filter (\<lambda>e. k \<in> set (bound_refs uni claims e)) evidence) =
     {kind_of (trim_space (ei_Verdict e)) |e. e \<in> set evidence \<and> k \<in> set (bound_refs uni claims e)}" for k
    by auto
  then show ?thesis
    by (simp add: rebuildDecisionClaimsFromEvidence_def Let_def groupActiveEvidenceByClaim_eq status_from_kinds)
qed

text \<open>
  C28. Rebuilding the claims of a decision from its evidence keeps the normalised claims and sets the
  status of each to the one its bound verdicts ask for: evidence that is superseded or whose
  references are not accepted does not count, and neither the order nor the number of the items
  matters.
\<close>

theorem rebuild_status:
  "rebuildDecisionClaimsFromEvidence uni claims evidence =
     map (\<lambda>claim. claim\<lparr>dc_Status := status_of_kinds
            {kind_of (trim_space (ei_Verdict e)) |e. e \<in> set evidence \<and> dc_ID claim \<in> set (bound_refs uni claims e)}\<rparr>)
       (normalizeDecisionClaims uni claims)"
  by (rule rebuild_by_kinds)

section \<open>Status from a measurement\<close>

text \<open>
  The reference. A text names the claim its first known alias leads to; a claim that met criteria and
  missed none is supported, one that only missed criteria is refuted, one that did both is weakened.
\<close>

definition named_by :: "(nat \<Rightarrow> nat) \<Rightarrow> DecisionClaim list \<Rightarrow> string list \<Rightarrow> nat \<Rightarrow> bool" where
  "named_by uni N texts i \<longleftrightarrow>
     (\<exists>v\<in>set texts. resolvePredictionAlias uni v (buildDecisionClaimAliasIndex uni N) = Some i)"

definition judged :: "bool \<Rightarrow> bool \<Rightarrow> string \<Rightarrow> string" where
  "judged met missed otherwise =
     (if met then (if missed then ''weakened'' else ''supported'') else if missed then ''refuted'' else otherwise)"

lemma length_matchPredictionCriteria [simp]:
  "length (matchPredictionCriteria uni index n criteria scope) = n"
proof -
  have "length (fold (\<lambda>value matches. case resolvePredictionAlias uni value index of
      None \<Rightarrow> matches | Some i \<Rightarrow> matches[i := True]) vs ms) = length ms" for vs and ms :: "bool list"
    by (induction vs arbitrary: ms) (simp_all split: option.split)
  then show ?thesis by (simp add: matchPredictionCriteria_def del: fold_append set_append)
qed

text \<open>The verdict recorded for a claim that met and missed criteria.\<close>

definition measured_verdict :: "bool \<Rightarrow> bool \<Rightarrow> string" where
  "measured_verdict met missed = (if met \<and> missed then ''weakens'' else if met then ''supports'' else ''refutes'')"

text \<open>Which claims a list of criteria and scope texts names, by position.\<close>

definition named_claims :: "(nat \<Rightarrow> nat) \<Rightarrow> DecisionClaim list \<Rightarrow> string list \<Rightarrow> string list \<Rightarrow> bool list" where
  "named_claims uni claims criteria scope =
     (let N = normalizeDecisionClaims uni claims
      in matchPredictionCriteria uni (buildDecisionClaimAliasIndex uni N) (length N) criteria scope)"

definition recorded_item :: "(nat \<Rightarrow> nat) \<Rightarrow> DecisionClaim list \<Rightarrow> bool list \<Rightarrow> bool list \<Rightarrow> nat \<Rightarrow> EvidenceItem"
where
  "recorded_item uni claims A B i =
     (let N = normalizeDecisionClaims uni claims
      in measurement_item (measured_verdict (A ! i) (B ! i)) [dc_ID (N ! i)]
           (decisionClaimScopeFromRefs uni N [dc_ID (N ! i)]))"

lemma set_measurementClaimEvidence:
  "set (measurementClaimEvidence uni claims met metScope missed missedScope) =
     (let A = named_claims uni claims met metScope; B = named_claims uni claims missed missedScope
      in {recorded_item uni claims A B i |i. i < length (normalizeDecisionClaims uni claims) \<and> (A ! i \<or> B ! i)})"
proof -
  let ?N = "normalizeDecisionClaims uni claims"
  define A where "A = named_claims uni claims met metScope"
  define B where "B = named_claims uni claims missed missedScope"
  define f where "f = (\<lambda>i (c :: DecisionClaim). let m = \<lparr> MeasurementRecorded = (A ! i \<or> B ! i), CriteriaMet = A ! i, CriteriaNotMet = B ! i \<rparr>
      in if \<not> MeasurementRecorded m then []
         else (case evidenceVerdictFromClaimStatus (ClaimStatusFromPredictionMeasureMatch m) of None \<Rightarrow> []
               | Some verdict \<Rightarrow> [measurement_item verdict [dc_ID c] (decisionClaimScopeFromRefs uni ?N [dc_ID c])]))"
  have f: "f i (?N ! i) = (if A ! i \<or> B ! i then [recorded_item uni claims A B i] else [])" for i
    by (auto simp: f_def recorded_item_def Let_def measured_verdict_def evidenceVerdictFromClaimStatus_def
        ClaimStatusFromPredictionMeasureMatch_def claim_status_texts)
  have "set (concat (map (\<lambda>(i, c). f i c) (enumerate 0 ?N))) = (\<Union>i<length ?N. set (f i (?N ! i)))"
    by (force simp: in_set_enumerate_eq)
  also have "\<dots> = {recorded_item uni claims A B i |i. i < length ?N \<and> (A ! i \<or> B ! i)}"
    by (auto simp: f split: if_splits)
  finally show ?thesis
    by (auto simp: measurementClaimEvidence_def Let_def f_def A_def B_def named_claims_def)
qed

lemma bound_refs_measurement:
  "i < length (normalizeDecisionClaims uni claims) \<Longrightarrow>
   bound_refs uni claims (measurement_item (measured_verdict met missed)
     [dc_ID (normalizeDecisionClaims uni claims ! i)] scope) = [dc_ID (normalizeDecisionClaims uni claims ! i)]"
proof -
  let ?N = "normalizeDecisionClaims uni claims"
  assume i: "i < length ?N"
  then have id: "trim_space (dc_ID (?N ! i)) = dc_ID (?N ! i) \<and> dc_ID (?N ! i) \<noteq> []"
    by (intro normal_claims_ID[OF normal_normalizeDecisionClaims[of uni claims]]) simp
  then have "normalizeClaimRefs [dc_ID (?N ! i)] = [dc_ID (?N ! i)]"
    by (intro normalizeClaimRefs_id) auto
  with i show ?thesis
    by (auto simp: bound_refs_def measurement_item_def measured_verdict_def resolve_refs)
qed

lemma recorded_kinds:
  fixes uni :: "nat \<Rightarrow> nat" and met metScope missed missedScope :: "string list"
  assumes i: "i < length (normalizeDecisionClaims uni claims)"
  defines "A \<equiv> named_claims uni claims met metScope" and "B \<equiv> named_claims uni claims missed missedScope"
  shows "{kind_of (trim_space (ei_Verdict e)) |e.
      e \<in> set (measurementClaimEvidence uni claims met metScope missed missedScope)
      \<and> dc_ID (normalizeDecisionClaims uni claims ! i) \<in> set (bound_refs uni claims e)} =
    (if A ! i \<or> B ! i then {kind_of (measured_verdict (A ! i) (B ! i))} else {})"
proof -
  let ?N = "normalizeDecisionClaims uni claims"
  have "distinct (map dc_ID ?N)"
    using normal_normalizeDecisionClaims[of uni claims] by (simp add: normal_claims_def)
  then have same: "dc_ID (?N ! i) \<in> set (bound_refs uni claims (recorded_item uni claims A B j)) \<longleftrightarrow> i = j"
    if "j < length ?N" for j
    using that i bound_refs_measurement[OF that] by (auto simp: recorded_item_def Let_def distinct_conv_nth)
  have "{kind_of (trim_space (ei_Verdict e)) |e.
      e \<in> set (measurementClaimEvidence uni claims met metScope missed missedScope) \<and> dc_ID (?N ! i) \<in> set (bound_refs uni claims e)} =
      {kind_of (trim_space (ei_Verdict (recorded_item uni claims A B i))) |k. A ! i \<or> B ! i}"
    unfolding set_measurementClaimEvidence Let_def A_def[symmetric] B_def[symmetric] using same i by blast
  also have "trim_space (ei_Verdict (recorded_item uni claims A B i)) = measured_verdict (A ! i) (B ! i)"
    by (simp add: recorded_item_def measurement_item_def measured_verdict_def plain_char_def Let_def)
  finally show ?thesis by auto
qed

lemma measured_verdict_judged:
  "status_of_kinds (if met \<or> missed then {kind_of (measured_verdict met missed)} else {}) = judged met missed ''unverified''"
  by (simp add: status_of_kinds_def kind_of_def measured_verdict_def judged_def)

lemma match_judged:
  "(if recorded \<or> met \<or> missed
    then ClaimStatusFromPredictionMeasureMatch
      \<lparr> MeasurementRecorded = recorded \<or> met \<or> missed, CriteriaMet = met, CriteriaNotMet = missed \<rparr>
    else old) = judged met missed (if recorded then ''inconclusive'' else old)"
  by (simp add: judged_def ClaimStatusFromPredictionMeasureMatch_def claim_status_texts)

lemma nth_matchPredictionCriteria:
  "i < n \<Longrightarrow> matchPredictionCriteria uni index n criteria scope ! i \<longleftrightarrow>
     (\<exists>v\<in>set (criteria @ scope). resolvePredictionAlias uni v index = Some i)"
proof -
  have "fold (\<lambda>value matches. case resolvePredictionAlias uni value index of
      None \<Rightarrow> matches | Some j \<Rightarrow> matches[j := True]) vs ms ! i \<longleftrightarrow>
      ms ! i \<or> (\<exists>v\<in>set vs. resolvePredictionAlias uni v index = Some i)" if "i < length ms" for vs ms
    using that
  proof (induction vs arbitrary: ms)
    case (Cons v vs)
    have "ms[a := True] ! i \<longleftrightarrow> a = i \<or> ms ! i" for a
      using Cons.prems by (cases "a < length ms") (auto simp: nth_list_update list_update_beyond)
    with Cons show ?case by (cases "resolvePredictionAlias uni v index") auto
  qed simp
  then show "i < n \<Longrightarrow> ?thesis" by (simp add: matchPredictionCriteria_def del: fold_append set_append)
qed

lemma named_claims_named_by:
  "i < length (normalizeDecisionClaims uni claims) \<Longrightarrow>
   named_claims uni claims criteria scope ! i = named_by uni (normalizeDecisionClaims uni claims) (criteria @ scope) i"
  by (simp add: named_claims_def Let_def nth_matchPredictionCriteria named_by_def)

lemma nth_adjudicated:
  assumes i: "i < length (normalizeDecisionClaims uni claims)"
  shows "adjudicateDecisionClaims uni claims refs met metScope missed missedScope ! i =
    (let N = normalizeDecisionClaims uni claims in (N ! i)\<lparr>dc_Status :=
       judged (named_by uni N (met @ metScope) i) (named_by uni N (missed @ missedScope) i)
         (if dc_ID (N ! i) \<in> set (normalizeClaimRefs refs) then ''inconclusive'' else dc_Status (N ! i))\<rparr>)"
proof -
  have "normalizeDecisionClaims uni claims \<noteq> []" using i by auto
  with i show ?thesis
    by (simp add: adjudicateDecisionClaims_def Let_def nth_enumerate_eq match_judged[symmetric]
        nth_matchPredictionCriteria named_by_def del: set_normalizeClaimRefs)
qed

lemma tabulated: "length xs = n \<Longrightarrow> (\<And>i. i < n \<Longrightarrow> xs ! i = f i) \<Longrightarrow> xs = map f [0..<n]"
  by (simp add: list_eq_iff_nth_eq)

text \<open>
  C29. The two ways the source gives claims their status from a measurement. Adjudicating (which the
  program itself only uses in its tests, as the reference) makes a
  claim weakened when some criterion or scope text names it as met and some as missed, supported when
  it is only met, refuted when it is only missed; a claim no text names becomes inconclusive when the
  measurement lists its id, and otherwise keeps the status it had. Rebuilding the claims from the
  evidence the measurement records gives the same status to every claim some text names, and
  unverified to the others: what the measurement lists without a criterion leaves no trace there.
\<close>

theorem measured_claim_statuses:
  "let N = normalizeDecisionClaims uni claims; named = named_by uni N;
       status = (\<lambda>i. judged (named (met @ metScope) i) (named (missed @ missedScope) i))
   in adjudicateDecisionClaims uni claims refs met metScope missed missedScope =
        map (\<lambda>i. (N ! i)\<lparr>dc_Status := status i
            (if dc_ID (N ! i) \<in> set (normalizeClaimRefs refs) then ''inconclusive'' else dc_Status (N ! i))\<rparr>)
          [0..<length N]
      \<and> rebuildDecisionClaimsFromEvidence uni claims
          (measurementClaimEvidence uni claims met metScope missed missedScope) =
        map (\<lambda>i. (N ! i)\<lparr>dc_Status := status i ''unverified''\<rparr>) [0..<length N]"
proof -
  let ?N = "normalizeDecisionClaims uni claims"
  let ?adjudicated = "adjudicateDecisionClaims uni claims refs met metScope missed missedScope"
  let ?rebuilt = "rebuildDecisionClaimsFromEvidence uni claims
      (measurementClaimEvidence uni claims met metScope missed missedScope)"
  have "?adjudicated = map (\<lambda>i. (?N ! i)\<lparr>dc_Status :=
      judged (named_by uni ?N (met @ metScope) i) (named_by uni ?N (missed @ missedScope) i)
        (if dc_ID (?N ! i) \<in> set (normalizeClaimRefs refs) then ''inconclusive'' else dc_Status (?N ! i))\<rparr>)
      [0..<length ?N]"
  proof (rule tabulated)
    show "length ?adjudicated = length ?N" by (simp add: adjudicateDecisionClaims_def Let_def)
  qed (simp only: nth_adjudicated Let_def)
  moreover have "?rebuilt = map (\<lambda>i. (?N ! i)\<lparr>dc_Status :=
      judged (named_by uni ?N (met @ metScope) i) (named_by uni ?N (missed @ missedScope) i) ''unverified''\<rparr>)
      [0..<length ?N]"
  proof (rule tabulated)
    show "length ?rebuilt = length ?N" by (simp add: rebuild_by_kinds)
    fix i assume i: "i < length ?N"
    show "?rebuilt ! i = (?N ! i)\<lparr>dc_Status :=
      judged (named_by uni ?N (met @ metScope) i) (named_by uni ?N (missed @ missedScope) i) ''unverified''\<rparr>"
      unfolding rebuild_by_kinds nth_map[OF i] recorded_kinds[OF i] measured_verdict_judged
        named_claims_named_by[OF i] ..
  qed
  ultimately show ?thesis unfolding Let_def by (rule conjI)
qed

end
