(* ===== verification/ClaimCoverage.thy ===== *)
theory ClaimCoverage
  imports ClaimStatus
begin

text \<open>
  Coverage (\<open>internal/artifact/claim_status.go\<close>, \<open>decision.go\<close>): which acceptance criteria the
  evidence of a decision speaks about, and which are gaps. A criterion and a scope text are compared
  through the claim they name, when they name one, and literally otherwise.
\<close>

section \<open>The code\<close>

definition mergeDecisionCoverageScope ::
  "(nat \<Rightarrow> nat) \<Rightarrow> DecisionClaim list \<Rightarrow> string list \<Rightarrow> string list \<Rightarrow> string list"
where
  "mergeDecisionCoverageScope uni claims claimRefs scope =
     (let normalizedScope = normalizeClaimScope scope
      in if normalizedScope \<noteq> [] then normalizedScope else decisionClaimScopeFromRefs uni claims claimRefs)"

definition decisionMeasurementCoverageScope ::
  "(nat \<Rightarrow> nat) \<Rightarrow> DecisionClaim list \<Rightarrow> string list \<Rightarrow> string list \<Rightarrow> string list \<Rightarrow> string list"
where
  "decisionMeasurementCoverageScope uni claims claimRefs criteriaMetScope criteriaNotMetScope =
     mergeDecisionCoverageScope uni claims claimRefs
       (normalizeClaimScope (criteriaMetScope @ criteriaNotMetScope))"

definition mergedDecisionCoverageRefs ::
  "(nat \<Rightarrow> nat) \<Rightarrow> DecisionClaim list \<Rightarrow> string list \<Rightarrow> string list \<Rightarrow> string list"
where
  "mergedDecisionCoverageRefs uni claims claimRefs scope =
     (let normalizedClaims = normalizeDecisionClaims uni claims;
          normalizedRefs = normalizeClaimRefs claimRefs
      in if normalizedClaims = [] then normalizedRefs
         else (let scopeRefs = (case resolveDecisionEvidenceClaimRefs uni normalizedClaims [] scope of
                                  Inl _ \<Rightarrow> [] | Inr refs \<Rightarrow> refs)
               in normalizeClaimRefs (normalizedRefs @ scopeRefs)))"

definition unresolvedDecisionCoverageScope ::
  "(nat \<Rightarrow> nat) \<Rightarrow> DecisionClaim list \<Rightarrow> string list \<Rightarrow> string list \<Rightarrow> string list"
where
  "unresolvedDecisionCoverageScope uni claims claimRefs scope =
     (let normalizedClaims = normalizeDecisionClaims uni claims;
          normalizedScope = normalizeClaimScope scope
      in if normalizedScope = [] then []
         else if normalizedClaims = [] then normalizedScope
         else (let aliasIndex = buildDecisionClaimAliasIndex uni normalizedClaims;
                   measured = normalizeClaimRefs claimRefs
               in normalizeClaimScope (filter (\<lambda>item.
                    case resolvePredictionAlias uni item aliasIndex of
                      None \<Rightarrow> True
                    | Some index \<Rightarrow> dc_ID (normalizedClaims ! index) \<notin> set measured) normalizedScope)))"

definition coverageClaimRefKey :: "string \<Rightarrow> string" where
  "coverageClaimRefKey ref = ''claim:'' @ trim_space ref"

definition coverageLiteralScopeKey :: "string \<Rightarrow> string" where
  "coverageLiteralScopeKey scope = ''scope:'' @ trim_space scope"

definition evidenceCoverageScope :: "(nat \<Rightarrow> nat) \<Rightarrow> EvidenceItem \<Rightarrow> DecisionClaim list \<Rightarrow> string list" where
  "evidenceCoverageScope uni item claims =
     mergeDecisionCoverageScope uni claims (ei_ClaimRefs item) (ei_ClaimScope item)"

definition computeClaimCoverage :: "(nat \<Rightarrow> nat) \<Rightarrow> EvidenceItem list \<Rightarrow> DecisionClaim list \<Rightarrow> string list" where
  "computeClaimCoverage uni evidence claims =
     normalizeClaimScope (concat (map (\<lambda>item. evidenceCoverageScope uni item claims) evidence))"

definition item_coverage_keys :: "(nat \<Rightarrow> nat) \<Rightarrow> DecisionClaim list \<Rightarrow> EvidenceItem \<Rightarrow> string list" where
  "item_coverage_keys uni claims item =
     (let coverageRefs = mergedDecisionCoverageRefs uni claims (ei_ClaimRefs item) (ei_ClaimScope item)
      in map coverageClaimRefKey coverageRefs
         @ map coverageLiteralScopeKey (unresolvedDecisionCoverageScope uni claims coverageRefs (ei_ClaimScope item)))"

definition coverageIdentityKeySet :: "(nat \<Rightarrow> nat) \<Rightarrow> EvidenceItem list \<Rightarrow> DecisionClaim list \<Rightarrow> string set" where
  "coverageIdentityKeySet uni evidence claims = set (concat (map (item_coverage_keys uni claims) evidence))"

definition coverageIdentityKey :: "(nat \<Rightarrow> nat) \<Rightarrow> string \<Rightarrow> DecisionClaim list \<Rightarrow> string" where
  "coverageIdentityKey uni scope claims =
     (let normalizedScope = normalizeClaimScope [scope]
      in if normalizedScope = [] then []
         else (case mergedDecisionCoverageRefs uni claims [] normalizedScope of
                 ref # _ \<Rightarrow> coverageClaimRefKey ref
               | [] \<Rightarrow> coverageLiteralScopeKey (hd normalizedScope)))"

definition differenceScope ::
  "(nat \<Rightarrow> nat) \<Rightarrow> string list \<Rightarrow> EvidenceItem list \<Rightarrow> DecisionClaim list \<Rightarrow> string list"
where
  "differenceScope uni expected evidence claims =
     (if expected = [] then []
      else (let coveredKeys = coverageIdentityKeySet uni evidence claims
            in filter (\<lambda>item. let identityKey = coverageIdentityKey uni item claims
                              in identityKey = [] \<or> identityKey \<notin> coveredKeys) expected))"

section \<open>When a criterion is covered\<close>

definition covers :: "(nat \<Rightarrow> nat) \<Rightarrow> DecisionClaim list \<Rightarrow> string \<Rightarrow> EvidenceItem \<Rightarrow> bool" where
  "covers uni claims criterion item =
     (let N = normalizeDecisionClaims uni claims
      in case scope_claim_ids uni N [criterion] of
           claim # _ \<Rightarrow> claim \<in> set (clean_strings (ei_ClaimRefs item)) \<or> claim \<in> set (scope_claim_ids uni N (ei_ClaimScope item))
         | [] \<Rightarrow> trim_space criterion \<in> set (clean_strings (ei_ClaimScope item)))"

lemma normalizeClaimScope_single:
  "normalizeClaimScope [e] = (if trim_space e = [] then [] else [trim_space e])"
  by (simp add: normalizeClaimScope_def)

text \<open>The claim one scope text names.\<close>

definition named_claim :: "(nat \<Rightarrow> nat) \<Rightarrow> DecisionClaim list \<Rightarrow> string \<Rightarrow> string option" where
  "named_claim uni claims item =
     map_option (\<lambda>index. dc_ID (claims ! index)) (resolvePredictionAlias uni item (buildDecisionClaimAliasIndex uni claims))"

lemma scope_claim_ids_named:
  "scope_claim_ids uni claims scope = List.map_filter (named_claim uni claims) (normalizeClaimScope scope)"
proof -
  have "concat (map (\<lambda>item. case resolvePredictionAlias uni item index of None \<Rightarrow> [] | Some i \<Rightarrow> [f i]) xs) =
      List.map_filter (\<lambda>item. map_option f (resolvePredictionAlias uni item index)) xs" for xs index and f :: "nat \<Rightarrow> string"
    by (induction xs) (auto simp: map_filter_simps split: option.split)
  then show ?thesis by (simp add: scope_claim_ids_def named_claim_def[abs_def])
qed

lemma scope_claim_ids_single:
  "trim_space e \<noteq> [] \<Longrightarrow>
   scope_claim_ids uni claims [e] = (case named_claim uni claims (trim_space e) of None \<Rightarrow> [] | Some i \<Rightarrow> [i])"
  by (simp add: scope_claim_ids_named normalizeClaimScope_single map_filter_simps split: option.split)

lemma set_scope_claim_ids_named:
  "i \<in> set (scope_claim_ids uni claims scope) \<longleftrightarrow> (\<exists>s\<in>set (clean_strings scope). named_claim uni claims s = Some i)"
  by (force simp: scope_claim_ids_named List.map_filter_def)

lemma named_claim_ID:
  "named_claim uni (normalizeDecisionClaims uni claims) s = Some i \<Longrightarrow> trim_space i = i \<and> i \<noteq> []"
  by (rule normal_claims_ID[OF normal_normalizeDecisionClaims[of uni claims]])
    (auto simp: named_claim_def dest: resolved_index_bound)

lemma set_mergedDecisionCoverageRefs:
  "set (mergedDecisionCoverageRefs uni claims refs scope) =
     set (clean_strings refs) \<union> set (scope_claim_ids uni (normalizeDecisionClaims uni claims) scope)"
proof -
  have "set (clean_strings (scope_claim_ids uni (normalizeDecisionClaims uni claims) scope)) =
      set (scope_claim_ids uni (normalizeDecisionClaims uni claims) scope)"
    using set_scope_refs[of uni claims scope] by simp
  moreover have "normalizeDecisionClaims uni claims = [] \<Longrightarrow>
      scope_claim_ids uni (normalizeDecisionClaims uni claims) scope = []"
    using set_scope_claim_ids[of uni "normalizeDecisionClaims uni claims" scope] by simp
  ultimately show ?thesis
    by (auto simp: mergedDecisionCoverageRefs_def Let_def resolve_scope_only)
qed

lemma set_unresolvedDecisionCoverageScope:
  "set (unresolvedDecisionCoverageScope uni claims (mergedDecisionCoverageRefs uni claims refs scope) scope) =
     {s \<in> set (clean_strings scope). named_claim uni (normalizeDecisionClaims uni claims) s = None}"
proof -
  let ?N = "normalizeDecisionClaims uni claims"
  have merged: "set (normalizeClaimRefs (mergedDecisionCoverageRefs uni claims refs scope)) =
      set (mergedDecisionCoverageRefs uni claims refs scope)"
    by (auto simp: mergedDecisionCoverageRefs_def Let_def)
  have keep: "(case resolvePredictionAlias uni s (buildDecisionClaimAliasIndex uni ?N) of None \<Rightarrow> True
      | Some index \<Rightarrow> dc_ID (?N ! index) \<notin> set (normalizeClaimRefs (mergedDecisionCoverageRefs uni claims refs scope))) \<longleftrightarrow>
      named_claim uni ?N s = None" if "s \<in> set (clean_strings scope)" for s
    using that unfolding merged set_mergedDecisionCoverageRefs
    by (auto simp: set_scope_claim_ids_named named_claim_def split: option.splits)
  have none: "named_claim uni [] s = None" for s
    by (cases "resolvePredictionAlias uni s (buildDecisionClaimAliasIndex uni [])")
      (auto simp: named_claim_def dest: resolved_index_bound)
  have clean: "clean_strings (filter P (normalizeClaimScope scope)) = filter P (normalizeClaimScope scope)" for P
    by (rule clean_strings_id) (auto dest: clean_strings_trimmed)
  show ?thesis
    using keep none set_normalizeClaimScope[of scope]
    unfolding unresolvedDecisionCoverageScope_def Let_def
    by (cases "?N = []"; cases "normalizeClaimScope scope = []")
      (auto simp: clean simp del: set_normalizeClaimRefs)
qed

lemma coverage_keys_apart [simp]:
  "coverageClaimRefKey r \<noteq> coverageLiteralScopeKey s"
  "coverageLiteralScopeKey s \<noteq> coverageClaimRefKey r"
  "coverageClaimRefKey r \<noteq> []" "coverageLiteralScopeKey s \<noteq> []"
  by (simp_all add: coverageClaimRefKey_def coverageLiteralScopeKey_def)

lemma coverageClaimRefKey_eq:
  "trim_space r = r \<Longrightarrow> trim_space q = q \<Longrightarrow> coverageClaimRefKey r = coverageClaimRefKey q \<longleftrightarrow> r = q"
  by (simp add: coverageClaimRefKey_def)

lemma coverageLiteralScopeKey_eq:
  "trim_space r = r \<Longrightarrow> trim_space q = q \<Longrightarrow> coverageLiteralScopeKey r = coverageLiteralScopeKey q \<longleftrightarrow> r = q"
  by (simp add: coverageLiteralScopeKey_def)

lemma mergedDecisionCoverageRefs_single:
  "trim_space e \<noteq> [] \<Longrightarrow>
   mergedDecisionCoverageRefs uni claims [] [trim_space e] =
     (case named_claim uni (normalizeDecisionClaims uni claims) (trim_space e) of None \<Rightarrow> [] | Some i \<Rightarrow> [i])"
proof -
  let ?N = "normalizeDecisionClaims uni claims"
  assume e: "trim_space e \<noteq> []"
  have "scope_claim_ids uni ?N [trim_space e] = scope_claim_ids uni ?N [e]"
    using e by (simp add: scope_claim_ids_def normalizeClaimScope_single)
  then have "mergedDecisionCoverageRefs uni claims [] [trim_space e] = normalizeClaimRefs (scope_claim_ids uni ?N [e])"
    using set_scope_claim_ids[of uni ?N "[e]"]
    by (cases "?N = []") (simp_all add: mergedDecisionCoverageRefs_def Let_def resolve_scope_only)
  also have "\<dots> = scope_claim_ids uni ?N [e]"
    by (rule normalizeClaimRefs_id)
      (auto simp: scope_claim_ids_single[OF e] dest: named_claim_ID[OF sym] split: option.splits)
  finally show ?thesis by (simp add: scope_claim_ids_single[OF e])
qed

lemma coverageIdentityKey_cases:
  "coverageIdentityKey uni e claims =
     (if trim_space e = [] then []
      else (case named_claim uni (normalizeDecisionClaims uni claims) (trim_space e) of
              Some i \<Rightarrow> coverageClaimRefKey i
            | None \<Rightarrow> coverageLiteralScopeKey (trim_space e)))"
  by (cases "trim_space e = []")
    (simp_all add: coverageIdentityKey_def normalizeClaimScope_single mergedDecisionCoverageRefs_single
      split: option.split)

lemma claim_key_image:
  "trim_space i = i \<Longrightarrow> (\<And>s. s \<in> S \<Longrightarrow> trim_space s = s) \<Longrightarrow>
   coverageClaimRefKey i \<in> coverageClaimRefKey ` S \<longleftrightarrow> i \<in> S"
  by (auto simp: coverageClaimRefKey_def)

lemma item_covers:
  assumes e: "trim_space e \<noteq> []"
  shows "coverageIdentityKey uni e claims \<in> set (item_coverage_keys uni claims item) \<longleftrightarrow> covers uni claims e item"
proof (cases "named_claim uni (normalizeDecisionClaims uni claims) (trim_space e)")
  case None
  have "coverageLiteralScopeKey (trim_space e) \<in> coverageLiteralScopeKey `
      {s \<in> set (clean_strings scope). named_claim uni (normalizeDecisionClaims uni claims) s = None} \<longleftrightarrow>
      trim_space e \<in> set (clean_strings scope)" for scope
    using None coverageLiteralScopeKey_eq[of "trim_space e"] by (auto dest: clean_strings_trimmed)
  with None e show ?thesis
    by (auto simp: coverageIdentityKey_cases item_coverage_keys_def Let_def covers_def scope_claim_ids_single
        set_unresolvedDecisionCoverageScope)
next
  case (Some i)
  have i: "trim_space i = i" using named_claim_ID[OF Some] by simp
  have "coverageClaimRefKey i \<in> coverageClaimRefKey ` (set (clean_strings refs) \<union>
      set (scope_claim_ids uni (normalizeDecisionClaims uni claims) scope)) \<longleftrightarrow>
      i \<in> set (clean_strings refs) \<union> set (scope_claim_ids uni (normalizeDecisionClaims uni claims) scope)" for refs scope
    by (rule claim_key_image[OF i])
      (auto simp: set_scope_claim_ids_named dest: clean_strings_trimmed named_claim_ID)
  with Some e show ?thesis
    by (auto simp: coverageIdentityKey_cases item_coverage_keys_def Let_def covers_def scope_claim_ids_single
        set_unresolvedDecisionCoverageScope set_mergedDecisionCoverageRefs)
qed

text \<open>
  C31. A criterion is a gap of the evidence exactly when no item covers it: an item covers a criterion
  that names a claim when it refers to that claim, by id or through its scope, and any other
  criterion when it lists it. A blank criterion is always a gap; the gaps keep their order.
\<close>

theorem gaps_exact:
  "differenceScope uni expected evidence claims =
     filter (\<lambda>e. \<not> (trim_space e \<noteq> [] \<and> list_ex (covers uni claims e) evidence)) expected"
proof -
  have "(let key = coverageIdentityKey uni e claims in key = [] \<or> key \<notin> coverageIdentityKeySet uni evidence claims) \<longleftrightarrow>
      \<not> (trim_space e \<noteq> [] \<and> list_ex (covers uni claims e) evidence)" for e
  proof (cases "trim_space e = []")
    case True
    then show ?thesis by (simp add: coverageIdentityKey_cases)
  next
    case False
    then have "coverageIdentityKey uni e claims \<noteq> []" by (simp add: coverageIdentityKey_cases split: option.split)
    with False show ?thesis
      by (auto simp: coverageIdentityKeySet_def list_ex_iff item_covers)
  qed
  then show ?thesis by (simp add: differenceScope_def)
qed

end
