(* ===== verification/ReasoningCycle.thy ===== *)
theory ReasoningCycle
  imports ArtifactFields
begin

text \<open>
  The reasoning cycle of an agent session (\<open>internal/agent/cycle.go\<close>, \<open>guardrails.go\<close> and the types of
  \<open>types.go\<close>): how the phase follows from the artifacts bound to the cycle, how a tool result is
  bound, and which tool calls the guardrails let through. A nil cycle is \<open>None\<close>, the clock is an
  argument, and an error is the name of the missing precondition (\<open>GuardrailError.Missing\<close>).
\<close>

section \<open>Types\<close>

abbreviation "PhaseReady \<equiv> ([] :: string)"
abbreviation "PhaseFramer \<equiv> ''framer''"
abbreviation "PhaseExplorer \<equiv> ''explorer''"
abbreviation "PhaseDecider \<equiv> ''decider''"
abbreviation "PhaseWorker \<equiv> ''worker''"
abbreviation "PhaseMeasure \<equiv> ''measure''"

abbreviation "CycleActive \<equiv> ''active''"
abbreviation "CycleComplete \<equiv> ''complete''"
abbreviation "CycleAbandoned \<equiv> ''abandoned''"

record AssuranceTuple =
  at_F :: int
  at_G :: "string list"
  at_R :: gval

record GovernanceEntry =
  ge_Recommended :: string
  ge_Chosen :: string
  ge_ChosenBy :: string
  ge_Mode :: string
  ge_SkippedPhases :: "string list"
  ge_Timestamp :: Time

record SkipEntry =
  se_Phase :: string
  se_Reason :: string
  se_AcceptedRisk :: string
  se_ResidualEvidence :: string
  se_ReopenTrigger :: string

record Cycle =
  cy_ID :: string
  cy_SessionID :: string
  cy_ProblemRef :: string
  cy_PortfolioRef :: string
  cy_ComparedPortfolioRef :: string
  cy_SelectedPortfolioRef :: string
  cy_SelectedVariantRef :: string
  cy_DecisionRef :: string
  cy_Phase :: string
  cy_Depth :: string
  cy_Status :: string
  cy_LineageRef :: string
  cy_WeakestLink :: string
  cy_Assurance :: AssuranceTuple
  cy_REff :: gval
  cy_CLMin :: int
  cy_CreatedAt :: Time
  cy_UpdatedAt :: Time
  cy_Governance :: "GovernanceEntry list"
  cy_SkipLog :: "SkipEntry list"

record ArtifactMeta =
  am_Kind :: string
  am_ArtifactRef :: string
  am_Operation :: string
  am_AdoptPortfolioRef :: string
  am_ComparedPortfolioRef :: string
  am_AdoptDecisionRef :: string
  am_MeasureVerdict :: string

record PhaseSpec =
  ps_Phase :: string
  ps_FPFStage :: string
  ps_ADIRole :: string
  ps_AllowedCreate :: "string list"
  ps_AllowedUpdate :: "string list"
  ps_CompletionSignal :: string

record TransitionError =
  te_From :: string
  te_To :: string
  te_Reason :: string

section \<open>Phases\<close>

definition phase_of :: "Cycle \<Rightarrow> string" where
  "phase_of cycle =
     (if cy_Status cycle \<noteq> CycleActive then PhaseReady
      else if cy_DecisionRef cycle \<noteq> [] then PhaseWorker
      else if cy_PortfolioRef cycle \<noteq> [] then
        (if cy_ComparedPortfolioRef cycle = cy_PortfolioRef cycle then PhaseDecider else PhaseExplorer)
      else if cy_ProblemRef cycle \<noteq> [] then PhaseExplorer
      else PhaseFramer)"

definition DerivePhaseFromCycle :: "Cycle option \<Rightarrow> string" where
  "DerivePhaseFromCycle cycle = (case cycle of None \<Rightarrow> PhaseReady | Some c \<Rightarrow> phase_of c)"

definition clearSelectionState :: "Cycle \<Rightarrow> Cycle" where
  "clearSelectionState cycle = cycle\<lparr>cy_SelectedPortfolioRef := [], cy_SelectedVariantRef := []\<rparr>"

definition clearDecisionPath :: "Cycle \<Rightarrow> Cycle" where
  "clearDecisionPath cycle = (clearSelectionState (cycle\<lparr>cy_ComparedPortfolioRef := []\<rparr>))\<lparr>cy_DecisionRef := []\<rparr>"

definition clearSolutionPath :: "Cycle \<Rightarrow> Cycle" where
  "clearSolutionPath cycle = clearDecisionPath (cycle\<lparr>cy_PortfolioRef := []\<rparr>)"

definition trim_refs :: "Cycle \<Rightarrow> Cycle" where
  "trim_refs cycle =
     cycle\<lparr>cy_ProblemRef := trim_space (cy_ProblemRef cycle),
           cy_PortfolioRef := trim_space (cy_PortfolioRef cycle),
           cy_ComparedPortfolioRef := trim_space (cy_ComparedPortfolioRef cycle),
           cy_SelectedPortfolioRef := trim_space (cy_SelectedPortfolioRef cycle),
           cy_SelectedVariantRef := trim_space (cy_SelectedVariantRef cycle),
           cy_DecisionRef := trim_space (cy_DecisionRef cycle)\<rparr>"

definition hasActiveSelection :: "Cycle \<Rightarrow> bool" where
  "hasActiveSelection c \<longleftrightarrow>
     cy_ComparedPortfolioRef c \<noteq> [] \<and> cy_ComparedPortfolioRef c = cy_PortfolioRef c
     \<and> cy_SelectedPortfolioRef c = cy_ComparedPortfolioRef c \<and> cy_SelectedVariantRef c \<noteq> []"

definition CanonicalizeCycleForPersistence :: "Cycle option \<Rightarrow> Cycle option" where
  "CanonicalizeCycleForPersistence cycle =
     (case cycle of
        None \<Rightarrow> None
      | Some c \<Rightarrow>
          (let updated = trim_refs c
           in if cy_Status updated \<noteq> CycleActive then Some updated
              else (let updated = (if \<not> hasActiveSelection updated then clearSelectionState updated else updated)
                    in Some (updated\<lparr>cy_Phase := DerivePhaseFromCycle (Some updated)\<rparr>))))"

definition phaseOrder :: "string \<Rightarrow> int" where
  "phaseOrder p =
     (if p = PhaseReady then 0 else if p = PhaseFramer then 1 else if p = PhaseExplorer then 2
      else if p = PhaseDecider then 3 else if p = PhaseWorker then 4 else if p = PhaseMeasure then 5
      else -1)"

definition PhaseAfter :: "string \<Rightarrow> string \<Rightarrow> bool" where
  "PhaseAfter a b \<longleftrightarrow> phaseOrder a > phaseOrder b"

definition ValidateTransition :: "Cycle option \<Rightarrow> string \<Rightarrow> TransitionError option" where
  "ValidateTransition cycle proposed =
     (if cycle = None then None
      else (let current = DerivePhaseFromCycle cycle
            in if proposed = current then None
               else if proposed = PhaseReady then None
               else if phaseOrder proposed < phaseOrder current
               then Some \<lparr>te_From = current, te_To = proposed, te_Reason = ''backward transition''\<rparr>
               else None))"

section \<open>Binding artifacts\<close>

text \<open>\<open>None\<close> when the cycle is nil or the result does not bind.\<close>

definition BindArtifact :: "Time \<Rightarrow> Cycle option \<Rightarrow> ArtifactMeta \<Rightarrow> Cycle option" where
  "BindArtifact now cycle meta =
     (case cycle of
        None \<Rightarrow> None
      | Some c \<Rightarrow>
          (let updated = c\<lparr>cy_UpdatedAt := now\<rparr>;
               (bound, updated) =
                 (if am_Kind meta = ''problem'' then
                    (if am_Operation meta = ''frame''
                     then (True, (clearSolutionPath updated)\<lparr>cy_ProblemRef := am_ArtifactRef meta\<rparr>)
                     else if am_Operation meta = ''adopt''
                     then (True, (clearSelectionState ((clearSolutionPath updated)
                              \<lparr>cy_ProblemRef := am_ArtifactRef meta, cy_PortfolioRef := am_AdoptPortfolioRef meta,
                               cy_ComparedPortfolioRef := am_ComparedPortfolioRef meta\<rparr>))
                              \<lparr>cy_DecisionRef := am_AdoptDecisionRef meta\<rparr>)
                     else (False, updated))
                  else if am_Kind meta = ''solution'' then
                    (if am_Operation meta = ''explore''
                     then (True, (clearDecisionPath updated)\<lparr>cy_PortfolioRef := am_ArtifactRef meta\<rparr>)
                     else if am_Operation meta = ''compare''
                     then (am_ComparedPortfolioRef meta \<noteq> [],
                           clearSelectionState (updated\<lparr>cy_ComparedPortfolioRef := am_ComparedPortfolioRef meta\<rparr>))
                     else (False, updated))
                  else if am_Kind meta = ''decision'' then
                    (if am_Operation meta = ''decide''
                     then (True, updated\<lparr>cy_DecisionRef := am_ArtifactRef meta\<rparr>)
                     else (False, updated))
                  else (False, updated))
           in if \<not> bound then None
              else Some (updated\<lparr>cy_Phase := DerivePhaseFromCycle (Some updated)\<rparr>)))"

definition IsSkipLegal :: "string \<Rightarrow> string \<Rightarrow> TransitionError" where
  "IsSkipLegal depth skipped =
     \<lparr>te_From = skipped, te_To = skipped,
      te_Reason = ''phase '' @ skipped @ '' cannot be skipped (FPF B.5.1 CC-B5.1.2)''\<rparr>"

definition BuildGovernanceEntry :: "Time \<Rightarrow> string \<Rightarrow> string \<Rightarrow> string \<Rightarrow> string list \<Rightarrow> GovernanceEntry" where
  "BuildGovernanceEntry now recommended chosen mode skipped =
     \<lparr>ge_Recommended = recommended, ge_Chosen = chosen,
      ge_ChosenBy = (if mode = ''autonomous'' then ''autonomous_delegation'' else ''user''),
      ge_Mode = mode, ge_SkippedPhases = skipped, ge_Timestamp = now\<rparr>"

definition BuildSkipEntry :: "string \<Rightarrow> string \<Rightarrow> string \<Rightarrow> string \<Rightarrow> string \<Rightarrow> SkipEntry" where
  "BuildSkipEntry phase reason acceptedRisk residualEvidence reopenTrigger =
     \<lparr>se_Phase = phase, se_Reason = reason, se_AcceptedRisk = acceptedRisk,
      se_ResidualEvidence = residualEvidence, se_ReopenTrigger = reopenTrigger\<rparr>"

section \<open>Ends and beginnings\<close>

definition CompleteCycle :: "Time \<Rightarrow> Cycle \<Rightarrow> string \<Rightarrow> AssuranceTuple \<Rightarrow> Cycle" where
  "CompleteCycle now cycle weakestLink assurance =
     cycle\<lparr>cy_Status := CycleComplete, cy_Phase := PhaseReady, cy_WeakestLink := weakestLink,
           cy_Assurance := assurance, cy_REff := at_R assurance, cy_UpdatedAt := now\<rparr>"

definition AbandonCycle :: "Time \<Rightarrow> Cycle \<Rightarrow> Cycle" where
  "AbandonCycle now cycle = cycle\<lparr>cy_Status := CycleAbandoned, cy_UpdatedAt := now\<rparr>"

text \<open>The zero value of the struct, with the clock in place of the two times.\<close>

definition empty_cycle :: "Time \<Rightarrow> Cycle" where
  "empty_cycle now =
     \<lparr>cy_ID = [], cy_SessionID = [], cy_ProblemRef = [], cy_PortfolioRef = [], cy_ComparedPortfolioRef = [],
      cy_SelectedPortfolioRef = [], cy_SelectedVariantRef = [], cy_DecisionRef = [], cy_Phase = [],
      cy_Depth = [], cy_Status = [], cy_LineageRef = [], cy_WeakestLink = [],
      cy_Assurance = \<lparr>at_F = 0, at_G = [], at_R = GFloat 0 0\<rparr>, cy_REff = GFloat 0 0, cy_CLMin = 0,
      cy_CreatedAt = now, cy_UpdatedAt = now, cy_Governance = [], cy_SkipLog = []\<rparr>"

definition NewCycleFromLineage :: "Time \<Rightarrow> string \<Rightarrow> string \<Rightarrow> Cycle \<Rightarrow> Cycle" where
  "NewCycleFromLineage now id' sessionID failed =
     (empty_cycle now)\<lparr>cy_ID := id', cy_SessionID := sessionID, cy_Phase := PhaseFramer,
        cy_Depth := cy_Depth failed, cy_Status := CycleActive, cy_LineageRef := cy_ID failed, cy_CLMin := 3\<rparr>"

definition AdoptCycle :: "Time \<Rightarrow> string \<Rightarrow> string \<Rightarrow> string \<Rightarrow> string \<Rightarrow> string \<Rightarrow> Cycle" where
  "AdoptCycle now id' sessionID problemRef portfolioRef decisionRef =
     (let c = (empty_cycle now)\<lparr>cy_ID := id', cy_SessionID := sessionID, cy_ProblemRef := problemRef,
        cy_PortfolioRef := portfolioRef, cy_DecisionRef := decisionRef, cy_Status := CycleActive, cy_CLMin := 3\<rparr>
      in c\<lparr>cy_Phase := DerivePhaseFromCycle (Some c)\<rparr>)"

section \<open>What a phase may write\<close>

definition phase_spec :: "string \<Rightarrow> string \<Rightarrow> string \<Rightarrow> string list \<Rightarrow> string list \<Rightarrow> string \<Rightarrow> PhaseSpec" where
  "phase_spec phase stage role create update signal =
     \<lparr>ps_Phase = phase, ps_FPFStage = stage, ps_ADIRole = role, ps_AllowedCreate = create,
      ps_AllowedUpdate = update, ps_CompletionSignal = signal\<rparr>"

definition phaseSpecs :: "(string \<times> PhaseSpec) list" where
  "phaseSpecs =
     [(PhaseFramer, phase_spec PhaseFramer ''Explore/Shape'' ''abduction'' [''problem''] [] ''problem''),
      (PhaseExplorer, phase_spec PhaseExplorer ''Explore'' ''abduction'' [''solution''] [''problem''] ''solution''),
      (PhaseDecider, phase_spec PhaseDecider ''Shape/Evidence'' ''deduction'' [''decision''] [''solution''] ''decision''),
      (PhaseWorker, phase_spec PhaseWorker ''Operate'' [] [''note''] [] []),
      (PhaseMeasure, phase_spec PhaseMeasure ''Evidence'' ''induction'' [''evidence''] [''decision''] ''measure'')]"

definition SpecForPhase :: "string \<Rightarrow> PhaseSpec" where
  "SpecForPhase phase =
     (case map_of phaseSpecs phase of Some spec \<Rightarrow> spec | None \<Rightarrow> phase_spec phase [] [] [] [] [])"

definition IsArtifactAllowed :: "string \<Rightarrow> string \<Rightarrow> bool" where
  "IsArtifactAllowed phase artifactKind =
     (let spec = SpecForPhase phase
      in artifactKind \<in> set (ps_AllowedCreate spec) \<or> artifactKind \<in> set (ps_AllowedUpdate spec))"

section \<open>Guardrails\<close>

definition CanExplore :: "Cycle option \<Rightarrow> string option" where
  "CanExplore cycle =
     (case cycle of
        None \<Rightarrow> Some ''problem frame bound to active cycle''
      | Some c \<Rightarrow>
          if cy_Status c \<noteq> CycleActive \<or> cy_ProblemRef c = [] then Some ''problem frame bound to active cycle''
          else if cy_DecisionRef c \<noteq> [] then Some ''an undecided active cycle''
          else None)"

definition CanCompare :: "Cycle option \<Rightarrow> string option" where
  "CanCompare cycle =
     (case cycle of
        None \<Rightarrow> Some ''solution portfolio''
      | Some c \<Rightarrow>
          if cy_Status c \<noteq> CycleActive \<or> cy_PortfolioRef c = [] then Some ''solution portfolio''
          else if cy_DecisionRef c \<noteq> [] then Some ''an undecided active cycle''
          else None)"

definition CanDecide :: "Cycle option \<Rightarrow> bool \<Rightarrow> string option" where
  "CanDecide cycle userSelectedAfterCompare =
     (case cycle of
        None \<Rightarrow> Some ''explored variants''
      | Some c \<Rightarrow>
          if cy_Status c \<noteq> CycleActive \<or> cy_PortfolioRef c = [] then Some ''explored variants''
          else if cy_DecisionRef c \<noteq> [] then Some ''an undecided active cycle''
          else if cy_ComparedPortfolioRef c = [] \<or> cy_ComparedPortfolioRef c \<noteq> cy_PortfolioRef c
          then Some ''completed comparison for the active portfolio''
          else if \<not> userSelectedAfterCompare then Some ''user selection''
          else None)"

definition HasDecisionSelection :: "Cycle option \<Rightarrow> bool" where
  "HasDecisionSelection cycle =
     (case cycle of
        None \<Rightarrow> False
      | Some c \<Rightarrow>
          if trim_space (cy_ComparedPortfolioRef c) = [] then False
          else if cy_SelectedPortfolioRef c \<noteq> cy_ComparedPortfolioRef c then False
          else trim_space (cy_SelectedVariantRef c) \<noteq> [])"

definition CanBaseline :: "Cycle option \<Rightarrow> string option" where
  "CanBaseline cycle =
     (case cycle of
        None \<Rightarrow> Some ''decision record''
      | Some c \<Rightarrow> if cy_Status c \<noteq> CycleActive \<or> cy_DecisionRef c = [] then Some ''decision record'' else None)"

definition CanMeasure :: "Cycle option \<Rightarrow> string option" where
  "CanMeasure cycle =
     (case cycle of
        None \<Rightarrow> Some ''decision record''
      | Some c \<Rightarrow> if cy_Status c \<noteq> CycleActive \<or> cy_DecisionRef c = [] then Some ''decision record'' else None)"

section \<open>Execution modes\<close>

definition ParseExecutionMode :: "string \<Rightarrow> string \<times> bool" where
  "ParseExecutionMode raw =
     (if raw \<in> {''checkpointed'', ''collaborative'', ''symbiotic''} then (''checkpointed'', True)
      else if raw = ''autonomous'' then (''autonomous'', True)
      else (''checkpointed'', False))"

definition NormalizeExecutionMode :: "string \<Rightarrow> string" where
  "NormalizeExecutionMode raw = (case ParseExecutionMode raw of (mode, ok) \<Rightarrow> if ok then mode else ''checkpointed'')"

definition ExecutionModeFromAutonomous :: "bool \<Rightarrow> string" where
  "ExecutionModeFromAutonomous enabled = (if enabled then ''autonomous'' else ''checkpointed'')"

end
