(* ===== verification/CycleLaws.thy ===== *)
theory CycleLaws
  imports ReasoningCycle
begin

text \<open>
  What holds of the reasoning cycle: the guardrails and the derived phase say the same, the form in
  which a cycle is stored, and what a session can reach when every bound result belongs to a call
  the guardrails let through.
\<close>

section \<open>Guardrails and phases\<close>

lemma phase_of_cases:
  "phase_of c = PhaseReady \<longleftrightarrow> cy_Status c \<noteq> CycleActive"
  "phase_of c = PhaseWorker \<longleftrightarrow> cy_Status c = CycleActive \<and> cy_DecisionRef c \<noteq> []"
  "phase_of c = PhaseDecider \<longleftrightarrow> cy_Status c = CycleActive \<and> cy_DecisionRef c = [] \<and> cy_PortfolioRef c \<noteq> []
     \<and> cy_ComparedPortfolioRef c = cy_PortfolioRef c"
  "phase_of c = PhaseExplorer \<longleftrightarrow> cy_Status c = CycleActive \<and> cy_DecisionRef c = []
     \<and> (if cy_PortfolioRef c \<noteq> [] then cy_ComparedPortfolioRef c \<noteq> cy_PortfolioRef c else cy_ProblemRef c \<noteq> [])"
  "phase_of c = PhaseFramer \<longleftrightarrow> cy_Status c = CycleActive \<and> cy_DecisionRef c = [] \<and> cy_PortfolioRef c = []
     \<and> cy_ProblemRef c = []"
  by (simp_all add: phase_of_def)

text \<open>
  The guardrails admit exactly what the derived phase says: a decision may be recorded (given the
  user's choice) in the decider phase, a baseline or a measurement in the worker phase, a comparison
  or an exploration only in the explorer and decider phases, of a cycle that has a portfolio or a
  problem.
\<close>

theorem guards_match_phases:
  "(CanDecide cycle True = None \<longleftrightarrow> DerivePhaseFromCycle cycle = PhaseDecider)
   \<and> CanDecide cycle False \<noteq> None
   \<and> (CanBaseline cycle = None \<longleftrightarrow> DerivePhaseFromCycle cycle = PhaseWorker)
   \<and> (CanMeasure cycle = None \<longleftrightarrow> DerivePhaseFromCycle cycle = PhaseWorker)
   \<and> (CanCompare cycle = None \<longleftrightarrow> DerivePhaseFromCycle cycle \<in> {PhaseExplorer, PhaseDecider}
        \<and> map_option cy_PortfolioRef cycle \<noteq> Some [])
   \<and> (CanExplore cycle = None \<longleftrightarrow> DerivePhaseFromCycle cycle \<in> {PhaseExplorer, PhaseDecider}
        \<and> map_option cy_ProblemRef cycle \<noteq> Some [])"
  by (cases cycle)
    (auto simp: CanDecide_def CanBaseline_def CanMeasure_def CanCompare_def CanExplore_def DerivePhaseFromCycle_def
      phase_of_def)

text \<open>
  No cycle is ever in the measure phase, so no derived phase allows evidence to be written, although
  the phase table has an entry for it.
\<close>

theorem measure_phase_unreachable:
  "DerivePhaseFromCycle cycle \<in> {PhaseReady, PhaseFramer, PhaseExplorer, PhaseDecider, PhaseWorker}
   \<and> \<not> IsArtifactAllowed (DerivePhaseFromCycle cycle) ''evidence''
   \<and> IsArtifactAllowed PhaseMeasure ''evidence''"
  by (auto simp: DerivePhaseFromCycle_def phase_of_def IsArtifactAllowed_def SpecForPhase_def phaseSpecs_def
      phase_spec_def split: option.split)

section \<open>Stored form\<close>

definition trimmed_refs :: "Cycle \<Rightarrow> bool" where
  "trimmed_refs c \<longleftrightarrow> list_all (\<lambda>s. trim_space s = s)
     [cy_ProblemRef c, cy_PortfolioRef c, cy_ComparedPortfolioRef c, cy_SelectedPortfolioRef c,
      cy_SelectedVariantRef c, cy_DecisionRef c]"

definition selection_cleared :: "Cycle \<Rightarrow> bool" where
  "selection_cleared c \<longleftrightarrow> cy_SelectedPortfolioRef c = [] \<and> cy_SelectedVariantRef c = []"

text \<open>The part of a cycle that storing it leaves alone.\<close>

definition without_refs :: "Cycle \<Rightarrow> Cycle" where
  "without_refs c = c\<lparr>cy_ProblemRef := [], cy_PortfolioRef := [], cy_ComparedPortfolioRef := [],
     cy_SelectedPortfolioRef := [], cy_SelectedVariantRef := [], cy_DecisionRef := [], cy_Phase := []\<rparr>"

lemma trim_refs_id: "trimmed_refs c \<Longrightarrow> trim_refs c = c"
  by (cases c) (simp add: trimmed_refs_def trim_refs_def)

lemma trimmed_trim_refs [simp]: "trimmed_refs (trim_refs c)"
  by (simp add: trimmed_refs_def trim_refs_def)

definition stored_cycle :: "Cycle \<Rightarrow> bool" where
  "stored_cycle c \<longleftrightarrow> trimmed_refs c
     \<and> (if cy_Status c = CycleActive
        then cy_Phase c = phase_of c \<and> (hasActiveSelection c \<or> selection_cleared c) else True)"

lemma stored_cycle_canonical: "stored_cycle c \<Longrightarrow> CanonicalizeCycleForPersistence (Some c) = Some c"
  by (cases c)
    (auto simp: stored_cycle_def CanonicalizeCycleForPersistence_def trim_refs_id Let_def clearSelectionState_def
      selection_cleared_def DerivePhaseFromCycle_def)

lemma canonical_stored_cycle:
  "CanonicalizeCycleForPersistence (Some c) = Some d \<Longrightarrow> stored_cycle d"
proof -
  assume d: "CanonicalizeCycleForPersistence (Some c) = Some d"
  have phase: "phase_of (x\<lparr>cy_Phase := p\<rparr>) = phase_of x" "phase_of (clearSelectionState x) = phase_of x" for x p
    by (simp_all add: phase_of_def clearSelectionState_def)
  have "trimmed_refs (clearSelectionState (trim_refs c))"
    by (simp add: trimmed_refs_def trim_refs_def clearSelectionState_def)
  then show ?thesis
    using d trimmed_trim_refs[of c]
    by (auto simp: CanonicalizeCycleForPersistence_def Let_def stored_cycle_def DerivePhaseFromCycle_def phase
        selection_cleared_def trimmed_refs_def hasActiveSelection_def clearSelectionState_def split: if_splits)
qed

text \<open>
  A cycle is stored with trimmed references; an active one is stored in the phase its references
  give, with a user selection only when it is one of the portfolio compared last. Storing keeps
  everything else, the artifacts of the chain up to surrounding blanks, and storing what was read
  back changes nothing.
\<close>

theorem stored_form:
  "case CanonicalizeCycleForPersistence (Some c) of
     None \<Rightarrow> False
   | Some d \<Rightarrow>
       CanonicalizeCycleForPersistence (Some d) = Some d \<and> trimmed_refs d
       \<and> without_refs d = without_refs c
       \<and> (if cy_Status c = CycleActive
          then cy_Phase d = DerivePhaseFromCycle (Some d) \<and> (HasDecisionSelection (Some d) \<or> selection_cleared d)
          else cy_Phase d = cy_Phase c)
       \<and> (cy_ProblemRef d, cy_PortfolioRef d, cy_ComparedPortfolioRef d, cy_DecisionRef d) =
           (trim_space (cy_ProblemRef c), trim_space (cy_PortfolioRef c),
            trim_space (cy_ComparedPortfolioRef c), trim_space (cy_DecisionRef c))"
proof -
  obtain d where d: "CanonicalizeCycleForPersistence (Some c) = Some d"
    by (cases "CanonicalizeCycleForPersistence (Some c)")
      (auto simp: CanonicalizeCycleForPersistence_def Let_def split: if_splits)
  then have s: "stored_cycle d" by (rule canonical_stored_cycle)
  have same: "cy_Status d = cy_Status c" "without_refs d = without_refs c"
    "(cy_ProblemRef d, cy_PortfolioRef d, cy_ComparedPortfolioRef d, cy_DecisionRef d) =
           (trim_space (cy_ProblemRef c), trim_space (cy_PortfolioRef c),
            trim_space (cy_ComparedPortfolioRef c), trim_space (cy_DecisionRef c))"
    "cy_Status c \<noteq> CycleActive \<Longrightarrow> cy_Phase d = cy_Phase c"
    using d by (auto simp: CanonicalizeCycleForPersistence_def Let_def trim_refs_def clearSelectionState_def
        without_refs_def split: if_splits)
  have sel: "hasActiveSelection d \<Longrightarrow> HasDecisionSelection (Some d)"
    using s by (auto simp: hasActiveSelection_def HasDecisionSelection_def stored_cycle_def trimmed_refs_def)
  show ?thesis
    using d s same sel stored_cycle_canonical[OF s]
    by (auto simp: stored_cycle_def DerivePhaseFromCycle_def)
qed

section \<open>Sessions\<close>

text \<open>
  A move of a session that binds to the cycle only results of calls the guardrails let through: the
  problem framed anew, an existing problem adopted, an exploration, a comparison, a decision; the host
  may note the user's choice, store the cycle, complete it or abandon it. References of artifacts are
  non-empty and trimmed. No guardrail stands before framing and adopting. An adoption binds what
  \<open>ResolveProblemAdoptionRefs\<close> finds for the problem: possibly a portfolio, which is the compared one if
  there is a compared one, and possibly a decision, with or without a portfolio.
\<close>

definition artifact_ref :: "string \<Rightarrow> bool" where
  "artifact_ref ref \<longleftrightarrow> ref \<noteq> [] \<and> trim_space ref = ref"

definition adopted_refs :: "ArtifactMeta \<Rightarrow> bool" where
  "adopted_refs m \<longleftrightarrow>
     artifact_ref (am_ArtifactRef m)
     \<and> (am_AdoptPortfolioRef m = [] \<or> artifact_ref (am_AdoptPortfolioRef m))
     \<and> am_ComparedPortfolioRef m \<in> {[], am_AdoptPortfolioRef m}
     \<and> (am_AdoptDecisionRef m = [] \<or> artifact_ref (am_AdoptDecisionRef m))"

inductive adoption :: "Cycle \<Rightarrow> Cycle \<Rightarrow> bool" where
  "am_Kind m = ''problem'' \<Longrightarrow> am_Operation m = ''adopt'' \<Longrightarrow> adopted_refs m \<Longrightarrow>
    BindArtifact now (Some c) m = Some d \<Longrightarrow> adoption c d"

inductive_cases adoptionE: "adoption c d"

inductive cycle_step :: "Cycle \<Rightarrow> Cycle \<Rightarrow> bool" where
  frame: "am_Kind m = ''problem'' \<Longrightarrow> am_Operation m = ''frame'' \<Longrightarrow> artifact_ref (am_ArtifactRef m) \<Longrightarrow>
    BindArtifact now (Some c) m = Some d \<Longrightarrow> cycle_step c d"
| adopt: "adoption c d \<Longrightarrow> cycle_step c d"
| explore: "CanExplore (Some c) = None \<Longrightarrow> am_Kind m = ''solution'' \<Longrightarrow> am_Operation m = ''explore'' \<Longrightarrow>
    artifact_ref (am_ArtifactRef m) \<Longrightarrow> BindArtifact now (Some c) m = Some d \<Longrightarrow> cycle_step c d"
| compare: "CanCompare (Some c) = None \<Longrightarrow> am_Kind m = ''solution'' \<Longrightarrow> am_Operation m = ''compare'' \<Longrightarrow>
    BindArtifact now (Some c) m = Some d \<Longrightarrow> cycle_step c d"
| decide: "CanDecide (Some c) selected = None \<Longrightarrow> am_Kind m = ''decision'' \<Longrightarrow> am_Operation m = ''decide'' \<Longrightarrow>
    artifact_ref (am_ArtifactRef m) \<Longrightarrow> BindArtifact now (Some c) m = Some d \<Longrightarrow> cycle_step c d"
| choose: "cycle_step c (c\<lparr>cy_SelectedPortfolioRef := portfolio, cy_SelectedVariantRef := variant\<rparr>)"
| store: "CanonicalizeCycleForPersistence (Some c) = Some d \<Longrightarrow> cycle_step c d"
| complete: "cycle_step c (CompleteCycle now c weakest assurance)"
| abandon: "cycle_step c (AbandonCycle now c)"

text \<open>What is behind a portfolio or a decision: a problem.\<close>

definition chain_invariant :: "Cycle \<Rightarrow> bool" where
  "chain_invariant c \<longleftrightarrow>
     (if cy_PortfolioRef c \<noteq> [] \<or> cy_DecisionRef c \<noteq> [] then cy_ProblemRef c \<noteq> [] else True)
     \<and> trim_space (cy_ProblemRef c) = cy_ProblemRef c"

lemmas bind_unfold = BindArtifact_def clearSolutionPath_def clearDecisionPath_def clearSelectionState_def
  DerivePhaseFromCycle_def Let_def

lemma chain_step: "cycle_step c d \<Longrightarrow> chain_invariant c \<Longrightarrow> chain_invariant d"
proof (induction rule: cycle_step.induct)
  case (frame m now c d)
  then show ?case by (auto simp: bind_unfold chain_invariant_def artifact_ref_def)
next
  case (adopt c d)
  then show ?case
    by (elim adoptionE) (auto simp: bind_unfold chain_invariant_def adopted_refs_def artifact_ref_def)
next
  case (explore c m now d)
  then show ?case
    by (auto simp: bind_unfold chain_invariant_def artifact_ref_def CanExplore_def split: if_splits)
next
  case (compare c m now d)
  then show ?case
    by (auto simp: bind_unfold chain_invariant_def CanCompare_def split: if_splits)
next
  case (decide c selected m now d)
  then show ?case
    by (auto simp: bind_unfold chain_invariant_def artifact_ref_def CanDecide_def split: if_splits)
next
  case (store c d)
  then show ?case
    by (auto simp: CanonicalizeCycleForPersistence_def trim_refs_def clearSelectionState_def Let_def
        chain_invariant_def split: if_splits)
qed (auto simp: chain_invariant_def CompleteCycle_def AbandonCycle_def)

lemma phase_of_bound [simp]: "phase_of (c\<lparr>cy_Phase := p\<rparr>) = phase_of c"
  by (simp add: phase_of_def)

lemma phase_of_selection [simp]: "phase_of (clearSelectionState c) = phase_of c"
  by (simp add: phase_of_def clearSelectionState_def)

lemma phase_of_updated [simp]: "phase_of (c\<lparr>cy_UpdatedAt := now\<rparr>) = phase_of c"
  by (simp add: phase_of_def)

lemma bound_phase:
  assumes "BindArtifact now (Some c) m = Some d"
  shows "am_Kind m = ''problem'' \<Longrightarrow> am_Operation m = ''frame'' \<Longrightarrow>
      phase_of d = phase_of ((clearSolutionPath (c\<lparr>cy_UpdatedAt := now\<rparr>))\<lparr>cy_ProblemRef := am_ArtifactRef m\<rparr>)"
    "am_Kind m = ''solution'' \<Longrightarrow> am_Operation m = ''explore'' \<Longrightarrow>
      phase_of d = phase_of ((clearDecisionPath (c\<lparr>cy_UpdatedAt := now\<rparr>))\<lparr>cy_PortfolioRef := am_ArtifactRef m\<rparr>)"
    "am_Kind m = ''solution'' \<Longrightarrow> am_Operation m = ''compare'' \<Longrightarrow>
      phase_of d = phase_of (c\<lparr>cy_UpdatedAt := now, cy_ComparedPortfolioRef := am_ComparedPortfolioRef m\<rparr>)"
    "am_Kind m = ''decision'' \<Longrightarrow> am_Operation m = ''decide'' \<Longrightarrow>
      phase_of d = phase_of (c\<lparr>cy_UpdatedAt := now, cy_DecisionRef := am_ArtifactRef m\<rparr>)"
  using assms by (auto simp: BindArtifact_def Let_def split: if_splits)

lemma phase_rank:
  "phaseOrder (phase_of c) =
     (if cy_Status c \<noteq> CycleActive then 0 else if cy_DecisionRef c \<noteq> [] then 4
      else if cy_PortfolioRef c \<noteq> [] then (if cy_ComparedPortfolioRef c = cy_PortfolioRef c then 3 else 2)
      else if cy_ProblemRef c \<noteq> [] then 2 else 1)"
  by (simp add: phase_of_def phaseOrder_def)

lemma stored_phase:
  "CanonicalizeCycleForPersistence (Some c) = Some d \<Longrightarrow> phase_of d = phase_of (trim_refs c)"
  by (cases "cy_Status (trim_refs c) = CycleActive"; cases "hasActiveSelection (trim_refs c)")
    (auto simp: CanonicalizeCycleForPersistence_def Let_def)

lemma rank_trim_refs: "phaseOrder (phase_of (trim_refs c)) \<le> phaseOrder (phase_of c) + 1"
  unfolding phase_rank
  by (cases "cy_DecisionRef c = []"; cases "cy_PortfolioRef c = []"; cases "cy_ProblemRef c = []")
    (simp_all add: trim_refs_def)

lemma ladder_step: "cycle_step c d \<Longrightarrow> phaseOrder (phase_of d) \<le> phaseOrder (phase_of c) + 1 \<or> adoption c d"
proof (induction rule: cycle_step.induct)
  case (frame m now c d)
  then show ?case unfolding bound_phase(1)[OF frame(4,1,2)]
    by (simp add: phase_rank clearSolutionPath_def clearDecisionPath_def clearSelectionState_def)
next
  case (adopt c d)
  then show ?case by simp
next
  case (explore c m now d)
  then show ?case unfolding bound_phase(2)[OF explore(5,2,3)]
    by (simp add: phase_rank CanExplore_def artifact_ref_def clearDecisionPath_def clearSelectionState_def split: if_splits)
next
  case (compare c m now d)
  then show ?case unfolding bound_phase(3)[OF compare(4,2,3)]
    by (simp add: phase_rank CanCompare_def artifact_ref_def clearDecisionPath_def clearSelectionState_def split: if_splits)
next
  case (decide c selected m now d)
  then show ?case unfolding bound_phase(4)[OF decide(5,2,3)]
    by (simp add: phase_rank CanDecide_def artifact_ref_def clearDecisionPath_def clearSelectionState_def split: if_splits)
next
  case (store c d)
  then show ?case using rank_trim_refs[of c] by (simp only: stored_phase simp_thms)
qed (simp_all add: phase_rank CompleteCycle_def AbandonCycle_def)

lemma chain_run: "cycle_step\<^sup>*\<^sup>* (NewCycleFromLineage now i s failed) c \<Longrightarrow> chain_invariant c"
proof (induction rule: rtranclp_induct)
  case base
  then show ?case by (simp add: chain_invariant_def NewCycleFromLineage_def empty_cycle_def)
next
  case (step c d)
  then show ?case by (blast intro: chain_step)
qed

text \<open>How a session comes to a decision: by deciding on the portfolio compared last, or by adoption.\<close>

lemma decision_step:
  "cycle_step c d \<Longrightarrow> cy_DecisionRef c = [] \<Longrightarrow> cy_DecisionRef d \<noteq> [] \<Longrightarrow>
   cy_PortfolioRef d \<noteq> [] \<and> cy_ComparedPortfolioRef d = cy_PortfolioRef d \<or> adoption c d"
proof (induction rule: cycle_step.induct)
  case (store c d)
  then show ?case
    by (auto simp: CanonicalizeCycleForPersistence_def trim_refs_def clearSelectionState_def Let_def split: if_splits)
qed (auto simp: bind_unfold CanDecide_def CompleteCycle_def AbandonCycle_def split: if_splits)

text \<open>
  C39. A session of a new cycle that binds only what the guardrails let through. Every move but the
  adoption of an existing problem advances the phase by at most one; a cycle past the framing phase has
  a problem; and a move that comes to a decision, again unless it adopts one, has compared the
  cycle's portfolio. An adoption may go to any phase at once, and to a decision without a comparison.
\<close>

theorem only_adoption_skips_phases:
  assumes "cycle_step\<^sup>*\<^sup>* (NewCycleFromLineage now i s failed) c" "cycle_step c d"
  shows "(phaseOrder (DerivePhaseFromCycle (Some d)) \<le> phaseOrder (DerivePhaseFromCycle (Some c)) + 1 \<or> adoption c d)
    \<and> (if DerivePhaseFromCycle (Some d) \<in> {PhaseExplorer, PhaseDecider, PhaseWorker} then cy_ProblemRef d \<noteq> [] else True)
    \<and> (if cy_DecisionRef c = [] \<and> cy_DecisionRef d \<noteq> []
       then cy_PortfolioRef d \<noteq> [] \<and> cy_ComparedPortfolioRef d = cy_PortfolioRef d \<or> adoption c d
       else True)"
proof -
  have "chain_invariant d" using chain_step[OF assms(2) chain_run[OF assms(1)]] .
  then have "DerivePhaseFromCycle (Some d) \<in> {PhaseExplorer, PhaseDecider, PhaseWorker} \<Longrightarrow> cy_ProblemRef d \<noteq> []"
    by (auto simp: DerivePhaseFromCycle_def phase_of_cases chain_invariant_def split: if_splits)
  then show ?thesis
    using ladder_step[OF assms(2)] decision_step[OF assms(2)] by (simp add: DerivePhaseFromCycle_def)
qed

text \<open>A session that adopts a decided problem is in the last phase at once, without a comparison.\<close>

lemma adoption_skips_phases:
  "\<exists>c d. c = NewCycleFromLineage now i s failed \<and> adoption c d
     \<and> phaseOrder (DerivePhaseFromCycle (Some c)) = 1 \<and> phaseOrder (DerivePhaseFromCycle (Some d)) = 4
     \<and> cy_PortfolioRef d = [] \<and> cy_ComparedPortfolioRef d = []"
proof -
  let ?c = "NewCycleFromLineage now i s failed"
  let ?m = "\<lparr>am_Kind = ''problem'', am_ArtifactRef = ''prob-1'', am_Operation = ''adopt'', am_AdoptPortfolioRef = [],
    am_ComparedPortfolioRef = [], am_AdoptDecisionRef = ''dec-1'', am_MeasureVerdict = []\<rparr>"
  obtain d where d: "BindArtifact now (Some ?c) ?m = Some d" by (simp add: BindArtifact_def Let_def)
  have "adoption ?c d"
    by (rule adoption.intros[OF _ _ _ d]) (simp_all add: adopted_refs_def artifact_ref_def plain_char_def)
  moreover have "phaseOrder (DerivePhaseFromCycle (Some d)) = 4" "cy_PortfolioRef d = []" "cy_ComparedPortfolioRef d = []"
    using d by (auto simp: bind_unfold phase_rank NewCycleFromLineage_def empty_cycle_def)
  moreover have "phaseOrder (DerivePhaseFromCycle (Some ?c)) = 1"
    by (simp add: DerivePhaseFromCycle_def phase_rank NewCycleFromLineage_def empty_cycle_def)
  ultimately show ?thesis by blast
qed

text \<open>A session up to its decision.\<close>

definition result_meta :: "string \<Rightarrow> string \<Rightarrow> string \<Rightarrow> ArtifactMeta" where
  "result_meta kind operation ref = \<lparr>am_Kind = kind, am_ArtifactRef = ref, am_Operation = operation,
     am_AdoptPortfolioRef = [], am_ComparedPortfolioRef = ref, am_AdoptDecisionRef = [], am_MeasureVerdict = []\<rparr>"

definition midnight :: Time where
  "midnight = \<lparr>tm_sec = 0, tm_nsec = 0, tm_off = 0\<rparr>"

definition session_start :: Cycle where
  "session_start = NewCycleFromLineage midnight ''c2'' ''s1'' (empty_cycle midnight)"

definition session_framed :: Cycle where
  "session_framed = the (BindArtifact midnight (Some session_start) (result_meta ''problem'' ''frame'' ''prob-1''))"

definition session_explored :: Cycle where
  "session_explored = the (BindArtifact midnight (Some session_framed) (result_meta ''solution'' ''explore'' ''sol-1''))"

definition session_compared :: Cycle where
  "session_compared = the (BindArtifact midnight (Some session_explored) (result_meta ''solution'' ''compare'' ''sol-1''))"

definition session_decided :: Cycle where
  "session_decided = the (BindArtifact midnight (Some session_compared) (result_meta ''decision'' ''decide'' ''dec-1''))"

lemmas session_defs = session_start_def session_framed_def session_explored_def session_compared_def
  session_decided_def result_meta_def bind_unfold phase_of_def NewCycleFromLineage_def empty_cycle_def

lemma session_refs:
  "artifact_ref ''prob-1''" "artifact_ref ''sol-1''" "artifact_ref ''dec-1''"
  by (simp_all add: artifact_ref_def plain_char_def)

lemma session_steps:
  "cycle_step session_start session_framed" "cycle_step session_framed session_explored"
  "cycle_step session_explored session_compared" "cycle_step session_compared session_decided"
  subgoal
    by (rule cycle_step.frame[where m = "result_meta ''problem'' ''frame'' ''prob-1''" and now = midnight])
      (simp_all add: session_refs session_defs)
  subgoal
    by (rule cycle_step.explore[where m = "result_meta ''solution'' ''explore'' ''sol-1''" and now = midnight])
      (simp_all add: session_refs CanExplore_def session_defs)
  subgoal
    by (rule cycle_step.compare[where m = "result_meta ''solution'' ''compare'' ''sol-1''" and now = midnight])
      (simp_all add: CanCompare_def session_defs)
  subgoal
    by (rule cycle_step.decide[where m = "result_meta ''decision'' ''decide'' ''dec-1''" and now = midnight and selected = True])
      (simp_all add: session_refs CanDecide_def session_defs)
  done

theorem only_adoption_skips_phases_witness:
  "\<exists>c d. (phaseOrder (DerivePhaseFromCycle (Some d)) \<le> phaseOrder (DerivePhaseFromCycle (Some c)) + 1 \<or> adoption c d)
   \<and> DerivePhaseFromCycle (Some d) = PhaseWorker \<and> cy_ComparedPortfolioRef d = ''sol-1''"
proof -
  have "cycle_step\<^sup>*\<^sup>* (NewCycleFromLineage midnight ''c2'' ''s1'' (empty_cycle midnight)) session_compared"
    unfolding session_start_def[symmetric]
    using r_into_rtranclp[of cycle_step, OF session_steps(1)] r_into_rtranclp[of cycle_step, OF session_steps(2)]
      r_into_rtranclp[of cycle_step, OF session_steps(3)] by (meson rtranclp_trans)
  from only_adoption_skips_phases[OF this session_steps(4)]
  have "phaseOrder (DerivePhaseFromCycle (Some session_decided)) \<le> phaseOrder (DerivePhaseFromCycle (Some session_compared)) + 1
      \<or> adoption session_compared session_decided" by blast
  moreover have "DerivePhaseFromCycle (Some session_decided) = PhaseWorker" "cy_ComparedPortfolioRef session_decided = ''sol-1''"
    by (simp_all add: session_defs)
  ultimately show ?thesis by blast
qed

end
