(* ===== verification/ToolSafety.thy ===== *)
theory ToolSafety
  imports GoText
begin

text \<open>
  What an agent may run without asking (\<open>internal/agent/permission.go\<close>), when a repetition of tool
  calls is a loop, and the token budget (\<open>internal/agent/safety.go\<close>).
\<close>

section \<open>Permissions\<close>

datatype PermissionLevel = PermissionAllowed | PermissionNeedsApproval | PermissionDenied

definition destructivePatterns :: "string list" where
  "destructivePatterns =
     [''rm -rf'', ''rm -r'', ''git push --force'', ''git push -f'', ''git reset --hard'', ''git checkout -- .'',
      ''git clean -f'', ''git branch -D'', ''drop table'', ''drop database'', ''truncate'', ''> /dev/'',
      ''chmod 777'', ''kill -9'', ''pkill'', ''killall'', ''shutdown'', ''reboot'', ''mkfs'', ''dd if='']"

definition evaluateBashPermission :: "(nat \<Rightarrow> nat) \<Rightarrow> string \<Rightarrow> PermissionLevel" where
  "evaluateBashPermission uni args =
     (if list_ex (\<lambda>pattern. sublist pattern (ToLower uni args)) destructivePatterns
      then PermissionNeedsApproval else PermissionAllowed)"

definition EvaluatePermission :: "(nat \<Rightarrow> nat) \<Rightarrow> string \<Rightarrow> string \<Rightarrow> PermissionLevel" where
  "EvaluatePermission uni toolName args =
     (if toolName \<in> {''read'', ''glob'', ''grep''} then PermissionAllowed
      else if toolName \<in> {''spawn_agent'', ''wait_agent''} then PermissionAllowed
      else if toolName \<in> {''haft_problem'', ''haft_solution'', ''haft_decision'', ''haft_commission'',
                          ''haft_query'', ''haft_refresh'', ''haft_note''} then PermissionAllowed
      else if toolName \<in> {''write'', ''edit'', ''multiedit''} then PermissionNeedsApproval
      else if toolName \<in> {''lsp_diagnostics'', ''lsp_references'', ''lsp_restart''} then PermissionAllowed
      else if toolName = ''fetch'' then PermissionAllowed
      else if toolName = ''bash'' then evaluateBashPermission uni args
      else PermissionNeedsApproval)"

section \<open>Loops\<close>

record ToolCallRecord =
  tc_Name :: string
  tc_Args :: string
  tc_IsError :: bool

datatype LoopLevel = LoopNone | LoopWarning | LoopHard

definition call_key :: "ToolCallRecord \<Rightarrow> string" where
  "call_key tc = tc_Name tc @ '':'' @ tc_Args tc"

text \<open>A slice of negative length panics in Go; the callers pass a positive window.\<close>

definition DetectLoopLevel :: "ToolCallRecord list \<Rightarrow> nat \<Rightarrow> int \<Rightarrow> int \<Rightarrow> LoopLevel" where
  "DetectLoopLevel history windowSize warnThreshold hardThreshold =
     (if length history < windowSize then LoopNone
      else
        (let window = drop (length history - windowSize) history;
             counted = map call_key (filter (\<lambda>tc. \<not> tc_IsError tc) window);
             maxCount = fold (\<lambda>key m. max m (int (count_list counted key))) counted 0
         in if maxCount \<ge> hardThreshold then LoopHard
            else if maxCount \<ge> warnThreshold then LoopWarning
            else LoopNone))"

definition DetectLoop :: "ToolCallRecord list \<Rightarrow> nat \<Rightarrow> int \<Rightarrow> bool" where
  "DetectLoop history windowSize maxRepeats =
     (DetectLoopLevel history windowSize maxRepeats maxRepeats = LoopHard)"

section \<open>Tokens\<close>

record TokenBudget =
  tb_Limit :: int
  tb_Used :: int
  tb_Threshold :: int

text \<open>Go divides towards zero.\<close>

definition NewTokenBudget :: "int \<Rightarrow> TokenBudget" where
  "NewTokenBudget contextWindow =
     \<lparr>tb_Limit = contextWindow, tb_Used = 0,
      tb_Threshold = (if contextWindow > 200000 then 20000 else sgn contextWindow * (\<bar>contextWindow\<bar> div 5))\<rparr>"

definition Remaining :: "TokenBudget \<Rightarrow> int" where
  "Remaining b = (let r = tb_Limit b - tb_Used b in if r < 0 then 0 else r)"

definition NeedsSummarization :: "TokenBudget \<Rightarrow> bool" where
  "NeedsSummarization b = (Remaining b \<le> tb_Threshold b)"

definition Exhausted :: "TokenBudget \<Rightarrow> bool" where
  "Exhausted b = (tb_Used b \<ge> tb_Limit b)"

definition ResetTokenBudget :: "TokenBudget \<Rightarrow> int list \<Rightarrow> TokenBudget" where
  "ResetTokenBudget old tokens = \<lparr>tb_Limit = tb_Limit old, tb_Used = sum_list tokens, tb_Threshold = tb_Threshold old\<rparr>"

section \<open>Properties\<close>

lemma lower_char_not_upper: "\<not> byte_in 65 90 (lower_char c)"
  by (simp add: lower_char_def byte_in_def)

lemma lower_in_lower: "set (lower s) \<inter> {CHR ''D''} = {}"
proof -
  have "byte_in 65 90 (CHR ''D'')" by (simp add: byte_in_def)
  then have "lower_char c \<noteq> CHR ''D''" for c using lower_char_not_upper[of c] by metis
  then have "CHR ''D'' \<notin> set (lower s)" by (force simp: lower_def)
  then show ?thesis by auto
qed

lemma sublist_set: "sublist xs ys \<Longrightarrow> set xs \<subseteq> set ys"
  by (auto simp: sublist_def)

text \<open>
  A shell command in ASCII needs approval exactly when it contains, in any letter case, one of the
  destructive patterns other than the deletion of a branch: that pattern is written with a capital
  letter and compared with a lower-cased text, so it never matches.
\<close>

theorem bash_approval_exact:
  assumes "is_ascii args"
  shows "EvaluatePermission uni ''bash'' args =
    (if list_ex (\<lambda>pattern. sublist pattern (lower args)) (filter (\<lambda>p. p \<noteq> ''git branch -D'') destructivePatterns)
     then PermissionNeedsApproval else PermissionAllowed)"
proof -
  have "\<not> sublist ''git branch -D'' (lower args)"
    using sublist_set[of "''git branch -D''" "lower args"] lower_in_lower[of args] by auto
  then have "list_ex (\<lambda>pattern. sublist pattern (lower args)) destructivePatterns =
      list_ex (\<lambda>pattern. sublist pattern (lower args)) (filter (\<lambda>p. p \<noteq> ''git branch -D'') destructivePatterns)"
    by (auto simp: list_ex_iff)
  with assms show ?thesis
    by (simp add: EvaluatePermission_def evaluateBashPermission_def ToLower_ascii)
qed

theorem bash_approval_exact_witness:
  "EvaluatePermission (\<lambda>r. r) ''bash'' ''git branch -D main'' = PermissionAllowed
   \<and> EvaluatePermission (\<lambda>r. r) ''bash'' ''git branch -d main && RM -RF x'' = PermissionNeedsApproval"
proof
  have "is_ascii ''git branch -D main''" "is_ascii ''git branch -d main && RM -RF x''"
    by (simp_all add: is_ascii_def)
  note ex = this[THEN bash_approval_exact[where uni = "\<lambda>r. r"]]
  show "EvaluatePermission (\<lambda>r. r) ''bash'' ''git branch -D main'' = PermissionAllowed"
    unfolding ex(1) by code_simp
  show "EvaluatePermission (\<lambda>r. r) ''bash'' ''git branch -d main && RM -RF x'' = PermissionNeedsApproval"
    unfolding ex(2) by code_simp
qed

end
