(* ===== verification/ScoreCompare.thy ===== *)
theory ScoreCompare
  imports Criteria Complex_Main "HOL-Library.Log_Nat"
begin

text \<open>
  Scores of a comparison (\<open>internal/artifact/solution.go\<close>): how the text of a score is read as a
  number with a unit or as a word of the ordinal vocabulary, and how two scores of a dimension are
  compared. A float64 is the rational number it stands for; a product beyond the largest float64
  stays a number here, where Go has an infinity.
\<close>

section \<open>Floats\<close>

definition pow2 :: "int \<Rightarrow> rat" where
  "pow2 e = (if 0 \<le> e then 2 ^ nat e else 1 / 2 ^ nat (- e))"

text \<open>The exponent of the last place of the double nearest to a positive number.\<close>

definition double_place :: "rat \<Rightarrow> int" where
  "double_place x =
     (case quotient_of x of (p, q) \<Rightarrow>
        let e = bitlen p - bitlen q - 53;
            e' = (if x / pow2 e \<ge> 2 ^ 53 then e + 1 else e)
        in max e' (- 1074))"

definition round_half_even :: "rat \<Rightarrow> int" where
  "round_half_even r =
     (let n = \<lfloor>r\<rfloor>; d = r - of_int n
      in if d > 1 / 2 \<or> (d = 1 / 2 \<and> odd n) then n + 1 else n)"

definition round_double :: "rat \<Rightarrow> rat" where
  "round_double x =
     (if x = 0 then 0
      else (let e = double_place \<bar>x\<bar> in sgn x * of_int (round_half_even (\<bar>x\<bar> / pow2 e)) * pow2 e))"

lemma round_double_uminus: "round_double (- x) = - round_double x"
  by (simp add: round_double_def Let_def)

text \<open>The tolerance \<open>1e-9\<close>.\<close>

definition score_epsilon :: rat where
  "score_epsilon = round_double (1 / 10 ^ 9)"

definition compareOrderedValues :: "rat \<Rightarrow> rat \<Rightarrow> int" where
  "compareOrderedValues left right =
     (if \<bar>round_double (left - right)\<bar> < score_epsilon then 0 else if left > right then 1 else -1)"

lemma score_epsilon_pos: "0 < score_epsilon"
  by code_simp

lemma compareOrderedValues_swap: "compareOrderedValues right left = - compareOrderedValues left right"
proof -
  have "round_double (right - left) = - round_double (left - right)"
    using round_double_uminus[of "left - right"] by simp
  moreover have "left = right \<Longrightarrow> \<bar>round_double (left - right)\<bar> < score_epsilon"
    using score_epsilon_pos by (simp add: round_double_def)
  ultimately show ?thesis by (auto simp: compareOrderedValues_def)
qed

section \<open>Reading a score\<close>

datatype parsedScore =
    ScoreNumeric rat string
  | ScoreOrdinal int

definition normalizeArtifactKey :: "(nat \<Rightarrow> nat) \<Rightarrow> string \<Rightarrow> string" where
  "normalizeArtifactKey uni s = ToLower uni (trim_space s)"

definition isMissingScore :: "string \<Rightarrow> bool" where
  "isMissingScore score = (let trimmed = trim_space score in trimmed = [] \<or> trimmed = ''-'')"

definition re_space :: "char \<Rightarrow> bool" where
  "re_space c \<longleftrightarrow> c \<in> {CHR 0x09, CHR 0x0A, CHR 0x0C, CHR 0x0D, CHR '' ''}"

definition re_digit :: "char \<Rightarrow> bool" where
  "re_digit c \<longleftrightarrow> byte_in 48 57 c"

text \<open>
  The groups of \<open>numericScorePattern\<close>,
  \<open>^\s*([^\d+\-]*)([+\-]?\d[\d,]*(?:\.\d+)?)([kKmMbB]?)(.*)$\<close>: every part is greedy, and giving up a
  character of one part never lets the next part match, so there is no backtracking.
\<close>

definition numeric_groups :: "string \<Rightarrow> (string \<times> string \<times> string \<times> string) option" where
  "numeric_groups s =
     (let s1 = dropWhile re_space s;
          before = (\<lambda>c. \<not> re_digit c \<and> c \<noteq> CHR ''+'' \<and> c \<noteq> CHR ''-'');
          s2 = dropWhile before s1;
          (sign, s3) = (case s2 of c # cs \<Rightarrow> if c = CHR ''+'' \<or> c = CHR ''-'' then ([c], cs) else ([], s2) | [] \<Rightarrow> ([], []))
      in if s3 = [] \<or> \<not> re_digit (hd s3) then None
         else
           (let number = (\<lambda>c. re_digit c \<or> c = CHR '','');
                s4 = dropWhile number s3;
                (fraction, s5) = (case s4 of
                    c # cs \<Rightarrow> if c = CHR ''.'' \<and> takeWhile re_digit cs \<noteq> []
                               then (c # takeWhile re_digit cs, dropWhile re_digit cs) else ([], s4)
                  | [] \<Rightarrow> ([], []));
                (magnitude, rest) = (case s5 of
                    c # cs \<Rightarrow> if c \<in> set ''kKmMbB'' then ([c], cs) else ([], s5)
                  | [] \<Rightarrow> ([], []))
            in if CHR 0x0A \<in> set rest then None
               else Some (takeWhile before s1, sign @ takeWhile number s3 @ fraction, magnitude, rest)))"

text \<open>The number a text of the form sign, digits, fraction stands for.\<close>

definition decimal_value :: "string \<Rightarrow> rat" where
  "decimal_value s =
     (let (negative, body) = (case s of c # cs \<Rightarrow> if c = CHR ''-'' then (True, cs)
                                else if c = CHR ''+'' then (False, cs) else (False, s) | [] \<Rightarrow> (False, []));
          whole = takeWhile re_digit body;
          fraction = drop 1 (dropWhile re_digit body);
          v = of_nat (read_digits 0 whole) + of_nat (read_digits 0 fraction) / 10 ^ length fraction
      in if negative then - v else v)"

text \<open>\<open>strconv.ParseFloat\<close> on such a text; it fails beyond the largest float64.\<close>

definition parse_float :: "string \<Rightarrow> rat option" where
  "parse_float s = (let v = round_double (decimal_value s) in if \<bar>v\<bar> < 2 ^ 1024 then Some v else None)"

definition score_multiplier :: "string \<Rightarrow> rat" where
  "score_multiplier magnitude =
     (if lower magnitude = ''k'' then 1000 else if lower magnitude = ''m'' then 1000000
      else if lower magnitude = ''b'' then 1000000000 else 1)"

definition normalizeNumericUnit :: "(nat \<Rightarrow> nat) \<Rightarrow> string \<Rightarrow> string" where
  "normalizeNumericUnit uni s = ToLower uni (join '' '' (Fields (trim_space s)))"

definition parseNumericScore :: "(nat \<Rightarrow> nat) \<Rightarrow> string \<Rightarrow> (rat \<times> string) option" where
  "parseNumericScore uni score =
     (case numeric_groups score of
        None \<Rightarrow> None
      | Some (before, number, magnitude, after) \<Rightarrow>
          (case parse_float (remove_byte (CHR '','') number) of
             None \<Rightarrow> None
           | Some numberValue \<Rightarrow>
               Some (round_double (numberValue * score_multiplier magnitude), normalizeNumericUnit uni (before @ after))))"

definition ordinalScoreRanks :: "(string \<times> int) list" where
  "ordinalScoreRanks =
     [(''none'', 0), (''very low'', 1), (''minimal'', 1), (''low'', 2), (''small'', 2), (''slow'', 2),
      (''limited'', 2), (''medium'', 3), (''moderate'', 3), (''ok'', 3), (''high'', 4), (''large'', 4),
      (''fast'', 4), (''good'', 4), (''very high'', 5), (''severe'', 5), (''best'', 5)]"

definition parseOrdinalScore :: "(nat \<Rightarrow> nat) \<Rightarrow> string \<Rightarrow> int option" where
  "parseOrdinalScore uni score = map_of ordinalScoreRanks (normalizeArtifactKey uni score)"

definition parseComparableScore :: "(nat \<Rightarrow> nat) \<Rightarrow> string \<Rightarrow> parsedScore option" where
  "parseComparableScore uni score =
     (case parseNumericScore uni score of
        Some (v, unit) \<Rightarrow> Some (ScoreNumeric v unit)
      | None \<Rightarrow> (case parseOrdinalScore uni score of Some rank \<Rightarrow> Some (ScoreOrdinal rank) | None \<Rightarrow> None))"

section \<open>Comparing scores\<close>

definition orientComparison :: "int \<Rightarrow> string \<Rightarrow> int" where
  "orientComparison raw polarity =
     (if trim_space polarity = ''higher_better'' then raw
      else if trim_space polarity = ''lower_better'' then - raw else 0)"

fun compareParsedScores :: "parsedScore \<Rightarrow> parsedScore \<Rightarrow> string \<Rightarrow> int option" where
  "compareParsedScores (ScoreNumeric x u) (ScoreNumeric y w) polarity =
     (if u \<noteq> w then None else Some (orientComparison (compareOrderedValues x y) polarity))"
| "compareParsedScores (ScoreOrdinal x) (ScoreOrdinal y) polarity =
     Some (orientComparison (compareOrderedValues (of_int x) (of_int y)) polarity)"
| "compareParsedScores _ _ polarity = None"

fun renderZeroScore :: "parsedScore \<Rightarrow> string" where
  "renderZeroScore (ScoreNumeric v unit) = ''0'' @ unit"
| "renderZeroScore (ScoreOrdinal rank) = ''none''"

definition zeroFillScoreValues :: "(nat \<Rightarrow> nat) \<Rightarrow> string \<Rightarrow> string \<Rightarrow> (string \<times> string) option" where
  "zeroFillScoreValues uni leftValue rightValue =
     (if isMissingScore leftValue \<and> isMissingScore rightValue then None
      else if isMissingScore leftValue then
        map_option (\<lambda>rightScore. (renderZeroScore rightScore, rightValue)) (parseComparableScore uni rightValue)
      else if isMissingScore rightValue then
        map_option (\<lambda>leftScore. (leftValue, renderZeroScore leftScore)) (parseComparableScore uni leftValue)
      else Some (leftValue, rightValue))"

datatype dimensionComparisonStatus = Comparable | Excluded | Unresolved

abbreviation "MissingDataPolicyExplicitAbstain \<equiv> ''explicit_abstain''"
abbreviation "MissingDataPolicyZero \<equiv> ''zero''"
abbreviation "MissingDataPolicyExclude \<equiv> ''exclude''"

definition compare_present :: "(nat \<Rightarrow> nat) \<Rightarrow> string \<Rightarrow> string \<Rightarrow> string \<Rightarrow> int \<times> dimensionComparisonStatus" where
  "compare_present uni left right polarity =
     (case (parseComparableScore uni left, parseComparableScore uni right) of
        (Some l, Some r) \<Rightarrow>
          (case compareParsedScores l r polarity of Some c \<Rightarrow> (c, Comparable) | None \<Rightarrow> (0, Unresolved))
      | _ \<Rightarrow> (0, Unresolved))"

definition compareDimensionValues ::
  "(nat \<Rightarrow> nat) \<Rightarrow> string \<Rightarrow> string \<Rightarrow> string \<Rightarrow> string \<Rightarrow> int \<times> dimensionComparisonStatus"
where
  "compareDimensionValues uni leftValue rightValue polarity missingDataPolicy =
     (let leftTrimmed = trim_space leftValue; rightTrimmed = trim_space rightValue
      in if normalizeArtifactKey uni leftTrimmed = normalizeArtifactKey uni rightTrimmed then (0, Comparable)
         else if isMissingScore leftTrimmed \<or> isMissingScore rightTrimmed then
           (if missingDataPolicy = MissingDataPolicyExclude then (0, Excluded)
            else if missingDataPolicy = MissingDataPolicyExplicitAbstain \<or> missingDataPolicy = [] then (0, Unresolved)
            else if missingDataPolicy = MissingDataPolicyZero then
              (case zeroFillScoreValues uni leftTrimmed rightTrimmed of
                 None \<Rightarrow> (0, Unresolved)
               | Some (filledLeft, filledRight) \<Rightarrow> compare_present uni filledLeft filledRight polarity)
            else (0, Unresolved))
         else compare_present uni leftTrimmed rightTrimmed polarity)"

section \<open>Swapping the two scores\<close>

text \<open>
  Comparing two scores the other way round gives the opposite result: the sign of the comparison
  changes and its status stays, for every polarity and every treatment of missing data.
\<close>

definition swap_comparison :: "int \<times> dimensionComparisonStatus \<Rightarrow> int \<times> dimensionComparisonStatus" where
  "swap_comparison cs = (- fst cs, snd cs)"

lemma orientComparison_uminus: "orientComparison (- c) polarity = - orientComparison c polarity"
  by (simp add: orientComparison_def)

lemma orient_swap:
  "orientComparison (compareOrderedValues y x) polarity = - orientComparison (compareOrderedValues x y) polarity"
  by (metis compareOrderedValues_swap orientComparison_uminus)

lemma compareParsedScores_swap:
  "compareParsedScores r l polarity = map_option uminus (compareParsedScores l r polarity)"
proof (cases l; cases r)
  fix x u y w
  assume "l = ScoreNumeric x u" "r = ScoreNumeric y w"
  then show ?thesis using orient_swap[of y x polarity] by auto
next
  fix x y
  assume "l = ScoreOrdinal x" "r = ScoreOrdinal y"
  then show ?thesis using orient_swap[of "of_int y" "of_int x" polarity] by auto
qed auto

lemma compare_present_swap:
  "compare_present uni right left polarity = swap_comparison (compare_present uni left right polarity)"
proof (cases "parseComparableScore uni left"; cases "parseComparableScore uni right")
  fix l r
  assume *: "parseComparableScore uni left = Some l" "parseComparableScore uni right = Some r"
  show ?thesis
    unfolding compare_present_def * prod.case option.case
    by (subst compareParsedScores_swap) (simp add: swap_comparison_def split: option.split)
qed (simp_all add: compare_present_def swap_comparison_def)

lemma zeroFillScoreValues_swap:
  "zeroFillScoreValues uni right left = map_option prod.swap (zeroFillScoreValues uni left right)"
  by (cases "isMissingScore left"; cases "isMissingScore right";
      cases "parseComparableScore uni left"; cases "parseComparableScore uni right")
    (simp_all add: zeroFillScoreValues_def)

lemma compareDimensionValues_swap:
  "compareDimensionValues uni right left polarity policy =
     (case compareDimensionValues uni left right polarity policy of (c, status) \<Rightarrow> (- c, status))"
proof -
  let ?l = "trim_space left" and ?r = "trim_space right"
  have zero: "(case zeroFillScoreValues uni ?r ?l of None \<Rightarrow> (0, Unresolved)
      | Some (x, y) \<Rightarrow> compare_present uni x y polarity) =
      swap_comparison (case zeroFillScoreValues uni ?l ?r of None \<Rightarrow> (0, Unresolved)
      | Some (x, y) \<Rightarrow> compare_present uni x y polarity)"
  proof (cases "zeroFillScoreValues uni ?l ?r")
    case None
    then show ?thesis by (simp add: zeroFillScoreValues_swap[of uni ?r ?l] swap_comparison_def)
  next
    case (Some xy)
    then show ?thesis
      using compare_present_swap[of uni "snd xy" "fst xy" polarity]
      by (simp add: zeroFillScoreValues_swap[of uni ?r ?l] split_beta)
  qed
  have "compareDimensionValues uni right left polarity policy =
      swap_comparison (compareDimensionValues uni left right polarity policy)"
    unfolding compareDimensionValues_def Let_def zero compare_present_swap[of uni ?r ?l]
    by (simp add: swap_comparison_def eq_commute[of "normalizeArtifactKey uni ?r"] disj_commute[of "isMissingScore ?r"])
  then show ?thesis by (simp add: swap_comparison_def split_beta)
qed

end
