(* ===== verification/FloatLaws.thy ===== *)
theory FloatLaws
  imports ScoreCompare
begin

text \<open>
  What rounding to float64 (\<open>round_double\<close>) preserves: it is monotone, it fixes every number with at
  most 53 significant bits, so rounding twice is rounding once, and it never crosses a number it
  fixes. The laws carry the bounds of every score the program computes in floating point.
\<close>

section \<open>Powers of two\<close>

lemma pow2_pos [simp]: "0 < pow2 e"
  by (simp add: pow2_def)

lemma pow2_nonneg [simp]: "0 \<le> pow2 e"
  by (rule less_imp_le) simp

lemma pow2_nonzero [simp]: "pow2 e \<noteq> 0"
  by (metis pow2_pos less_irrefl)

lemma pow2_powi: "pow2 e = 2 powi e"
  by (simp add: pow2_def power_int_def inverse_eq_divide power_one_over)

lemma pow2_add: "pow2 (d + e) = pow2 d * pow2 e"
  by (simp add: pow2_powi power_int_add)

lemma pow2_Suc: "pow2 (e + 1) = 2 * pow2 e"
  unfolding pow2_add by (simp add: pow2_def)

lemma pow2_nat: "0 \<le> e \<Longrightarrow> pow2 e = of_int (2 ^ nat e)"
  by (simp add: pow2_def)

lemma pow2_mono: "d \<le> e \<Longrightarrow> pow2 d \<le> pow2 e"
  by (simp add: pow2_powi power_int_increasing)

section \<open>The last place\<close>

lemma double_place_bounds:
  assumes "0 < x"
  shows "x < 2 ^ 53 * pow2 (double_place x)" "- 1074 \<le> double_place x"
    "- 1074 < double_place x \<Longrightarrow> 2 ^ 52 * pow2 (double_place x) \<le> x"
proof -
  obtain p q where pq: "quotient_of x = (p, q)" by (cases "quotient_of x")
  have q: "0 < q" using quotient_of_denom_pos[OF pq] .
  have x: "x = of_int p / of_int q" using quotient_of_div[OF pq] .
  have p: "0 < p" using assms q unfolding x by (simp add: zero_less_divide_iff)
  have p': "2 ^ nat (bitlen p - 1) \<le> p" "p < 2 ^ nat (bitlen p)"
    and q': "2 ^ nat (bitlen q - 1) \<le> q" "q < 2 ^ nat (bitlen q)"
    using bitlen_bounds[OF p] bitlen_bounds[OF q] by simp_all
  have lens: "1 \<le> bitlen p" "1 \<le> bitlen q"
    using p q by (simp_all add: bitlen_def Suc_le_eq neq0_conv[symmetric] floorlog_eq_zero_iff del: neq0_conv)
  have P: "pow2 (bitlen p - 1) \<le> of_int p" "of_int p < pow2 (bitlen p)"
    and Q: "pow2 (bitlen q - 1) \<le> of_int q" "of_int q < pow2 (bitlen q)"
    using p' q' lens by (simp_all add: pow2_nat del: of_int_power)
  define e where "e = bitlen p - bitlen q - 53"
  have split: "bitlen p = e + 53 + bitlen q" by (simp add: e_def)
  have p53: "pow2 53 = 2 ^ 53" "pow2 52 = 2 ^ 52" by (simp_all add: pow2_def)
  have qpos: "0 < (of_int q :: rat)" using q by simp
  have lower: "2 ^ 52 * pow2 e \<le> x"
  proof -
    have "2 ^ 52 * pow2 e * of_int q \<le> 2 ^ 52 * pow2 e * pow2 (bitlen q)"
      using Q(2) by (intro mult_left_mono) simp_all
    also have "\<dots> = pow2 (bitlen p - 1)"
      using pow2_add[of 52 e] pow2_add[of "52 + e" "bitlen q"] unfolding split p53 by (simp add: algebra_simps)
    also have "\<dots> \<le> of_int p" by (rule P)
    finally show ?thesis using qpos unfolding x by (simp add: pos_le_divide_eq)
  qed
  have upper: "x < 2 ^ 53 * pow2 (e + 1)"
  proof -
    have "of_int p < pow2 (bitlen p)" by (rule P)
    also have "\<dots> = 2 ^ 53 * pow2 (e + 1) * pow2 (bitlen q - 1)"
      using pow2_add[of 53 "e + 1"] pow2_add[of "53 + (e + 1)" "bitlen q - 1"] unfolding split p53
      by (simp add: algebra_simps)
    also have "\<dots> \<le> 2 ^ 53 * pow2 (e + 1) * of_int q"
      using Q(1) by (intro mult_left_mono) simp_all
    finally show ?thesis using qpos unfolding x by (simp add: pos_divide_less_eq)
  qed
  define e' where "e' = (if x / pow2 e \<ge> 2 ^ 53 then e + 1 else e)"
  have e': "2 ^ 52 * pow2 e' \<le> x" "x < 2 ^ 53 * pow2 e'"
    using lower upper by (auto simp: e'_def pow2_Suc pos_le_divide_eq pos_divide_less_eq not_le split: if_splits)
  have place: "double_place x = max e' (- 1074)"
    by (simp add: double_place_def pq e_def e'_def Let_def)
  show "- 1074 \<le> double_place x" by (simp add: place)
  have "pow2 e' \<le> pow2 (double_place x)" by (rule pow2_mono) (simp add: place)
  then have "2 ^ 53 * pow2 e' \<le> 2 ^ 53 * pow2 (double_place x)" by simp
  with e'(2) show "x < 2 ^ 53 * pow2 (double_place x)" by linarith
  show "2 ^ 52 * pow2 (double_place x) \<le> x" if "- 1074 < double_place x"
    using that e'(1) by (simp add: place max_def split: if_splits)
qed

text \<open>The last place is the least one at which 53 bits suffice.\<close>

lemma double_place_least:
  assumes "0 < x" "- 1074 \<le> e" "x < 2 ^ 53 * pow2 e"
  shows "double_place x \<le> e"
proof (rule ccontr)
  assume "\<not> double_place x \<le> e"
  then have e: "e + 1 \<le> double_place x" "- 1074 < double_place x" using assms(2) by simp_all
  have "2 ^ 53 * pow2 e = 2 ^ 52 * pow2 (e + 1)" by (simp add: pow2_Suc)
  also have "\<dots> \<le> 2 ^ 52 * pow2 (double_place x)" using pow2_mono[OF e(1)] by simp
  also have "\<dots> \<le> x" using double_place_bounds(3)[OF assms(1) e(2)] .
  finally show False using assms(3) by simp
qed

lemma double_place_mono:
  assumes "0 < x" "x \<le> y"
  shows "double_place x \<le> double_place y"
  using assms double_place_bounds(1,2)[of y] by (intro double_place_least) auto

section \<open>Rounding\<close>

lemma round_half_even_of_int [simp]: "round_half_even (of_int n) = n"
  by (simp add: round_half_even_def)

lemma round_half_even_mono:
  assumes "r \<le> s"
  shows "round_half_even r \<le> round_half_even s"
proof (cases "\<lfloor>r\<rfloor> = \<lfloor>s\<rfloor>")
  case True
  then show ?thesis using assms by (auto simp: round_half_even_def Let_def)
next
  case False
  then have "\<lfloor>r\<rfloor> + 1 \<le> \<lfloor>s\<rfloor>" using floor_mono[OF assms] by linarith
  moreover have "round_half_even r \<le> \<lfloor>r\<rfloor> + 1" "\<lfloor>s\<rfloor> \<le> round_half_even s"
    by (simp_all add: round_half_even_def Let_def)
  ultimately show ?thesis by linarith
qed

lemma round_double_pos:
  "0 < x \<Longrightarrow> round_double x = of_int (round_half_even (x / pow2 (double_place x))) * pow2 (double_place x)"
  by (simp add: round_double_def Let_def)

lemma round_double_0 [simp]: "round_double 0 = 0"
  by (simp add: round_double_def)

text \<open>The numbers float64 represents: an integer of at most 53 bits times a power of two.\<close>

definition is_double :: "rat \<Rightarrow> bool" where
  "is_double x \<longleftrightarrow> round_double x = x"

lemma round_double_integral:
  assumes "0 < n" "n \<le> 2 ^ 53" "- 1074 \<le> e"
  shows "round_double (of_int n * pow2 e) = of_int n * pow2 e"
proof -
  define x where "x = (of_int n :: rat) * pow2 e"
  have x: "0 < x" using assms(1) by (simp add: x_def)
  define p where "p = double_place x"
  obtain k :: int where k: "x = of_int k * pow2 p"
  proof (cases "n = 2 ^ 53")
    case True
    have "x < 2 ^ 53 * pow2 (e + 1)" using True by (simp add: x_def pow2_Suc)
    then have "p \<le> e + 1" unfolding p_def using x assms(3) by (intro double_place_least) simp_all
    then have "x = of_int (2 ^ 52 * 2 ^ nat (e + 1 - p)) * pow2 p"
      using pow2_add[of "e + 1 - p" p] True by (simp add: x_def pow2_Suc pow2_nat)
    then show thesis by (rule that)
  next
    case False
    then have "n < 2 ^ 53" using assms(2) by simp
    then have "(of_int n :: rat) < of_int (2 ^ 53)" by (rule of_int_less_iff[THEN iffD2])
    then have "x < 2 ^ 53 * pow2 e" by (simp add: x_def)
    then have "p \<le> e" unfolding p_def using x assms(3) by (intro double_place_least)
    then have "x = of_int (n * 2 ^ nat (e - p)) * pow2 p"
      using pow2_add[of "e - p" p] by (simp add: x_def pow2_nat)
    then show thesis by (rule that)
  qed
  then have "x / pow2 p = of_int k" by simp
  then have "round_double x = x" using k unfolding round_double_pos[OF x] p_def[symmetric] by simp
  then show ?thesis unfolding x_def .
qed

lemma is_double_integral: "0 \<le> n \<Longrightarrow> n \<le> 2 ^ 53 \<Longrightarrow> - 1074 \<le> e \<Longrightarrow> is_double (of_int n * pow2 e)"
  unfolding is_double_def using round_double_integral[of n e] by (cases "n = 0") simp_all

lemma is_double_of_int: "0 \<le> n \<Longrightarrow> n \<le> 2 ^ 53 \<Longrightarrow> is_double (of_int n)"
  using is_double_integral[of n 0] by (simp add: pow2_def)

lemma is_double_01 [simp]: "is_double 0" "is_double 1"
  using is_double_of_int[of 0] is_double_of_int[of 1] by simp_all

lemma round_place_bound:
  assumes "0 < x"
  shows "0 \<le> round_half_even (x / pow2 (double_place x))" "round_half_even (x / pow2 (double_place x)) \<le> 2 ^ 53"
proof -
  have "0 \<le> x / pow2 (double_place x)" using assms by simp
  then show "0 \<le> round_half_even (x / pow2 (double_place x))"
    using round_half_even_mono[of 0] round_half_even_of_int[of 0] by fastforce
  have "x / pow2 (double_place x) \<le> of_int (2 ^ 53)"
    using double_place_bounds(1)[OF assms] by (simp add: pos_divide_le_eq)
  then show "round_half_even (x / pow2 (double_place x)) \<le> 2 ^ 53"
    using round_half_even_mono round_half_even_of_int by metis
qed

lemma is_double_round_pos: "0 < x \<Longrightarrow> is_double (round_double x)"
  unfolding round_double_pos using round_place_bound double_place_bounds(2) by (intro is_double_integral)

lemma is_double_uminus: "is_double (- x) \<longleftrightarrow> is_double x"
  by (simp add: is_double_def round_double_uminus)

lemma is_double_round [simp]: "is_double (round_double x)"
  using is_double_round_pos[of x] is_double_round_pos[of "- x"] is_double_uminus[of "round_double x"]
  by (cases x "0 :: rat" rule: linorder_cases) (simp_all add: round_double_uminus)

lemma round_double_id: "is_double x \<Longrightarrow> round_double x = x"
  by (simp add: is_double_def)

lemma round_double_nonneg: "0 \<le> x \<Longrightarrow> 0 \<le> round_double x"
  using round_place_bound(1)[of x] by (cases "x = 0") (simp_all add: round_double_pos)

lemma rat_le: "m \<le> n \<Longrightarrow> (of_int m :: rat) \<le> of_int n"
  by simp

lemma round_double_mono_pos:
  assumes "0 < x" "x \<le> y"
  shows "round_double x \<le> round_double y"
proof -
  define d e where "d = double_place x" and "e = double_place y"
  have y: "0 < y" using assms by simp
  have "d \<le> e" unfolding d_def e_def by (rule double_place_mono[OF assms])
  show ?thesis
  proof (cases "d = e")
    case True
    have "x / pow2 e \<le> y / pow2 e" using assms(2) by (simp add: divide_right_mono)
    then show ?thesis
      using round_half_even_mono True unfolding round_double_pos[OF assms(1)] round_double_pos[OF y] d_def[symmetric] e_def[symmetric]
      by (simp add: mult_right_mono)
  next
    case False
    then have "d + 1 \<le> e" using \<open>d \<le> e\<close> by simp
    have "round_double x \<le> 2 ^ 53 * pow2 d"
      using rat_le[OF round_place_bound(2)[OF assms(1)]] unfolding round_double_pos[OF assms(1)] d_def[symmetric]
      by (intro mult_right_mono) simp_all
    also have "\<dots> = 2 ^ 52 * pow2 (d + 1)" by (simp add: pow2_Suc)
    also have "\<dots> \<le> 2 ^ 52 * pow2 e" using pow2_mono[OF \<open>d + 1 \<le> e\<close>] by simp
    also have "\<dots> \<le> round_double y"
    proof -
      have "- 1074 < e" using double_place_bounds(2)[OF assms(1)] \<open>d + 1 \<le> e\<close> by (simp add: d_def)
      then have "of_int (2 ^ 52) \<le> y / pow2 e"
        using double_place_bounds(3)[OF y] by (simp add: e_def pos_le_divide_eq)
      then have "2 ^ 52 \<le> round_half_even (y / pow2 e)"
        using round_half_even_mono round_half_even_of_int by metis
      from rat_le[OF this] show ?thesis unfolding round_double_pos[OF y] e_def[symmetric]
        by (intro mult_right_mono) simp_all
    qed
    finally show ?thesis .
  qed
qed

lemma round_double_mono:
  assumes "x \<le> y"
  shows "round_double x \<le> round_double y"
proof (cases "0 < x")
  case True
  then show ?thesis using round_double_mono_pos assms by blast
next
  case False
  show ?thesis
  proof (cases "0 < - y")
    case True
    then show ?thesis using round_double_mono_pos[of "- y" "- x"] assms by (simp add: round_double_uminus)
  next
    case neg: False
    then have "round_double x \<le> 0" "0 \<le> round_double y"
      using False round_double_nonneg[of "- x"] round_double_nonneg[of y] by (simp_all add: round_double_uminus)
    then show ?thesis by simp
  qed
qed

text \<open>Rounding never crosses a representable number.\<close>

lemma round_double_le: "is_double y \<Longrightarrow> x \<le> y \<Longrightarrow> round_double x \<le> y"
  using round_double_mono[of x y] by (simp add: round_double_id)

lemma round_double_ge: "is_double y \<Longrightarrow> y \<le> x \<Longrightarrow> y \<le> round_double x"
  using round_double_mono[of y x] by (simp add: round_double_id)

lemma is_double_minmax:
  "is_double x \<Longrightarrow> is_double y \<Longrightarrow> is_double (min x y)" "is_double x \<Longrightarrow> is_double y \<Longrightarrow> is_double (max x y)"
  by (simp_all add: min_def max_def)

end
