(* ===== verification/Pareto.thy ===== *)
theory Pareto
  imports ScoreCompare
begin

text \<open>
  The Pareto front of a comparison (\<open>internal/artifact/solution.go\<close>): the dimensions that count, the
  variants a constraint eliminates, dominance between two variants, and the front. A map of scores
  is the list of its entries in the order the range loop visits them.
\<close>

section \<open>The code\<close>

record charDim =
  cd_Name :: string
  cd_Role :: string
  cd_Polarity :: string
  cd_ValidUntil :: string

type_synonym score_row = "(string \<times> string) list"
type_synonym score_table = "(string \<times> score_row) list"

definition scoreForDimension :: "(nat \<Rightarrow> nat) \<Rightarrow> score_row option \<Rightarrow> string \<Rightarrow> string" where
  "scoreForDimension uni scores dimension =
     (case scores of
        None \<Rightarrow> []
      | Some row \<Rightarrow>
          (case map_of row dimension of
             Some score \<Rightarrow> score
           | None \<Rightarrow>
               (case find (\<lambda>(key, score). normalizeArtifactKey uni key = normalizeArtifactKey uni dimension) row of
                  Some (key, score) \<Rightarrow> score
                | None \<Rightarrow> [])))"

definition missingScoresForDimension :: "(nat \<Rightarrow> nat) \<Rightarrow> string list \<Rightarrow> score_table \<Rightarrow> string \<Rightarrow> string list" where
  "missingScoresForDimension uni variants scores dimension =
     filter (\<lambda>v. isMissingScore (scoreForDimension uni (map_of scores v) dimension)) variants"

definition lower_better_hints :: "string list" where
  "lower_better_hints =
     [''latency'', ''cost'', ''complexity'', ''overhead'', ''error'', ''risk'', ''time'', ''duration'',
      ''load'', ''cpu'', ''memory'', ''page'', ''downtime'', ''variance'']"

definition higher_better_hints :: "string list" where
  "higher_better_hints =
     [''throughput'', ''speed'', ''availability'', ''reliability'', ''accuracy'', ''coverage'', ''headroom'',
      ''novelty'', ''value'', ''quality'']"

definition inferDimensionPolarity :: "(nat \<Rightarrow> nat) \<Rightarrow> string \<Rightarrow> string" where
  "inferDimensionPolarity uni name =
     (let normalized = normalizeArtifactKey uni name
      in if list_ex (\<lambda>hint. sublist hint normalized) lower_better_hints then ''lower_better''
         else if list_ex (\<lambda>hint. sublist hint normalized) higher_better_hints then ''higher_better''
         else [])"

text \<open>Of two characterised dimensions with the same key the last one counts.\<close>

definition characterized_as :: "(nat \<Rightarrow> nat) \<Rightarrow> charDim list \<Rightarrow> string \<Rightarrow> charDim option" where
  "characterized_as uni characterized dimensionName =
     find (\<lambda>d. normalizeArtifactKey uni (cd_Name d) = normalizeArtifactKey uni dimensionName) (rev characterized)"

definition dominance_spec :: "(nat \<Rightarrow> nat) \<Rightarrow> charDim list \<Rightarrow> string \<Rightarrow> charDim" where
  "dominance_spec uni characterized dimensionName =
     (let inferred = inferDimensionPolarity uni dimensionName
      in case characterized_as uni characterized dimensionName of
           None \<Rightarrow> \<lparr>cd_Name = dimensionName, cd_Role = ''target'', cd_Polarity = inferred, cd_ValidUntil = []\<rparr>
         | Some d \<Rightarrow> \<lparr>cd_Name = dimensionName, cd_Role = cd_Role d,
                      cd_Polarity = (if cd_Polarity d = [] then inferred else cd_Polarity d), cd_ValidUntil = []\<rparr>)"

definition effectiveDominanceDimensions ::
  "(nat \<Rightarrow> nat) \<Rightarrow> string list \<Rightarrow> charDim list \<Rightarrow> charDim list \<times> string list"
where
  "effectiveDominanceDimensions uni compareDimensions characterized =
     (let counted = filter (\<lambda>spec. cd_Role spec \<noteq> ''observation'')
                      (map (dominance_spec uni characterized) compareDimensions)
      in (filter (\<lambda>spec. cd_Polarity spec \<noteq> []) counted,
          map (\<lambda>spec. ''dimension '' @ [CHR 0x27] @ cd_Name spec @ [CHR 0x27] @
                       '' has no polarity; excluding it from Pareto dominance computation'')
            (filter (\<lambda>spec. cd_Polarity spec = []) counted)))"

datatype pairwiseDominance = Tie | LeftDominates | RightDominates | Incomparable

text \<open>The loop over the dimensions: who is better somewhere, what is unresolved, what was compared.\<close>

fun compare_specs ::
  "(nat \<Rightarrow> nat) \<Rightarrow> score_table \<Rightarrow> string \<Rightarrow> string \<Rightarrow> string \<Rightarrow> charDim list \<Rightarrow>
   bool \<Rightarrow> bool \<Rightarrow> bool \<Rightarrow> string list \<Rightarrow> bool \<times> bool \<times> bool \<times> string list"
where
  "compare_specs uni scores policy left right [] leftBetter rightBetter unresolved dims =
     (leftBetter, rightBetter, unresolved, dims)"
| "compare_specs uni scores policy left right (spec # specs) leftBetter rightBetter unresolved dims =
     (case compareDimensionValues uni (scoreForDimension uni (map_of scores left) (cd_Name spec))
             (scoreForDimension uni (map_of scores right) (cd_Name spec)) (cd_Polarity spec) policy of
        (comparison, Excluded) \<Rightarrow>
          compare_specs uni scores policy left right specs leftBetter rightBetter unresolved dims
      | (comparison, Unresolved) \<Rightarrow>
          compare_specs uni scores policy left right specs leftBetter rightBetter True dims
      | (comparison, Comparable) \<Rightarrow>
          compare_specs uni scores policy left right specs (leftBetter \<or> comparison = 1)
            (rightBetter \<or> comparison = -1) unresolved (dims @ [cd_Name spec]))"

definition compareVariantPair ::
  "(nat \<Rightarrow> nat) \<Rightarrow> string \<Rightarrow> string \<Rightarrow> score_table \<Rightarrow> charDim list \<Rightarrow> string \<Rightarrow> pairwiseDominance \<times> string list"
where
  "compareVariantPair uni leftVariant rightVariant scores specs missingDataPolicy =
     (case compare_specs uni scores missingDataPolicy leftVariant rightVariant specs False False False [] of
        (leftBetter, rightBetter, unresolved, comparableDims) \<Rightarrow>
          ((if comparableDims = [] then Incomparable
            else if unresolved then Incomparable
            else if leftBetter \<and> \<not> rightBetter then LeftDominates
            else if rightBetter \<and> \<not> leftBetter then RightDominates
            else if \<not> leftBetter \<and> \<not> rightBetter then Tie
            else Incomparable), comparableDims))"

definition isExplicitConstraintViolation :: "(nat \<Rightarrow> nat) \<Rightarrow> string \<Rightarrow> bool" where
  "isExplicitConstraintViolation uni score =
     (normalizeArtifactKey uni score \<in> {''fail'', ''violated'', ''no'', ''false''})"

text \<open>Eliminated variants with the reason, in the order of their elimination.\<close>

type_synonym eliminations = "(string \<times> string) list"

definition out :: "eliminations \<Rightarrow> string \<Rightarrow> bool" where
  "out eliminated v \<longleftrightarrow> v \<in> fst ` set eliminated"

definition explicit_pass ::
  "(nat \<Rightarrow> nat) \<Rightarrow> score_table \<Rightarrow> string list \<Rightarrow> charDim list \<Rightarrow> eliminations"
where
  "explicit_pass uni scores variants constraints =
     fold (\<lambda>constraint eliminated.
       fold (\<lambda>candidate eliminated.
         let candidateScore = scoreForDimension uni (map_of scores candidate) (cd_Name constraint)
         in if out eliminated candidate then eliminated
            else if isExplicitConstraintViolation uni candidateScore
            then eliminated @ [(candidate, ''Constraint violation: '' @ cd_Name constraint @ '' (score: '' @
                                 trim_space candidateScore @ '')'')]
            else eliminated) variants eliminated) constraints []"

text \<open>
  The comparisons of a candidate with the other survivors: how many there are, how many it loses, and
  the last rival it loses to.
\<close>

definition rivals ::
  "(nat \<Rightarrow> nat) \<Rightarrow> score_table \<Rightarrow> string list \<Rightarrow> eliminations \<Rightarrow> charDim \<Rightarrow> string \<Rightarrow> (string \<times> int) list"
where
  "rivals uni scores survivors eliminated constraint candidate =
     concat (map (\<lambda>other.
       let otherScore = scoreForDimension uni (map_of scores other) (cd_Name constraint)
       in if other = candidate \<or> out eliminated other \<or> trim_space otherScore = [] then []
          else (case compareDimensionValues uni (scoreForDimension uni (map_of scores candidate) (cd_Name constraint))
                       otherScore (cd_Polarity constraint) MissingDataPolicyExclude of
                  (comparison, Comparable) \<Rightarrow> [(other, comparison)]
                | _ \<Rightarrow> [])) survivors)"

definition relative_pass ::
  "(nat \<Rightarrow> nat) \<Rightarrow> score_table \<Rightarrow> string list \<Rightarrow> charDim list \<Rightarrow> eliminations \<Rightarrow> eliminations"
where
  "relative_pass uni scores survivors constraints eliminated =
     fold (\<lambda>constraint eliminated.
       fold (\<lambda>candidate eliminated.
         let candidateScore = scoreForDimension uni (map_of scores candidate) (cd_Name constraint);
             compared = rivals uni scores survivors eliminated constraint candidate;
             worse = filter (\<lambda>(other, c). c = -1) compared
         in if out eliminated candidate then eliminated
            else if trim_space candidateScore = [] then eliminated
            else if compared \<noteq> [] \<and> length worse = length compared
            then (let bestOther = fst (last worse)
                  in eliminated @ [(candidate, ''violates constraint '' @ [CHR 0x27] @ cd_Name constraint @ [CHR 0x27] @
                       '' (worst: '' @ candidateScore @ '', e.g. '' @ bestOther @ '' has '' @
                       scoreForDimension uni (map_of scores bestOther) (cd_Name constraint) @ '')'')])
            else eliminated) survivors eliminated) constraints eliminated"

record constraintEliminationResult =
  ce_surviving :: "string list"
  ce_eliminated :: eliminations
  ce_warnings :: "string list"

definition eliminateConstraintViolations ::
  "(nat \<Rightarrow> nat) \<Rightarrow> string list \<Rightarrow> score_table \<Rightarrow> charDim list \<Rightarrow> constraintEliminationResult"
where
  "eliminateConstraintViolations uni variants scores specs =
     (let constraintSpecs = filter (\<lambda>spec. cd_Role spec = ''constraint'') specs
      in if constraintSpecs = [] then \<lparr>ce_surviving = variants, ce_eliminated = [], ce_warnings = []\<rparr>
         else
           (let pass1 = explicit_pass uni scores variants constraintSpecs;
                eliminated = relative_pass uni scores (filter (\<lambda>v. \<not> out pass1 v) variants) constraintSpecs pass1
            in \<lparr>ce_surviving = filter (\<lambda>v. \<not> out eliminated v) variants,
                ce_eliminated = eliminated,
                ce_warnings = concat (map (\<lambda>v. case map_of eliminated v of
                    None \<Rightarrow> []
                  | Some reason \<Rightarrow> [''variant '' @ [CHR 0x27] @ v @ [CHR 0x27] @ '' eliminated: '' @ reason]) variants)\<rparr>))"

text \<open>The pairs of positions the two nested loops visit.\<close>

fun pairs_of :: "'a list \<Rightarrow> ('a \<times> 'a) list" where
  "pairs_of [] = []"
| "pairs_of (x # xs) = map (Pair x) xs @ pairs_of xs"

record paretoFrontResult =
  pf_front :: "string list"
  pf_warnings :: "string list"
  pf_eliminated :: eliminations
  pf_comparablePairCount :: nat
  pf_indecisiveDimensions :: "string list"

definition dominated_pairs ::
  "(nat \<Rightarrow> nat) \<Rightarrow> score_table \<Rightarrow> charDim list \<Rightarrow> string \<Rightarrow> string list \<Rightarrow> (string \<times> string) list"
where
  "dominated_pairs uni scores specs policy surviving =
     concat (map (\<lambda>(leftVariant, rightVariant).
       case fst (compareVariantPair uni leftVariant rightVariant scores specs policy) of
         LeftDominates \<Rightarrow> [(rightVariant, leftVariant)]
       | RightDominates \<Rightarrow> [(leftVariant, rightVariant)]
       | _ \<Rightarrow> []) (pairs_of surviving))"

definition computeParetoFront ::
  "(nat \<Rightarrow> nat) \<Rightarrow> string list \<Rightarrow> score_table \<Rightarrow> string list \<Rightarrow> charDim list \<Rightarrow> string \<Rightarrow> paretoFrontResult"
where
  "computeParetoFront uni dimensions scores comparedVariants characterized missingDataPolicy =
     (case effectiveDominanceDimensions uni dimensions characterized of
        (specs, warnings) \<Rightarrow>
          if specs = [] then
            \<lparr>pf_front = comparedVariants,
             pf_warnings = warnings @ [''computed Pareto front is conservative because no dominance-relevant dimensions could be derived''],
             pf_eliminated = [], pf_comparablePairCount = 0, pf_indecisiveDimensions = []\<rparr>
          else
            (let elimination = eliminateConstraintViolations uni comparedVariants scores specs;
                 none_left = (ce_surviving elimination = []);
                 surviving = (if none_left then comparedVariants else ce_surviving elimination);
                 dominated = dominated_pairs uni scores specs missingDataPolicy surviving;
                 comparisons = map (\<lambda>(l, r). snd (compareVariantPair uni l r scores specs missingDataPolicy))
                                 (pairs_of surviving)
             in \<lparr>pf_front = filter (\<lambda>v. v \<notin> fst ` set dominated) surviving,
                 pf_warnings = warnings @ ce_warnings elimination @
                   (if none_left then [''all variants eliminated by constraint violations; returning original set as Pareto front'']
                    else []),
                 pf_eliminated = ce_eliminated elimination,
                 pf_comparablePairCount = length (filter (\<lambda>dims. dims \<noteq> []) comparisons),
                 pf_indecisiveDimensions = filter (\<lambda>name. name \<notin> set (concat comparisons)) (map cd_Name specs)\<rparr>))"

end
