(* ===== verification/ParetoLaws.thy ===== *)
theory ParetoLaws
  imports Pareto FloatLaws "HOL-Library.Multiset"
begin

text \<open>
  What the computed front is: the survivors that no survivor dominates; when the order of the
  variants matters; and comparisons where the code goes wrong.
\<close>

section \<open>Dominance\<close>

definition dominates ::
  "(nat \<Rightarrow> nat) \<Rightarrow> score_table \<Rightarrow> charDim list \<Rightarrow> string \<Rightarrow> string \<Rightarrow> string \<Rightarrow> bool"
where
  "dominates uni scores specs policy w v \<longleftrightarrow>
     fst (compareVariantPair uni w v scores specs policy) = LeftDominates"

text \<open>
  Dominance stated without the code of the comparison. Two scores are read as numbers of one unit or as
  words of the ordinal vocabulary; a missing one reads as zero under the policy \<open>zero\<close> and as nothing
  under any other. One is better when it differs by more than the tolerance in the direction of the
  dimension's polarity. A variant outranks another when nothing but excluded dimensions is left
  undecided between them, it is better somewhere, and the other is better nowhere.
\<close>

fun score_value :: "parsedScore \<Rightarrow> rat" where
  "score_value (ScoreNumeric v unit) = v"
| "score_value (ScoreOrdinal rank) = of_int rank"

fun same_scale :: "parsedScore \<Rightarrow> parsedScore \<Rightarrow> bool" where
  "same_scale (ScoreNumeric v unit) (ScoreNumeric w unit') = (unit = unit')"
| "same_scale (ScoreOrdinal i) (ScoreOrdinal j) = True"
| "same_scale _ _ = False"

definition read_both :: "(nat \<Rightarrow> nat) \<Rightarrow> string \<Rightarrow> string \<Rightarrow> (parsedScore \<times> parsedScore) option" where
  "read_both uni a b =
     (case (parseComparableScore uni a, parseComparableScore uni b) of
        (Some l, Some r) \<Rightarrow> if same_scale l r then Some (l, r) else None
      | _ \<Rightarrow> None)"

definition readings :: "(nat \<Rightarrow> nat) \<Rightarrow> string \<Rightarrow> string \<Rightarrow> string \<Rightarrow> (parsedScore \<times> parsedScore) option" where
  "readings uni policy a b =
     (if isMissingScore a \<or> isMissingScore b
      then (if policy = ''zero''
            then (case zeroFillScoreValues uni a b of None \<Rightarrow> None | Some (x, y) \<Rightarrow> read_both uni x y)
            else None)
      else read_both uni a b)"

definition same_text :: "(nat \<Rightarrow> nat) \<Rightarrow> string \<Rightarrow> string \<Rightarrow> bool" where
  "same_text uni a b \<longleftrightarrow> normalizeArtifactKey uni (trim_space a) = normalizeArtifactKey uni (trim_space b)"

definition better :: "(nat \<Rightarrow> nat) \<Rightarrow> string \<Rightarrow> string \<Rightarrow> string \<Rightarrow> string \<Rightarrow> bool" where
  "better uni policy polarity a b \<longleftrightarrow>
     \<not> same_text uni a b
     \<and> (case readings uni policy (trim_space a) (trim_space b) of
          None \<Rightarrow> False
        | Some (l, r) \<Rightarrow>
            score_epsilon \<le> \<bar>round_double (score_value l - score_value r)\<bar>
            \<and> (if trim_space polarity = ''higher_better'' then score_value r < score_value l
               else if trim_space polarity = ''lower_better'' then score_value l < score_value r else False))"

definition undecided :: "(nat \<Rightarrow> nat) \<Rightarrow> string \<Rightarrow> string \<Rightarrow> string \<Rightarrow> bool" where
  "undecided uni policy a b \<longleftrightarrow>
     \<not> same_text uni a b \<and> readings uni policy (trim_space a) (trim_space b) = None
     \<and> \<not> (policy = ''exclude'' \<and> (isMissingScore (trim_space a) \<or> isMissingScore (trim_space b)))"

definition outranks ::
  "(nat \<Rightarrow> nat) \<Rightarrow> score_table \<Rightarrow> charDim list \<Rightarrow> string \<Rightarrow> string \<Rightarrow> string \<Rightarrow> bool"
where
  "outranks uni scores specs policy w v \<longleftrightarrow>
     (let score = (\<lambda>x d. scoreForDimension uni (map_of scores x) (cd_Name d))
      in \<not> list_ex (\<lambda>d. undecided uni policy (score w d) (score v d)) specs
         \<and> list_ex (\<lambda>d. better uni policy (cd_Polarity d) (score w d) (score v d)) specs
         \<and> \<not> list_ex (\<lambda>d. better uni policy (cd_Polarity d) (score v d) (score w d)) specs)"

lemma ordered_values:
  "compareOrderedValues x y =
     (if score_epsilon \<le> \<bar>round_double (x - y)\<bar> then if y < x then 1 else -1 else 0)"
  by (simp add: compareOrderedValues_def not_less[symmetric])

lemma beyond_tolerance: "score_epsilon \<le> \<bar>round_double (x - y)\<bar> \<Longrightarrow> x \<noteq> y"
  using score_epsilon_pos by auto

lemma parsed_compare:
  "compareParsedScores l r polarity =
     (if same_scale l r then Some (orientComparison (compareOrderedValues (score_value l) (score_value r)) polarity) else None)"
  by (cases l; cases r) auto

lemma present_compare:
  "compare_present uni a b polarity =
     (case read_both uni a b of
        None \<Rightarrow> (0, Unresolved)
      | Some (l, r) \<Rightarrow> (orientComparison (compareOrderedValues (score_value l) (score_value r)) polarity, Comparable))"
  by (cases "parseComparableScore uni a"; cases "parseComparableScore uni b")
    (simp_all add: compare_present_def read_both_def parsed_compare)

lemma dimension_compare:
  "compareDimensionValues uni a b polarity policy =
     (if same_text uni a b then (0, Comparable)
      else (case readings uni policy (trim_space a) (trim_space b) of
          Some (l, r) \<Rightarrow> (orientComparison (compareOrderedValues (score_value l) (score_value r)) polarity, Comparable)
        | None \<Rightarrow> (0, if undecided uni policy a b then Unresolved else Excluded)))"
  by (auto simp: compareDimensionValues_def same_text_def readings_def undecided_def present_compare Let_def
      split: option.split)

lemma better_iff:
  "better uni policy polarity a b \<longleftrightarrow> compareDimensionValues uni a b polarity policy = (1, Comparable)"
  unfolding better_def dimension_compare
  by (auto simp: ordered_values orientComparison_def dest: beyond_tolerance split: option.split if_splits)

lemma worse_iff:
  "better uni policy polarity b a \<longleftrightarrow> compareDimensionValues uni a b polarity policy = (-1, Comparable)"
  unfolding better_iff by (subst compareDimensionValues_swap) (auto split: prod.split)

lemma undecided_iff:
  "undecided uni policy a b \<longleftrightarrow> snd (compareDimensionValues uni a b polarity policy) = Unresolved"
  unfolding dimension_compare by (auto simp: undecided_def split: option.split)

lemma compare_specs_eq:
  fixes uni :: "nat \<Rightarrow> nat" and scores :: score_table
  defines "score x d \<equiv> scoreForDimension uni (map_of scores x) (cd_Name d)"
  shows "\<exists>ds. compare_specs uni scores policy l r specs lb rb u dims =
     (lb \<or> list_ex (\<lambda>d. better uni policy (cd_Polarity d) (score l d) (score r d)) specs,
      rb \<or> list_ex (\<lambda>d. better uni policy (cd_Polarity d) (score r d) (score l d)) specs,
      u \<or> list_ex (\<lambda>d. undecided uni policy (score l d) (score r d)) specs, dims @ ds)
     \<and> (list_ex (\<lambda>d. better uni policy (cd_Polarity d) (score l d) (score r d)) specs \<longrightarrow> ds \<noteq> [])"
proof (induction specs arbitrary: lb rb u dims)
  case (Cons spec specs)
  obtain c st where cs: "compareDimensionValues uni (score l spec) (score r spec) (cd_Polarity spec) policy = (c, st)"
    by fastforce
  have b: "better uni policy (cd_Polarity spec) (score l spec) (score r spec) \<longleftrightarrow> c = 1 \<and> st = Comparable"
    "better uni policy (cd_Polarity spec) (score r spec) (score l spec) \<longleftrightarrow> c = -1 \<and> st = Comparable"
    "undecided uni policy (score l spec) (score r spec) \<longleftrightarrow> st = Unresolved"
    using cs better_iff[of uni policy "cd_Polarity spec" "score l spec" "score r spec"]
      worse_iff[of uni policy "cd_Polarity spec" "score r spec" "score l spec"]
      undecided_iff[of uni policy "score l spec" "score r spec" "cd_Polarity spec"] by simp_all
  show ?case
  proof (cases st)
    case Comparable
    then obtain ds where "compare_specs uni scores policy l r specs (lb \<or> c = 1) (rb \<or> c = -1) u (dims @ [cd_Name spec]) =
       (lb \<or> c = 1 \<or> list_ex (\<lambda>d. better uni policy (cd_Polarity d) (score l d) (score r d)) specs,
        rb \<or> c = -1 \<or> list_ex (\<lambda>d. better uni policy (cd_Polarity d) (score r d) (score l d)) specs,
        u \<or> list_ex (\<lambda>d. undecided uni policy (score l d) (score r d)) specs, (dims @ [cd_Name spec]) @ ds)"
      using Cons.IH[of "lb \<or> c = 1" "rb \<or> c = -1" u "dims @ [cd_Name spec]"] by (auto simp: disj_assoc)
    then show ?thesis using cs b Comparable unfolding score_def by (intro exI[of _ "cd_Name spec # ds"]) simp
  next
    case Excluded
    then show ?thesis using cs b Cons.IH[of lb rb u dims] unfolding score_def by simp
  next
    case Unresolved
    then show ?thesis using cs b Cons.IH[of lb rb True dims] unfolding score_def by simp
  qed
qed simp

lemma dominates_iff: "dominates uni scores specs policy w v \<longleftrightarrow> outranks uni scores specs policy w v"
proof -
  let ?s = "\<lambda>x d. scoreForDimension uni (map_of scores x) (cd_Name d)"
  define L where "L = list_ex (\<lambda>d. better uni policy (cd_Polarity d) (?s w d) (?s v d)) specs"
  define R where "R = list_ex (\<lambda>d. better uni policy (cd_Polarity d) (?s v d) (?s w d)) specs"
  define U where "U = list_ex (\<lambda>d. undecided uni policy (?s w d) (?s v d)) specs"
  obtain ds where "compare_specs uni scores policy w v specs False False False [] = (L, R, U, ds)" "L \<longrightarrow> ds \<noteq> []"
    using compare_specs_eq[of uni scores policy w v specs False False False "[]"] unfolding L_def R_def U_def by auto
  moreover have "outranks uni scores specs policy w v \<longleftrightarrow> \<not> U \<and> L \<and> \<not> R"
    by (simp add: outranks_def L_def R_def U_def)
  ultimately show ?thesis
    by (cases L; cases R; cases U) (auto simp: dominates_def compareVariantPair_def)
qed

fun swap_dominance :: "pairwiseDominance \<Rightarrow> pairwiseDominance" where
  "swap_dominance LeftDominates = RightDominates"
| "swap_dominance RightDominates = LeftDominates"
| "swap_dominance d = d"

lemma compare_specs_swap:
  "compare_specs uni scores policy right left specs rb lb u dims =
     (case compare_specs uni scores policy left right specs lb rb u dims of (a, b, c, d) \<Rightarrow> (b, a, c, d))"
proof (induction specs arbitrary: lb rb u dims)
  case (Cons spec specs)
  obtain c st where cs: "compareDimensionValues uni (scoreForDimension uni (map_of scores left) (cd_Name spec))
      (scoreForDimension uni (map_of scores right) (cd_Name spec)) (cd_Polarity spec) policy = (c, st)" by fastforce
  then have "compareDimensionValues uni (scoreForDimension uni (map_of scores right) (cd_Name spec))
      (scoreForDimension uni (map_of scores left) (cd_Name spec)) (cd_Polarity spec) policy = (- c, st)"
    by (subst compareDimensionValues_swap) simp
  moreover have "- c = 1 \<longleftrightarrow> c = -1" "- c = -1 \<longleftrightarrow> c = 1" by auto
  ultimately show ?case using cs by (cases st) (simp_all add: Cons.IH)
qed simp

lemma compareVariantPair_swap:
  "fst (compareVariantPair uni right left scores specs policy) =
     swap_dominance (fst (compareVariantPair uni left right scores specs policy))"
  "snd (compareVariantPair uni right left scores specs policy) =
     snd (compareVariantPair uni left right scores specs policy)"
  by (auto simp: compareVariantPair_def compare_specs_swap[of uni scores policy right left] split: prod.split)

lemma compare_self: "compareDimensionValues uni s s polarity policy = (0, Comparable)"
  by (simp add: compareDimensionValues_def)

lemma compare_specs_self:
  "\<exists>d. compare_specs uni scores policy v v specs lb rb u dims = (lb, rb, u, d)"
  by (induction specs arbitrary: dims) (auto simp: compare_self)

lemma not_self_dominates [simp]: "\<not> dominates uni scores specs policy v v"
proof -
  obtain d where "compare_specs uni scores policy v v specs False False False [] = (False, False, False, d)"
    using compare_specs_self by blast
  then show ?thesis by (simp add: dominates_def compareVariantPair_def)
qed

lemma pairs_of_mem: "(a, b) \<in> set (pairs_of xs) \<Longrightarrow> a \<in> set xs \<and> b \<in> set xs"
  by (induction xs) auto

lemma pairs_of_total: "a \<in> set xs \<Longrightarrow> b \<in> set xs \<Longrightarrow> a \<noteq> b \<Longrightarrow> (a, b) \<in> set (pairs_of xs) \<or> (b, a) \<in> set (pairs_of xs)"
  by (induction xs) auto

lemma dominated_iff:
  "v \<in> set surviving \<Longrightarrow>
   v \<in> fst ` set (dominated_pairs uni scores specs policy surviving) \<longleftrightarrow>
     (\<exists>w\<in>set surviving. dominates uni scores specs policy w v)"
proof -
  let ?cmp = "\<lambda>l r. fst (compareVariantPair uni l r scores specs policy)"
  assume v: "v \<in> set surviving"
  have left: "?cmp l r = LeftDominates \<longleftrightarrow> dominates uni scores specs policy l r" for l r
    by (simp add: dominates_def)
  have right: "?cmp l r = RightDominates \<longleftrightarrow> dominates uni scores specs policy r l" for l r
    unfolding dominates_def compareVariantPair_swap(1)[of uni r l] by (cases "?cmp l r") auto
  have f: "fst ` set (case d of LeftDominates \<Rightarrow> [(r, l)] | RightDominates \<Rightarrow> [(l, r)] | _ \<Rightarrow> []) =
      (if d = LeftDominates then {r} else if d = RightDominates then {l} else {})" for d and l r :: string
    by (cases d) auto
  have g: "v \<in> (if d = LeftDominates then {r} else if d = RightDominates then {l} else {}) \<longleftrightarrow>
      (d = LeftDominates \<and> v = r) \<or> (d = RightDominates \<and> v = l)" for d and l r :: string
    by (cases d) auto
  have "fst ` set (dominated_pairs uni scores specs policy surviving) =
      (\<Union>(l, r)\<in>set (pairs_of surviving). if ?cmp l r = LeftDominates then {r} else if ?cmp l r = RightDominates then {l} else {})"
    by (simp add: dominated_pairs_def image_UN split_beta f)
  then have "v \<in> fst ` set (dominated_pairs uni scores specs policy surviving) \<longleftrightarrow>
      (\<exists>(l, r)\<in>set (pairs_of surviving). (?cmp l r = LeftDominates \<and> v = r) \<or> (?cmp l r = RightDominates \<and> v = l))"
    by (simp only: UN_iff split_beta' case_prod_beta g)
  also have "\<dots> \<longleftrightarrow> (\<exists>w. (w, v) \<in> set (pairs_of surviving) \<and> dominates uni scores specs policy w v
      \<or> (v, w) \<in> set (pairs_of surviving) \<and> dominates uni scores specs policy w v)"
    unfolding left right by auto
  also have "\<dots> \<longleftrightarrow> (\<exists>w\<in>set surviving. dominates uni scores specs policy w v)"
    using v pairs_of_total[of v surviving] pairs_of_mem by fastforce
  finally show ?thesis .
qed

text \<open>The variants that take part in the comparison.\<close>

definition contenders ::
  "(nat \<Rightarrow> nat) \<Rightarrow> score_table \<Rightarrow> charDim list \<Rightarrow> string list \<Rightarrow> string list"
where
  "contenders uni scores specs variants =
     (let surviving = ce_surviving (eliminateConstraintViolations uni variants scores specs)
      in if surviving = [] then variants else surviving)"

lemma front_unfold:
  "pf_front (computeParetoFront uni dimensions scores variants characterized policy) =
     (let specs = fst (effectiveDominanceDimensions uni dimensions characterized);
          S = contenders uni scores specs variants
      in if specs = [] then variants
         else filter (\<lambda>v. \<not> (\<exists>w\<in>set S. dominates uni scores specs policy w v)) S)"
proof -
  have "filter (\<lambda>v. v \<notin> fst ` set (dominated_pairs uni scores specs policy S)) S =
      filter (\<lambda>v. \<not> (\<exists>w\<in>set S. dominates uni scores specs policy w v)) S" for specs S
    by (rule filter_cong) (simp_all add: dominated_iff)
  then show ?thesis
    by (simp add: computeParetoFront_def contenders_def Let_def split_beta)
qed

text \<open>
  C38. The computed front holds exactly the contenders that no contender outranks, in their order: a
  contender stays out exactly when another is better, by more than the tolerance and in the direction
  of the polarity, on some dimension that counts, worse on none, and undecided on none. The contenders
  are the variants no constraint eliminated, or all variants when none is left, although the
  specification wants eliminated variants out of the comparison in any case. When no dimension
  counts, every variant is in the front.
\<close>

theorem front_exact:
  "let specs = fst (effectiveDominanceDimensions uni dimensions characterized);
       S = contenders uni scores specs variants
   in pf_front (computeParetoFront uni dimensions scores variants characterized policy) =
        (if specs = [] then variants
         else filter (\<lambda>v. \<not> list_ex (\<lambda>w. outranks uni scores specs policy w v) S) S)"
  by (simp add: front_unfold Let_def list_ex_iff dominates_iff)

lemma contenders_no_constraint:
  "filter (\<lambda>spec. cd_Role spec = ''constraint'') specs = [] \<Longrightarrow> contenders uni scores specs variants = variants"
  by (simp add: contenders_def eliminateConstraintViolations_def)

text \<open>
  Without a constraint among the dimensions that count, the front does not depend on the order in
  which the variants are listed.
\<close>

theorem front_order_free:
  assumes "mset variants = mset variants'"
    and "filter (\<lambda>spec. cd_Role spec = ''constraint'') (fst (effectiveDominanceDimensions uni dimensions characterized)) = []"
  shows "mset (pf_front (computeParetoFront uni dimensions scores variants characterized policy)) =
         mset (pf_front (computeParetoFront uni dimensions scores variants' characterized policy))"
  using assms(1) mset_eq_setD[OF assms(1)]
  by (simp add: front_unfold Let_def contenders_no_constraint[OF assms(2)] mset_filter)

section \<open>Examples\<close>

definition plain_dim :: "string \<Rightarrow> string \<Rightarrow> charDim" where
  "plain_dim name role = \<lparr>cd_Name = name, cd_Role = role, cd_Polarity = ''higher_better'', cd_ValidUntil = []\<rparr>"

text \<open>Three variants, each with one score missing.\<close>

definition cyclic_scores :: score_table where
  "cyclic_scores =
     [(''A'', [(''speed'', ''high''), (''accuracy'', ''low'')]),
      (''B'', [(''speed'', ''low''), (''coverage'', ''high'')]),
      (''C'', [(''coverage'', ''low''), (''accuracy'', ''high'')])]"

definition cyclic_dims :: "charDim list" where
  "cyclic_dims = [plain_dim ''speed'' ''target'', plain_dim ''coverage'' ''target'', plain_dim ''accuracy'' ''target'']"

lemma cyclic_specs:
  "fst (effectiveDominanceDimensions (\<lambda>r. r) [''speed'', ''coverage'', ''accuracy''] []) = cyclic_dims"
  by code_simp

lemma compareOrderedValues_of_int:
  assumes "\<bar>i\<bar> \<le> 9" "\<bar>j\<bar> \<le> 9"
  shows "compareOrderedValues (of_int i) (of_int j) = sgn (i - j)"
proof -
  have eps: "score_epsilon \<le> 1" unfolding score_epsilon_def by (rule round_double_le) simp_all
  have "is_double (of_int (i - j))"
    using assms is_double_of_int[of "i - j"] is_double_of_int[of "j - i"] is_double_uminus[of "of_int (j - i)"]
    by (cases "0 \<le> i - j") simp_all
  then have diff: "round_double (of_int i - of_int j) = of_int (i - j)"
    using round_double_id by (metis of_int_diff)
  show ?thesis
  proof (cases "i = j")
    case True
    then show ?thesis using score_epsilon_pos by (simp add: compareOrderedValues_def diff)
  next
    case False
    then have "1 \<le> \<bar>of_int (i - j) :: rat\<bar>"
      using of_int_le_iff[of 1 "\<bar>i - j\<bar>", where ?'a = rat] by simp
    then have "\<not> \<bar>of_int (i - j) :: rat\<bar> < score_epsilon" using eps by linarith
    then show ?thesis using False unfolding compareOrderedValues_def diff by (simp add: sgn_if)
  qed
qed

text \<open>The words of the examples on the ordinal scale.\<close>

lemma example_words:
  "parseComparableScore (\<lambda>r. r) ''low'' = Some (ScoreOrdinal 2)"
  "parseComparableScore (\<lambda>r. r) ''medium'' = Some (ScoreOrdinal 3)"
  "parseComparableScore (\<lambda>r. r) ''high'' = Some (ScoreOrdinal 4)"
  "normalizeArtifactKey (\<lambda>r. r) ''low'' = ''low''" "normalizeArtifactKey (\<lambda>r. r) ''medium'' = ''medium''"
  "normalizeArtifactKey (\<lambda>r. r) ''high'' = ''high''" "normalizeArtifactKey (\<lambda>r. r) [] = []"
  "\<not> isMissingScore ''low''" "\<not> isMissingScore ''medium''" "\<not> isMissingScore ''high''" "isMissingScore []"
  "trim_space ''low'' = ''low''" "trim_space ''medium'' = ''medium''" "trim_space ''high'' = ''high''"
  "trim_space [] = []" "trim_space ''lower_better'' = ''lower_better''" "trim_space ''higher_better'' = ''higher_better''"
  by code_simp+

lemma ordinal_orders:
  "compareOrderedValues 2 2 = 0" "compareOrderedValues 2 3 = -1" "compareOrderedValues 2 4 = -1"
  "compareOrderedValues 3 2 = 1" "compareOrderedValues 3 4 = -1"
  "compareOrderedValues 4 2 = 1" "compareOrderedValues 4 3 = 1"
  using compareOrderedValues_of_int[of 2 2] compareOrderedValues_of_int[of 2 3] compareOrderedValues_of_int[of 2 4]
    compareOrderedValues_of_int[of 3 2] compareOrderedValues_of_int[of 3 4]
    compareOrderedValues_of_int[of 4 2] compareOrderedValues_of_int[of 4 3] by simp_all

lemmas word_compare = compareDimensionValues_def compare_present_def orientComparison_def ordinal_orders example_words Let_def

lemma cyclic_compare:
  "compareDimensionValues (\<lambda>r. r) ''high'' ''low'' ''higher_better'' MissingDataPolicyExclude = (1, Comparable)"
  "compareDimensionValues (\<lambda>r. r) ''high'' [] ''higher_better'' MissingDataPolicyExclude = (0, Excluded)"
  "compareDimensionValues (\<lambda>r. r) [] ''high'' ''higher_better'' MissingDataPolicyExclude = (0, Excluded)"
  "compareDimensionValues (\<lambda>r. r) ''low'' [] ''higher_better'' MissingDataPolicyExclude = (0, Excluded)"
  "compareDimensionValues (\<lambda>r. r) [] ''low'' ''higher_better'' MissingDataPolicyExclude = (0, Excluded)"
  by (simp_all add: word_compare)

lemma cyclic_score:
  "map (\<lambda>v. map (scoreForDimension (\<lambda>r. r) (map_of cyclic_scores v)) [''speed'', ''coverage'', ''accuracy''])
     [''A'', ''B'', ''C''] =
   [[''high'', [], ''low''], [''low'', ''high'', []], [[], ''low'', ''high'']]"
  by code_simp

lemma cyclic_dominance:
  "dominates (\<lambda>r. r) cyclic_scores cyclic_dims MissingDataPolicyExclude ''A'' ''B''"
  "dominates (\<lambda>r. r) cyclic_scores cyclic_dims MissingDataPolicyExclude ''B'' ''C''"
  "dominates (\<lambda>r. r) cyclic_scores cyclic_dims MissingDataPolicyExclude ''C'' ''A''"
  using cyclic_score
  by (simp_all add: dominates_def compareVariantPair_def cyclic_dims_def plain_dim_def cyclic_compare)

text \<open>When missing scores are excluded, dominance can run in a circle, and the front is empty.\<close>

lemma front_can_be_empty:
  "pf_front (computeParetoFront (\<lambda>r. r) [''speed'', ''coverage'', ''accuracy''] cyclic_scores [''A'', ''B'', ''C''] []
     MissingDataPolicyExclude) = []"
proof -
  have "contenders (\<lambda>r. r) cyclic_scores cyclic_dims [''A'', ''B'', ''C''] = [''A'', ''B'', ''C'']"
    by (rule contenders_no_constraint) (simp add: cyclic_dims_def plain_dim_def)
  moreover have "cyclic_dims \<noteq> []" by (simp add: cyclic_dims_def)
  ultimately show ?thesis
    using cyclic_dominance by (simp add: front_unfold Let_def cyclic_specs)
qed

text \<open>Three variants with a constraint on memory: the less memory, the less throughput.\<close>

definition tiered_scores :: score_table where
  "tiered_scores =
     [(''A'', [(''memory'', ''low''), (''throughput'', ''low'')]),
      (''B'', [(''memory'', ''medium''), (''throughput'', ''medium'')]),
      (''C'', [(''memory'', ''high''), (''throughput'', ''high'')])]"

definition memory_dim :: charDim where
  "memory_dim = \<lparr>cd_Name = ''memory'', cd_Role = ''constraint'', cd_Polarity = ''lower_better'', cd_ValidUntil = []\<rparr>"

definition tiered_dims :: "charDim list" where
  "tiered_dims = [memory_dim, plain_dim ''throughput'' ''target'']"

lemma tiered_polarity:
  "inferDimensionPolarity (\<lambda>r. r) ''memory'' = ''lower_better''"
  "inferDimensionPolarity (\<lambda>r. r) ''throughput'' = ''higher_better''"
  "normalizeArtifactKey (\<lambda>r. r) ''memory'' \<noteq> normalizeArtifactKey (\<lambda>r. r) ''throughput''"
  by code_simp+

lemma tiered_specs:
  "fst (effectiveDominanceDimensions (\<lambda>r. r) [''memory'', ''throughput''] [memory_dim]) = tiered_dims"
  using tiered_polarity
  by (simp add: effectiveDominanceDimensions_def dominance_spec_def characterized_as_def memory_dim_def
      tiered_dims_def plain_dim_def Let_def)

lemma tiered_score:
  "map (\<lambda>v. map (scoreForDimension (\<lambda>r. r) (map_of tiered_scores v)) [''memory'', ''throughput'']) [''A'', ''B'', ''C''] =
   [[''low'', ''low''], [''medium'', ''medium''], [''high'', ''high'']]"
  by code_simp

lemma tiered_compare:
  "compareDimensionValues (\<lambda>r. r) ''high'' ''low'' ''lower_better'' MissingDataPolicyExclude = (-1, Comparable)"
  "compareDimensionValues (\<lambda>r. r) ''high'' ''medium'' ''lower_better'' MissingDataPolicyExclude = (-1, Comparable)"
  "compareDimensionValues (\<lambda>r. r) ''medium'' ''low'' ''lower_better'' MissingDataPolicyExclude = (-1, Comparable)"
  "compareDimensionValues (\<lambda>r. r) ''medium'' ''low'' ''higher_better'' MissingDataPolicyExclude = (1, Comparable)"
  by (simp_all add: word_compare)

lemmas tiered_compare_swapped =
  tiered_compare[THEN trans[OF compareDimensionValues_swap[of "\<lambda>r. r"], OF arg_cong[where f = "\<lambda>cs. case cs of (c, st) \<Rightarrow> (- c, st)"]], simplified]

lemma not_explicit:
  "\<not> isExplicitConstraintViolation (\<lambda>r. r) ''low''" "\<not> isExplicitConstraintViolation (\<lambda>r. r) ''medium''"
  "\<not> isExplicitConstraintViolation (\<lambda>r. r) ''high''"
  by code_simp+

lemmas tiered_eval = eliminateConstraintViolations_def explicit_pass_def relative_pass_def rivals_def out_def
  tiered_dims_def memory_dim_def plain_dim_def tiered_compare tiered_compare_swapped not_explicit example_words(12,13,14) Let_def

lemma tiered_survivors:
  "ce_surviving (eliminateConstraintViolations (\<lambda>r. r) [''C'', ''B'', ''A''] tiered_scores tiered_dims) = [''A'']"
  "ce_surviving (eliminateConstraintViolations (\<lambda>r. r) [''A'', ''B'', ''C''] tiered_scores tiered_dims) = [''A'', ''B'']"
  using tiered_score by (simp_all add: tiered_eval)

lemma tiered_incomparable:
  "\<not> dominates (\<lambda>r. r) tiered_scores tiered_dims MissingDataPolicyExclude ''A'' ''B''"
  "\<not> dominates (\<lambda>r. r) tiered_scores tiered_dims MissingDataPolicyExclude ''B'' ''A''"
  using tiered_score
  by (simp_all add: dominates_def compareVariantPair_def tiered_eval)

text \<open>
  With a constraint the order of the variants decides: the candidates are eliminated one after the
  other, each against those still there, so that listing the worst first also removes the second
  worst.
\<close>

lemma elimination_order_matters:
  "pf_front (computeParetoFront (\<lambda>r. r) [''memory'', ''throughput''] tiered_scores [''C'', ''B'', ''A''] [memory_dim]
     MissingDataPolicyExclude) = [''A'']"
  "pf_front (computeParetoFront (\<lambda>r. r) [''memory'', ''throughput''] tiered_scores [''A'', ''B'', ''C''] [memory_dim]
     MissingDataPolicyExclude) = [''A'', ''B'']"
proof -
  have "tiered_dims \<noteq> []" by (simp add: tiered_dims_def)
  then show
    "pf_front (computeParetoFront (\<lambda>r. r) [''memory'', ''throughput''] tiered_scores [''C'', ''B'', ''A''] [memory_dim]
       MissingDataPolicyExclude) = [''A'']"
    "pf_front (computeParetoFront (\<lambda>r. r) [''memory'', ''throughput''] tiered_scores [''A'', ''B'', ''C''] [memory_dim]
       MissingDataPolicyExclude) = [''A'', ''B'']"
    using tiered_incomparable
    by (simp_all add: front_unfold Let_def tiered_specs contenders_def tiered_survivors)
qed

text \<open>When every variant says itself that it violates the constraint, all of them are in the front.\<close>

definition violating_scores :: score_table where
  "violating_scores = [(''A'', [(''memory'', ''fail'')]), (''B'', [(''memory'', ''violated'')])]"

lemma violating_words:
  "isExplicitConstraintViolation (\<lambda>r. r) ''fail''" "isExplicitConstraintViolation (\<lambda>r. r) ''violated''"
  "parseComparableScore (\<lambda>r. r) ''fail'' = None" "parseComparableScore (\<lambda>r. r) ''violated'' = None"
  "normalizeArtifactKey (\<lambda>r. r) ''fail'' \<noteq> normalizeArtifactKey (\<lambda>r. r) ''violated''"
  "trim_space ''fail'' = ''fail''" "trim_space ''violated'' = ''violated''"
  "\<not> isMissingScore ''fail''" "\<not> isMissingScore ''violated''"
  "map (\<lambda>v. scoreForDimension (\<lambda>r. r) (map_of violating_scores v) ''memory'') [''A'', ''B''] = [''fail'', ''violated'']"
  by code_simp+

lemma violators_in_the_front:
  "pf_front (computeParetoFront (\<lambda>r. r) [''memory''] violating_scores [''A'', ''B''] [memory_dim]
     MissingDataPolicyExplicitAbstain) = [''A'', ''B'']"
proof -
  have specs: "fst (effectiveDominanceDimensions (\<lambda>r. r) [''memory''] [memory_dim]) = [memory_dim]"
    using tiered_polarity
    by (simp add: effectiveDominanceDimensions_def dominance_spec_def characterized_as_def memory_dim_def Let_def)
  have score: "scoreForDimension (\<lambda>r. r) (map_of violating_scores ''A'') ''memory'' = ''fail''"
    "scoreForDimension (\<lambda>r. r) (map_of violating_scores ''B'') ''memory'' = ''violated''"
    using violating_words(10) by simp_all
  have all: "contenders (\<lambda>r. r) violating_scores [memory_dim] [''A'', ''B''] = [''A'', ''B'']"
  proof -
    have "\<exists>r1 r2. explicit_pass (\<lambda>r. r) violating_scores [''A'', ''B''] [memory_dim] = [(''A'', r1), (''B'', r2)]"
      by (simp add: explicit_pass_def memory_dim_def out_def Let_def score violating_words(1,2))
    then obtain r1 r2 where
      pass: "explicit_pass (\<lambda>r. r) violating_scores [''A'', ''B''] [memory_dim] = [(''A'', r1), (''B'', r2)]" by blast
    have "cd_Role memory_dim = ''constraint''" by (simp add: memory_dim_def)
    then show ?thesis
      by (simp add: contenders_def eliminateConstraintViolations_def pass relative_pass_def out_def)
  qed
  have "read_both (\<lambda>r. r) x y = None" if "x \<in> {''fail'', ''violated''}" for x y
    using that violating_words(3,4) by (auto simp: read_both_def split: option.split)
  then have "\<not> better (\<lambda>r. r) MissingDataPolicyExplicitAbstain p x y" if "x \<in> {''fail'', ''violated''}" for p x y
    using that violating_words(6,7) by (auto simp: better_def readings_def)
  then have "\<not> dominates (\<lambda>r. r) violating_scores [memory_dim] MissingDataPolicyExplicitAbstain w v"
    if "w \<in> {''A'', ''B''}" for w v
    using that score by (auto simp: dominates_iff outranks_def Let_def memory_dim_def)
  then show ?thesis by (simp add: front_unfold Let_def specs all)
qed

text \<open>
  The pattern of a number takes the \<open>m\<close> of \<open>ms\<close> for a million, so half a second counts as longer than
  two seconds.
\<close>

lemma milliseconds_misread:
  "parseNumericScore (\<lambda>r. r) ''500ms'' = Some (500000000, ''s'')"
  "compareDimensionValues (\<lambda>r. r) ''500ms'' ''2s'' ''lower_better'' MissingDataPolicyExplicitAbstain = (-1, Comparable)"
proof -
  have groups: "numeric_groups ''500ms'' = Some ([], ''500'', ''m'', ''s'')"
    "numeric_groups ''2s'' = Some ([], ''2'', [], ''s'')" by code_simp+
  have whole: "is_double 500" "is_double 2" "is_double 500000000" "is_double (- 499999998)"
    using is_double_of_int[of 500] is_double_of_int[of 2] is_double_of_int[of 500000000]
      is_double_of_int[of 499999998] is_double_uminus[of 499999998] by simp_all
  have digits: "remove_byte (CHR '','') ''500'' = ''500''" "remove_byte (CHR '','') ''2'' = ''2''"
    "decimal_value ''500'' = 500" "decimal_value ''2'' = 2" by code_simp+
  then have number: "parse_float ''500'' = Some 500" "parse_float ''2'' = Some 2"
    using whole by (simp_all add: parse_float_def Let_def round_double_id)
  have factor: "score_multiplier ''m'' = 1000000" "score_multiplier [] = 1" by code_simp+
  have unit: "normalizeNumericUnit (\<lambda>r. r) ''s'' = ''s''" by code_simp
  show ms: "parseNumericScore (\<lambda>r. r) ''500ms'' = Some (500000000, ''s'')"
    using number unit whole by (simp add: parseNumericScore_def groups digits factor round_double_id)
  have s: "parseComparableScore (\<lambda>r. r) ''2s'' = Some (ScoreNumeric 2 ''s'')"
    using number unit whole
    by (simp add: parseComparableScore_def parseNumericScore_def groups digits factor round_double_id)
  have order: "compareParsedScores (ScoreNumeric 500000000 ''s'') (ScoreNumeric 2 ''s'') ''lower_better'' = Some (- 1)"
  proof -
    have "score_epsilon \<le> 1"
      unfolding score_epsilon_def by (rule round_double_le) simp_all
    then have "compareOrderedValues 500000000 2 = 1"
      using whole is_double_of_int[of 499999998] by (simp add: compareOrderedValues_def round_double_id)
    then show ?thesis by (simp add: orientComparison_def plain_char_def)
  qed
  have keys: "trim_space ''500ms'' = ''500ms''" "trim_space ''2s'' = ''2s''"
    "normalizeArtifactKey (\<lambda>r. r) ''500ms'' = ''500ms''" "normalizeArtifactKey (\<lambda>r. r) ''2s'' = ''2s''"
    "\<not> isMissingScore ''500ms''" "\<not> isMissingScore ''2s''" by code_simp+
  have "parseComparableScore (\<lambda>r. r) ''500ms'' = Some (ScoreNumeric 500000000 ''s'')"
    by (simp add: parseComparableScore_def ms)
  with s order show "compareDimensionValues (\<lambda>r. r) ''500ms'' ''2s'' ''lower_better''
      MissingDataPolicyExplicitAbstain = (-1, Comparable)"
    by (simp add: compareDimensionValues_def keys compare_present_def Let_def)
qed

theorem front_order_free_witness:
  "mset (pf_front (computeParetoFront (\<lambda>r. r) [''speed'', ''coverage'', ''accuracy''] cyclic_scores
       [''A'', ''B'', ''C''] [] MissingDataPolicyExplicitAbstain)) =
   mset (pf_front (computeParetoFront (\<lambda>r. r) [''speed'', ''coverage'', ''accuracy''] cyclic_scores
       [''C'', ''B'', ''A''] [] MissingDataPolicyExplicitAbstain))"
  by (rule front_order_free) (simp_all add: cyclic_specs cyclic_dims_def plain_dim_def)

end
