(* ===== verification/ValidUntil.thy ===== *)
theory ValidUntil
  imports GoTime GoText FloatLaws
begin

text \<open>
  Dates of validity (\<open>internal/reff/reff.go\<close>): the layouts \<open>ParseValidUntil\<close> tries, and the epistemic
  debt that grows with every day after such a date. \<open>time.Parse\<close> reads the layouts as the library
  does: blanks of a layout match any number of blanks, the seconds may carry a fraction whether the
  layout has one or not, and the name of a zone only has to look like one, except that UTC wins over
  the offset before it. The results are instants in UTC.
\<close>

section \<open>The layouts\<close>

definition skip_blanks :: "string \<Rightarrow> string option" where
  "skip_blanks s =
     (case s of [] \<Rightarrow> Some []
      | c # t \<Rightarrow> if c = CHR '' '' then Some (dropWhile (\<lambda>c. c = CHR '' '') s) else None)"

text \<open>\<open>-0700\<close>.\<close>

definition get_offset :: "string \<Rightarrow> (int \<times> string) option" where
  "get_offset s =
     (case s of
        sign # h1 # h2 # m1 # m2 # t \<Rightarrow>
          if is_digit h1 \<and> is_digit h2 \<and> is_digit m1 \<and> is_digit m2 \<and> (sign = CHR ''+'' \<or> sign = CHR ''-'')
          then (let hr = 10 * digit_val h1 + digit_val h2; mm = 10 * digit_val m1 + digit_val m2;
                    off = (hr * 60 + mm) * 60
                in if hr > 24 \<or> mm > 60 then None
                   else Some (if sign = CHR ''-'' then - off else off, t))
          else None
      | _ \<Rightarrow> None)"

text \<open>The length of a signed hour like \<open>+03\<close> at the start of a text; 0 when there is none.\<close>

definition signed_offset :: "string \<Rightarrow> nat" where
  "signed_offset s =
     (case s of
        [] \<Rightarrow> 0
      | sign # t \<Rightarrow>
          if sign \<noteq> CHR ''+'' \<and> sign \<noteq> CHR ''-'' then 0
          else (case leading_int 0 t of
              None \<Rightarrow> 0
            | Some (x, rest) \<Rightarrow> if length rest = length t \<or> x > 23 then 0 else length s - length rest))"

definition is_upper :: "char \<Rightarrow> bool" where
  "is_upper c \<longleftrightarrow> byte_in 65 90 c"

definition zone_name :: "string \<Rightarrow> nat option" where
  "zone_name s =
     (if length s < 3 then None
      else if take 4 s = ''ChST'' \<or> take 4 s = ''MeST'' then Some 4
      else if take 3 s = ''GMT'' then Some (3 + signed_offset (drop 3 s))
      else if hd s = CHR ''+'' \<or> hd s = CHR ''-'' then
        (let n = signed_offset s in if n > 0 then Some n else None)
      else (let upper = length (takeWhile is_upper (take 6 s))
            in if upper = 5 then (if s ! 4 = CHR ''T'' then Some 5 else None)
               else if upper = 4 then (if s ! 3 = CHR ''T'' \<or> take 4 s = ''WITA'' then Some 4 else None)
               else if upper = 3 then Some 3
               else None))"

text \<open>\<open>MST\<close>: whether the name is UTC, and the rest.\<close>

definition get_abbreviation :: "string \<Rightarrow> (bool \<times> string) option" where
  "get_abbreviation s =
     (if take 3 s = ''UTC'' then Some (True, drop 3 s)
      else map_option (\<lambda>n. (False, drop n s)) (zone_name s))"

text \<open>\<open>2006-01-02 15:04:05\<close>, with or without a fraction.\<close>

definition parse_stamp :: "string \<Rightarrow> ((int \<times> int \<times> int) \<times> (int \<times> int \<times> int) \<times> int \<times> string) option" where
  "parse_stamp s0 =
     Option.bind (parse_date s0) (\<lambda>(date, s1). Option.bind (skip_blanks s1) (\<lambda>s2.
     Option.bind (parse_clock s2) (\<lambda>(clock, s3).
       (case get_fraction s3 of (ns, s4) \<Rightarrow> Some (date, clock, ns, s4)))))"

definition stamp_time :: "(int \<times> int \<times> int) \<times> (int \<times> int \<times> int) \<times> int \<Rightarrow> int \<Rightarrow> Time option" where
  "stamp_time stamp off =
     (case stamp of ((y, m, d), (hh, mm, ss), ns) \<Rightarrow> make_time y m d hh mm ss ns off)"

definition parse_zoned_name :: "string \<Rightarrow> Time option" where
  "parse_zoned_name s =
     Option.bind (parse_stamp s) (\<lambda>(date, clock, ns, s1). Option.bind (skip_blanks s1) (\<lambda>s2.
     Option.bind (get_offset s2) (\<lambda>(off, s3). Option.bind (skip_blanks s3) (\<lambda>s4.
     Option.bind (get_abbreviation s4) (\<lambda>(utc, s5).
       if s5 = [] then stamp_time (date, clock, ns) (if utc then 0 else off) else None)))))"

definition parse_zoned :: "string \<Rightarrow> Time option" where
  "parse_zoned s =
     Option.bind (parse_stamp s) (\<lambda>(date, clock, ns, s1). Option.bind (skip_blanks s1) (\<lambda>s2.
     Option.bind (get_offset s2) (\<lambda>(off, s3).
       if s3 = [] then stamp_time (date, clock, ns) off else None)))"

definition parse_plain :: "string \<Rightarrow> Time option" where
  "parse_plain s =
     Option.bind (parse_stamp s) (\<lambda>(date, clock, ns, s1).
       if s1 = [] then stamp_time (date, clock, ns) 0 else None)"

definition parse_day :: "string \<Rightarrow> Time option" where
  "parse_day s =
     Option.bind (parse_date s) (\<lambda>((y, m, d), s1).
       if s1 = [] then make_time y m d 23 59 59 0 0 else None)"

text \<open>The position of the first occurrence of a text.\<close>

fun index_of :: "string \<Rightarrow> string \<Rightarrow> nat option" where
  "index_of pat [] = (if pat = [] then Some 0 else None)"
| "index_of pat (c # s) = (if prefix pat (c # s) then Some 0 else map_option Suc (index_of pat s))"

lemma index_of_less: "index_of pat s = Some i \<Longrightarrow> pat \<noteq> [] \<Longrightarrow> i < length s"
  by (induction s arbitrary: i) (auto split: if_splits)

definition utc :: "Time \<Rightarrow> Time" where
  "utc t = t\<lparr>tm_off := 0\<rparr>"

text \<open>
  RFC3339 and RFC3339Nano accept the same texts, as do the layouts that differ only in the
  fraction. A date alone is valid to the end of its day. The rendering of a monotonic clock reading
  is cut off and the rest read again.
\<close>

definition first_layout :: "string \<Rightarrow> Time option" where
  "first_layout trimmed =
     (case parse_rfc3339 trimmed of Some t \<Rightarrow> Some t
      | None \<Rightarrow> (case parse_zoned_name trimmed of Some t \<Rightarrow> Some t
      | None \<Rightarrow> (case parse_zoned trimmed of Some t \<Rightarrow> Some t
      | None \<Rightarrow> parse_plain trimmed)))"

function ParseValidUntil :: "string \<Rightarrow> Time option" where
  "ParseValidUntil raw =
     (let trimmed = trim_space raw
      in if trimmed = [] then None
         else (case first_layout trimmed of
             Some t \<Rightarrow> Some (utc t)
           | None \<Rightarrow> (case parse_day trimmed of
               Some t \<Rightarrow> Some t
             | None \<Rightarrow> (case index_of '' m='' trimmed of
                 Some monotonic \<Rightarrow> ParseValidUntil (take monotonic trimmed)
               | None \<Rightarrow> None))))"
  by pat_completeness auto
termination
proof (relation "measure length")
  fix raw trimmed monotonic
  assume "trimmed = trim_space raw" "index_of '' m='' trimmed = Some monotonic"
  then have "monotonic < length trimmed" "length trimmed \<le> length raw"
    using index_of_less length_trim_space by (blast, simp)
  then show "(take monotonic trimmed, raw) \<in> measure length" by simp
qed simp

declare ParseValidUntil.simps [simp del]

section \<open>Epistemic debt\<close>

definition zero_time :: Time where
  "zero_time = \<lparr>tm_sec = - 62135596800, tm_nsec = 0, tm_off = 0\<rparr>"

definition IsZero :: "Time \<Rightarrow> bool" where
  "IsZero t \<longleftrightarrow> unix_nano t = unix_nano zero_time"

text \<open>\<open>Duration.Hours\<close>; Go divides towards zero.\<close>

definition duration_hours :: "int \<Rightarrow> rat" where
  "duration_hours d =
     round_double (of_int (sgn d * (\<bar>d\<bar> div nano_hour))
       + round_double (of_int (sgn d * (\<bar>d\<bar> mod nano_hour)) / of_int nano_hour))"

definition ComputeED :: "Time \<Rightarrow> Time \<Rightarrow> rat \<Rightarrow> rat" where
  "ComputeED validUntil now k0 =
     (if IsZero validUntil then 0
      else if Before now validUntil \<or> unix_nano now = unix_nano validUntil then 0
      else (let k = (if k0 \<le> 0 then 1 else k0);
                daysExpired = round_double (duration_hours (Sub now validUntil) / 24)
            in round_double (k * max 0 daysExpired)))"

record EDItem =
  ed_ValidUntil :: Time
  ed_Now :: Time
  ed_K :: rat

definition AggregateED :: "EDItem list \<Rightarrow> rat" where
  "AggregateED items =
     fold (\<lambda>item total. round_double (total + ComputeED (ed_ValidUntil item) (ed_Now item) (ed_K item))) items 0"

record EDBudgetAlert =
  al_TotalED :: rat
  al_Budget :: rat
  al_Excess :: rat

definition CheckEDBudget :: "rat \<Rightarrow> rat \<Rightarrow> EDBudgetAlert option" where
  "CheckEDBudget totalED budget0 =
     (let budget = (if budget0 < 0 then 0 else budget0)
      in if totalED \<le> budget then None
         else Some \<lparr>al_TotalED = totalED, al_Budget = budget, al_Excess = round_double (totalED - budget)\<rparr>)"

section \<open>Laws\<close>

lemma duration_hours_eq:
  "0 \<le> d \<Longrightarrow> duration_hours d =
     round_double (of_int (d div nano_hour) + round_double (of_int (d mod nano_hour) / of_int nano_hour))"
  by (cases "d = 0") (simp_all add: duration_hours_def sgn_if)

lemma duration_hours_mono:
  assumes "0 \<le> d" "d \<le> e"
  shows "duration_hours d \<le> duration_hours e"
proof (cases "d div nano_hour = e div nano_hour")
  case True
  have "nano_hour * (e div nano_hour) + d mod nano_hour = d"
    using mult_div_mod_eq[of nano_hour d] unfolding True .
  then have "d mod nano_hour \<le> e mod nano_hour"
    using assms(2) mult_div_mod_eq[of nano_hour e] by linarith
  then have "round_double (of_int (d mod nano_hour) / of_int nano_hour)
      \<le> round_double (of_int (e mod nano_hour) / of_int nano_hour)"
    by (intro round_double_mono divide_right_mono) (simp_all add: nano_hour_def)
  then show ?thesis
    using assms True by (simp add: duration_hours_eq round_double_mono)
next
  case False
  then have less: "d div nano_hour + 1 \<le> e div nano_hour"
    using zdiv_mono1[OF assms(2), of nano_hour] by (simp add: nano_hour_def)
  have "of_int (d mod nano_hour) / of_int nano_hour \<le> (1 :: rat)"
    using rat_le[of "d mod nano_hour" nano_hour] pos_mod_bound[of nano_hour d] by (simp add: nano_hour_def)
  then have "round_double (of_int (d mod nano_hour) / of_int nano_hour) \<le> 1"
    by (intro round_double_le) simp_all
  moreover have "0 \<le> round_double (of_int (e mod nano_hour) / of_int nano_hour)"
    by (intro round_double_nonneg divide_nonneg_nonneg) (simp_all add: nano_hour_def)
  moreover have "(of_int (d div nano_hour) + 1 :: rat) \<le> of_int (e div nano_hour)"
    using less of_int_le_iff[of "d div nano_hour + 1", where ?'a = rat] by simp
  ultimately have "of_int (d div nano_hour) + round_double (of_int (d mod nano_hour) / of_int nano_hour)
      \<le> of_int (e div nano_hour) + round_double (of_int (e mod nano_hour) / of_int nano_hour)" by linarith
  then show ?thesis using assms by (simp add: duration_hours_eq round_double_mono)
qed

lemma duration_hours_nonneg: "0 \<le> d \<Longrightarrow> 0 \<le> duration_hours d"
  using duration_hours_mono[of 0 d] by (simp add: duration_hours_def)

lemma ComputeED_nonneg: "0 \<le> ComputeED validUntil now k"
  by (auto simp: ComputeED_def Let_def intro!: round_double_nonneg)

text \<open>Debt only grows as time passes.\<close>

lemma ComputeED_mono:
  assumes "unix_nano t \<le> unix_nano u"
  shows "ComputeED validUntil t k \<le> ComputeED validUntil u k"
proof (cases "IsZero validUntil \<or> unix_nano t \<le> unix_nano validUntil")
  case True
  then show ?thesis using ComputeED_nonneg[of validUntil u k] by (auto simp: ComputeED_def Before_def)
next
  case False
  then have "0 \<le> Sub t validUntil" "Sub t validUntil \<le> Sub u validUntil"
    using assms by (auto simp: Sub_def min_duration_def max_duration_def)
  then have "round_double (duration_hours (Sub t validUntil) / 24)
      \<le> round_double (duration_hours (Sub u validUntil) / 24)"
    by (intro round_double_mono divide_right_mono duration_hours_mono) simp_all
  then show ?thesis
    using False assms by (auto simp: ComputeED_def Before_def Let_def intro!: round_double_mono mult_left_mono max.mono)
qed

end
