(* ===== verification/EvidenceScore.thy ===== *)
theory EvidenceScore
  imports ValidUntil
begin

text \<open>
  The score of one evidence item (\<open>internal/reff/reff.go\<close>) and the weakest-link assurance of claims and
  decisions (\<open>internal/reff/assurance.go\<close>). Every float operation of the code is rounded here as it
  is there. The clock is the argument \<open>now\<close>; \<open>uni\<close> is the lower case of code points beyond ASCII.
\<close>

section \<open>Scores\<close>

definition word_key :: "(nat \<Rightarrow> nat) \<Rightarrow> string \<Rightarrow> string" where
  "word_key uni s = ToLower uni (trim_space s)"

definition VerdictToScore :: "(nat \<Rightarrow> nat) \<Rightarrow> string \<Rightarrow> rat" where
  "VerdictToScore uni verdict =
     (let v = word_key uni verdict
      in if v \<in> {''supports'', ''accepted'', ''pass''} then 1
         else if v \<in> {''weakens'', ''partial'', ''degrade''} then 1 / 2
         else if v \<in> {''refutes'', ''failed'', ''fail''} then 0
         else 1 / 2)"

definition attachedVerdictScore :: "(nat \<Rightarrow> nat) \<Rightarrow> string \<Rightarrow> rat" where
  "attachedVerdictScore uni verdict =
     (if word_key uni verdict \<in> {''refutes'', ''failed'', ''fail''} then 0 else round_double (7 / 10))"

definition TypedVerdictToScore :: "(nat \<Rightarrow> nat) \<Rightarrow> string \<Rightarrow> string \<Rightarrow> rat" where
  "TypedVerdictToScore uni evidenceType verdict =
     (let t = word_key uni evidenceType
      in if t = ''explicit_measure'' then round_double (8 / 10)
         else if t = ''partial_measure'' then 1 / 2
         else if t = ''attached'' then attachedVerdictScore uni verdict
         else VerdictToScore uni verdict)"

definition CLPenalty :: "int \<Rightarrow> rat" where
  "CLPenalty cl =
     (if cl = 3 then 0 else if cl = 2 then round_double (1 / 10)
      else if cl = 1 then round_double (4 / 10) else round_double (9 / 10))"

text \<open>\<open>math.Round\<close>: half away from zero.\<close>

definition math_round :: "rat \<Rightarrow> int" where
  "math_round x = (if x < 0 then - \<lfloor>- x + 1 / 2\<rfloor> else \<lfloor>x + 1 / 2\<rfloor>)"

definition round_hundredths :: "rat \<Rightarrow> rat" where
  "round_hundredths score = round_double (of_int (math_round (round_double (score * 100))) / 100)"

definition ScoreTypedEvidence :: "(nat \<Rightarrow> nat) \<Rightarrow> string \<Rightarrow> string \<Rightarrow> int \<Rightarrow> string \<Rightarrow> Time \<Rightarrow> rat" where
  "ScoreTypedEvidence uni evidenceType verdict cl validUntil now =
     (if (case ParseValidUntil validUntil of Some expiry \<Rightarrow> Before expiry now | None \<Rightarrow> False)
      then round_double (1 / 10)
      else (let base = TypedVerdictToScore uni evidenceType verdict;
                penalty = CLPenalty cl;
                score = max 0 (round_double (base - penalty))
            in round_hundredths score))"

definition ScoreEvidence :: "(nat \<Rightarrow> nat) \<Rightarrow> string \<Rightarrow> int \<Rightarrow> string \<Rightarrow> Time \<Rightarrow> rat" where
  "ScoreEvidence uni verdict cl validUntil now = ScoreTypedEvidence uni [] verdict cl validUntil now"

definition normalizeCausalReffKey :: "(nat \<Rightarrow> nat) \<Rightarrow> string \<Rightarrow> string" where
  "normalizeCausalReffKey uni raw =
     remove_byte (CHR '' '') (remove_byte (CHR ''-'') (remove_byte (CHR ''_'') (word_key uni raw)))"

definition causalBasisCaps :: "(nat \<Rightarrow> nat) \<Rightarrow> string \<Rightarrow> bool" where
  "causalBasisCaps uni raw \<longleftrightarrow>
     normalizeCausalReffKey uni raw \<in> {''simulationonlycounterfactualoutputbasis'',
       ''simulationonlycounterfactualoutput'', ''simulationonly'', ''simulation''}"

definition realizabilityCaps :: "(nat \<Rightarrow> nat) \<Rightarrow> string \<Rightarrow> bool" where
  "realizabilityCaps uni raw \<longleftrightarrow>
     normalizeCausalReffKey uni raw \<in> {''nonrealizable'', ''notrealizable'', ''unrealizable''}"

definition ScoreEvidenceWithCausalBasis ::
  "(nat \<Rightarrow> nat) \<Rightarrow> string \<Rightarrow> string \<Rightarrow> int \<Rightarrow> string \<Rightarrow> string \<Rightarrow> string \<Rightarrow> Time \<Rightarrow> rat"
where
  "ScoreEvidenceWithCausalBasis uni evidenceType verdict cl basis realizability validUntil now =
     (let base = ScoreTypedEvidence uni evidenceType verdict cl validUntil now
      in if base \<le> 1 / 2 then base
         else if causalBasisCaps uni basis \<or> realizabilityCaps uni realizability then 1 / 2
         else base)"

section \<open>Assurance of claims and decisions\<close>

record Evidence =
  ev_ClaimRefs :: "string list"
  ev_Type :: string
  ev_Verdict :: string
  ev_CongruenceLevel :: int
  ev_FormalityLevel :: int
  ev_HasFormality :: bool
  ev_ValidUntil :: string
  ev_CausalSupportBasis :: string
  ev_ClaimRealizability :: string

record ClaimAssurance =
  ca_ClaimRef :: string
  ca_EvidenceCount :: nat
  ca_HasEvidence :: bool
  ca_FEff :: int
  ca_GEff :: int
  ca_REff :: rat

record DecisionAssurance =
  da_Claims :: "ClaimAssurance list"
  da_HasEvidence :: bool
  da_FEff :: int
  da_GEff :: int
  da_REff :: rat

definition CanonicalVerdict :: "(nat \<Rightarrow> nat) \<Rightarrow> string \<Rightarrow> string" where
  "CanonicalVerdict uni verdict =
     (let v = word_key uni verdict
      in if v \<in> {''supports'', ''accepted'', ''pass''} then ''supports''
         else if v \<in> {''weakens'', ''partial'', ''degrade''} then ''weakens''
         else if v \<in> {''refutes'', ''failed'', ''fail''} then ''refutes''
         else if v = ''superseded'' then ''superseded''
         else ''weakens'')"

definition NormalizeFormalityLevel :: "int \<Rightarrow> int" where
  "NormalizeFormalityLevel level =
     (if level < 0 then 0 else if level \<le> 3 then level else if level \<le> 5 then 1
      else if level \<le> 8 then 2 else 3)"

definition GroundednessFromCL :: "int \<Rightarrow> int" where
  "GroundednessFromCL cl = (if cl \<in> {3, 2, 1, 0} then cl else 0)"

definition inferFormalityFromType :: "(nat \<Rightarrow> nat) \<Rightarrow> string \<Rightarrow> int" where
  "inferFormalityFromType uni evidenceType =
     (let t = word_key uni evidenceType
      in if t \<in> {''formal_proof'', ''proof'', ''proof_grade''} then 3
         else if t \<in> {''test_result'', ''test'', ''measurement'', ''explicit_measure'', ''partial_measure'',
                      ''benchmark'', ''audit''} then 2
         else if t \<in> {''anecdote'', ''obs_no_verify''} then 0
         else if t \<in> {''documentation'', ''expert_opinion'', ''cross_project'', ''research'', ''code_review'',
                      ''user_feedback'', ''attached'', ''observation'', ''obs_file_review'', ''obs_external''} then 1
         else if t \<in> {''obs_test_pass'', ''obs_lint_pass''} then 2
         else 1)"

definition DeriveFormality :: "(nat \<Rightarrow> nat) \<Rightarrow> Evidence \<Rightarrow> int" where
  "DeriveFormality uni item =
     (if ev_HasFormality item then NormalizeFormalityLevel (ev_FormalityLevel item)
      else inferFormalityFromType uni (ev_Type item))"

definition ValidateEvidence :: "(nat \<Rightarrow> nat) \<Rightarrow> Evidence \<Rightarrow> unit result" where
  "ValidateEvidence uni item =
     (if CanonicalVerdict uni (ev_Verdict item) \<noteq> ''supports'' \<or> GroundednessFromCL (ev_CongruenceLevel item) \<noteq> 0
      then Inr () else Inl ''CL0 evidence cannot support'')"

definition filterActiveEvidence :: "(nat \<Rightarrow> nat) \<Rightarrow> Evidence list \<Rightarrow> Evidence list" where
  "filterActiveEvidence uni items = filter (\<lambda>item. CanonicalVerdict uni (ev_Verdict item) \<noteq> ''superseded'') items"

definition containsClaimRef :: "string list \<Rightarrow> string \<Rightarrow> bool" where
  "containsClaimRef refs want = list_ex (\<lambda>ref. trim_space ref = want) refs"

definition filterClaimEvidence :: "Evidence list \<Rightarrow> string \<Rightarrow> Evidence list" where
  "filterClaimEvidence items claimRef = filter (\<lambda>item. containsClaimRef (ev_ClaimRefs item) claimRef) items"

definition normalizeClaimRefs :: "string list \<Rightarrow> string list" where
  "normalizeClaimRefs refs = dedup_from {} (filter (\<lambda>r. r \<noteq> []) (map trim_space refs))"

definition evidence_reliability :: "(nat \<Rightarrow> nat) \<Rightarrow> Time \<Rightarrow> Evidence \<Rightarrow> rat" where
  "evidence_reliability uni now item =
     ScoreEvidenceWithCausalBasis uni (ev_Type item) (ev_Verdict item) (ev_CongruenceLevel item)
       (ev_CausalSupportBasis item) (ev_ClaimRealizability item) (ev_ValidUntil item) now"

fun claim_items :: "(nat \<Rightarrow> nat) \<Rightarrow> Time \<Rightarrow> Evidence list \<Rightarrow> ClaimAssurance \<Rightarrow> ClaimAssurance result" where
  "claim_items uni now [] result = Inr result"
| "claim_items uni now (item # items) result =
     (case ValidateEvidence uni item of
        Inl err \<Rightarrow> Inl err
      | Inr _ \<Rightarrow> claim_items uni now items
          (result\<lparr>ca_FEff := min (ca_FEff result) (DeriveFormality uni item),
                  ca_GEff := min (ca_GEff result) (GroundednessFromCL (ev_CongruenceLevel item)),
                  ca_REff := min (ca_REff result) (evidence_reliability uni now item)\<rparr>))"

definition ComputeClaimAssurance ::
  "(nat \<Rightarrow> nat) \<Rightarrow> string \<Rightarrow> Evidence list \<Rightarrow> Time \<Rightarrow> ClaimAssurance result"
where
  "ComputeClaimAssurance uni claimRef items now =
     (if items = []
      then Inr \<lparr>ca_ClaimRef = claimRef, ca_EvidenceCount = 0, ca_HasEvidence = False,
                ca_FEff = 0, ca_GEff = 0, ca_REff = 0\<rparr>
      else claim_items uni now items
             \<lparr>ca_ClaimRef = claimRef, ca_EvidenceCount = length items, ca_HasEvidence = True,
              ca_FEff = 3, ca_GEff = 3, ca_REff = 1\<rparr>)"

fun decision_claims ::
  "(nat \<Rightarrow> nat) \<Rightarrow> Time \<Rightarrow> Evidence list \<Rightarrow> string list \<Rightarrow> DecisionAssurance \<Rightarrow> DecisionAssurance result"
where
  "decision_claims uni now activeItems [] result = Inr result"
| "decision_claims uni now activeItems (claimRef # claimRefs) result =
     (case ComputeClaimAssurance uni claimRef (filterClaimEvidence activeItems claimRef) now of
        Inl err \<Rightarrow> Inl err
      | Inr claim \<Rightarrow> decision_claims uni now activeItems claimRefs
          \<lparr>da_Claims = da_Claims result @ [claim],
           da_HasEvidence = (da_HasEvidence result \<or> ca_HasEvidence claim),
           da_FEff = min (da_FEff result) (ca_FEff claim),
           da_GEff = min (da_GEff result) (ca_GEff claim),
           da_REff = min (da_REff result) (ca_REff claim)\<rparr>)"

definition ComputeDecisionAssurance ::
  "(nat \<Rightarrow> nat) \<Rightarrow> string list \<Rightarrow> Evidence list \<Rightarrow> Time \<Rightarrow> DecisionAssurance result"
where
  "ComputeDecisionAssurance uni claimRefs items now =
     (let activeItems = filterActiveEvidence uni items;
          normalizedClaims = normalizeClaimRefs claimRefs
      in if normalizedClaims = [] then
           (case ComputeClaimAssurance uni [] activeItems now of
              Inl err \<Rightarrow> Inl err
            | Inr claim \<Rightarrow> Inr \<lparr>da_Claims = [], da_HasEvidence = ca_HasEvidence claim,
                               da_FEff = ca_FEff claim, da_GEff = ca_GEff claim, da_REff = ca_REff claim\<rparr>)
         else decision_claims uni now activeItems normalizedClaims
                \<lparr>da_Claims = [], da_HasEvidence = False, da_FEff = 3, da_GEff = 3, da_REff = 1\<rparr>)"

end
