(* ===== verification/EvidenceLaws.thy ===== *)
theory EvidenceLaws
  imports EvidenceScore
begin

text \<open>
  What the scores are: each is the exact number of hundredths the tables give, between 0 and 1, and
  the assurance of a claim or a decision is the score of its weakest evidence.
\<close>

section \<open>The error of rounding\<close>

lemma round_half_even_error: "\<bar>of_int (round_half_even r) - r\<bar> \<le> 1 / 2"
proof -
  define d where "d = r - of_int \<lfloor>r\<rfloor>"
  have "0 \<le> d" "d < 1" unfolding d_def by linarith+
  then show ?thesis by (auto simp: round_half_even_def Let_def d_def[symmetric]) (simp_all add: d_def)
qed

lemma round_double_error_pos:
  assumes "0 < x" "x < 2 ^ 53 * pow2 e" "- 1074 \<le> e"
  shows "\<bar>round_double x - x\<bar> \<le> pow2 e / 2"
proof -
  define p where "p = double_place x"
  have "p \<le> e" unfolding p_def using assms by (intro double_place_least)
  have "round_double x - x = (of_int (round_half_even (x / pow2 p)) - x / pow2 p) * pow2 p"
    unfolding round_double_pos[OF assms(1)] p_def[symmetric] by (simp add: left_diff_distrib)
  then have "\<bar>round_double x - x\<bar> = \<bar>of_int (round_half_even (x / pow2 p)) - x / pow2 p\<bar> * pow2 p"
    by (simp add: abs_mult)
  also have "\<dots> \<le> 1 / 2 * pow2 p" by (intro mult_right_mono round_half_even_error) simp
  also have "\<dots> \<le> pow2 e / 2" using pow2_mono[OF \<open>p \<le> e\<close>] by simp
  finally show ?thesis .
qed

lemma round_double_error:
  assumes "0 \<le> x" "x < 2 ^ 53 * pow2 e" "- 1074 \<le> e"
  shows "\<bar>round_double x - x\<bar> \<le> pow2 e / 2"
  using round_double_error_pos[OF _ assms(2,3)] assms(1) by (cases "x = 0") simp_all

definition ulp :: rat where
  "ulp = 1 / 2 ^ 53"

lemma ulp_small: "0 < ulp" "ulp \<le> 1 / 1000000"
  by (simp_all add: ulp_def)

lemma unit_error: "0 \<le> x \<Longrightarrow> x \<le> 1 \<Longrightarrow> \<bar>round_double x - x\<bar> \<le> ulp"
  using round_double_error[of x "- 52"] by (simp add: pow2_def ulp_def)

lemma unit_error_abs: "\<bar>x\<bar> \<le> 1 \<Longrightarrow> \<bar>round_double x - x\<bar> \<le> ulp"
  using unit_error[of x] unit_error[of "- x"]
  by (cases "0 \<le> x") (auto simp: round_double_uminus abs_minus_commute)

section \<open>Scores in hundredths\<close>

definition hundredths :: "int \<Rightarrow> rat" where
  "hundredths n = round_double (of_int n / 100)"

lemma math_round_near: "\<bar>x - of_int n\<bar> < 1 / 2 \<Longrightarrow> 0 \<le> x \<Longrightarrow> math_round x = n"
  by (simp add: math_round_def floor_eq_iff abs_if split: if_splits)

lemma max_lipschitz: "\<bar>max 0 x - max 0 y\<bar> \<le> \<bar>x - y\<bar>" for x y :: rat
  by (simp add: max_def abs_if)

text \<open>The code's difference of two hundredths, rounded to hundredths, is their exact difference.\<close>

lemma hundredths_diff:
  assumes "0 \<le> b" "b \<le> 100" "0 \<le> p" "p \<le> 100"
  shows "round_hundredths (max 0 (round_double (hundredths b - hundredths p))) = hundredths (max 0 (b - p))"
proof -
  define s where "s = round_double (hundredths b - hundredths p)"
  define m where "m = max 0 s"
  define n where "n = max 0 (b - p)"
  have range: "0 \<le> (of_int b :: rat) / 100" "(of_int b :: rat) / 100 \<le> 1" "0 \<le> (of_int p :: rat) / 100"
    "(of_int p :: rat) / 100 \<le> 1"
    using assms rat_le[of 0 b] rat_le[of b 100] rat_le[of 0 p] rat_le[of p 100] by simp_all
  then have h: "\<bar>hundredths b - of_int b / 100\<bar> \<le> ulp" "\<bar>hundredths p - of_int p / 100\<bar> \<le> ulp"
    unfolding hundredths_def by (auto intro: unit_error)
  have hr: "0 \<le> hundredths b" "hundredths b \<le> 1" "0 \<le> hundredths p" "hundredths p \<le> 1"
    unfolding hundredths_def using range by (auto intro: round_double_nonneg round_double_le)
  have s: "\<bar>s - (hundredths b - hundredths p)\<bar> \<le> ulp" unfolding s_def by (rule unit_error_abs) (use hr in linarith)
  have near: "\<bar>s - of_int (b - p) / 100\<bar> \<le> 3 * ulp" using h s by (simp add: diff_divide_distrib)
  have "s \<le> 1" unfolding s_def using hr by (intro round_double_le) simp_all
  then have m: "0 \<le> m" "m \<le> 1" by (simp_all add: m_def)
  have "\<bar>m - of_int n / 100\<bar> \<le> 3 * ulp"
  proof -
    have "of_int n / 100 = max 0 (of_int (b - p) / 100 :: rat)" by (simp add: n_def max_def)
    then show ?thesis using near max_lipschitz[of s "of_int (b - p) / 100"] by (simp add: m_def)
  qed
  then have m100: "\<bar>m * 100 - of_int n\<bar> \<le> 300 * ulp" by (simp add: abs_le_iff)
  have "\<bar>round_double (m * 100) - m * 100\<bar> \<le> pow2 (- 46) / 2"
    by (rule round_double_error) (use m in \<open>simp_all add: pow2_def\<close>)
  then have "\<bar>round_double (m * 100) - m * 100\<bar> \<le> 1 / 10"
    by (rule order_trans) (simp add: pow2_def)
  with m100 ulp_small have "\<bar>round_double (m * 100) - of_int n\<bar> < 1 / 2" by linarith
  moreover have "0 \<le> round_double (m * 100)" using m by (intro round_double_nonneg) simp
  ultimately have "math_round (round_double (m * 100)) = n" by (rule math_round_near)
  then show ?thesis unfolding round_hundredths_def hundredths_def m_def s_def n_def by simp
qed

text \<open>The tables in hundredths.\<close>

definition base_hundredths :: "(nat \<Rightarrow> nat) \<Rightarrow> string \<Rightarrow> string \<Rightarrow> int" where
  "base_hundredths uni evidenceType verdict =
     (let t = word_key uni evidenceType; v = word_key uni verdict;
          refuted = (v \<in> {''refutes'', ''failed'', ''fail''});
          supported = (v \<in> {''supports'', ''accepted'', ''pass''})
      in if t = ''explicit_measure'' then 80
         else if t = ''partial_measure'' then 50
         else if t = ''attached'' then (if refuted then 0 else 70)
         else if supported then 100 else if refuted then 0 else 50)"

definition penalty_hundredths :: "int \<Rightarrow> int" where
  "penalty_hundredths cl = (if cl = 3 then 0 else if cl = 2 then 10 else if cl = 1 then 40 else 90)"

lemma hundredths_exact: "hundredths 0 = 0" "hundredths 50 = 1 / 2" "hundredths 100 = 1"
  using is_double_integral[of 1 "- 1"] by (simp_all add: hundredths_def round_double_id pow2_def)

lemma base_table: "TypedVerdictToScore uni t v = hundredths (base_hundredths uni t v)"
  by (auto simp: TypedVerdictToScore_def VerdictToScore_def attachedVerdictScore_def base_hundredths_def
      hundredths_exact Let_def) (simp_all add: hundredths_def)

lemma penalty_table: "CLPenalty cl = hundredths (penalty_hundredths cl)"
  by (simp add: CLPenalty_def penalty_hundredths_def hundredths_def)

definition expired :: "string \<Rightarrow> Time \<Rightarrow> bool" where
  "expired validUntil now \<longleftrightarrow> (case ParseValidUntil validUntil of Some expiry \<Rightarrow> Before expiry now | None \<Rightarrow> False)"

definition score_hundredths :: "(nat \<Rightarrow> nat) \<Rightarrow> string \<Rightarrow> string \<Rightarrow> int \<Rightarrow> string \<Rightarrow> Time \<Rightarrow> int" where
  "score_hundredths uni t v cl validUntil now =
     (if expired validUntil now then 10 else max 0 (base_hundredths uni t v - penalty_hundredths cl))"

lemma base_range: "0 \<le> base_hundredths uni t v" "base_hundredths uni t v \<le> 100"
  by (simp_all add: base_hundredths_def Let_def)

lemma penalty_range: "0 \<le> penalty_hundredths cl" "penalty_hundredths cl \<le> 90"
  by (simp_all add: penalty_hundredths_def)

lemma typed_score: "ScoreTypedEvidence uni t v cl validUntil now = hundredths (score_hundredths uni t v cl validUntil now)"
proof (cases "expired validUntil now")
  case True
  then show ?thesis
    by (simp add: ScoreTypedEvidence_def expired_def score_hundredths_def hundredths_def)
next
  case False
  have "round_hundredths (max 0 (round_double (TypedVerdictToScore uni t v - CLPenalty cl)))
      = hundredths (max 0 (base_hundredths uni t v - penalty_hundredths cl))"
    unfolding base_table penalty_table
    by (rule hundredths_diff) (use base_range penalty_range[of cl] in auto)
  then show ?thesis using False
    by (simp add: ScoreTypedEvidence_def expired_def[symmetric] score_hundredths_def Let_def)
qed

lemma hundredths_mono: "m \<le> n \<Longrightarrow> hundredths m \<le> hundredths n"
  unfolding hundredths_def by (intro round_double_mono divide_right_mono) simp_all

lemma hundredths_strict: "m < n \<Longrightarrow> 0 \<le> m \<Longrightarrow> n \<le> 100 \<Longrightarrow> hundredths m < hundredths n"
proof -
  assume a: "m < n" "0 \<le> m" "n \<le> 100"
  have "\<bar>hundredths k - of_int k / 100\<bar> \<le> ulp" if "0 \<le> k" "k \<le> 100" for k
    unfolding hundredths_def using that rat_le[of 0 k] rat_le[of k 100] by (intro unit_error) simp_all
  from this[of m] this[of n] have "\<bar>hundredths m - of_int m / 100\<bar> \<le> ulp" "\<bar>hundredths n - of_int n / 100\<bar> \<le> ulp"
    using a by auto
  moreover have "(of_int m + 1 :: rat) \<le> of_int n" using a rat_le[of "m + 1" n] by simp
  ultimately show "hundredths m < hundredths n" using ulp_small by linarith
qed

text \<open>The cap of CC-B3.9 for evidence that rests on a simulation or on an unrealizable claim.\<close>

definition capped :: "(nat \<Rightarrow> nat) \<Rightarrow> string \<Rightarrow> string \<Rightarrow> bool" where
  "capped uni basis realizability \<longleftrightarrow> causalBasisCaps uni basis \<or> realizabilityCaps uni realizability"

lemma score_range: "0 \<le> score_hundredths uni t v cl validUntil now" "score_hundredths uni t v cl validUntil now \<le> 100"
  using base_range[of uni t v] penalty_range[of cl] by (auto simp: score_hundredths_def)

lemma capped_score:
  "ScoreEvidenceWithCausalBasis uni t v cl basis realizability validUntil now =
     hundredths (if capped uni basis realizability then min 50 (score_hundredths uni t v cl validUntil now)
                 else score_hundredths uni t v cl validUntil now)"
proof -
  let ?n = "score_hundredths uni t v cl validUntil now"
  have "hundredths ?n \<le> 1 / 2 \<longleftrightarrow> ?n \<le> 50"
    using hundredths_mono[of ?n 50] hundredths_strict[of 50 ?n] score_range(2)[of uni t v cl validUntil now]
    by (cases "?n \<le> 50") (auto simp: hundredths_exact)
  then show ?thesis
    by (simp add: ScoreEvidenceWithCausalBasis_def typed_score capped_def Let_def min_def hundredths_exact)
qed

definition reliability_hundredths :: "(nat \<Rightarrow> nat) \<Rightarrow> Time \<Rightarrow> Evidence \<Rightarrow> int" where
  "reliability_hundredths uni now item =
     (let n = score_hundredths uni (ev_Type item) (ev_Verdict item) (ev_CongruenceLevel item) (ev_ValidUntil item) now
      in if capped uni (ev_CausalSupportBasis item) (ev_ClaimRealizability item) then min 50 n else n)"

lemma reliability: "evidence_reliability uni now item = hundredths (reliability_hundredths uni now item)"
  by (simp add: evidence_reliability_def reliability_hundredths_def capped_score Let_def)

lemma reliability_range: "0 \<le> reliability_hundredths uni now item" "reliability_hundredths uni now item \<le> 100"
  using score_range[of uni "ev_Type item" "ev_Verdict item" "ev_CongruenceLevel item" "ev_ValidUntil item" now]
  by (auto simp: reliability_hundredths_def Let_def)

lemma hundredths_unit: "0 \<le> n \<Longrightarrow> n \<le> 100 \<Longrightarrow> 0 \<le> hundredths n \<and> hundredths n \<le> 1"
  using hundredths_mono[of 0 n] hundredths_mono[of n 100] by (simp add: hundredths_exact)

lemma reliability_unit: "0 \<le> evidence_reliability uni now item" "evidence_reliability uni now item \<le> 1"
  using hundredths_unit[OF reliability_range] by (simp_all add: reliability)

end
