(* ===== verification/AssuranceLaws.thy ===== *)
theory AssuranceLaws
  imports EvidenceLaws
begin

text \<open>
  The weakest link: the assurance of a decision is the minimum over the evidence that counts for its
  claims, for the formality, the groundedness and the reliability alike.
\<close>

section \<open>One claim\<close>

definition inadmissible :: "(nat \<Rightarrow> nat) \<Rightarrow> Evidence \<Rightarrow> bool" where
  "inadmissible uni item \<longleftrightarrow>
     CanonicalVerdict uni (ev_Verdict item) = ''supports'' \<and> GroundednessFromCL (ev_CongruenceLevel item) = 0"

definition weakest :: "(Evidence \<Rightarrow> 'a :: {linorder, zero}) \<Rightarrow> Evidence list \<Rightarrow> 'a" where
  "weakest f items = (if items = [] then 0 else Min (f ` set items))"

lemma ValidateEvidence_iff: "ValidateEvidence uni item = Inr () \<longleftrightarrow> \<not> inadmissible uni item"
  by (auto simp: ValidateEvidence_def inadmissible_def)

lemma formality_range: "0 \<le> DeriveFormality uni item" "DeriveFormality uni item \<le> 3"
  by (auto simp: DeriveFormality_def NormalizeFormalityLevel_def inferFormalityFromType_def Let_def)

lemma grounded_range: "0 \<le> GroundednessFromCL cl" "GroundednessFromCL cl \<le> 3"
  by (auto simp: GroundednessFromCL_def)

lemma claim_items_eq:
  "claim_items uni now items r =
     (if list_ex (inadmissible uni) items then Inl ''CL0 evidence cannot support''
      else Inr (r\<lparr>ca_FEff := fold (\<lambda>item m. min m (DeriveFormality uni item)) items (ca_FEff r),
                  ca_GEff := fold (\<lambda>item m. min m (GroundednessFromCL (ev_CongruenceLevel item))) items (ca_GEff r),
                  ca_REff := fold (\<lambda>item m. min m (evidence_reliability uni now item)) items (ca_REff r)\<rparr>))"
proof (induction items arbitrary: r)
  case (Cons item items)
  show ?case
  proof (cases "inadmissible uni item")
    case True
    then show ?thesis by (simp add: ValidateEvidence_def inadmissible_def)
  next
    case False
    then show ?thesis using Cons.IH ValidateEvidence_iff[of uni item] by simp
  qed
qed simp

lemma Min_insert_min:
  "finite S \<Longrightarrow> Min (insert (min a b) S) = Min (insert b (insert a S))" for a b :: "'a :: linorder"
  by (cases "S = {}") (simp_all add: min.assoc min.left_commute min.commute[of a b])

lemma fold_min_Min:
  fixes f :: "'b \<Rightarrow> 'a :: linorder"
  shows "items \<noteq> [] \<Longrightarrow> (\<And>x. f x \<le> top_value) \<Longrightarrow> fold (\<lambda>x m. min m (f x)) items top_value = Min (f ` set items)"
proof -
  assume ne: "items \<noteq> []" and top: "\<And>x. f x \<le> top_value"
  have gen: "fold (\<lambda>x m. min m (f x)) xs a = Min (insert a (f ` set xs))" for xs a
  proof (induction xs arbitrary: a)
    case (Cons x xs)
    then show ?case by (simp only: fold.simps comp_def Cons.IH list.simps image_insert insert_commute[of a] Min_insert_min finite_imageI finite_set)
  qed simp
  have "Min (insert top_value (f ` set items)) = min top_value (Min (f ` set items))"
    using ne by (intro Min_insert) simp_all
  also have "\<dots> = Min (f ` set items)"
  proof -
    have "Min (f ` set items) \<in> f ` set items" using ne by (intro Min_in) simp_all
    then show ?thesis using top by (auto simp: min_def intro: antisym)
  qed
  finally show ?thesis using gen by simp
qed

lemma claim_assurance_eq:
  "ComputeClaimAssurance uni claimRef items now =
     (if list_ex (inadmissible uni) items then Inl ''CL0 evidence cannot support''
      else Inr \<lparr>ca_ClaimRef = claimRef, ca_EvidenceCount = length items, ca_HasEvidence = (items \<noteq> []),
                ca_FEff = weakest (DeriveFormality uni) items,
                ca_GEff = weakest (\<lambda>item. GroundednessFromCL (ev_CongruenceLevel item)) items,
                ca_REff = weakest (evidence_reliability uni now) items\<rparr>)"
proof (cases "items = []")
  case False
  then show ?thesis
    using fold_min_Min[OF False, of "DeriveFormality uni" 3, OF formality_range(2)]
      fold_min_Min[OF False, of "\<lambda>item. GroundednessFromCL (ev_CongruenceLevel item)" 3, OF grounded_range(2)]
      fold_min_Min[OF False, of "evidence_reliability uni now" 1, OF reliability_unit(2)]
    by (simp add: ComputeClaimAssurance_def claim_items_eq weakest_def)
qed (simp add: ComputeClaimAssurance_def weakest_def)

section \<open>A decision\<close>

lemma weakest_le:
  fixes f :: "Evidence \<Rightarrow> 'a :: {linorder, zero}"
  assumes "\<And>x. f x \<le> t" "0 \<le> t"
  shows "weakest f items \<le> t"
proof (cases items)
  case (Cons x xs)
  have "weakest f items \<le> f x" unfolding weakest_def Cons by simp
  then show ?thesis using assms(1)[of x] by simp
qed (simp add: weakest_def assms)

lemma decision_claims_eq:
  "decision_claims uni now active refs r =
     (if list_ex (\<lambda>ref. list_ex (inadmissible uni) (filterClaimEvidence active ref)) refs
      then Inl ''CL0 evidence cannot support''
      else Inr
        \<lparr>da_Claims = da_Claims r @ map (\<lambda>ref. case ComputeClaimAssurance uni ref (filterClaimEvidence active ref) now of Inr c \<Rightarrow> c) refs,
         da_HasEvidence = (da_HasEvidence r \<or> list_ex (\<lambda>ref. filterClaimEvidence active ref \<noteq> []) refs),
         da_FEff = fold (\<lambda>ref m. min m (weakest (DeriveFormality uni) (filterClaimEvidence active ref))) refs (da_FEff r),
         da_GEff = fold (\<lambda>ref m. min m (weakest (\<lambda>item. GroundednessFromCL (ev_CongruenceLevel item))
                     (filterClaimEvidence active ref))) refs (da_GEff r),
         da_REff = fold (\<lambda>ref m. min m (weakest (evidence_reliability uni now) (filterClaimEvidence active ref))) refs (da_REff r)\<rparr>)"
proof (induction refs arbitrary: r)
  case (Cons ref refs)
  show ?case by (simp add: Cons.IH claim_assurance_eq)
qed simp

text \<open>The evidence that counts for a decision, and the weakest link over its claims.\<close>

definition counted :: "(nat \<Rightarrow> nat) \<Rightarrow> string list \<Rightarrow> Evidence list \<Rightarrow> Evidence list" where
  "counted uni claimRefs items =
     filter (\<lambda>item. normalizeClaimRefs claimRefs = []
         \<or> list_ex (containsClaimRef (ev_ClaimRefs item)) (normalizeClaimRefs claimRefs))
       (filterActiveEvidence uni items)"

definition weakest_link ::
  "(Evidence \<Rightarrow> 'a :: {linorder, zero}) \<Rightarrow> (nat \<Rightarrow> nat) \<Rightarrow> string list \<Rightarrow> Evidence list \<Rightarrow> 'a"
where
  "weakest_link f uni claimRefs items =
     (let active = filterActiveEvidence uni items; claims = normalizeClaimRefs claimRefs
      in if claims = [] then weakest f active
         else Min ((\<lambda>ref. weakest f (filterClaimEvidence active ref)) ` set claims))"

lemma counted_ex:
  assumes "normalizeClaimRefs claimRefs \<noteq> []"
  shows "list_ex P (counted uni claimRefs items) \<longleftrightarrow>
    list_ex (\<lambda>ref. list_ex P (filterClaimEvidence (filterActiveEvidence uni items) ref)) (normalizeClaimRefs claimRefs)"
  using assms by (auto simp: counted_def filterClaimEvidence_def list_ex_iff)

lemma decision_eq:
  "ComputeDecisionAssurance uni claimRefs items now =
     (if list_ex (inadmissible uni) (counted uni claimRefs items) then Inl ''CL0 evidence cannot support''
      else Inr
        \<lparr>da_Claims = map (\<lambda>ref. case ComputeClaimAssurance uni ref
                        (filterClaimEvidence (filterActiveEvidence uni items) ref) now of Inr c \<Rightarrow> c) (normalizeClaimRefs claimRefs),
         da_HasEvidence = (counted uni claimRefs items \<noteq> []),
         da_FEff = weakest_link (DeriveFormality uni) uni claimRefs items,
         da_GEff = weakest_link (\<lambda>item. GroundednessFromCL (ev_CongruenceLevel item)) uni claimRefs items,
         da_REff = weakest_link (evidence_reliability uni now) uni claimRefs items\<rparr>)"
proof (cases "normalizeClaimRefs claimRefs = []")
  case True
  then have "counted uni claimRefs items = filterActiveEvidence uni items" by (simp add: counted_def)
  then show ?thesis using True
    by (simp add: ComputeDecisionAssurance_def claim_assurance_eq weakest_link_def Let_def)
next
  case False
  let ?active = "filterActiveEvidence uni items"
  have ne: "counted uni claimRefs items \<noteq> [] \<longleftrightarrow> list_ex (\<lambda>ref. filterClaimEvidence ?active ref \<noteq> []) (normalizeClaimRefs claimRefs)"
    using counted_ex[OF False, of "\<lambda>item. True" uni items] by (simp add: list_ex_iff) (metis ex_in_conv set_empty)
  have f: "weakest (DeriveFormality uni) xs \<le> 3" for xs using formality_range(2) by (intro weakest_le) simp_all
  have g: "weakest (\<lambda>item. GroundednessFromCL (ev_CongruenceLevel item)) xs \<le> 3" for xs
    using grounded_range(2) by (intro weakest_le) simp_all
  have h: "weakest (evidence_reliability uni now) xs \<le> 1" for xs using reliability_unit(2) by (intro weakest_le) simp_all
  show ?thesis
    using False ne fold_min_Min[OF False, of "\<lambda>ref. weakest (DeriveFormality uni) (filterClaimEvidence ?active ref)" 3, OF f]
      fold_min_Min[OF False, of "\<lambda>ref. weakest (\<lambda>item. GroundednessFromCL (ev_CongruenceLevel item)) (filterClaimEvidence ?active ref)" 3, OF g]
      fold_min_Min[OF False, of "\<lambda>ref. weakest (evidence_reliability uni now) (filterClaimEvidence ?active ref)" 1, OF h]
    by (simp add: ComputeDecisionAssurance_def decision_claims_eq counted_ex[OF False] weakest_link_def Let_def)
qed

section \<open>What the assurance says\<close>

text \<open>
  The score of an evidence item is exact to the hundredth: expired evidence scores 0.1, other
  evidence its base score less the penalty of its congruence level, at least 0; evidence that rests
  on a simulation or on an unrealizable claim scores at most 0.5. The float the code computes is the
  double nearest to that number of hundredths.
\<close>

theorem score_exact:
  "ScoreEvidenceWithCausalBasis uni evidenceType verdict cl basis realizability validUntil now =
     round_double (of_int (let n = (if expired validUntil now then 10
                                    else max 0 (base_hundredths uni evidenceType verdict - penalty_hundredths cl))
                           in if causalBasisCaps uni basis \<or> realizabilityCaps uni realizability then min 50 n else n) / 100)"
  by (simp add: capped_score hundredths_def capped_def score_hundredths_def Let_def)

text \<open>
  C33. The assurance of a decision. It is refused exactly when supporting evidence of congruence level
  0 counts for it; otherwise formality, groundedness and reliability are each the least value among
  the evidence of each claim, then the least among the claims, a claim without evidence counting 0.
\<close>

theorem decision_assurance_exact:
  "case ComputeDecisionAssurance uni claimRefs items now of
     Inl e \<Rightarrow> list_ex (inadmissible uni) (counted uni claimRefs items)
   | Inr d \<Rightarrow> \<not> list_ex (inadmissible uni) (counted uni claimRefs items)
       \<and> da_HasEvidence d = (counted uni claimRefs items \<noteq> [])
       \<and> da_FEff d = weakest_link (DeriveFormality uni) uni claimRefs items
       \<and> da_GEff d = weakest_link (\<lambda>item. GroundednessFromCL (ev_CongruenceLevel item)) uni claimRefs items
       \<and> da_REff d = weakest_link (evidence_reliability uni now) uni claimRefs items"
  by (simp add: decision_eq)

lemma weakest_antimono:
  fixes f :: "Evidence \<Rightarrow> 'a :: {linorder, zero}"
  assumes "set xs \<subseteq> set ys" "xs \<noteq> []"
  shows "weakest f ys \<le> weakest f xs"
proof -
  have "ys \<noteq> []" using assms by auto
  moreover have "Min (f ` set ys) \<le> Min (f ` set xs)"
    using assms by (intro Min_antimono image_mono) simp_all
  ultimately show ?thesis using assms(2) by (simp add: weakest_def)
qed

lemma weakest_nonneg: "(\<And>x. 0 \<le> f x) \<Longrightarrow> 0 \<le> weakest f xs" for f :: "Evidence \<Rightarrow> 'a :: {linorder, zero}"
  by (cases "xs = []") (simp_all add: weakest_def)

lemma filters_append:
  "filterActiveEvidence uni (items @ extra) = filterActiveEvidence uni items @ filterActiveEvidence uni extra"
  "filterClaimEvidence (xs @ ys) ref = filterClaimEvidence xs ref @ filterClaimEvidence ys ref"
  "counted uni refs (items @ extra) = counted uni refs items @ counted uni refs extra"
  by (simp_all add: filterActiveEvidence_def filterClaimEvidence_def counted_def)

definition fully_backed :: "(nat \<Rightarrow> nat) \<Rightarrow> string list \<Rightarrow> Evidence list \<Rightarrow> bool" where
  "fully_backed uni claimRefs items \<longleftrightarrow>
     (let active = filterActiveEvidence uni items
      in if normalizeClaimRefs claimRefs = [] then active \<noteq> []
         else list_all (\<lambda>ref. filterClaimEvidence active ref \<noteq> []) (normalizeClaimRefs claimRefs))"

lemma weakest_link_antimono:
  fixes f :: "Evidence \<Rightarrow> 'a :: {linorder, zero}"
  assumes "fully_backed uni claimRefs items"
  shows "weakest_link f uni claimRefs (items @ extra) \<le> weakest_link f uni claimRefs items"
proof (cases "normalizeClaimRefs claimRefs = []")
  case True
  then show ?thesis using assms
    by (simp add: weakest_link_def fully_backed_def Let_def filters_append weakest_antimono)
next
  case False
  define w where "w xs ref = weakest f (filterClaimEvidence (filterActiveEvidence uni xs) ref)" for xs ref
  let ?claims = "set (normalizeClaimRefs claimRefs)"
  have "Min (w items ` ?claims) \<in> w items ` ?claims" using False by (intro Min_in) simp_all
  then obtain ref where ref: "ref \<in> ?claims" "Min (w items ` ?claims) = w items ref" by auto
  have "Min (w (items @ extra) ` ?claims) \<le> w (items @ extra) ref" using ref(1) by simp
  also have "\<dots> \<le> w items ref"
    using assms False ref(1) unfolding w_def
    by (intro weakest_antimono) (auto simp: fully_backed_def Let_def filters_append list_all_iff)
  finally show ?thesis using False ref(2) by (simp add: weakest_link_def Let_def w_def[abs_def])
qed

lemma weakest_link_unbacked:
  fixes f :: "Evidence \<Rightarrow> 'a :: {linorder, zero}"
  assumes "\<not> fully_backed uni claimRefs items" "\<And>x. 0 \<le> f x"
  shows "weakest_link f uni claimRefs items = 0"
proof (cases "normalizeClaimRefs claimRefs = []")
  case True
  then show ?thesis using assms by (simp add: weakest_link_def fully_backed_def Let_def weakest_def)
next
  case False
  then obtain ref where ref: "ref \<in> set (normalizeClaimRefs claimRefs)"
    "filterClaimEvidence (filterActiveEvidence uni items) ref = []"
    using assms(1) by (auto simp: fully_backed_def Let_def list_all_iff)
  let ?w = "\<lambda>ref. weakest f (filterClaimEvidence (filterActiveEvidence uni items) ref)"
  have "Min (?w ` set (normalizeClaimRefs claimRefs)) = 0"
  proof (rule Min_eqI)
    show "0 \<in> ?w ` set (normalizeClaimRefs claimRefs)"
      using ref by (intro rev_image_eqI[of ref]) (simp_all add: weakest_def)
  qed (use weakest_nonneg[of f, OF assms(2)] in auto)
  then show ?thesis using False by (simp add: weakest_link_def Let_def)
qed

lemma backed_claims:
  assumes "ComputeDecisionAssurance uni claimRefs items now = Inr d"
  shows "fully_backed uni claimRefs items \<longleftrightarrow>
    (if da_Claims d = [] then da_HasEvidence d else list_all ca_HasEvidence (da_Claims d))"
proof (cases "normalizeClaimRefs claimRefs = []")
  case True
  then show ?thesis using assms by (auto simp: decision_eq fully_backed_def counted_def Let_def split: if_splits)
next
  case False
  have ok: "\<not> list_ex (inadmissible uni) (filterClaimEvidence (filterActiveEvidence uni items) ref)"
    if "ref \<in> set (normalizeClaimRefs claimRefs)" for ref
    using assms that counted_ex[OF False, of "inadmissible uni" uni items]
    by (auto simp: decision_eq list_ex_iff split: if_splits)
  have "da_Claims d = map (\<lambda>ref. case ComputeClaimAssurance uni ref
      (filterClaimEvidence (filterActiveEvidence uni items) ref) now of Inr c \<Rightarrow> c) (normalizeClaimRefs claimRefs)"
    using assms by (auto simp: decision_eq split: if_splits)
  then show ?thesis using False ok by (simp add: fully_backed_def Let_def list_all_iff claim_assurance_eq)
qed

text \<open>
  C34. Once the claims of a decision are backed - each of them has evidence, or, for a decision
  without claims, the decision has - further evidence raises neither its reliability nor its formality
  nor its groundedness. Before that the reliability is 0, and evidence for what lacked it can raise
  it. New evidence turns a result into an error only when it is itself inadmissible, while an error
  stays.
\<close>

theorem backed_assurance_never_rises:
  "case ComputeDecisionAssurance uni claimRefs items now of
     Inl e \<Rightarrow> ComputeDecisionAssurance uni claimRefs (items @ extra) now = Inl e
   | Inr d \<Rightarrow>
       (case ComputeDecisionAssurance uni claimRefs (items @ extra) now of
          Inl e \<Rightarrow> list_ex (inadmissible uni) extra
        | Inr d' \<Rightarrow>
            if (if da_Claims d = [] then da_HasEvidence d else list_all ca_HasEvidence (da_Claims d))
            then da_REff d' \<le> da_REff d \<and> da_FEff d' \<le> da_FEff d \<and> da_GEff d' \<le> da_GEff d
            else da_REff d = 0)"
proof (cases "ComputeDecisionAssurance uni claimRefs items now")
  case (Inl e)
  then show ?thesis by (auto simp: decision_eq filters_append split: if_splits)
next
  case (Inr d)
  have backed: "(if da_Claims d = [] then da_HasEvidence d else list_all ca_HasEvidence (da_Claims d)) = fully_backed uni claimRefs items"
    using backed_claims[OF Inr] by simp
  have extra: "list_ex P (counted uni claimRefs extra) \<Longrightarrow> list_ex P extra" for P
    by (auto simp: counted_def filterActiveEvidence_def list_ex_iff)
  have d: "da_REff d = weakest_link (evidence_reliability uni now) uni claimRefs items"
    "da_FEff d = weakest_link (DeriveFormality uni) uni claimRefs items"
    "da_GEff d = weakest_link (\<lambda>item. GroundednessFromCL (ev_CongruenceLevel item)) uni claimRefs items"
    "\<not> list_ex (inadmissible uni) (counted uni claimRefs items)"
    using Inr by (auto simp: decision_eq split: if_splits)
  note lower = weakest_link_antimono[of uni claimRefs items "evidence_reliability uni now" extra]
    weakest_link_antimono[of uni claimRefs items "DeriveFormality uni" extra]
    weakest_link_antimono[of uni claimRefs items "\<lambda>item. GroundednessFromCL (ev_CongruenceLevel item)" extra]
  note unbacked = weakest_link_unbacked[of uni claimRefs items "evidence_reliability uni now", OF _ reliability_unit(1)]
  show ?thesis
    unfolding Inr sum.case backed decision_eq[of uni claimRefs "items @ extra"] filters_append
    using extra[of "inadmissible uni"] d lower unbacked by simp
qed

lemma weakest_link_le:
  fixes f :: "Evidence \<Rightarrow> 'a :: {linorder, zero}"
  assumes "item \<in> set (counted uni claimRefs items)"
  shows "weakest_link f uni claimRefs items \<le> f item"
proof (cases "normalizeClaimRefs claimRefs = []")
  case True
  then have item: "item \<in> set (filterActiveEvidence uni items)" using assms by (simp add: counted_def)
  then have "filterActiveEvidence uni items \<noteq> []" by auto
  then show ?thesis using True item by (simp add: weakest_link_def Let_def weakest_def)
next
  case False
  then obtain ref where ref: "ref \<in> set (normalizeClaimRefs claimRefs)"
    "item \<in> set (filterClaimEvidence (filterActiveEvidence uni items) ref)"
    using assms by (auto simp: counted_def filterClaimEvidence_def list_ex_iff)
  have "weakest_link f uni claimRefs items \<le> weakest f (filterClaimEvidence (filterActiveEvidence uni items) ref)"
    using False ref(1) by (simp add: weakest_link_def Let_def)
  also have "\<dots> \<le> f item"
  proof -
    have "filterClaimEvidence (filterActiveEvidence uni items) ref \<noteq> []" using ref(2) by auto
    then show ?thesis using ref(2) by (simp add: weakest_def)
  qed
  finally show ?thesis .
qed

lemma weakest_link_range:
  fixes f :: "Evidence \<Rightarrow> 'a :: {linorder, zero}"
  assumes "\<And>x. 0 \<le> f x" "\<And>x. f x \<le> t" "0 \<le> t"
  shows "0 \<le> weakest_link f uni claimRefs items" "weakest_link f uni claimRefs items \<le> t"
proof -
  have w: "0 \<le> weakest f xs" "weakest f xs \<le> t" for xs
    using weakest_nonneg[of f, OF assms(1)] weakest_le[of f t, OF assms(2,3)] by auto
  show "0 \<le> weakest_link f uni claimRefs items"
    using w(1) by (auto simp: weakest_link_def Let_def)
  show "weakest_link f uni claimRefs items \<le> t"
  proof (cases "normalizeClaimRefs claimRefs")
    case (Cons ref refs)
    have "weakest_link f uni claimRefs items \<le> weakest f (filterClaimEvidence (filterActiveEvidence uni items) ref)"
      by (simp add: weakest_link_def Cons Let_def)
    also have "\<dots> \<le> t" by (rule w(2))
    finally show ?thesis .
  qed (simp add: weakest_link_def Let_def w(2))
qed

text \<open>
  C35. The bounds of an assurance: reliability lies between 0 and 1, formality and groundedness between
  0 and 3; when evidence that counts has expired, the reliability is at most 0.1, and when it rests on
  a simulation or an unrealizable claim, at most 0.5.
\<close>

theorem assurance_bounds:
  "case ComputeDecisionAssurance uni claimRefs items now of
     Inl e \<Rightarrow> True
   | Inr d \<Rightarrow> 0 \<le> da_REff d \<and> da_REff d \<le> 1 \<and> 0 \<le> da_FEff d \<and> da_FEff d \<le> 3 \<and> 0 \<le> da_GEff d \<and> da_GEff d \<le> 3
       \<and> da_REff d \<le> (if list_ex (\<lambda>item. expired (ev_ValidUntil item) now) (counted uni claimRefs items)
                      then round_double (1 / 10)
                      else if list_ex (\<lambda>item. capped uni (ev_CausalSupportBasis item) (ev_ClaimRealizability item))
                                (counted uni claimRefs items)
                      then 1 / 2 else 1)"
proof -
  let ?R = "weakest_link (evidence_reliability uni now) uni claimRefs items"
  have exp: "?R \<le> round_double (1 / 10)"
    if "list_ex (\<lambda>item. expired (ev_ValidUntil item) now) (counted uni claimRefs items)"
  proof -
    obtain item where item: "item \<in> set (counted uni claimRefs items)" "expired (ev_ValidUntil item) now"
      using \<open>list_ex _ _\<close> by (auto simp: list_ex_iff)
    have "reliability_hundredths uni now item \<le> 10"
      using item(2) by (simp add: reliability_hundredths_def score_hundredths_def Let_def)
    then have "evidence_reliability uni now item \<le> hundredths 10" unfolding reliability by (rule hundredths_mono)
    then show ?thesis
      using weakest_link_le[OF item(1), of "evidence_reliability uni now"] by (simp add: hundredths_def)
  qed
  have cap: "?R \<le> 1 / 2"
    if "list_ex (\<lambda>item. capped uni (ev_CausalSupportBasis item) (ev_ClaimRealizability item)) (counted uni claimRefs items)"
  proof -
    obtain item where item: "item \<in> set (counted uni claimRefs items)"
      "capped uni (ev_CausalSupportBasis item) (ev_ClaimRealizability item)"
      using \<open>list_ex _ _\<close> by (auto simp: list_ex_iff)
    have "reliability_hundredths uni now item \<le> 50"
      using item(2) by (simp add: reliability_hundredths_def Let_def)
    then have "evidence_reliability uni now item \<le> hundredths 50" unfolding reliability by (rule hundredths_mono)
    then show ?thesis
      using weakest_link_le[OF item(1), of "evidence_reliability uni now"] by (simp add: hundredths_exact)
  qed
  show ?thesis
    using exp cap weakest_link_range[of "evidence_reliability uni now" 1, OF reliability_unit]
      weakest_link_range[of "DeriveFormality uni" 3, OF formality_range]
      weakest_link_range[of "\<lambda>item. GroundednessFromCL (ev_CongruenceLevel item)" 3, OF grounded_range]
    by (simp add: decision_eq)
qed

end
