(* ===== verification/Reliability.thy ===== *)
theory Reliability
  imports EvidenceLaws
begin

text \<open>
  The reliability of a holon (\<open>assurance/calculator.go\<close>): the score of its own evidence, lowered to the
  weakest of its dependencies, which are evaluated depth first. The database is a record of its
  tables; a NULL is None. SQLite leaves the order of a UNION open: \<open>union_order\<close> is the order in
  which it returns the distinct rows. The queries succeed; a row whose columns do not fit is
  skipped, as \<open>Scan\<close> failing is. One instant serves a whole evaluation; the code reads the clock
  for each holon. Rows \<open>union_order\<close> would add to a result are left out.
\<close>

section \<open>Tables\<close>

record evidence_row =
  er_holon :: string
  er_type :: string
  er_verdict :: string
  er_valid_until :: "string option"
  er_formality :: "int option"
  er_congruence :: "int option"

record relation_row =
  rr_source :: string
  rr_target :: string
  rr_type :: string
  rr_congruence :: "int option"

record assurance_db =
  db_evidence :: "evidence_row list"
  db_relations :: "relation_row list"

record AssuranceReport =
  ar_HolonID :: string
  ar_FinalScore :: rat
  ar_SelfScore :: rat
  ar_FormalityScore :: int
  ar_WeakestLink :: string
  ar_DecayPenalty :: rat
  ar_Factors :: "string list"

definition empty_report :: "string \<Rightarrow> AssuranceReport" where
  "empty_report holonID =
     \<lparr>ar_HolonID = holonID, ar_FinalScore = 0, ar_SelfScore = 0, ar_FormalityScore = 0,
      ar_WeakestLink = [], ar_DecayPenalty = 0, ar_Factors = []\<rparr>"

section \<open>The tables of scores\<close>

definition calculateCLPenalty :: "int \<Rightarrow> rat" where
  "calculateCLPenalty cl =
     (if cl = 3 then 0 else if cl = 2 then round_double (1 / 10)
      else if cl = 1 then round_double (4 / 10) else round_double (9 / 10))"

definition evidenceTypeToCongruenceLevel :: "(nat \<Rightarrow> nat) \<Rightarrow> string \<Rightarrow> int" where
  "evidenceTypeToCongruenceLevel uni evidenceType =
     (let t = ToLower uni evidenceType
      in if t = ''internal'' \<or> t = ''audit_report'' then 3
         else if t = ''external'' then 2
         else if t = ''research'' then 1
         else 3)"

definition resolveEvidenceCongruenceLevel :: "(nat \<Rightarrow> nat) \<Rightarrow> string \<Rightarrow> int \<Rightarrow> int" where
  "resolveEvidenceCongruenceLevel uni evidenceType stored =
     (if stored \<ge> 0 \<and> stored \<le> 3 then stored else evidenceTypeToCongruenceLevel uni evidenceType)"

definition congruencePenaltyFactor :: "(nat \<Rightarrow> nat) \<Rightarrow> string \<Rightarrow> int \<Rightarrow> int \<Rightarrow> string" where
  "congruencePenaltyFactor uni evidenceType stored effective =
     (if stored < 0 \<and> ToLower uni evidenceType = ''external'' then ''External evidence CL2 penalty applied''
      else if stored < 0 \<and> ToLower uni evidenceType = ''research'' then ''Research evidence CL1 penalty applied''
      else ''Evidence congruence penalty applied'')"

definition normalizeFormalityLevel :: "int \<Rightarrow> int" where
  "normalizeFormalityLevel level =
     (if level < 0 then 0 else if level \<le> 3 then level else if level \<le> 5 then 1
      else if level \<le> 8 then 2 else 3)"

section \<open>The evidence of a holon\<close>

definition coalesce :: "'a option \<Rightarrow> 'a \<Rightarrow> 'a" where
  "coalesce v d = (case v of Some x \<Rightarrow> x | None \<Rightarrow> d)"

definition row_level :: "(nat \<Rightarrow> nat) \<Rightarrow> evidence_row \<Rightarrow> int" where
  "row_level uni row = resolveEvidenceCongruenceLevel uni (er_type row) (coalesce (er_congruence row) (- 1))"

definition row_expired :: "Time \<Rightarrow> evidence_row \<Rightarrow> bool" where
  "row_expired now row \<longleftrightarrow>
     (case ParseValidUntil (coalesce (er_valid_until row) []) of Some expiry \<Rightarrow> After now expiry | None \<Rightarrow> False)"

definition row_score :: "(nat \<Rightarrow> nat) \<Rightarrow> Time \<Rightarrow> evidence_row \<Rightarrow> rat" where
  "row_score uni now row =
     (if row_expired now row then round_double (1 / 10)
      else ScoreTypedEvidence uni (er_type row) (er_verdict row) (row_level uni row) (coalesce (er_valid_until row) []) now)"

definition row_factors :: "(nat \<Rightarrow> nat) \<Rightarrow> Time \<Rightarrow> evidence_row \<Rightarrow> string list" where
  "row_factors uni now row =
     (if row_level uni row < 3
      then [congruencePenaltyFactor uni (er_type row) (coalesce (er_congruence row) (- 1)) (row_level uni row)] else []) @
     (if row_expired now row then [''Evidence expired (Decay applied)''] else [])"

definition holon_evidence :: "assurance_db \<Rightarrow> string \<Rightarrow> evidence_row list" where
  "holon_evidence db holonID = filter (\<lambda>row. er_holon row = holonID) (db_evidence db)"

definition self_report :: "(nat \<Rightarrow> nat) \<Rightarrow> Time \<Rightarrow> assurance_db \<Rightarrow> string \<Rightarrow> AssuranceReport" where
  "self_report uni now db holonID =
     (let rows = holon_evidence db holonID;
          minScore = fold (\<lambda>row m. if row_score uni now row < m then row_score uni now row else m) rows 1;
          minFormality = fold (\<lambda>row m. if normalizeFormalityLevel (coalesce (er_formality row) 5) < m
                                then normalizeFormalityLevel (coalesce (er_formality row) 5) else m) rows 3;
          decay = fold (\<lambda>row d. if row_expired now row then round_double (d + round_double (9 / 10)) else d) rows 0;
          factors = concat (map (row_factors uni now) rows)
      in if rows \<noteq> []
         then (empty_report holonID)\<lparr>ar_SelfScore := minScore, ar_FormalityScore := minFormality,
                ar_DecayPenalty := decay, ar_Factors := factors\<rparr>
         else (empty_report holonID)\<lparr>ar_Factors := [''No evidence found (L0)'']\<rparr>)"

section \<open>The dependencies of a holon\<close>

definition dependency_rows :: "assurance_db \<Rightarrow> string \<Rightarrow> (string \<times> int option) list" where
  "dependency_rows db holonID =
     remdups
       (map (\<lambda>r. (rr_source r, rr_congruence r))
          (filter (\<lambda>r. rr_target r = holonID \<and> rr_type r = ''componentOf'') (db_relations db)) @
        map (\<lambda>r. (rr_target r, rr_congruence r))
          (filter (\<lambda>r. rr_source r = holonID \<and> rr_type r \<in> {''dependsOn'', ''dependsOnProjected''}) (db_relations db)))"

type_synonym row_order = "(string \<times> int option) list \<Rightarrow> (string \<times> int option) list"

definition dependencies_of :: "row_order \<Rightarrow> assurance_db \<Rightarrow> string \<Rightarrow> (string \<times> int) list" where
  "dependencies_of union_order db holonID =
     concat (map (\<lambda>(dep, cl). case cl of Some c \<Rightarrow> [(dep, c)] | None \<Rightarrow> [])
       (filter (\<lambda>row. row \<in> set (dependency_rows db holonID)) (union_order (dependency_rows db holonID))))"

text \<open>The holons of the relations: the evaluation only descends into these.\<close>

definition related_holons :: "assurance_db \<Rightarrow> string set" where
  "related_holons db = set (map rr_source (db_relations db)) \<union> set (map rr_target (db_relations db))"

definition faithful :: "row_order \<Rightarrow> bool" where
  "faithful union_order \<longleftrightarrow> (\<forall>rows. set (union_order rows) = set rows)"

text \<open>What an evaluation changes: the holons visited and the scores cached in the table of holons.\<close>

record evaluation =
  st_visited :: "string set"
  st_scores :: "(string \<times> rat) list"

definition cache_score :: "string \<Rightarrow> rat \<Rightarrow> (string \<times> rat) list \<Rightarrow> (string \<times> rat) list" where
  "cache_score holonID score scores = map (\<lambda>(id, s). if id = holonID then (id, score) else (id, s)) scores"

section \<open>The depth-first evaluation\<close>

text \<open>What a dependency with its report does to the least dependency score and the report so far.\<close>

definition weaken_by :: "string \<Rightarrow> int \<Rightarrow> AssuranceReport \<Rightarrow> rat \<times> AssuranceReport \<Rightarrow> rat \<times> AssuranceReport" where
  "weaken_by dep cl depReport acc =
     (let (minDepScore, report) = acc;
          penalty = calculateCLPenalty cl;
          effectiveR = max 0 (round_double (ar_FinalScore depReport - penalty));
          report = (if effectiveR < minDepScore then report\<lparr>ar_WeakestLink := dep\<rparr> else report);
          report = (if penalty > 0 then report\<lparr>ar_Factors := ar_Factors report @ [''CL Penalty applied for '' @ dep]\<rparr> else report)
      in (if effectiveR < minDepScore then effectiveR else minDepScore, report))"

function calculateReliabilityWithVisited ::
  "(nat \<Rightarrow> nat) \<Rightarrow> Time \<Rightarrow> row_order \<Rightarrow> assurance_db \<Rightarrow> string \<Rightarrow> evaluation \<Rightarrow> AssuranceReport \<times> evaluation"
and dependency_loop ::
  "(nat \<Rightarrow> nat) \<Rightarrow> Time \<Rightarrow> row_order \<Rightarrow> assurance_db \<Rightarrow> (string \<times> int) list \<Rightarrow> rat \<times> AssuranceReport \<Rightarrow> evaluation \<Rightarrow>
   (rat \<times> AssuranceReport) \<times> evaluation"
where
  "calculateReliabilityWithVisited uni now union_order db holonID st =
     (if holonID \<in> st_visited st
      then ((empty_report holonID)\<lparr>ar_FinalScore := 1, ar_SelfScore := 1,
              ar_Factors := [''Cycle detected, skipping re-evaluation'']\<rparr>, st)
      else
        (let report = self_report uni now db holonID;
             deps = dependencies_of union_order db holonID;
             ((minDepScore, report), st) =
               dependency_loop uni now union_order db deps (1, report)
                 (st\<lparr>st_visited := insert holonID (st_visited st)\<rparr>);
             report = report\<lparr>ar_FinalScore := (if deps \<noteq> [] then min (ar_SelfScore report) minDepScore else ar_SelfScore report)\<rparr>
         in (report, st\<lparr>st_scores := cache_score holonID (ar_FinalScore report) (st_scores st)\<rparr>)))"
| "dependency_loop uni now union_order db [] acc st = (acc, st)"
| "dependency_loop uni now union_order db ((dep, cl) # deps) acc st =
     (case calculateReliabilityWithVisited uni now union_order db dep st of
        (depReport, st') \<Rightarrow> dependency_loop uni now union_order db deps (weaken_by dep cl depReport acc) st')"
  by pat_completeness auto

lemma visited_grows_partial:
  "calculateReliabilityWithVisited_dependency_loop_dom (Inl (uni, now, ord, db, h, st)) \<Longrightarrow>
     st_visited st \<subseteq> st_visited (snd (calculateReliabilityWithVisited uni now ord db h st))"
  "calculateReliabilityWithVisited_dependency_loop_dom (Inr (uni, now, ord, db, ds, acc, st)) \<Longrightarrow>
     st_visited st \<subseteq> st_visited (snd (dependency_loop uni now ord db ds acc st))"
proof (induction rule: calculateReliabilityWithVisited_dependency_loop.pinduct)
  case (1 uni now ord db h st)
  show ?case
  proof (cases "h \<in> st_visited st")
    case False
    then have "insert h (st_visited st) \<subseteq> st_visited (snd (dependency_loop uni now ord db
        (dependencies_of ord db h) (1, self_report uni now db h) (st\<lparr>st_visited := insert h (st_visited st)\<rparr>)))"
      using "1.IH" by simp
    then show ?thesis using False
      by (auto simp: calculateReliabilityWithVisited.psimps[OF "1.hyps"] Let_def split: prod.splits)
  qed (simp add: calculateReliabilityWithVisited.psimps[OF "1.hyps"])
next
  case (2 uni now ord db acc st)
  then show ?case by (simp add: dependency_loop.psimps)
next
  case (3 uni now ord db dep cl deps acc st)
  obtain depReport st' where d: "calculateReliabilityWithVisited uni now ord db dep st = (depReport, st')" by fastforce
  have "st_visited st \<subseteq> st_visited st'" using "3.IH"(1) d by simp
  also have "\<dots> \<subseteq> st_visited (snd (dependency_loop uni now ord db deps (weaken_by dep cl depReport acc) st'))"
    using "3.IH"(2) d by simp
  finally show ?case using d by (simp add: dependency_loop.psimps(2)[OF "3.hyps"])
qed

lemma dependency_related: "dependencies_of ord db h \<noteq> [] \<Longrightarrow> h \<in> related_holons db"
  by (auto simp: dependencies_of_def dependency_rows_def related_holons_def filter_empty_conv
      concat_eq_Nil_conv)

lemma unvisited_shrinks:
  "h \<notin> V \<Longrightarrow> h \<in> related_holons db \<Longrightarrow> card (related_holons db - insert h V) < card (related_holons db - V)"
  by (rule psubset_card_mono) (auto simp: related_holons_def)

lemma unvisited_mono: "V \<subseteq> W \<Longrightarrow> card (related_holons db - W) \<le> card (related_holons db - V)"
  by (rule card_mono) (auto simp: related_holons_def)

termination calculateReliabilityWithVisited
proof (relation "measures [\<lambda>x. case x of Inl (uni, now, ord, db, h, st) \<Rightarrow> card (related_holons db - st_visited st)
        | Inr (uni, now, ord, db, ds, acc, st) \<Rightarrow> card (related_holons db - st_visited st),
      \<lambda>x. case x of Inl (uni, now, ord, db, h, st) \<Rightarrow> 1
        | Inr (uni, now, ord, db, ds, acc, st) \<Rightarrow> 2 * length ds]", goal_cases)
  case (2 uni now ord db h st report deps)
  then show ?case
    using unvisited_shrinks[of h "st_visited st" db] dependency_related[of ord db h]
      unvisited_mono[of "st_visited st" "insert h (st_visited st)" db]
    by (cases "deps = []") (auto simp: le_less)
next
  case (4 uni now ord db dep cl deps acc st depReport st')
  then have "st_visited st \<subseteq> st_visited st'"
    using visited_grows_partial(1)[of uni now ord db dep st] by (metis snd_conv)
  then show ?case using unvisited_mono[of "st_visited st" "st_visited st'" db] by (auto simp: le_less)
qed auto

definition CalculateReliability ::
  "(nat \<Rightarrow> nat) \<Rightarrow> Time \<Rightarrow> row_order \<Rightarrow> assurance_db \<Rightarrow> (string \<times> rat) list \<Rightarrow> string \<Rightarrow>
   AssuranceReport \<times> (string \<times> rat) list"
where
  "CalculateReliability uni now union_order db scores holonID =
     (case calculateReliabilityWithVisited uni now union_order db holonID \<lparr>st_visited = {}, st_scores = scores\<rparr> of
        (report, st) \<Rightarrow> (report, st_scores st))"

end
