(* ===== verification/ReliabilityLaws.thy ===== *)
theory ReliabilityLaws
  imports Reliability
begin

text \<open>
  The weakest link over a graph of dependencies: the depth-first evaluation visits every holon the
  first one depends on, and its score is below the evidence of all of them.
\<close>

declare calculateReliabilityWithVisited.simps [simp del]

definition self_score :: "(nat \<Rightarrow> nat) \<Rightarrow> Time \<Rightarrow> assurance_db \<Rightarrow> string \<Rightarrow> rat" where
  "self_score uni now db holonID = ar_SelfScore (self_report uni now db holonID)"

definition unit_score :: "rat \<Rightarrow> bool" where
  "unit_score x \<longleftrightarrow> is_double x \<and> 0 \<le> x \<and> x \<le> 1"

lemma unit_scores [simp]: "unit_score 0" "unit_score 1"
  by (simp_all add: unit_score_def)

lemma unit_score_min: "unit_score x \<Longrightarrow> unit_score y \<Longrightarrow> unit_score (min x y)"
  by (simp add: min_def)

lemma unit_hundredths: "0 \<le> n \<Longrightarrow> n \<le> 100 \<Longrightarrow> unit_score (hundredths n)"
  using hundredths_unit[of n] by (simp add: unit_score_def) (simp add: hundredths_def)

lemma row_score_unit: "unit_score (row_score uni now row)"
proof -
  have "row_score uni now row = hundredths (if row_expired now row then 10 else
      score_hundredths uni (er_type row) (er_verdict row) (row_level uni row) (coalesce (er_valid_until row) []) now)"
    unfolding row_score_def typed_score by (simp add: hundredths_def)
  then show ?thesis using score_range[of uni "er_type row" "er_verdict row" "row_level uni row"] by (simp add: unit_hundredths)
qed

lemma fold_least_unit: "unit_score m \<Longrightarrow> (\<And>x. unit_score (f x)) \<Longrightarrow> unit_score (fold (\<lambda>x m. if f x < m then f x else m) xs m)"
  by (induction xs arbitrary: m) simp_all

lemma self_score_unit: "unit_score (self_score uni now db h)"
  by (simp add: self_score_def self_report_def Let_def empty_report_def fold_least_unit row_score_unit)

lemma penalty_nonneg: "0 \<le> calculateCLPenalty cl"
  by (simp add: calculateCLPenalty_def round_double_nonneg)

text \<open>Passing a score on to a dependent never raises it.\<close>

lemma effective_score:
  assumes "unit_score x"
  shows "max 0 (round_double (x - calculateCLPenalty cl)) \<le> x" "unit_score (max 0 (round_double (x - calculateCLPenalty cl)))"
proof -
  have "round_double (x - calculateCLPenalty cl) \<le> x"
    using assms penalty_nonneg[of cl] by (intro round_double_le) (simp_all add: unit_score_def)
  then show "max 0 (round_double (x - calculateCLPenalty cl)) \<le> x" using assms by (simp add: unit_score_def)
  then show "unit_score (max 0 (round_double (x - calculateCLPenalty cl)))"
    using assms by (auto simp: unit_score_def is_double_minmax)
qed

lemma weaken_by_score:
  assumes "unit_score (ar_FinalScore d)" "unit_score (fst acc)"
  shows "unit_score (fst (weaken_by dep cl d acc))" "fst (weaken_by dep cl d acc) \<le> fst acc"
    "fst (weaken_by dep cl d acc) \<le> ar_FinalScore d"
    "ar_SelfScore (snd (weaken_by dep cl d acc)) = ar_SelfScore (snd acc)"
  using assms(2) effective_score[OF assms(1), of cl] by (auto simp: weaken_by_def Let_def split: prod.splits)

section \<open>The evaluation\<close>

definition dependency_ids :: "row_order \<Rightarrow> assurance_db \<Rightarrow> string \<Rightarrow> string set" where
  "dependency_ids ord db h = fst ` set (dependencies_of ord db h)"

text \<open>
  What an evaluation from the visited holons \<open>V\<close> to \<open>W\<close> with the score \<open>x\<close> achieves: the new holons
  have all their dependencies visited, and none has weaker evidence than \<open>x\<close>.
\<close>

definition covers_new :: "(nat \<Rightarrow> nat) \<Rightarrow> Time \<Rightarrow> row_order \<Rightarrow> assurance_db \<Rightarrow> string set \<Rightarrow> string set \<Rightarrow> rat \<Rightarrow> bool" where
  "covers_new uni now ord db V W x \<longleftrightarrow>
     V \<subseteq> W \<and> (\<forall>h\<in>W - V. dependency_ids ord db h \<subseteq> W \<and> x \<le> self_score uni now db h)"

lemma covers_new_trans:
  "covers_new uni now ord db U V x \<Longrightarrow> covers_new uni now ord db V W y \<Longrightarrow> z \<le> x \<Longrightarrow> z \<le> y \<Longrightarrow>
     covers_new uni now ord db U W z"
  unfolding covers_new_def by (auto 4 3 intro: order_trans)

lemma evaluation_covers:
  "unit_score (ar_FinalScore (fst (calculateReliabilityWithVisited uni now ord db h st)))
     \<and> h \<in> st_visited (snd (calculateReliabilityWithVisited uni now ord db h st))
     \<and> covers_new uni now ord db (st_visited st) (st_visited (snd (calculateReliabilityWithVisited uni now ord db h st)))
         (ar_FinalScore (fst (calculateReliabilityWithVisited uni now ord db h st)))"
  "unit_score (fst acc) \<Longrightarrow>
     unit_score (fst (fst (dependency_loop uni now ord db ds acc st)))
     \<and> fst (fst (dependency_loop uni now ord db ds acc st)) \<le> fst acc
     \<and> ar_SelfScore (snd (fst (dependency_loop uni now ord db ds acc st))) = ar_SelfScore (snd acc)
     \<and> fst ` set ds \<subseteq> st_visited (snd (dependency_loop uni now ord db ds acc st))
     \<and> covers_new uni now ord db (st_visited st) (st_visited (snd (dependency_loop uni now ord db ds acc st)))
         (fst (fst (dependency_loop uni now ord db ds acc st)))"
proof (induction uni now ord db h st and uni now ord db ds acc st rule: calculateReliabilityWithVisited_dependency_loop.induct)
  case (1 uni now ord db h st)
  show ?case
  proof (cases "h \<in> st_visited st")
    case True
    then show ?thesis by (simp add: calculateReliabilityWithVisited.simps covers_new_def)
  next
    case False
    let ?deps = "dependencies_of ord db h"
    obtain m rep st1 where loop: "dependency_loop uni now ord db ?deps (1, self_report uni now db h)
        (st\<lparr>st_visited := insert h (st_visited st)\<rparr>) = ((m, rep), st1)" by (metis prod.collapse)
    have ih: "unit_score m" "ar_SelfScore rep = self_score uni now db h" "fst ` set ?deps \<subseteq> st_visited st1"
      "covers_new uni now ord db (insert h (st_visited st)) (st_visited st1) m"
      using "1.IH"[OF False refl refl] loop by (simp_all add: self_score_def)
    define x where "x = (if ?deps \<noteq> [] then min (ar_SelfScore rep) m else ar_SelfScore rep)"
    have res: "ar_FinalScore (fst (calculateReliabilityWithVisited uni now ord db h st)) = x"
      "st_visited (snd (calculateReliabilityWithVisited uni now ord db h st)) = st_visited st1"
      using False loop by (simp_all add: calculateReliabilityWithVisited.simps x_def Let_def)
    have unit: "unit_score x" using ih(1) self_score_unit[of uni now db h] by (simp add: x_def ih(2) unit_score_min)
    have "covers_new uni now ord db (st_visited st) (st_visited st1) x"
    proof (cases "?deps = []")
      case True
      then have "st1 = st\<lparr>st_visited := insert h (st_visited st)\<rparr>" using loop by simp
      then have "st_visited st1 = insert h (st_visited st)" by simp
      moreover have "x = self_score uni now db h" using True ih(2) by (simp add: x_def)
      moreover have "dependency_ids ord db h = {}" using True by (simp add: dependency_ids_def)
      ultimately show ?thesis unfolding covers_new_def by auto
    next
      case False
      then have "x \<le> m" "x \<le> self_score uni now db h" by (simp_all add: x_def ih(2))
      moreover have "dependency_ids ord db h \<subseteq> st_visited st1" using ih(3) by (simp add: dependency_ids_def)
      ultimately show ?thesis using ih(4) unfolding covers_new_def by (auto intro: order_trans)
    qed
    moreover have "h \<in> st_visited st1" using ih(4) by (auto simp: covers_new_def)
    ultimately show ?thesis using unit unfolding res by blast
  qed
next
  case (2 uni now ord db acc st)
  then show ?case by (simp add: covers_new_def)
next
  case (3 uni now ord db dep cl deps acc st)
  obtain d st1 where d: "calculateReliabilityWithVisited uni now ord db dep st = (d, st1)" by fastforce
  have ih: "unit_score (ar_FinalScore d)" "dep \<in> st_visited st1"
    "covers_new uni now ord db (st_visited st) (st_visited st1) (ar_FinalScore d)"
    using "3.IH"(1) d by simp_all
  note w = weaken_by_score[OF ih(1) "3.prems", of dep cl]
  let ?acc = "weaken_by dep cl d acc"
  have rec: "unit_score (fst (fst (dependency_loop uni now ord db deps ?acc st1)))"
    "fst (fst (dependency_loop uni now ord db deps ?acc st1)) \<le> fst ?acc"
    "ar_SelfScore (snd (fst (dependency_loop uni now ord db deps ?acc st1))) = ar_SelfScore (snd ?acc)"
    "fst ` set deps \<subseteq> st_visited (snd (dependency_loop uni now ord db deps ?acc st1))"
    "covers_new uni now ord db (st_visited st1) (st_visited (snd (dependency_loop uni now ord db deps ?acc st1)))
       (fst (fst (dependency_loop uni now ord db deps ?acc st1)))"
    using "3.IH"(2)[OF d[symmetric] w(1)] by blast+
  have step: "dependency_loop uni now ord db ((dep, cl) # deps) acc st = dependency_loop uni now ord db deps ?acc st1"
    by (simp add: d)
  have "covers_new uni now ord db (st_visited st) (st_visited (snd (dependency_loop uni now ord db deps ?acc st1)))
      (fst (fst (dependency_loop uni now ord db deps ?acc st1)))"
    using rec(2) w(3) by (intro covers_new_trans[OF ih(3) rec(5)]) simp_all
  moreover have "dep \<in> st_visited (snd (dependency_loop uni now ord db deps ?acc st1))"
    using ih(2) rec(5) by (auto simp: covers_new_def)
  ultimately show ?case using rec w(2,4) unfolding step by (auto intro: order_trans)
qed

section \<open>What holds of every evaluation\<close>

definition depends_on :: "assurance_db \<Rightarrow> string \<Rightarrow> string \<Rightarrow> bool" where
  "depends_on db h d \<longleftrightarrow> (\<exists>cl. (d, Some cl) \<in> set (dependency_rows db h))"

lemma dependency_ids_iff: "faithful ord \<Longrightarrow> d \<in> dependency_ids ord db h \<longleftrightarrow> depends_on db h d"
  by (force simp: faithful_def dependency_ids_def dependencies_of_def depends_on_def image_iff
      split: option.splits)

lemma reached_visited:
  assumes "faithful ord" "covers_new uni now ord db {} W x" "(depends_on db)\<^sup>*\<^sup>* h d" "h \<in> W"
  shows "d \<in> W \<and> x \<le> self_score uni now db d"
  using assms(3)
proof induction
  case base
  then show ?case using assms(2,4) by (simp add: covers_new_def)
next
  case (step d e)
  then have "e \<in> dependency_ids ord db d" using assms(1) by (simp add: dependency_ids_iff)
  then have "e \<in> W" using step.IH assms(2) by (auto simp: covers_new_def)
  then show ?case using assms(2) by (simp add: covers_new_def)
qed

text \<open>
  C36. However the dependencies are connected, cycles included, and in whatever order the database
  lists them, the score of a holon is at most the score that the own evidence of any holon it depends
  on, directly or through others, gives. It can still be above the score of such a holon, which its
  own dependencies may lower further (lemma \<open>dependent_above_dependency\<close>).
\<close>

theorem dependency_evidence_bounds:
  assumes "faithful union_order" "(depends_on db)\<^sup>*\<^sup>* holonID d"
  shows "ar_FinalScore (fst (CalculateReliability uni now union_order db scores holonID)) \<le> self_score uni now db d"
proof -
  let ?c = "calculateReliabilityWithVisited uni now union_order db holonID \<lparr>st_visited = {}, st_scores = scores\<rparr>"
  have "covers_new uni now union_order db {} (st_visited (snd ?c)) (ar_FinalScore (fst ?c))"
    "holonID \<in> st_visited (snd ?c)"
    using evaluation_covers(1)[where st = "\<lparr>st_visited = {}, st_scores = scores\<rparr>"] by auto
  then have "ar_FinalScore (fst ?c) \<le> self_score uni now db d"
    using reached_visited[OF assms(1) _ assms(2)] by blast
  then show ?thesis by (simp add: CalculateReliability_def split_beta)
qed

text \<open>What the table of holons holds: an evaluation keeps a score or writes one between 0 and 1.\<close>

definition scores_updated :: "(string \<times> rat) list \<Rightarrow> (string \<times> rat) list \<Rightarrow> bool" where
  "scores_updated = list_all2 (\<lambda>(id, s) (id', s'). id' = id \<and> (s' = s \<or> (0 \<le> s' \<and> s' \<le> 1)))"

lemma scores_updated_refl [simp]: "scores_updated scores scores"
  by (auto simp: scores_updated_def intro: list_all2_refl)

lemma scores_updated_trans: "scores_updated a b \<Longrightarrow> scores_updated b c \<Longrightarrow> scores_updated a c"
  by (simp add: scores_updated_def list_all2_conv_all_nth split_beta) metis

lemma cache_score_updated: "0 \<le> x \<Longrightarrow> x \<le> 1 \<Longrightarrow> scores_updated scores (cache_score h x scores)"
  by (auto simp: scores_updated_def cache_score_def list_all2_conv_all_nth split: prod.split)

lemma evaluation_scores:
  "scores_updated (st_scores st) (st_scores (snd (calculateReliabilityWithVisited uni now ord db h st)))"
  "unit_score (fst acc) \<Longrightarrow> scores_updated (st_scores st) (st_scores (snd (dependency_loop uni now ord db ds acc st)))"
proof (induction uni now ord db h st and uni now ord db ds acc st rule: calculateReliabilityWithVisited_dependency_loop.induct)
  case (1 uni now ord db h st)
  show ?case
  proof (cases "h \<in> st_visited st")
    case True
    then show ?thesis by (simp add: calculateReliabilityWithVisited.simps)
  next
    case False
    obtain m rep st1 where loop: "dependency_loop uni now ord db (dependencies_of ord db h) (1, self_report uni now db h)
        (st\<lparr>st_visited := insert h (st_visited st)\<rparr>) = ((m, rep), st1)" by (metis prod.collapse)
    obtain x where res: "st_scores (snd (calculateReliabilityWithVisited uni now ord db h st)) = cache_score h x (st_scores st1)"
      "ar_FinalScore (fst (calculateReliabilityWithVisited uni now ord db h st)) = x"
      using False loop by (simp add: calculateReliabilityWithVisited.simps Let_def)
    have "unit_score x" using evaluation_covers(1)[of uni now ord db h st] res(2) by simp
    then have "scores_updated (st_scores st1) (cache_score h x (st_scores st1))"
      by (simp add: cache_score_updated unit_score_def)
    moreover have "scores_updated (st_scores st) (st_scores st1)"
      using "1.IH"[OF False refl refl] loop by (simp add: unit_score_def)
    ultimately show ?thesis unfolding res(1) using scores_updated_trans by blast
  qed
next
  case (2 uni now ord db acc st)
  then show ?case by simp
next
  case (3 uni now ord db dep cl deps acc st)
  obtain d st1 where d: "calculateReliabilityWithVisited uni now ord db dep st = (d, st1)" by fastforce
  have "unit_score (ar_FinalScore d)" using evaluation_covers(1)[of uni now ord db dep st] d by simp
  then have "scores_updated (st_scores st1) (st_scores (snd (dependency_loop uni now ord db deps (weaken_by dep cl d acc) st1)))"
    using "3.IH"(2)[OF d[symmetric] weaken_by_score(1)[OF _ "3.prems"]] by simp
  then show ?case using "3.IH"(1) d scores_updated_trans by auto
qed

text \<open>
  C37. Scores stay between 0 and 1: the score reported, and every score the evaluation writes into the
  table of holons, whose column only admits such values; every other score and the rows stay.
\<close>

theorem reliability_bounds:
  "case CalculateReliability uni now union_order db scores holonID of
     (report, scores') \<Rightarrow>
       0 \<le> ar_FinalScore report \<and> ar_FinalScore report \<le> 1
       \<and> list_all2 (\<lambda>(id, s) (id', s'). id' = id \<and> (s' = s \<or> (0 \<le> s' \<and> s' \<le> 1))) scores scores'"
  using evaluation_covers(1)[of uni now union_order db holonID "\<lparr>st_visited = {}, st_scores = scores\<rparr>"]
    evaluation_scores(1)[of "\<lparr>st_visited = {}, st_scores = scores\<rparr>" uni now union_order db holonID]
  by (simp add: CalculateReliability_def unit_score_def scores_updated_def split_beta)

section \<open>An example\<close>

definition example_row :: "string \<Rightarrow> string \<Rightarrow> evidence_row" where
  "example_row h verdict = \<lparr>er_holon = h, er_type = ''internal'', er_verdict = verdict, er_valid_until = None,
     er_formality = Some 3, er_congruence = Some 3\<rparr>"

definition example_link :: "string \<Rightarrow> string \<Rightarrow> relation_row" where
  "example_link a b = \<lparr>rr_source = a, rr_target = b, rr_type = ''dependsOn'', rr_congruence = Some 3\<rparr>"

definition diamond :: assurance_db where
  "diamond =
     \<lparr>db_evidence = [example_row ''A'' ''supports'', example_row ''B'' ''supports'', example_row ''C'' ''supports'',
                     example_row ''D'' ''refutes''],
      db_relations = [example_link ''A'' ''B'', example_link ''A'' ''C'', example_link ''B'' ''D'', example_link ''C'' ''D'']\<rparr>"

lemma example_scores:
  "row_score (\<lambda>r. r) now (example_row h ''supports'') = 1" "row_score (\<lambda>r. r) now (example_row h ''refutes'') = 0"
proof -
  have "ParseValidUntil [] = None" by (simp add: ParseValidUntil.simps)
  moreover have "word_key (\<lambda>r. r) ''internal'' = ''internal''" "word_key (\<lambda>r. r) ''supports'' = ''supports''"
    "word_key (\<lambda>r. r) ''refutes'' = ''refutes''" by code_simp+
  ultimately show "row_score (\<lambda>r. r) now (example_row h ''supports'') = 1" "row_score (\<lambda>r. r) now (example_row h ''refutes'') = 0"
    by (simp_all add: row_score_def row_expired_def example_row_def coalesce_def typed_score score_hundredths_def
        expired_def row_level_def resolveEvidenceCongruenceLevel_def base_hundredths_def penalty_hundredths_def
        hundredths_exact Let_def)
qed

lemma diamond_evidence:
  "holon_evidence diamond ''A'' = [example_row ''A'' ''supports'']"
  "holon_evidence diamond ''B'' = [example_row ''B'' ''supports'']"
  "holon_evidence diamond ''C'' = [example_row ''C'' ''supports'']"
  "holon_evidence diamond ''D'' = [example_row ''D'' ''refutes'']"
  by (simp_all add: holon_evidence_def diamond_def example_row_def)

lemma diamond_self:
  "self_score (\<lambda>r. r) now diamond ''A'' = 1" "self_score (\<lambda>r. r) now diamond ''B'' = 1"
  "self_score (\<lambda>r. r) now diamond ''C'' = 1" "self_score (\<lambda>r. r) now diamond ''D'' = 0"
  by (simp_all add: self_score_def self_report_def diamond_evidence example_scores empty_report_def)

lemma example_faithful: "faithful (\<lambda>rows. rows)"
  by (simp add: faithful_def)

theorem dependency_evidence_bounds_witness:
  "ar_FinalScore (fst (CalculateReliability (\<lambda>r. r) zero_time (\<lambda>rows. rows) diamond [] ''A'')) \<le> 0"
proof -
  have "depends_on diamond ''A'' ''B''" "depends_on diamond ''B'' ''D''"
    by (auto simp: depends_on_def dependency_rows_def diamond_def example_link_def)
  then have "(depends_on diamond)\<^sup>*\<^sup>* ''A'' ''D''" by (meson converse_rtranclp_into_rtranclp r_into_rtranclp)
  then show ?thesis using dependency_evidence_bounds[OF example_faithful, of diamond "''A''" "''D''" "\<lambda>r. r" zero_time "[]"]
    by (simp add: diamond_self)
qed

text \<open>
  The visited holons are shared by the whole evaluation, so the second holon that depends on one
  already visited takes it for a cycle: its cached score ignores that dependency. Evaluating A, which
  depends on B and C, which both depend on the refuted D, caches the score 1 for C, though C itself
  evaluates to 0.
\<close>

lemma diamond_deps:
  "dependencies_of (\<lambda>rows. rows) diamond ''A'' = [(''B'', 3), (''C'', 3)]"
  "dependencies_of (\<lambda>rows. rows) diamond ''B'' = [(''D'', 3)]"
  "dependencies_of (\<lambda>rows. rows) diamond ''C'' = [(''D'', 3)]"
  "dependencies_of (\<lambda>rows. rows) diamond ''D'' = []"
  by (simp_all add: dependencies_of_def dependency_rows_def diamond_def example_link_def)

lemma keep_score: "weaken_by dep 3 d (m, rep) =
    (if max 0 (round_double (ar_FinalScore d)) < m then (max 0 (round_double (ar_FinalScore d)), rep\<lparr>ar_WeakestLink := dep\<rparr>)
     else (m, rep))"
  by (simp add: weaken_by_def calculateCLPenalty_def)

lemma diamond_cached_too_high:
  "map_of (snd (CalculateReliability (\<lambda>r. r) now (\<lambda>rows. rows) diamond [(''C'', 0)] ''A'')) ''C'' = Some 1"
  "ar_FinalScore (fst (CalculateReliability (\<lambda>r. r) now (\<lambda>rows. rows) diamond [(''C'', 0)] ''C'')) = 0"
proof -
  have one: "round_double 1 = 1" using is_double_01(2) by (simp add: is_double_def)
  note eval = calculateReliabilityWithVisited.simps CalculateReliability_def diamond_deps keep_score Let_def
    diamond_self[unfolded self_score_def] one cache_score_def
  show "map_of (snd (CalculateReliability (\<lambda>r. r) now (\<lambda>rows. rows) diamond [(''C'', 0)] ''A'')) ''C'' = Some 1"
    by (simp add: eval)
  show "ar_FinalScore (fst (CalculateReliability (\<lambda>r. r) now (\<lambda>rows. rows) diamond [(''C'', 0)] ''C'')) = 0"
    by (simp add: eval)
qed

text \<open>
  A score above that of a direct dependency. A depends on B and C, which both depend on D, which
  depends on E; all the evidence is perfect, and the links from C to D and from D to E cross contexts.
  Evaluating A, the penalty of the link from C to D falls on the neutral score of a visited holon;
  evaluating C, it falls on a score already lowered.
\<close>

definition crossing :: assurance_db where
  "crossing =
     \<lparr>db_evidence = map (\<lambda>h. example_row h ''supports'') [''A'', ''B'', ''C'', ''D'', ''E''],
      db_relations = [example_link ''A'' ''B'', example_link ''A'' ''C'', example_link ''B'' ''D'',
        (example_link ''C'' ''D'')\<lparr>rr_congruence := Some 1\<rparr>, (example_link ''D'' ''E'')\<lparr>rr_congruence := Some 1\<rparr>]\<rparr>"

lemma crossing_deps:
  "dependencies_of (\<lambda>rows. rows) crossing ''A'' = [(''B'', 3), (''C'', 3)]"
  "dependencies_of (\<lambda>rows. rows) crossing ''B'' = [(''D'', 3)]"
  "dependencies_of (\<lambda>rows. rows) crossing ''C'' = [(''D'', 1)]"
  "dependencies_of (\<lambda>rows. rows) crossing ''D'' = [(''E'', 1)]"
  "dependencies_of (\<lambda>rows. rows) crossing ''E'' = []"
  by (simp_all add: dependencies_of_def dependency_rows_def crossing_def example_link_def)

lemma crossing_self:
  assumes "h \<in> {''A'', ''B'', ''C'', ''D'', ''E''}"
  shows "ar_SelfScore (self_report (\<lambda>r. r) now crossing h) = 1"
proof -
  have "holon_evidence crossing h = [example_row h ''supports'']"
    using assms by (auto simp: holon_evidence_def crossing_def example_row_def)
  then have "self_score (\<lambda>r. r) now crossing h = 1"
    by (simp add: self_score_def self_report_def example_scores empty_report_def)
  then show ?thesis by (simp add: self_score_def)
qed

lemma cross_penalty:
  "weaken_by dep 1 d (m, rep) =
     (let e = max 0 (round_double (ar_FinalScore d - round_double (2 / 5)));
          rep = (if e < m then rep\<lparr>ar_WeakestLink := dep\<rparr> else rep)
      in (min e m, rep\<lparr>ar_Factors := ar_Factors rep @ [''CL Penalty applied for '' @ dep]\<rparr>))"
proof -
  have "0 < round_double (2 / 5 :: rat)" by code_simp
  then show ?thesis by (auto simp: weaken_by_def calculateCLPenalty_def Let_def min_def)
qed

lemma dependent_above_dependency:
  "ar_FinalScore (fst (CalculateReliability (\<lambda>r. r) now (\<lambda>rows. rows) crossing [] ''C''))
     < ar_FinalScore (fst (CalculateReliability (\<lambda>r. r) now (\<lambda>rows. rows) crossing [] ''A''))"
proof -
  define x where "x = round_double (1 - round_double (2 / 5))"
  define y where "y = max 0 (round_double (x - round_double (2 / 5)))"
  have small: "0 \<le> x" "x \<le> 1" "y < x" unfolding x_def y_def by code_simp+
  have dx: "round_double x = x" "round_double 1 = 1" unfolding x_def by (rule round_double_id, simp)+
  note eval = calculateReliabilityWithVisited.simps CalculateReliability_def crossing_deps keep_score cross_penalty Let_def
    crossing_self cache_score_def x_def[symmetric] y_def[symmetric] dx
  have "ar_FinalScore (fst (CalculateReliability (\<lambda>r. r) now (\<lambda>rows. rows) crossing [] ''C'')) = y"
    using small by (simp add: eval)
  moreover have "ar_FinalScore (fst (CalculateReliability (\<lambda>r. r) now (\<lambda>rows. rows) crossing [] ''A'')) = x"
    using small by (simp add: eval)
  ultimately show ?thesis using small(3) by simp
qed

end
