(* ===== verification/AgentEvidence.thy ===== *)
theory AgentEvidence
  imports EvidenceLaws ReasoningCycle
begin

text \<open>
  The evidence an agent session collects (\<open>internal/agent/evidence.go\<close>): explicit evidence counts
  towards the reliability of a cycle, observations of its tool calls do not. The scopes a detail text
  names are its words that look like paths. An \<open>EvidenceType\<close> is its text.
\<close>

section \<open>Types of evidence\<close>

abbreviation "EvidenceMeasure \<equiv> ''explicit_measure''"
abbreviation "EvidencePartial \<equiv> ''partial_measure''"
abbreviation "EvidenceAttached \<equiv> ''attached''"
abbreviation "ObservationTestPass \<equiv> ''obs_test_pass''"
abbreviation "ObservationLintPass \<equiv> ''obs_lint_pass''"
abbreviation "ObservationFileReview \<equiv> ''obs_file_review''"
abbreviation "ObservationExternal \<equiv> ''obs_external''"
abbreviation "ObservationNoVerify \<equiv> ''obs_no_verify''"

definition IsExplicitEvidence :: "string \<Rightarrow> bool" where
  "IsExplicitEvidence t \<longleftrightarrow> t = EvidenceMeasure \<or> t = EvidencePartial \<or> t = EvidenceAttached"

record ChainItem =
  ci_Type :: string
  ci_Detail :: string
  ci_BaseScore :: rat
  ci_CL :: int
  ci_Formality :: int
  ci_ClaimScope :: "string list"
  ci_CapturedAt :: Time

record EvidenceChain =
  ec_Items :: "ChainItem list"
  ec_DecRef :: string
  ec_CycleRef :: string

definition baseScores :: "(string \<times> rat) list" where
  "baseScores =
     [(EvidenceMeasure, round_double (8 / 10)), (EvidencePartial, round_double (5 / 10)),
      (EvidenceAttached, round_double (7 / 10)), (ObservationTestPass, round_double (9 / 10)),
      (ObservationLintPass, round_double (8 / 10)), (ObservationFileReview, round_double (6 / 10)),
      (ObservationExternal, round_double (5 / 10)), (ObservationNoVerify, round_double (2 / 10))]"

text \<open>A level missing from the map costs nothing: the zero value.\<close>

definition clPenalties :: "int \<Rightarrow> rat" where
  "clPenalties cl =
     (if cl = 3 then 0 else if cl = 2 then round_double (1 / 10) else if cl = 1 then round_double (4 / 10)
      else if cl = 0 then round_double (9 / 10) else 0)"

definition inferFormality :: "string \<Rightarrow> int" where
  "inferFormality typ =
     (if typ \<in> {EvidenceMeasure, EvidencePartial} then 2
      else if typ \<in> {EvidenceAttached, ObservationTestPass, ObservationLintPass} then 1
      else 0)"

section \<open>Scopes\<close>

definition containsLetter :: "string \<Rightarrow> bool" where
  "containsLetter token = list_ex (\<lambda>c. byte_in 97 122 c \<or> byte_in 65 90 c) token"

definition source_suffixes :: "string list" where
  "source_suffixes =
     [''.go'', ''.ts'', ''.tsx'', ''.js'', ''.jsx'', ''.py'', ''.rs'', ''.java'', ''.c'', ''.cc'', ''.cpp'', ''.h'']"

definition looksLikeScope :: "string \<Rightarrow> bool" where
  "looksLikeScope token =
     (if token = [] then False
      else if prefix ''-'' token then False
      else if prefix ''/'' token then True
      else if prefix ''../'' token then True
      else if slash \<in> set token then containsLetter token
      else list_ex (\<lambda>ext. suffix ext token) source_suffixes)"

definition trim_bytes :: "string \<Rightarrow> string \<Rightarrow> string" where
  "trim_bytes cutset s = trim_right_bytes cutset (dropWhile (\<lambda>c. c \<in> set cutset) s)"

definition scope_punctuation :: string where
  "scope_punctuation = [CHR 0x22, CHR 0x27, CHR 0x60] @ '',:;()[]{}''"

definition normalizeScopeToken :: "string \<Rightarrow> string" where
  "normalizeScopeToken raw =
     (let trimmed = trim_bytes scope_punctuation (trim_space raw)
      in if trimmed = [] then []
         else if sublist ''://'' trimmed then []
         else (let cleaned = trim_prefix ''./'' (path_clean trimmed)
               in if cleaned = ''.'' then [] else cleaned))"

definition extractClaimScopes :: "string \<Rightarrow> string list" where
  "extractClaimScopes detail = dedup_from {} (filter looksLikeScope (map normalizeScopeToken (Fields detail)))"

definition inferClaimScope :: "string \<Rightarrow> string \<Rightarrow> string list" where
  "inferClaimScope typ detail =
     (if typ \<in> {EvidenceMeasure, EvidencePartial, EvidenceAttached, ObservationTestPass, ObservationLintPass,
                ObservationFileReview}
      then extractClaimScopes detail else [])"

definition NewEvidenceItem :: "Time \<Rightarrow> string \<Rightarrow> string \<Rightarrow> int \<Rightarrow> ChainItem" where
  "NewEvidenceItem now typ detail cl =
     \<lparr>ci_Type = typ, ci_Detail = detail,
      ci_BaseScore = (case map_of baseScores typ of Some score \<Rightarrow> score | None \<Rightarrow> round_double (2 / 10)),
      ci_CL = cl, ci_Formality = inferFormality typ, ci_ClaimScope = inferClaimScope typ detail,
      ci_CapturedAt = now\<rparr>"

section \<open>The assurance of a chain\<close>

definition effectiveScore :: "ChainItem \<Rightarrow> rat" where
  "effectiveScore item = max 0 (round_double (ci_BaseScore item - clPenalties (ci_CL item)))"

definition explicit_items :: "EvidenceChain \<Rightarrow> ChainItem list" where
  "explicit_items chain = filter (\<lambda>item. IsExplicitEvidence (ci_Type item)) (ec_Items chain)"

definition ComputeREff :: "EvidenceChain option \<Rightarrow> rat" where
  "ComputeREff chain =
     (case chain of
        None \<Rightarrow> 0
      | Some c \<Rightarrow>
          if ec_Items c = [] then 0
          else (let minScore = fold (\<lambda>item m. if effectiveScore item < m then effectiveScore item else m) (explicit_items c) 1
                in if explicit_items c = [] then 0 else round_hundredths minScore))"

definition ComputeFEff :: "EvidenceChain option \<Rightarrow> int" where
  "ComputeFEff chain =
     (case chain of
        None \<Rightarrow> 0
      | Some c \<Rightarrow>
          if ec_Items c = [] then 0
          else (let minFormality = fold (\<lambda>item m. if ci_Formality item < m then ci_Formality item else m) (explicit_items c) 3
                in if explicit_items c = [] then 0 else minFormality))"

definition ComputeGEff :: "EvidenceChain option \<Rightarrow> string list" where
  "ComputeGEff chain =
     (case chain of
        None \<Rightarrow> []
      | Some c \<Rightarrow>
          sort (dedup_from {} (filter (\<lambda>scope. scope \<noteq> []) (concat (map ci_ClaimScope (explicit_items c))))))"

record ChainAssurance =
  cs_F :: int
  cs_G :: "string list"
  cs_R :: rat

definition ComputeAssurance :: "EvidenceChain option \<Rightarrow> ChainAssurance" where
  "ComputeAssurance chain = \<lparr>cs_F = ComputeFEff chain, cs_G = ComputeGEff chain, cs_R = ComputeREff chain\<rparr>"

definition ObservationCount :: "EvidenceChain option \<Rightarrow> nat" where
  "ObservationCount chain =
     (case chain of None \<Rightarrow> 0 | Some c \<Rightarrow> length (filter (\<lambda>item. \<not> IsExplicitEvidence (ci_Type item)) (ec_Items c)))"

section \<open>Observations of tool calls\<close>

text \<open>The first \<open>limit\<close> runes of a text; a text of at most that many runes stays as it is.\<close>

fun rune_bytes :: "nat \<Rightarrow> string \<Rightarrow> string" where
  "rune_bytes 0 s = []"
| "rune_bytes (Suc n) s =
     (if s = [] then [] else (let (r, w) = decode_rune s in encode_rune r @ rune_bytes n (drop w s)))"

function rune_count :: "string \<Rightarrow> nat" where
  "rune_count s = (if s = [] then 0 else Suc (rune_count (drop (snd (decode_rune s)) s)))"
  by pat_completeness auto
termination
proof (relation "measure length")
  fix s :: string
  assume "s \<noteq> []"
  then show "(drop (snd (decode_rune s)) s, s) \<in> measure length" using drop_rune_shorter[of s] by simp
qed simp

declare rune_count.simps [simp del]

definition truncateDetail :: "string \<Rightarrow> nat \<Rightarrow> string" where
  "truncateDetail s limit = (if rune_count s \<le> limit then s else rune_bytes limit s)"

definition DetectObservationFromTool ::
  "(nat \<Rightarrow> nat) \<Rightarrow> Time \<Rightarrow> string \<Rightarrow> string \<Rightarrow> bool \<Rightarrow> ChainItem option"
where
  "DetectObservationFromTool uni now toolName args isError =
     (let mentions = (\<lambda>words. list_ex (\<lambda>w. sublist w (ToLower uni args)) words)
      in if toolName = ''bash'' then
           (if mentions [''test'', ''pytest'', ''jest'', ''cargo test''] \<and> \<not> isError
            then Some (NewEvidenceItem now ObservationTestPass (truncateDetail args 100) 3)
            else if mentions [''lint'', ''vet'', ''eslint'', ''golangci''] \<and> \<not> isError
            then Some (NewEvidenceItem now ObservationLintPass (truncateDetail args 100) 3)
            else None)
         else if toolName = ''read'' then Some (NewEvidenceItem now ObservationFileReview (truncateDetail args 100) 3)
         else if toolName = ''fetch'' then Some (NewEvidenceItem now ObservationExternal (truncateDetail args 100) 1)
         else None)"

section \<open>The two score engines\<close>

lemma math_round_mono: "0 \<le> x \<Longrightarrow> x \<le> y \<Longrightarrow> math_round x \<le> math_round y"
  by (auto simp: math_round_def intro: floor_mono)

lemma round_hundredths_mono: "0 \<le> x \<Longrightarrow> x \<le> y \<Longrightarrow> round_hundredths x \<le> round_hundredths y"
  unfolding round_hundredths_def
  by (intro round_double_mono divide_right_mono rat_le math_round_mono round_double_nonneg mult_right_mono) simp_all

text \<open>Rounding the least of a list is the least of the rounded list.\<close>

lemma round_least:
  assumes "items \<noteq> []" "\<And>x. 0 \<le> f x" "\<And>x. f x \<le> 1"
  shows "round_hundredths (fold (\<lambda>x m. if f x < m then f x else m) items 1) = Min ((\<lambda>x. round_hundredths (f x)) ` set items)"
proof -
  have fold: "fold (\<lambda>x m. if f x < m then f x else m) xs m = Min (insert m (f ` set xs))" for xs m
  proof (induction xs arbitrary: m)
    case (Cons x xs)
    have "Min (insert (if f x < m then f x else m) (f ` set xs)) = Min (insert m (insert (f x) (f ` set xs)))"
      by (cases "xs = []") (auto simp: min_def)
    then show ?case by (simp add: Cons.IH)
  qed simp
  have in_items: "Min (f ` set items) \<in> f ` set items" using assms(1) by (intro Min_in) simp_all
  then have "Min (f ` set items) \<le> 1" using assms(3) by auto
  then have "Min (insert 1 (f ` set items)) = Min (f ` set items)" using assms(1) by (simp add: min_absorb2)
  moreover obtain x where x: "x \<in> set items" "Min (f ` set items) = f x" using in_items by auto
  moreover have "Min ((\<lambda>x. round_hundredths (f x)) ` set items) = round_hundredths (f x)"
  proof (rule Min_eqI)
    fix y assume "y \<in> (\<lambda>x. round_hundredths (f x)) ` set items"
    then obtain z where z: "z \<in> set items" "y = round_hundredths (f z)" by auto
    then have "f x \<le> f z" using x(2) Min_le[of "f ` set items" "f z"] by simp
    then show "round_hundredths (f x) \<le> y" unfolding z(2) by (rule round_hundredths_mono[OF assms(2)])
  qed (use x in auto)
  ultimately show ?thesis by (simp add: fold)
qed

definition chain_of :: "Time \<Rightarrow> (string \<times> string \<times> int) list \<Rightarrow> EvidenceChain" where
  "chain_of now entries =
     \<lparr>ec_Items = map (\<lambda>(typ, detail, cl). NewEvidenceItem now typ detail cl) entries, ec_DecRef = [], ec_CycleRef = []\<rparr>"

lemma explicit_score:
  assumes "IsExplicitEvidence typ" "0 \<le> cl" "cl \<le> 3"
  shows "round_hundredths (effectiveScore (NewEvidenceItem now typ detail cl)) = ScoreTypedEvidence uni typ ''supports'' cl [] now"
proof -
  have half: "round_double (1 / 2) = 1 / 2" using hundredths_exact(2) by (simp add: hundredths_def)
  have words: "word_key uni EvidenceMeasure = EvidenceMeasure" "word_key uni EvidencePartial = EvidencePartial"
    "word_key uni EvidenceAttached = EvidenceAttached" "word_key uni ''supports'' = ''supports''"
    by (simp_all add: word_key_def plain_char_def ToLower_def is_ascii_def lower_def lower_char_def byte_in_def)
  have "clPenalties cl = CLPenalty cl" using assms(2,3) by (auto simp: clPenalties_def CLPenalty_def)
  moreover have "ci_BaseScore (NewEvidenceItem now typ detail cl) = TypedVerdictToScore uni typ ''supports''"
    using assms(1) unfolding IsExplicitEvidence_def
  proof (elim disjE)
    assume "typ = EvidenceMeasure"
    then show ?thesis using words(1) by (simp add: NewEvidenceItem_def baseScores_def TypedVerdictToScore_def)
  next
    assume "typ = EvidencePartial"
    then show ?thesis using words(2) half by (simp add: NewEvidenceItem_def baseScores_def TypedVerdictToScore_def)
  next
    assume "typ = EvidenceAttached"
    then show ?thesis using words(3,4)
      by (simp add: NewEvidenceItem_def baseScores_def TypedVerdictToScore_def attachedVerdictScore_def)
  qed
  moreover have "ParseValidUntil [] = None" by (simp add: ParseValidUntil.simps)
  ultimately show ?thesis
    by (simp add: effectiveScore_def ScoreTypedEvidence_def NewEvidenceItem_def Let_def)
qed

lemma effective_unit: "0 \<le> effectiveScore (NewEvidenceItem now typ detail cl)" "effectiveScore (NewEvidenceItem now typ detail cl) \<le> 1"
proof -
  have base: "ci_BaseScore (NewEvidenceItem now typ detail cl) \<le> 1"
  proof (cases "map_of baseScores typ")
    case None
    then show ?thesis by (simp add: NewEvidenceItem_def round_double_le)
  next
    case (Some x)
    have "list_all (\<lambda>(t, x). x \<le> 1) baseScores" by (simp add: baseScores_def round_double_le)
    then show ?thesis using map_of_SomeD[OF Some] Some by (auto simp: NewEvidenceItem_def list_all_iff)
  qed
  have "0 \<le> clPenalties cl" by (simp add: clPenalties_def round_double_nonneg)
  then have "round_double (ci_BaseScore (NewEvidenceItem now typ detail cl) - clPenalties cl) \<le> 1"
    using base by (intro round_double_le) simp_all
  then show "effectiveScore (NewEvidenceItem now typ detail cl) \<le> 1" by (simp add: effectiveScore_def NewEvidenceItem_def)
qed (simp add: effectiveScore_def)

text \<open>
  The session and the evidence engine agree: the reliability of a chain of recorded items is the
  least score \<open>reff\<close> gives its explicit items as supporting evidence without a date of expiry, and 0
  when nothing explicit was recorded; observations never count. This holds for the congruence levels
  0 to 3; a level outside them costs nothing here and the full penalty there.
\<close>

theorem session_reliability_agrees:
  assumes levels: "list_all (\<lambda>(typ, detail, cl). 0 \<le> cl \<and> cl \<le> 3) entries"
  shows "ComputeREff (Some (chain_of now entries)) =
     (let explicit = filter (\<lambda>(typ, detail, cl). IsExplicitEvidence typ) entries
      in if explicit = [] then 0
         else Min (set (map (\<lambda>(typ, detail, cl). ScoreTypedEvidence uni typ ''supports'' cl [] now) explicit)))"
proof -
  define explicit where "explicit = filter (\<lambda>(typ, detail, cl). IsExplicitEvidence typ) entries"
  define new where "new = (\<lambda>(typ, detail, cl). NewEvidenceItem now typ detail cl)"
  have items: "explicit_items (chain_of now entries) = map new explicit"
    by (simp add: explicit_items_def chain_of_def explicit_def new_def filter_map comp_def split_def NewEvidenceItem_def)
  show ?thesis
  proof (cases "explicit = []")
    case True
    then show ?thesis using items by (simp add: ComputeREff_def explicit_def[symmetric])
  next
    case False
    then have "ec_Items (chain_of now entries) \<noteq> []" by (auto simp: chain_of_def explicit_def)
    then have "ComputeREff (Some (chain_of now entries)) =
        round_hundredths (fold (\<lambda>e m. if effectiveScore (new e) < m then effectiveScore (new e) else m) explicit 1)"
      using False items by (simp add: ComputeREff_def fold_map comp_def)
    also have "\<dots> = Min ((\<lambda>e. round_hundredths (effectiveScore (new e))) ` set explicit)"
      using False effective_unit by (intro round_least) (auto simp: new_def split: prod.split)
    also have "(\<lambda>e. round_hundredths (effectiveScore (new e))) ` set explicit
        = set (map (\<lambda>(typ, detail, cl). ScoreTypedEvidence uni typ ''supports'' cl [] now) explicit)"
      using levels by (auto simp: explicit_def new_def list_all_iff explicit_score intro!: image_cong)
    finally show ?thesis using False by (simp add: explicit_def[symmetric] Let_def)
  qed
qed

theorem session_reliability_agrees_witness:
  "ComputeREff (Some (chain_of zero_time [(EvidenceMeasure, ''go test'', 2), (ObservationNoVerify, [], 0)]))
   = ScoreTypedEvidence (\<lambda>r. r) EvidenceMeasure ''supports'' 2 [] zero_time"
  using session_reliability_agrees[of "[(EvidenceMeasure, ''go test'', 2), (ObservationNoVerify, [], 0)]" zero_time "\<lambda>r. r"]
  by (simp add: IsExplicitEvidence_def)

end
