(* ===== verification/HarnessPlan.thy ===== *)
theory HarnessPlan
  imports ImplPlan GoText
begin

text \<open>
  Plans the operator builds on the command line (\<open>internal/cli/harness.go\<close>, \<open>commission.go\<close>): the
  decision refs and the flags \<open>--depend\<close> and \<open>--sequential\<close> become an implementation plan, which
  \<open>implementationplan\<close> parses before it is used. The flags are records; what git answers to
  \<open>rev-parse\<close> is an argument, as is the id the clock generates. The YAML file itself is not modelled.
\<close>

section \<open>Parameters of the command line\<close>

record commission_flags =
  fl_RepoRef :: string
  fl_BaseSHA :: string
  fl_TargetBranch :: string
  fl_AllowedPaths :: "string list"
  fl_ForbiddenPaths :: "string list"
  fl_AllowedActions :: "string list"
  fl_AffectedFiles :: "string list"
  fl_AllowedModules :: "string list"
  fl_Lockset :: "string list"
  fl_Evidence :: "string list"
  fl_ProjectionPolicy :: string
  fl_DeliveryPolicy :: string
  fl_State :: string
  fl_ValidFor :: string
  fl_ValidUntil :: string
  fl_SliceDescription :: string

record plan_flags =
  pf_ID :: string
  pf_Title :: string
  pf_Revision :: string
  pf_Sequential :: bool
  pf_Dependencies :: "string list"

definition stringsToAnySlice :: "string list \<Rightarrow> gval list" where
  "stringsToAnySlice values = map GStr (clean_strings values)"

text \<open>\<open>filepath.Base\<close>: the last element of a path, without trailing slashes.\<close>

definition path_base :: "string \<Rightarrow> string" where
  "path_base path =
     (let body = trim_right_bytes [slash] path
      in if path = [] then ''.''
         else if body = [] then [slash]
         else rev (takeWhile (\<lambda>c. c \<noteq> slash) (rev body)))"

text \<open>\<open>head\<close> and \<open>branch\<close> are what git answers.\<close>

definition commissionPlanBaseParams ::
  "commission_flags \<Rightarrow> string result \<Rightarrow> string result \<Rightarrow> string \<Rightarrow> payload \<Rightarrow> payload result"
where
  "commissionPlanBaseParams flags head branch projectRoot plan =
     (let repoRef = fl_RepoRef flags;
          repoRef = (if trim_space repoRef = [] then stringField plan ''repo_ref'' else repoRef);
          repoRef = (if trim_space repoRef = [] then ''local:'' @ path_base projectRoot else repoRef);
          baseSHA = fl_BaseSHA flags;
          baseSHA = (if trim_space baseSHA = [] then stringField plan ''base_sha'' else baseSHA);
          targetBranch = fl_TargetBranch flags;
          targetBranch = (if trim_space targetBranch = [] then stringField plan ''target_branch'' else targetBranch)
      in case (if trim_space baseSHA = [] then head else Inr baseSHA) of
           Inl e \<Rightarrow> Inl (''resolve --base-sha from git: '' @ e)
         | Inr baseSHA \<Rightarrow>
             (case (if trim_space targetBranch = [] then branch else Inr targetBranch) of
                Inl e \<Rightarrow> Inl (''resolve --target-branch from git: '' @ e)
              | Inr targetBranch \<Rightarrow>
                  Inr [(''project_root'', GStr projectRoot),
                       (''repo_ref'', GStr repoRef),
                       (''base_sha'', GStr baseSHA),
                       (''target_branch'', GStr targetBranch),
                       (''allowed_paths'', GArr (stringsToAnySlice (fl_AllowedPaths flags))),
                       (''forbidden_paths'', GArr (stringsToAnySlice (fl_ForbiddenPaths flags))),
                       (''allowed_actions'', GArr (stringsToAnySlice (fl_AllowedActions flags))),
                       (''affected_files'', GArr (stringsToAnySlice (fl_AffectedFiles flags))),
                       (''allowed_modules'', GArr (stringsToAnySlice (fl_AllowedModules flags))),
                       (''lockset'', GArr (stringsToAnySlice (fl_Lockset flags))),
                       (''evidence_requirements'', GArr (stringsToAnySlice (fl_Evidence flags))),
                       (''projection_policy'', GStr (fl_ProjectionPolicy flags)),
                       (''delivery_policy'', GStr (fl_DeliveryPolicy flags)),
                       (''state'', GStr (fl_State flags)),
                       (''valid_for'', GStr (fl_ValidFor flags)),
                       (''valid_until'', GStr (fl_ValidUntil flags)),
                       (''slice_description'', GStr (fl_SliceDescription flags))]))"

text \<open>Without a plan the parameters are those of an empty one.\<close>

definition commissionFromDecisionBaseParams ::
  "commission_flags \<Rightarrow> string result \<Rightarrow> string result \<Rightarrow> string \<Rightarrow> payload result"
where
  "commissionFromDecisionBaseParams flags head branch projectRoot =
     commissionPlanBaseParams flags head branch projectRoot []"

definition commissionFromDecisionCLIParams ::
  "commission_flags \<Rightarrow> string result \<Rightarrow> string result \<Rightarrow> string \<Rightarrow> string \<Rightarrow> payload result"
where
  "commissionFromDecisionCLIParams flags head branch projectRoot decisionRef =
     (case commissionFromDecisionBaseParams flags head branch projectRoot of
        Inl e \<Rightarrow> Inl e
      | Inr base \<Rightarrow> Inr (put ''decision_ref'' (GStr decisionRef) (put ''action'' (GStr ''create_from_decision'') base)))"

definition commissionBatchCLIParams ::
  "commission_flags \<Rightarrow> string result \<Rightarrow> string result \<Rightarrow> string \<Rightarrow> string list \<Rightarrow> payload result"
where
  "commissionBatchCLIParams flags head branch projectRoot decisionRefs =
     (case commissionFromDecisionBaseParams flags head branch projectRoot of
        Inl e \<Rightarrow> Inl e
      | Inr base \<Rightarrow> Inr (put ''decision_refs'' (GArr (stringsToAnySlice decisionRefs))
                       (put ''action'' (GStr ''create_batch_from_decisions'') base)))"

definition commissionFromPlanCLIParams ::
  "commission_flags \<Rightarrow> string result \<Rightarrow> string result \<Rightarrow> string \<Rightarrow> payload \<Rightarrow> payload result"
where
  "commissionFromPlanCLIParams flags head branch projectRoot plan =
     (case commissionPlanBaseParams flags head branch projectRoot plan of
        Inl e \<Rightarrow> Inl e
      | Inr base \<Rightarrow> Inr (put ''plan'' (GMap plan) (put ''action'' (GStr ''create_from_plan'') base)))"

section \<open>The plan file\<close>

record harnessPlanDefaults =
  df_AllowedActions :: "string list"
  df_EvidenceRequirements :: "string list"

record harnessPlanDecision =
  hd_Ref :: string
  hd_DependsOn :: "string list"

record harnessPlanFile =
  hp_ID :: string
  hp_Revision :: string
  hp_Title :: string
  hp_RepoRef :: string
  hp_BaseSHA :: string
  hp_TargetBranch :: string
  hp_ProjectionPolicy :: string
  hp_DeliveryPolicy :: string
  hp_ValidFor :: string
  hp_ValidUntil :: string
  hp_Queue :: string
  hp_Defaults :: harnessPlanDefaults
  hp_Decisions :: "harnessPlanDecision list"

definition harnessPlanDecisions :: "string list \<Rightarrow> harnessPlanDecision list" where
  "harnessPlanDecisions decisionRefs = map (\<lambda>ref. \<lparr>hd_Ref = ref, hd_DependsOn = []\<rparr>) decisionRefs"

definition sortedUniqueDecisionRefs :: "bool \<Rightarrow> string list \<Rightarrow> string list" where
  "sortedUniqueDecisionRefs sequential decisionRefs =
     (let refs = cleanStringSlice decisionRefs
      in if sequential then refs else sortedUniqueStrings refs)"

definition anyStrings :: "gval option \<Rightarrow> string list" where
  "anyStrings value =
     (case value of
        Some (GStrs typed) \<Rightarrow> cleanStringSlice typed
      | Some (GArr typed) \<Rightarrow> anySliceToStrings typed
      | _ \<Rightarrow> [])"

text \<open>\<open>strings.SplitN\<close> at the first colon.\<close>

definition split_edge :: "string \<Rightarrow> (string \<times> string) option" where
  "split_edge edge =
     (if CHR '':'' \<in> set edge
      then Some (takeWhile (\<lambda>c. c \<noteq> CHR '':'') edge, tl (dropWhile (\<lambda>c. c \<noteq> CHR '':'') edge))
      else None)"

definition parseHarnessDependency :: "string \<Rightarrow> (string \<times> string list) result" where
  "parseHarnessDependency edge =
     (case split_edge edge of
        None \<Rightarrow> Inl ''--depend must look like target:source[,source]''
      | Some (left, right) \<Rightarrow>
          (let target = trim_space left;
               dependencies = cleanStringSlice (split_at (CHR '','') right)
           in if target = [] \<or> dependencies = []
              then Inl ''--depend must include target and at least one source''
              else Inr (target, dependencies)))"

text \<open>The map from refs to positions; a later decision overwrites an earlier one of the same ref.\<close>

definition index_by_ref :: "harnessPlanDecision list \<Rightarrow> string \<Rightarrow> nat option" where
  "index_by_ref decisions = map_of (rev (zip (map hd_Ref decisions) [0..<length decisions]))"

definition depend_on :: "string list \<Rightarrow> harnessPlanDecision \<Rightarrow> harnessPlanDecision" where
  "depend_on dependencies decision = decision\<lparr>hd_DependsOn := hd_DependsOn decision @ dependencies\<rparr>"

text \<open>The loop of \<open>--sequential\<close>: every decision but the first depends on the one before it.\<close>

fun sequential_from :: "string \<Rightarrow> harnessPlanDecision list \<Rightarrow> harnessPlanDecision list" where
  "sequential_from previous [] = []"
| "sequential_from previous (decision # decisions) =
     depend_on [previous] decision # sequential_from (hd_Ref decision) decisions"

definition sequential_chain :: "harnessPlanDecision list \<Rightarrow> harnessPlanDecision list" where
  "sequential_chain decisions =
     (case decisions of [] \<Rightarrow> [] | decision # rest \<Rightarrow> decision # sequential_from (hd_Ref decision) rest)"

fun add_edges ::
  "(string \<Rightarrow> nat option) \<Rightarrow> string list \<Rightarrow> harnessPlanDecision list \<Rightarrow> harnessPlanDecision list result"
where
  "add_edges position [] decisions = Inr decisions"
| "add_edges position (edge # edges) decisions =
     (case parseHarnessDependency edge of
        Inl e \<Rightarrow> Inl e
      | Inr (target, dependencies) \<Rightarrow>
          (case position target of
             None \<Rightarrow> Inl (''dependency target '' @ target @ '' is not in decisions'')
           | Some index \<Rightarrow>
               (case find (\<lambda>dependency. position dependency = None) dependencies of
                  Some dependency \<Rightarrow> Inl (''dependency source '' @ dependency @ '' is not in decisions'')
                | None \<Rightarrow> add_edges position edges
                    (decisions[index := depend_on dependencies (decisions ! index)]))))"

definition harnessPlanDecisionPayloads :: "harnessPlanDecision list \<Rightarrow> gval list" where
  "harnessPlanDecisionPayloads decisions =
     map (\<lambda>decision. GMap [(''ref'', GStr (hd_Ref decision)),
                           (''depends_on'', GArr (stringSliceToAny (hd_DependsOn decision)))]) decisions"

definition plan_payload :: "harnessPlanFile \<Rightarrow> payload" where
  "plan_payload plan =
     [(''id'', GStr (hp_ID plan)), (''revision'', GStr (hp_Revision plan)),
      (''decisions'', GArr (harnessPlanDecisionPayloads (hp_Decisions plan)))]"

type_synonym key_order = "DecisionRef list \<Rightarrow> DecisionRef list"

definition validateHarnessPlanFile :: "key_order \<Rightarrow> key_order \<Rightarrow> harnessPlanFile \<Rightarrow> unit result" where
  "validateHarnessPlanFile ord1 ord2 plan =
     (case ParsePayload ord1 ord2 (plan_payload plan) of Inl e \<Rightarrow> Inl e | Inr _ \<Rightarrow> Inr ())"

definition applyHarnessPlanDependencies ::
  "key_order \<Rightarrow> key_order \<Rightarrow> harnessPlanFile \<Rightarrow> string list \<Rightarrow> bool \<Rightarrow> harnessPlanFile result"
where
  "applyHarnessPlanDependencies ord1 ord2 plan edges sequential =
     (let decisions = hp_Decisions plan;
          chained = (if sequential then sequential_chain decisions else decisions)
      in case add_edges (index_by_ref decisions) edges chained of
           Inl e \<Rightarrow> Inl e
         | Inr linked \<Rightarrow>
             (let plan = plan\<lparr>hp_Decisions :=
                    map (\<lambda>decision. decision\<lparr>hd_DependsOn := sortedUniqueStrings (hd_DependsOn decision)\<rparr>) linked\<rparr>
              in case validateHarnessPlanFile ord1 ord2 plan of Inl e \<Rightarrow> Inl e | Inr _ \<Rightarrow> Inr plan))"

text \<open>\<open>generated\<close> is the id made from the clock.\<close>

definition buildHarnessPlan ::
  "key_order \<Rightarrow> key_order \<Rightarrow> plan_flags \<Rightarrow> payload result \<Rightarrow> string \<Rightarrow> string list \<Rightarrow> harnessPlanFile result"
where
  "buildHarnessPlan ord1 ord2 flags base_params generated decisionRefs =
     (let cleanRefs = sortedUniqueDecisionRefs (pf_Sequential flags) decisionRefs
      in if cleanRefs = [] then Inl ''at least one decision id is required''
         else (case base_params of
             Inl e \<Rightarrow> Inl e
           | Inr base \<Rightarrow>
               (let planID = (if trim_space (pf_ID flags) = [] then generated else pf_ID flags);
                    plan = \<lparr>hp_ID = trim_space planID, hp_Revision = trim_space (pf_Revision flags),
                       hp_Title = trim_space (pf_Title flags), hp_RepoRef = stringField base ''repo_ref'',
                       hp_BaseSHA = stringField base ''base_sha'', hp_TargetBranch = stringField base ''target_branch'',
                       hp_ProjectionPolicy = stringField base ''projection_policy'',
                       hp_DeliveryPolicy = stringField base ''delivery_policy'',
                       hp_ValidFor = stringField base ''valid_for'', hp_ValidUntil = stringField base ''valid_until'',
                       hp_Queue = [],
                       hp_Defaults = \<lparr>df_AllowedActions = anyStrings (map_of base ''allowed_actions''),
                         df_EvidenceRequirements = anyStrings (map_of base ''evidence_requirements'')\<rparr>,
                       hp_Decisions = harnessPlanDecisions cleanRefs\<rparr>;
                    plan = (if hp_Title plan = [] then plan\<lparr>hp_Title := ''Harness run '' @ hp_ID plan\<rparr> else plan)
                in applyHarnessPlanDependencies ord1 ord2 plan (pf_Dependencies flags) (pf_Sequential flags))))"

end
