(* ===== verification/HarnessPlanLaws.thy ===== *)
theory HarnessPlanLaws
  imports HarnessPlan
begin

text \<open>
  What the plan builder of \<open>HarnessPlan\<close> establishes: which flags give a plan, and that the plan has
  exactly the dependencies the flags ask for, for the parser of \<open>implementationplan\<close> too.
\<close>

section \<open>Edges\<close>

text \<open>What the flags ask for: \<open>(r, s)\<close> when \<open>r\<close> is to depend on \<open>s\<close>.\<close>

definition edge_pairs :: "string \<Rightarrow> (string \<times> string) list" where
  "edge_pairs edge =
     (case parseHarnessDependency edge of Inl e \<Rightarrow> [] | Inr (target, sources) \<Rightarrow> map (\<lambda>s. (target, s)) sources)"

definition wanted_edges :: "plan_flags \<Rightarrow> string list \<Rightarrow> (string \<times> string) list" where
  "wanted_edges flags refs =
     (if pf_Sequential flags then zip (tl refs) refs else []) @ concat (map edge_pairs (pf_Dependencies flags))"

text \<open>What the decisions of a plan file say.\<close>

definition file_edges :: "harnessPlanDecision list \<Rightarrow> (string \<times> string) list" where
  "file_edges decisions = concat (map (\<lambda>d. map (\<lambda>s. (hd_Ref d, s)) (hd_DependsOn d)) decisions)"

lemma file_edges_simps [simp]:
  "file_edges [] = []"
  "file_edges (d # ds) = map (\<lambda>s. (hd_Ref d, s)) (hd_DependsOn d) @ file_edges ds"
  "file_edges (xs @ ys) = file_edges xs @ file_edges ys"
  by (simp_all add: file_edges_def)

lemma file_edges_fresh [simp]: "file_edges (harnessPlanDecisions refs) = []"
  by (induction refs) (simp_all add: harnessPlanDecisions_def)

lemma refs_fresh [simp]: "map hd_Ref (harnessPlanDecisions refs) = refs"
  by (induction refs) (simp_all add: harnessPlanDecisions_def)

lemma depend_on_simps [simp]:
  "hd_Ref (depend_on ss d) = hd_Ref d" "hd_DependsOn (depend_on ss d) = hd_DependsOn d @ ss"
  by (simp_all add: depend_on_def)

lemma edges_depend_on:
  assumes "i < length ds"
  shows "set (file_edges (ds[i := depend_on ss (ds ! i)])) = set (file_edges ds) \<union> {hd_Ref (ds ! i)} \<times> set ss"
  unfolding upd_conv_take_nth_drop[OF assms]
  by (subst (3) id_take_nth_drop[OF assms]) auto

lemma refs_depend_on [simp]:
  "i < length ds \<Longrightarrow> map hd_Ref (ds[i := depend_on ss (ds ! i)]) = map hd_Ref ds"
  by (simp add: map_update list_update_same_conv)

section \<open>The loops\<close>

lemma sequential_from_edges:
  "map hd_Ref (sequential_from p ds) = map hd_Ref ds"
  "set (file_edges (sequential_from p ds)) = set (file_edges ds) \<union> set (zip (map hd_Ref ds) (p # map hd_Ref ds))"
  by (induction ds arbitrary: p) auto

lemma sequential_chain_edges:
  "map hd_Ref (sequential_chain ds) = map hd_Ref ds"
  "set (file_edges (sequential_chain ds)) = set (file_edges ds) \<union> set (zip (tl (map hd_Ref ds)) (map hd_Ref ds))"
  by (cases ds; auto simp: sequential_chain_def sequential_from_edges)+

lemma index_by_ref_None: "index_by_ref ds r = None \<longleftrightarrow> r \<notin> set (map hd_Ref ds)"
proof -
  have "fst ` set (zip (map hd_Ref ds) [0..<length ds]) = set (map hd_Ref ds)"
    by (metis length_map length_upt map_fst_zip minus_nat.diff_0 set_map)
  then show ?thesis by (simp add: index_by_ref_def map_of_eq_None_iff)
qed

lemma index_by_ref_Some:
  "index_by_ref ds r = Some i \<Longrightarrow> i < length ds \<and> hd_Ref (ds ! i) = r"
  unfolding index_by_ref_def by (drule map_of_SomeD) (auto simp: in_set_zip)

text \<open>An edge of the command line is well formed and names decisions of the plan.\<close>

definition edge_ok :: "string list \<Rightarrow> string \<Rightarrow> bool" where
  "edge_ok refs edge \<longleftrightarrow>
     (case parseHarnessDependency edge of
        Inl e \<Rightarrow> False
      | Inr (target, sources) \<Rightarrow> target \<in> set refs \<and> list_all (\<lambda>s. s \<in> set refs) sources)"

lemma add_edges_exact:
  assumes "length ds = length ds0" "map hd_Ref ds = map hd_Ref ds0"
  shows "case add_edges (index_by_ref ds0) edges ds of
      Inl e \<Rightarrow> \<not> list_all (edge_ok (map hd_Ref ds0)) edges
    | Inr linked \<Rightarrow> list_all (edge_ok (map hd_Ref ds0)) edges \<and> map hd_Ref linked = map hd_Ref ds0
        \<and> set (file_edges linked) = set (file_edges ds) \<union> set (concat (map edge_pairs edges))"
  using assms
proof (induction edges arbitrary: ds)
  case (Cons edge edges)
  show ?case
  proof (cases "edge_ok (map hd_Ref ds0) edge")
    case False
    have "\<exists>e. add_edges (index_by_ref ds0) (edge # edges) ds = Inl e"
    proof (cases "parseHarnessDependency edge")
      case (Inr p)
      obtain t ss where p: "p = (t, ss)" by (cases p)
      have "index_by_ref ds0 t = None \<or> find (\<lambda>s. index_by_ref ds0 s = None) ss \<noteq> None"
        using False Inr p by (auto simp: edge_ok_def list_all_iff index_by_ref_None find_None_iff)
      then show ?thesis using Inr p by (auto split: option.split)
    qed simp
    then show ?thesis using False by auto
  next
    case True
    then obtain t ss where p: "parseHarnessDependency edge = Inr (t, ss)"
      and t: "t \<in> set (map hd_Ref ds0)" and ss: "set ss \<subseteq> set (map hd_Ref ds0)"
      by (auto simp: edge_ok_def list_all_iff split: sum.splits)
    obtain i where i: "index_by_ref ds0 t = Some i" using t by (metis index_by_ref_None not_None_eq)
    have len: "i < length ds" and "hd_Ref (ds0 ! i) = t" using index_by_ref_Some[OF i] Cons.prems by simp_all
    then have ref: "hd_Ref (ds ! i) = t" using Cons.prems by (metis nth_map)
    have "find (\<lambda>s. index_by_ref ds0 s = None) ss = None"
      using ss by (auto simp: find_None_iff index_by_ref_None)
    then have step: "add_edges (index_by_ref ds0) (edge # edges) ds
        = add_edges (index_by_ref ds0) edges (ds[i := depend_on ss (ds ! i)])" using p i by simp
    have "set (edge_pairs edge) = {t} \<times> set ss" using p by (auto simp: edge_pairs_def)
    then show ?thesis
      using Cons.IH[of "ds[i := depend_on ss (ds ! i)]"] Cons.prems True edges_depend_on[OF len, of ss] len
      unfolding step ref by (auto split: sum.splits)
  qed
qed simp

section \<open>What the parser reads\<close>

lemma anyStringSlice_texts:
  "list_all good_ref vs \<Longrightarrow> anyStringSlice i (map GStr vs) label = Inr vs"
  by (induction vs arbitrary: i) (simp_all add: good_ref_def Let_def)

lemma uniqueDecisionRefs_id: "list_all good_ref vs \<Longrightarrow> distinct vs \<Longrightarrow> uniqueDecisionRefs vs = vs"
proof -
  assume a: "list_all good_ref vs" "distinct vs"
  then have "filter (\<lambda>v. v \<noteq> []) vs = vs" by (auto simp: filter_id_conv list_all_iff good_ref_def)
  then show ?thesis using a by (simp add: uniqueDecisionRefs_def uniqueDecisionRefs_from_eq dedup_from_id)
qed

definition node_of :: "harnessPlanDecision \<Rightarrow> DecisionNode" where
  "node_of d = \<lparr>dn_ref = hd_Ref d, dn_depends_on = hd_DependsOn d, dn_lockset = []\<rparr>"

definition clean_decision :: "harnessPlanDecision \<Rightarrow> bool" where
  "clean_decision d \<longleftrightarrow> good_ref (hd_Ref d) \<and> list_all good_ref (hd_DependsOn d) \<and> distinct (hd_DependsOn d)"

lemma decisionNode_of_payload:
  assumes "clean_decision d"
  shows "decisionNode (GMap [(''ref'', GStr (hd_Ref d)), (''depends_on'', GArr (stringSliceToAny (hd_DependsOn d)))]) i
    = Inr (node_of d)"
proof -
  have "hd_Ref d \<noteq> []" "trim_space (hd_Ref d) = hd_Ref d" using assms by (simp_all add: clean_decision_def good_ref_def)
  moreover have "anyStringSlice 0 (map GStr (hd_DependsOn d)) l = Inr (hd_DependsOn d)" for l
    using assms by (simp add: clean_decision_def anyStringSlice_texts)
  moreover have "uniqueDecisionRefs (hd_DependsOn d) = hd_DependsOn d"
    using assms by (simp add: clean_decision_def uniqueDecisionRefs_id)
  ultimately show ?thesis
    by (simp add: decisionNode_def decisionNodeFromMap_def decisionRefField_def stringField_def requiredDecisionRef_def
        decisionRefSliceField_def planStringSliceField_def stringSliceToAny_def locksetField_def
        NormalizeLockset_def node_of_def)
qed

lemma decisionNodes_of_payloads:
  "list_all clean_decision ds \<Longrightarrow> decisionNodes_from i (harnessPlanDecisionPayloads ds) = Inr (map node_of ds)"
  by (induction ds arbitrary: i) (simp_all add: harnessPlanDecisionPayloads_def decisionNode_of_payload)

lemma edges_of_nodes:
  "DependencyEdges \<lparr>plan_id = i, plan_revision = r, plan_decisions = map node_of ds\<rparr> = file_edges ds"
  by (simp add: DependencyEdges_def file_edges_def node_of_def comp_def)

lemma refs_of_nodes:
  "DecisionRefs \<lparr>plan_id = i, plan_revision = r, plan_decisions = map node_of ds\<rparr> = map hd_Ref ds"
  by (simp add: DecisionRefs_def node_of_def comp_def)

text \<open>The parser accepts a plan file exactly when its graph is in order, and reads what it says.\<close>

lemma parse_plan_file:
  assumes perm: "\<And>ks. set (ord1 ks) = set ks" "\<And>ks. set (ord2 ks) = set ks"
    and clean: "list_all clean_decision (hp_Decisions plan)" "hp_Decisions plan \<noteq> []"
    and trimmed: "trim_space (hp_ID plan) = hp_ID plan" "trim_space (hp_Revision plan) = hp_Revision plan"
  shows "case ParsePayload ord1 ord2 (plan_payload plan) of
      Inl e \<Rightarrow> \<not> (hp_ID plan \<noteq> [] \<and> hp_Revision plan \<noteq> [] \<and> distinct (map hd_Ref (hp_Decisions plan))
        \<and> snd ` set (file_edges (hp_Decisions plan)) \<subseteq> set (map hd_Ref (hp_Decisions plan))
        \<and> acyclic (set (file_edges (hp_Decisions plan))))
    | Inr p \<Rightarrow> hp_ID plan \<noteq> [] \<and> hp_Revision plan \<noteq> [] \<and> distinct (map hd_Ref (hp_Decisions plan))
        \<and> snd ` set (file_edges (hp_Decisions plan)) \<subseteq> set (map hd_Ref (hp_Decisions plan))
        \<and> acyclic (set (file_edges (hp_Decisions plan)))
        \<and> p = \<lparr>plan_id = hp_ID plan, plan_revision = hp_Revision plan, plan_decisions = map node_of (hp_Decisions plan)\<rparr>"
proof -
  let ?p = "\<lparr>plan_id = hp_ID plan, plan_revision = hp_Revision plan, plan_decisions = map node_of (hp_Decisions plan)\<rparr>"
  have fields: "stringField (plan_payload plan) ''id'' = hp_ID plan"
    "stringField (plan_payload plan) ''revision'' = hp_Revision plan"
    using trimmed by (simp_all add: plan_payload_def stringField_def)
  have "harnessPlanDecisionPayloads (hp_Decisions plan) \<noteq> []"
    using clean(2) by (simp add: harnessPlanDecisionPayloads_def)
  then have nodes: "decisionNodes (plan_payload plan) = Inr (map node_of (hp_Decisions plan))"
    using decisionNodes_of_payloads[OF clean(1)] by (simp add: decisionNodes_def plan_payload_def)
  have live: "live_edges ?p = file_edges (hp_Decisions plan)"
    unfolding live_edges_def edges_of_nodes filter_id_conv
    using clean(1) by (fastforce simp: file_edges_def list_all_iff clean_decision_def good_ref_def)
  have dag: "ValidateDAG ord1 ord2 ?p = Inr () \<longleftrightarrow> distinct (map hd_Ref (hp_Decisions plan))
        \<and> snd ` set (file_edges (hp_Decisions plan)) \<subseteq> set (map hd_Ref (hp_Decisions plan))
        \<and> acyclic (set (file_edges (hp_Decisions plan)))"
    using ValidateDAG_decides[OF perm, of ?p] unfolding live refs_of_nodes by simp
  show ?thesis
  proof (cases "hp_ID plan = [] \<or> hp_Revision plan = []")
    case True
    then show ?thesis
      by (auto simp: ParsePayload_def requiredID_def requiredRevision_def fields Let_def split: sum.split)
  next
    case False
    then have parsed: "ParsePayload ord1 ord2 (plan_payload plan)
        = (case ValidateDAG ord1 ord2 ?p of Inl e \<Rightarrow> Inl e | Inr _ \<Rightarrow> Inr ?p)"
      by (simp add: ParsePayload_def requiredID_def requiredRevision_def fields nodes Let_def)
    show ?thesis
    proof (cases "ValidateDAG ord1 ord2 ?p")
      case (Inl e)
      then show ?thesis unfolding parsed using dag by auto
    next
      case (Inr u)
      then show ?thesis unfolding parsed using dag False by auto
    qed
  qed
qed

section \<open>Which plans are built\<close>

lemma good_refs: "list_all good_ref (sortedUniqueDecisionRefs sequential refs)"
proof -
  have "trim_space v = v \<and> v \<noteq> []" if "v \<in> set (sortedUniqueDecisionRefs sequential refs)" for v
    using that canonical_mem[of "sorted_unique refs" v]
    by (auto simp: sortedUniqueDecisionRefs_def Let_def cleanStringSlice_def split: if_splits dest: clean_strings_trimmed)
  then show ?thesis by (auto simp: list_all_iff good_ref_def)
qed

lemma good_sources: "(t, s) \<in> set (edge_pairs edge) \<Longrightarrow> good_ref s"
  by (auto simp: edge_pairs_def parseHarnessDependency_def Let_def cleanStringSlice_def good_ref_def
      dest: clean_strings_trimmed split: sum.splits option.splits if_splits)

lemma good_wanted:
  assumes "list_all good_ref refs" "(t, s) \<in> set (wanted_edges flags refs)"
  shows "good_ref s"
  using assms good_sources set_zip_rightD[of t s "tl refs" refs]
  by (auto simp: wanted_edges_def list_all_iff split: if_splits)

lemma sources_in_refs: "edge_ok refs edge \<Longrightarrow> (t, s) \<in> set (edge_pairs edge) \<Longrightarrow> s \<in> set refs"
  by (auto simp: edge_ok_def edge_pairs_def list_all_iff split: sum.splits)

lemma wanted_in_refs:
  assumes "list_all (edge_ok refs) (pf_Dependencies flags)"
  shows "snd ` set (wanted_edges flags refs) \<subseteq> set refs"
  using assms sources_in_refs set_zip_rightD[of _ _ "tl refs" refs]
  by (fastforce simp: wanted_edges_def list_all_iff split: if_splits)

text \<open>Sorting the dependencies of every decision keeps the edges.\<close>

lemma edges_sorted:
  assumes "\<And>t s. (t, s) \<in> set (file_edges ds) \<Longrightarrow> good_ref s"
  shows "set (file_edges (map (\<lambda>d. d\<lparr>hd_DependsOn := sorted_unique (hd_DependsOn d)\<rparr>) ds)) = set (file_edges ds)"
proof -
  have "set (sorted_unique (hd_DependsOn d)) = set (hd_DependsOn d)" if "d \<in> set ds" for d
  proof -
    have "good_ref s" if "s \<in> set (hd_DependsOn d)" for s
      using assms[of "hd_Ref d" s] that \<open>d \<in> set ds\<close> by (force simp: file_edges_def)
    then have "clean_strings (hd_DependsOn d) = hd_DependsOn d" by (simp add: clean_strings_id good_ref_def)
    then show ?thesis by (simp add: sorted_unique_def)
  qed
  then show ?thesis by (force simp: file_edges_def)
qed

lemma clean_sorted:
  assumes "list_all good_ref (map hd_Ref ds)"
  shows "list_all clean_decision (map (\<lambda>d. d\<lparr>hd_DependsOn := sorted_unique (hd_DependsOn d)\<rparr>) ds)"
proof -
  have "list_all good_ref (sorted_unique vs) \<and> distinct (sorted_unique vs)" for vs
    using canonical_sorted_unique[of vs] by (auto simp: canonical_def list_all_iff good_ref_def)
  then show ?thesis using assms by (auto simp: clean_decision_def list_all_iff)
qed

definition plan_id_of :: "plan_flags \<Rightarrow> string \<Rightarrow> string" where
  "plan_id_of flags generated = trim_space (if trim_space (pf_ID flags) = [] then generated else pf_ID flags)"

definition plan_in_order :: "plan_flags \<Rightarrow> string \<Rightarrow> string list \<Rightarrow> bool" where
  "plan_in_order flags generated refs \<longleftrightarrow>
     refs \<noteq> [] \<and> distinct refs \<and> plan_id_of flags generated \<noteq> [] \<and> trim_space (pf_Revision flags) \<noteq> []
     \<and> list_all (edge_ok refs) (pf_Dependencies flags) \<and> acyclic (set (wanted_edges flags refs))"

lemma apply_dependencies:
  assumes perm: "\<And>ks. set (ord1 ks) = set ks" "\<And>ks. set (ord2 ks) = set ks"
    and refs: "list_all good_ref refs" "refs \<noteq> []"
    and plan: "hp_Decisions plan = harnessPlanDecisions refs" "hp_ID plan = plan_id_of flags generated"
      "hp_Revision plan = trim_space (pf_Revision flags)"
  shows "case applyHarnessPlanDependencies ord1 ord2 plan (pf_Dependencies flags) (pf_Sequential flags) of
      Inl e \<Rightarrow> \<not> plan_in_order flags generated refs
    | Inr out \<Rightarrow> plan_in_order flags generated refs \<and> map hd_Ref (hp_Decisions out) = refs
        \<and> set (file_edges (hp_Decisions out)) = set (wanted_edges flags refs)
        \<and> ParsePayload ord1 ord2 (plan_payload out)
          = Inr \<lparr>plan_id = hp_ID out, plan_revision = hp_Revision out, plan_decisions = map node_of (hp_Decisions out)\<rparr>"
proof -
  let ?ds = "harnessPlanDecisions refs"
  define chained where "chained = (if pf_Sequential flags then sequential_chain ?ds else ?ds)"
  have chain: "map hd_Ref chained = refs" "length chained = length ?ds"
    "set (file_edges chained) = (if pf_Sequential flags then set (zip (tl refs) refs) else {})"
    using sequential_chain_edges[of ?ds] map_eq_imp_length_eq[OF sequential_chain_edges(1)[of ?ds]]
    by (simp_all add: chained_def)
  note edges = add_edges_exact[OF chain(2), of "pf_Dependencies flags", unfolded refs_fresh, OF chain(1)]
  show ?thesis
  proof (cases "add_edges (index_by_ref ?ds) (pf_Dependencies flags) chained")
    case (Inl e)
    then show ?thesis using edges
      by (simp add: applyHarnessPlanDependencies_def plan chained_def[symmetric] plan_in_order_def)
  next
    case (Inr linked)
    define out where "out = plan\<lparr>hp_Decisions := map (\<lambda>d. d\<lparr>hd_DependsOn := sorted_unique (hd_DependsOn d)\<rparr>) linked\<rparr>"
    have applied: "applyHarnessPlanDependencies ord1 ord2 plan (pf_Dependencies flags) (pf_Sequential flags)
        = (case ParsePayload ord1 ord2 (plan_payload out) of Inl e \<Rightarrow> Inl e | Inr _ \<Rightarrow> Inr out)"
      using Inr by (auto simp: applyHarnessPlanDependencies_def plan chained_def[symmetric] Let_def out_def
          validateHarnessPlanFile_def split: sum.split)
    have linked: "list_all (edge_ok refs) (pf_Dependencies flags)" "map hd_Ref linked = refs"
      "set (file_edges linked) = set (wanted_edges flags refs)"
      using edges Inr chain(3) by (auto simp: wanted_edges_def)
    have "set (file_edges (hp_Decisions out)) = set (file_edges linked)"
      unfolding out_def using edges_sorted[of linked] good_wanted[OF refs(1)] linked(3) by simp
    then have out: "set (file_edges (hp_Decisions out)) = set (wanted_edges flags refs)"
      "map hd_Ref (hp_Decisions out) = refs" "list_all clean_decision (hp_Decisions out)" "hp_Decisions out \<noteq> []"
      "hp_ID out = plan_id_of flags generated" "hp_Revision out = trim_space (pf_Revision flags)"
      using linked clean_sorted[of linked] refs by (auto simp: out_def comp_def plan)
    note parsed = parse_plan_file[OF perm out(3,4), unfolded out(1,2,5,6)]
    show ?thesis
      using parsed out linked(1) wanted_in_refs[OF linked(1)] refs(2) unfolding applied
      by (auto simp: plan_in_order_def plan_id_of_def split: sum.splits)
  qed
qed

text \<open>
  C20. A plan is built from the command line exactly when there is a decision, no decision is named
  twice, id and revision are not blank, every \<open>--depend\<close> is well formed and names decisions of the
  plan, and the dependencies asked for form no cycle. The plan then has the decisions named, in order,
  and exactly the dependencies asked for, and \<open>implementationplan\<close> reads the same decisions and
  dependencies back from it.
\<close>

theorem harness_plan_exact:
  assumes "\<And>ks. set (ord1 ks) = set ks" "\<And>ks. set (ord2 ks) = set ks"
  shows "let refs = sortedUniqueDecisionRefs (pf_Sequential flags) decisionRefs in
    case buildHarnessPlan ord1 ord2 flags (Inr base) generated decisionRefs of
      Inl e \<Rightarrow> \<not> plan_in_order flags generated refs
    | Inr plan \<Rightarrow> plan_in_order flags generated refs
        \<and> map hd_Ref (hp_Decisions plan) = refs
        \<and> set (file_edges (hp_Decisions plan)) = set (wanted_edges flags refs)
        \<and> (case ParsePayload ord1 ord2 (plan_payload plan) of
             Inl e \<Rightarrow> False
           | Inr p \<Rightarrow> DecisionRefs p = refs \<and> set (DependencyEdges p) = set (wanted_edges flags refs))"
proof -
  define refs where "refs = sortedUniqueDecisionRefs (pf_Sequential flags) decisionRefs"
  show ?thesis
  proof (cases "refs = []")
    case True
    then show ?thesis by (simp add: refs_def[symmetric] buildHarnessPlan_def plan_in_order_def)
  next
    case False
    obtain plan where plan: "hp_Decisions plan = harnessPlanDecisions refs" "hp_ID plan = plan_id_of flags generated"
        "hp_Revision plan = trim_space (pf_Revision flags)"
      and built: "buildHarnessPlan ord1 ord2 flags (Inr base) generated decisionRefs
        = applyHarnessPlanDependencies ord1 ord2 plan (pf_Dependencies flags) (pf_Sequential flags)"
      using False by (auto simp: buildHarnessPlan_def refs_def[symmetric] Let_def plan_id_of_def intro!: that)
    have good: "list_all good_ref refs" unfolding refs_def by (rule good_refs)
    note applied = apply_dependencies[OF assms good False plan, folded built]
    show ?thesis
    proof (cases "buildHarnessPlan ord1 ord2 flags (Inr base) generated decisionRefs")
      case (Inl e)
      then show ?thesis using applied by (simp add: refs_def)
    next
      case (Inr out)
      then show ?thesis using applied unfolding refs_def by (simp add: refs_of_nodes edges_of_nodes)
    qed
  qed
qed

definition example_flags :: plan_flags where
  "example_flags = \<lparr>pf_ID = ''plan-1'', pf_Title = [], pf_Revision = ''p1'', pf_Sequential = False,
     pf_Dependencies = [''dec-b: dec-a'', ''dec-c:dec-a, dec-b'']\<rparr>"

lemma example_plan:
  "\<not> isl (buildHarnessPlan rev (\<lambda>ks. ks) example_flags (Inr []) [] [''dec-c'', '' dec-a'', ''dec-b'', ''dec-a''])"
  by code_simp

definition self_flags :: plan_flags where
  "self_flags = example_flags\<lparr>pf_Dependencies := [''dec-b:dec-b'']\<rparr>"

lemma self_plan: "isl (buildHarnessPlan rev (\<lambda>ks. ks) self_flags (Inr []) [] [''dec-b''])"
  by code_simp

lemma example_refs:
  "sortedUniqueDecisionRefs (pf_Sequential example_flags) [''dec-c'', '' dec-a'', ''dec-b'', ''dec-a'']
     = [''dec-a'', ''dec-b'', ''dec-c'']"
  "sortedUniqueDecisionRefs (pf_Sequential self_flags) [''dec-b''] = [''dec-b'']"
  by code_simp+

theorem harness_plan_exact_witness:
  "acyclic (set (wanted_edges example_flags [''dec-a'', ''dec-b'', ''dec-c'']))
   \<and> \<not> plan_in_order self_flags [] [''dec-b'']"
proof -
  have "set (rev ks) = set ks" "set (id ks) = set ks" for ks :: "string list" by simp_all
  then show ?thesis
    using harness_plan_exact[of rev "\<lambda>ks. ks" example_flags "[''dec-c'', '' dec-a'', ''dec-b'', ''dec-a'']" "[]" "[]"]
      harness_plan_exact[of rev "\<lambda>ks. ks" self_flags "[''dec-b'']" "[]" "[]"]
      example_plan self_plan
    unfolding example_refs Let_def
    by (simp add: plan_in_order_def split: sum.splits)
qed

end
