(* ===== verification/HarnessRun.thy ===== *)
theory HarnessRun
  imports TacticalOverride HarnessPlan ValidUntil
begin

text \<open>
  A run of the harness (\<open>internal/cli/harness.go\<close>): whether the project is ready for one, which
  commissions it selects, the record it leaves of a run out of the specification, and the loop that
  watches a draining run and hands finished commissions to the automatic application of their
  patches. The runtime that executes the commissions is another program; what it does shows in the
  store the loop polls. Options are the arguments a definition uses. What a run prints is left out.
\<close>

section \<open>Readers\<close>

definition stringSet :: "string list \<Rightarrow> string set" where
  "stringSet values = set (clean_strings values)"

definition mapField :: "payload \<Rightarrow> string \<Rightarrow> payload" where
  "mapField payload key = (case map_of payload key of Some (GMap value) \<Rightarrow> value | _ \<Rightarrow> [])"

definition parseHarnessTimestamp :: "string \<Rightarrow> Time" where
  "parseHarnessTimestamp value =
     (let value = trim_space value
      in if value = [] then zero_time
         else (case parse_rfc3339 value of Some parsed \<Rightarrow> parsed | None \<Rightarrow> zero_time))"

definition harnessStateStopsOperatorWait :: "string \<Rightarrow> bool" where
  "harnessStateStopsOperatorWait state =
     (let cleanState = trim_space state
      in IsCompletionState cleanState \<or> RequiresOperatorDecisionState cleanState \<or> IsTerminalState cleanState)"

definition isHarnessOperatorStopState :: "string \<Rightarrow> bool" where
  "isHarnessOperatorStopState state = harnessStateStopsOperatorWait state"

definition isHarnessApplyResultState :: "string \<Rightarrow> bool" where
  "isHarnessApplyResultState state = IsCompletionState state"

definition firstCleanString :: "string list \<Rightarrow> string" where
  "firstCleanString values = (case clean_strings values of [] \<Rightarrow> [] | cleaned # _ \<Rightarrow> cleaned)"

section \<open>Options\<close>

definition validateHarnessRunOptions :: "int \<Rightarrow> bool \<Rightarrow> bool \<Rightarrow> bool \<Rightarrow> unit result" where
  "validateHarnessRunOptions staleLeaseMaxAgeS drain once detach =
     (if staleLeaseMaxAgeS < 0 then Inl ''--stale-lease-max-age-s must be >= 0''
      else if \<not> drain then Inr ()
      else if once then Inl ''--drain cannot be combined with --once''
      else if detach then Inl ''--drain requires the operator stream; omit --detach''
      else Inr ())"

section \<open>Selection\<close>

definition runnableHarnessCommissions :: "string list \<Rightarrow> commission list \<Rightarrow> Time \<Rightarrow> commission list" where
  "runnableHarnessCommissions gates records now =
     filter (\<lambda>commission. workCommissionRunnableForRequest gates commission records [] now) records"

definition harnessPlanCommissions :: "commission list \<Rightarrow> string \<Rightarrow> string \<Rightarrow> commission list" where
  "harnessPlanCommissions records planRef planRevision =
     filter (\<lambda>commission. stringField commission ''implementation_plan_ref'' = planRef
         \<and> (planRevision = [] \<or> stringField commission ''implementation_plan_revision'' = planRevision)) records"

definition runnablePlanCommissions :: "string list \<Rightarrow> commission list \<Rightarrow> commission list \<Rightarrow> Time \<Rightarrow> commission list" where
  "runnablePlanCommissions gates records selected now =
     filter (\<lambda>commission. workCommissionRunnableForRequest gates commission records [] now) selected"

definition loadHarnessRunSelectionForPlan :: "string list \<Rightarrow> Store \<Rightarrow> payload \<Rightarrow> Time \<Rightarrow> harnessRunSelection result" where
  "loadHarnessRunSelectionForPlan gates store plan now =
     (case loadWorkCommissionPayloads store of
        Inl e \<Rightarrow> Inl e
      | Inr records \<Rightarrow>
          (let planRef = trim_space (stringField plan ''id'');
               planRevision = trim_space (stringField plan ''revision'');
               planCommissions = harnessPlanCommissions records planRef planRevision;
               runnable = runnablePlanCommissions gates records planCommissions now
           in Inr (harnessRunSelectionFromCommissions (if length runnable > 0 then runnable else planCommissions))))"

definition commonCommissionPlan :: "commission list \<Rightarrow> (string \<times> string) option" where
  "commonCommissionPlan selected =
     (case selected of
        [] \<Rightarrow> None
      | commission # rest \<Rightarrow>
          (let firstPlanRef = stringField commission ''implementation_plan_ref'';
               firstRevision = stringField commission ''implementation_plan_revision''
           in if firstPlanRef = [] then None
              else if list_all (\<lambda>c. stringField c ''implementation_plan_ref'' = firstPlanRef
                         \<and> stringField c ''implementation_plan_revision'' = firstRevision) rest
              then Some (firstPlanRef, firstRevision) else None))"

definition existingRunnablePlan :: "commission list \<Rightarrow> payload" where
  "existingRunnablePlan selected =
     (case commonCommissionPlan selected of
        None \<Rightarrow> []
      | Some (planRef, planRevision) \<Rightarrow> [(''id'', GStr planRef), (''revision'', GStr planRevision)])"

text \<open>The runnable commissions of the store, their plan and the selection of a run without a plan.\<close>

definition existingRunnableHarnessPlan ::
  "string list \<Rightarrow> Store \<Rightarrow> Time \<Rightarrow> (payload \<times> harnessRunSelection) option result"
where
  "existingRunnableHarnessPlan gates store now =
     (case loadWorkCommissionPayloads store of
        Inl e \<Rightarrow> Inl e
      | Inr records \<Rightarrow>
          (let runnable = runnableHarnessCommissions gates records now
           in if length runnable = 0 then Inr None
              else Inr (Some (existingRunnablePlan runnable, harnessRunSelectionFromCommissions runnable))))"

definition countExistingHarnessPlanCommissions :: "Store \<Rightarrow> payload \<Rightarrow> nat result" where
  "countExistingHarnessPlanCommissions store plan =
     (case loadWorkCommissionPayloads store of
        Inl e \<Rightarrow> Inl e
      | Inr records \<Rightarrow>
          Inr (length (filter (\<lambda>commission.
              stringField commission ''implementation_plan_ref'' = stringField plan ''id''
              \<and> stringField commission ''implementation_plan_revision'' = stringField plan ''revision'') records)))"

definition commissionedDecisionRefSet :: "Store \<Rightarrow> string set result" where
  "commissionedDecisionRefSet store =
     (case loadWorkCommissionPayloads store of
        Inl e \<Rightarrow> Inl e
      | Inr records \<Rightarrow> Inr (set (filter (\<lambda>ref. ref \<noteq> []) (map (\<lambda>c. stringField c ''decision_ref'') records))))"

definition filterUncommissionedDecisionRefs :: "Store \<Rightarrow> string list \<Rightarrow> string list result" where
  "filterUncommissionedDecisionRefs store decisionRefs =
     (case commissionedDecisionRefSet store of
        Inl e \<Rightarrow> Inl e
      | Inr commissioned \<Rightarrow> Inr (filter (\<lambda>ref. ref \<notin> commissioned) decisionRefs))"

text \<open>The run ends when every selected commission has stopped.\<close>

fun all_stopped :: "Store \<Rightarrow> string list \<Rightarrow> bool result" where
  "all_stopped store [] = Inr True"
| "all_stopped store (commissionID # commissionIDs) =
     (case loadWorkCommissionPayload store commissionID of
        Inl e \<Rightarrow> Inl e
      | Inr commission \<Rightarrow>
          if \<not> isHarnessOperatorStopState (stringField commission ''state'') then Inr False
          else all_stopped store commissionIDs)"

definition selectedHarnessCommissionsTerminal :: "Store \<Rightarrow> string list \<Rightarrow> bool result" where
  "selectedHarnessCommissionsTerminal store commissionIDs =
     (if length commissionIDs = 0 then Inr False else all_stopped store commissionIDs)"

section \<open>Runs out of the specification\<close>

definition withHarnessRunSpecReadinessOverride :: "payload \<Rightarrow> harnessRunReadinessGate \<Rightarrow> payload" where
  "withHarnessRunSpecReadinessOverride args gate =
     (case harnessRunSpecReadinessOverride gate of
        None \<Rightarrow> args
      | Some override \<Rightarrow> put ''spec_readiness_override'' (GMap override) (copyStringAnyMap args))"

text \<open>Commissions of a plan are created once, by the handler of the tool.\<close>

definition ensureHarnessCommissions ::
  "Env \<Rightarrow> commission_flags \<Rightarrow> string result \<Rightarrow> string result \<Rightarrow> string \<Rightarrow> bool \<Rightarrow> harnessRunReadinessGate \<Rightarrow> payload \<Rightarrow>
   Store \<Rightarrow> (bool \<times> gval option) result \<times> Store"
where
  "ensureHarnessCommissions env flags head branch projectRoot forceCreate gate plan store =
     (case countExistingHarnessPlanCommissions store plan of
        Inl e \<Rightarrow> (Inl e, store)
      | Inr existing \<Rightarrow>
          if existing > 0 \<and> \<not> forceCreate then (Inr (False, None), store)
          else (case commissionFromPlanCLIParams flags head branch projectRoot plan of
              Inl e \<Rightarrow> (Inl e, store)
            | Inr args \<Rightarrow>
                (case handleHaftCommission env (withHarnessRunSpecReadinessOverride args gate) store of
                   (Inl e, store') \<Rightarrow> (Inl e, store')
                 | (Inr response, store') \<Rightarrow> (Inr (True, Some response), store'))))"

section \<open>Draining\<close>

record harnessStaleLeaseSummary =
  sl_CommissionID :: string
  sl_State :: string
  sl_FetchedAt :: string
  sl_Age :: string
  sl_MaxAgeS :: int

text \<open>\<open>time.Duration\<close> is an int64: the product of the option and a second wraps around.\<close>

definition seconds_duration :: "int \<Rightarrow> int" where
  "seconds_duration s = sint (word_of_int (s * 1000000000) :: 64 word)"

text \<open>\<open>Duration.Round(time.Second)\<close> of a positive duration; it saturates.\<close>

definition round_to_second :: "int \<Rightarrow> int" where
  "round_to_second d =
     (let r = d mod 1000000000
      in if r + r < 1000000000 then d - r
         else if d + 1000000000 - r > max_duration then max_duration else d + 1000000000 - r)"

definition harnessStaleLeaseSummaryFor :: "commission \<Rightarrow> int \<Rightarrow> Time \<Rightarrow> harnessStaleLeaseSummary option" where
  "harnessStaleLeaseSummaryFor commission maxAgeS now =
     (let state = stringField commission ''state'';
          fetchedAt = parseHarnessTimestamp (stringField commission ''fetched_at'');
          age = Sub now fetchedAt
      in if maxAgeS \<le> 0 then None
         else if \<not> IsExecutingState state then None
         else if IsZero fetchedAt then None
         else if age \<le> seconds_duration maxAgeS then None
         else Some \<lparr>sl_CommissionID = stringField commission ''id'', sl_State = state,
                sl_FetchedAt = format_rfc3339 fetchedAt, sl_Age = duration_string (round_to_second age),
                sl_MaxAgeS = maxAgeS\<rparr>)"

record harnessDrainMonitor =
  mo_OpenIDs :: "string list"
  mo_ObservedIDs :: "string list"
  mo_StaleLeases :: "harnessStaleLeaseSummary list"
  mo_RunnableIDs :: "string list"
  mo_ExecutingIDs :: "string list"

definition monitor_step ::
  "string list \<Rightarrow> commission list \<Rightarrow> int \<Rightarrow> Time \<Rightarrow> commission \<Rightarrow> harnessDrainMonitor \<Rightarrow> harnessDrainMonitor"
where
  "monitor_step gates records maxAgeS now commission monitor =
     (let commissionID = trim_space (stringField commission ''id'')
      in if commissionID = [] then monitor
         else (case harnessStaleLeaseSummaryFor commission maxAgeS now of
             Some summary \<Rightarrow> monitor\<lparr>mo_StaleLeases := mo_StaleLeases monitor @ [summary],
                 mo_ObservedIDs := mo_ObservedIDs monitor @ [commissionID]\<rparr>
           | None \<Rightarrow>
               if workCommissionRunnableForRequest gates commission records [] now
               then monitor\<lparr>mo_RunnableIDs := mo_RunnableIDs monitor @ [commissionID],
                   mo_OpenIDs := mo_OpenIDs monitor @ [commissionID],
                   mo_ObservedIDs := mo_ObservedIDs monitor @ [commissionID]\<rparr>
               else if IsExecutingState (stringField commission ''state'')
               then monitor\<lparr>mo_ExecutingIDs := mo_ExecutingIDs monitor @ [commissionID],
                   mo_OpenIDs := mo_OpenIDs monitor @ [commissionID],
                   mo_ObservedIDs := mo_ObservedIDs monitor @ [commissionID]\<rparr>
               else monitor))"

definition empty_monitor :: harnessDrainMonitor where
  "empty_monitor = \<lparr>mo_OpenIDs = [], mo_ObservedIDs = [], mo_StaleLeases = [], mo_RunnableIDs = [], mo_ExecutingIDs = []\<rparr>"

definition harnessDrainMonitorFromRecords ::
  "string list \<Rightarrow> commission list \<Rightarrow> int \<Rightarrow> Time \<Rightarrow> harnessDrainMonitor"
where
  "harnessDrainMonitorFromRecords gates records maxAgeS now =
     (let monitor = fold (monitor_step gates records maxAgeS now) records empty_monitor
      in monitor\<lparr>mo_OpenIDs := uniqueStringsPreserveOrder (mo_OpenIDs monitor),
           mo_ObservedIDs := uniqueStringsPreserveOrder (mo_ObservedIDs monitor),
           mo_RunnableIDs := uniqueStringsPreserveOrder (mo_RunnableIDs monitor),
           mo_ExecutingIDs := uniqueStringsPreserveOrder (mo_ExecutingIDs monitor)\<rparr>)"

definition loadHarnessDrainMonitor :: "string list \<Rightarrow> Store \<Rightarrow> int \<Rightarrow> Time \<Rightarrow> harnessDrainMonitor result" where
  "loadHarnessDrainMonitor gates store maxAgeS now =
     (case loadWorkCommissionPayloads store of
        Inl e \<Rightarrow> Inl e
      | Inr records \<Rightarrow> Inr (harnessDrainMonitorFromRecords gates records maxAgeS now))"

definition shouldAutoApplyCommission :: "commission \<Rightarrow> bool" where
  "shouldAutoApplyCommission commission =
     (let autoApply = mapField commission ''auto_apply''
      in if \<not> isHarnessApplyResultState (stringField commission ''state'') then False
         else if length autoApply = 0 then False
         else boolField autoApply ''allowed'')"

text \<open>
  The state of the loop: the commissions it has seen, those it has tried to apply, and the attempts
  it made, in order. A \<open>poll\<close> is one turn: the store as the turn finds it, the clock, and the order in
  which Go ranges over the map that holds the seen commissions.
\<close>

record drain_state =
  dr_seen :: "string set"
  dr_attempted :: "string set"
  dr_applied :: "string list"

record poll =
  po_store :: Store
  po_now :: Time
  po_order :: "string set \<Rightarrow> string list"

definition auto_apply_step :: "Store \<Rightarrow> string set \<Rightarrow> string \<Rightarrow> drain_state \<Rightarrow> drain_state" where
  "auto_apply_step store openSet commissionID st =
     (if commissionID \<in> dr_attempted st then st
      else if commissionID \<in> openSet then st
      else (case loadWorkCommissionPayload store commissionID of
          Inl e \<Rightarrow> st
        | Inr commission \<Rightarrow>
            (let st = (if shouldAutoApplyCommission commission
                       then st\<lparr>dr_applied := dr_applied st @ [commissionID]\<rparr> else st)
             in st\<lparr>dr_attempted := insert commissionID (dr_attempted st)\<rparr>)))"

datatype drain_outcome = Draining | Drained harnessDrainMonitor | DrainFailed string | ExitedEarly

text \<open>A turn of the loop, up to its wait.\<close>

definition drain_turn :: "string list \<Rightarrow> int \<Rightarrow> poll \<Rightarrow> drain_state \<Rightarrow> drain_outcome \<times> drain_state" where
  "drain_turn gates maxAgeS p st =
     (case loadHarnessDrainMonitor gates (po_store p) maxAgeS (po_now p) of
        Inl e \<Rightarrow> (DrainFailed e, st)
      | Inr monitor \<Rightarrow>
          (let st = st\<lparr>dr_seen := dr_seen st \<union> set (mo_ObservedIDs monitor)\<rparr>;
               openSet = stringSet (mo_OpenIDs monitor);
               st = fold (auto_apply_step (po_store p) openSet) (po_order p (dr_seen st)) st
           in (if length (mo_OpenIDs monitor) = 0 then Drained monitor else Draining, st)))"

text \<open>What the loop does when the runtime has exited while it waited.\<close>

definition runtime_exited :: "string list \<Rightarrow> int \<Rightarrow> poll \<Rightarrow> drain_outcome" where
  "runtime_exited gates maxAgeS p =
     (case loadHarnessDrainMonitor gates (po_store p) maxAgeS (po_now p) of
        Inl e \<Rightarrow> DrainFailed e
      | Inr monitor \<Rightarrow> if length (mo_OpenIDs monitor) = 0 then Drained monitor else ExitedEarly)"

datatype drain_event = Tick poll | RuntimeExit poll

text \<open>The loop on the events it waits for; when they run out it is still waiting.\<close>

fun drain_loop :: "string list \<Rightarrow> int \<Rightarrow> drain_event list \<Rightarrow> drain_state \<Rightarrow> drain_outcome \<times> drain_state" where
  "drain_loop gates maxAgeS [] st = (Draining, st)"
| "drain_loop gates maxAgeS (RuntimeExit p # events) st = (runtime_exited gates maxAgeS p, st)"
| "drain_loop gates maxAgeS (Tick p # events) st =
     (case drain_turn gates maxAgeS p st of
        (Draining, st') \<Rightarrow> drain_loop gates maxAgeS events st'
      | (outcome, st') \<Rightarrow> (outcome, st'))"

definition watchHarnessDrainUntilIdle ::
  "string list \<Rightarrow> int \<Rightarrow> harnessRunSelection \<Rightarrow> poll \<Rightarrow> drain_event list \<Rightarrow> drain_outcome \<times> drain_state"
where
  "watchHarnessDrainUntilIdle gates maxAgeS selection first events =
     drain_loop gates maxAgeS (Tick first # events)
       \<lparr>dr_seen = stringSet (sel_CommissionIDs selection), dr_attempted = {}, dr_applied = []\<rparr>"

end
