(* ===== verification/HarnessRunLaws.thy ===== *)
theory HarnessRunLaws
  imports HarnessRun CommissionOutcomes
begin

text \<open>
  What a run of the harness guarantees: when a draining run ends, which patches it hands on and how
  often, that the mark it goes by is the delivery decision of the completion, and what the record of
  a run out of the specification changes.
\<close>

section \<open>The monitor\<close>

definition leased_out :: "int \<Rightarrow> Time \<Rightarrow> commission \<Rightarrow> bool" where
  "leased_out maxAgeS now c \<longleftrightarrow> harnessStaleLeaseSummaryFor c maxAgeS now \<noteq> None"

text \<open>A commission keeps a drain open: its lease is not too old, and it runs or could run.\<close>

definition keeps_open :: "string list \<Rightarrow> commission list \<Rightarrow> int \<Rightarrow> Time \<Rightarrow> commission \<Rightarrow> bool" where
  "keeps_open gates records maxAgeS now c \<longleftrightarrow>
     stringField c ''id'' \<noteq> [] \<and> \<not> leased_out maxAgeS now c
     \<and> (workCommissionRunnableForRequest gates c records [] now \<or> IsExecutingState (stringField c ''state''))"

definition observed :: "string list \<Rightarrow> commission list \<Rightarrow> int \<Rightarrow> Time \<Rightarrow> commission \<Rightarrow> bool" where
  "observed gates records maxAgeS now c \<longleftrightarrow>
     stringField c ''id'' \<noteq> [] \<and> (leased_out maxAgeS now c \<or> keeps_open gates records maxAgeS now c)"

lemma monitor_fold:
  "mo_OpenIDs (fold (monitor_step gates records maxAgeS now) cs m) =
     mo_OpenIDs m @ map (\<lambda>c. stringField c ''id'') (filter (keeps_open gates records maxAgeS now) cs)"
  "mo_ObservedIDs (fold (monitor_step gates records maxAgeS now) cs m) =
     mo_ObservedIDs m @ map (\<lambda>c. stringField c ''id'') (filter (observed gates records maxAgeS now) cs)"
  by (induction cs arbitrary: m)
    (auto simp: monitor_step_def Let_def keeps_open_def observed_def leased_out_def split: option.split)

lemma unique_ids: "uniqueStringsPreserveOrder (map (\<lambda>c. stringField c k) (filter P cs))
    = dedup_from {} (filter (\<lambda>i. i \<noteq> []) (map (\<lambda>c. stringField c k) (filter P cs)))"
proof -
  have "clean_strings vs = filter (\<lambda>i. i \<noteq> []) vs" if "\<forall>v\<in>set vs. trim_space v = v" for vs
    using that by (induction vs) (auto simp: Let_def)
  then show ?thesis by (simp add: uniqueStringsPreserveOrder_def)
qed

lemma monitor_ids:
  "set (mo_OpenIDs (harnessDrainMonitorFromRecords gates records maxAgeS now)) =
     (\<lambda>c. stringField c ''id'') ` {c \<in> set records. keeps_open gates records maxAgeS now c}"
  "set (mo_ObservedIDs (harnessDrainMonitorFromRecords gates records maxAgeS now)) =
     (\<lambda>c. stringField c ''id'') ` {c \<in> set records. observed gates records maxAgeS now c}"
  by (auto simp: harnessDrainMonitorFromRecords_def Let_def monitor_fold empty_monitor_def unique_ids keeps_open_def
      observed_def)

lemma open_clean: "stringSet (mo_OpenIDs (harnessDrainMonitorFromRecords gates records maxAgeS now))
    = set (mo_OpenIDs (harnessDrainMonitorFromRecords gates records maxAgeS now))"
proof -
  have "clean_strings vs = vs" if "\<forall>v\<in>set vs. trim_space v = v \<and> v \<noteq> []" for vs
    using that by (intro clean_strings_id) auto
  then show ?thesis by (auto simp: stringSet_def monitor_ids keeps_open_def set_clean_strings)
qed

lemma drain_idle:
  "mo_OpenIDs (harnessDrainMonitorFromRecords gates records maxAgeS now) = []
     \<longleftrightarrow> list_all (\<lambda>c. \<not> keeps_open gates records maxAgeS now c) records"
  using monitor_ids(1)[of gates records maxAgeS now] by (auto simp: list_all_iff set_empty[symmetric] simp del: set_empty)

text \<open>When a lease is too old, as long as the option does not overflow an int64 of nanoseconds.\<close>

lemma seconds_duration_exact:
  "0 \<le> s \<Longrightarrow> s \<le> 9223372036 \<Longrightarrow> seconds_duration s = s * 1000000000"
  unfolding seconds_duration_def sint_sbintrunc' by (subst signed_take_bit_int_eq_self) simp_all

lemma seconds_duration_overflow: "seconds_duration 9223372037 < 0"
  by (simp add: seconds_duration_def)

section \<open>The drain\<close>

text \<open>
  What a poll says of a commission the run has seen: None while it is open or cannot be loaded, and
  otherwise whether its patch is to be applied.
\<close>

definition verdict :: "harnessDrainMonitor \<Rightarrow> Store \<Rightarrow> string \<Rightarrow> bool option" where
  "verdict m store i =
     (if i \<in> set (mo_OpenIDs m) then None
      else (case loadWorkCommissionPayload store i of
          Inl e \<Rightarrow> None | Inr c \<Rightarrow> Some (shouldAutoApplyCommission c)))"

text \<open>The first poll that settles a commission decides; a poll that finds nothing open is the last.\<close>

fun first_verdict :: "string list \<Rightarrow> int \<Rightarrow> poll list \<Rightarrow> string \<Rightarrow> bool \<Rightarrow> bool option" where
  "first_verdict gates maxAgeS [] i seen = None"
| "first_verdict gates maxAgeS (p # ps) i seen =
     (case loadHarnessDrainMonitor gates (po_store p) maxAgeS (po_now p) of
        Inl e \<Rightarrow> None
      | Inr m \<Rightarrow>
          (let seen' = (seen \<or> i \<in> set (mo_ObservedIDs m))
           in case (if seen' then verdict m (po_store p) i else None) of
                Some v \<Rightarrow> Some v
              | None \<Rightarrow> if mo_OpenIDs m = [] then None else first_verdict gates maxAgeS ps i seen'))"

definition drain_inv :: "drain_state \<Rightarrow> bool" where
  "drain_inv st \<longleftrightarrow> finite (dr_seen st) \<and> distinct (dr_applied st) \<and> set (dr_applied st) \<subseteq> dr_attempted st"

lemma auto_apply_step_effect:
  "dr_seen (auto_apply_step store opens i st) = dr_seen st"
  "drain_inv st \<Longrightarrow> drain_inv (auto_apply_step store opens i st)"
  by (auto simp: auto_apply_step_def drain_inv_def Let_def split: sum.split)

lemma auto_apply_pass:
  assumes "drain_inv st"
  shows "drain_inv (fold (auto_apply_step store (set (mo_OpenIDs m))) xs st)
    \<and> dr_seen (fold (auto_apply_step store (set (mo_OpenIDs m))) xs st) = dr_seen st
    \<and> dr_attempted (fold (auto_apply_step store (set (mo_OpenIDs m))) xs st)
        = dr_attempted st \<union> {i \<in> set xs. verdict m store i \<noteq> None}
    \<and> set (dr_applied (fold (auto_apply_step store (set (mo_OpenIDs m))) xs st))
        = set (dr_applied st) \<union> {i \<in> set xs. i \<notin> dr_attempted st \<and> verdict m store i = Some True}"
  using assms
proof (induction xs arbitrary: st)
  case (Cons x xs)
  let ?st = "auto_apply_step store (set (mo_OpenIDs m)) x st"
  have inv: "drain_inv ?st" "dr_seen ?st = dr_seen st" using auto_apply_step_effect Cons.prems by simp_all
  have att: "dr_attempted ?st = dr_attempted st \<union> (if verdict m store x \<noteq> None then {x} else {})"
    "set (dr_applied ?st) = set (dr_applied st)
       \<union> (if x \<notin> dr_attempted st \<and> verdict m store x = Some True then {x} else {})"
    by (auto simp: auto_apply_step_def verdict_def Let_def split: sum.split)
  show ?case using Cons.IH[OF inv(1)] inv(2) unfolding fold_simps comp_apply att by (auto split: if_splits)
qed simp

lemma turn_effect:
  assumes "drain_inv st" "finite (dr_seen st) \<Longrightarrow>
      (\<And>S. finite S \<Longrightarrow> set (po_order p S) = S \<and> distinct (po_order p S))"
    "loadHarnessDrainMonitor gates (po_store p) maxAgeS (po_now p) = Inr m"
  obtains st' where
    "drain_turn gates maxAgeS p st = (if mo_OpenIDs m = [] then Drained m else Draining, st')" "drain_inv st'"
    "dr_seen st' = dr_seen st \<union> set (mo_ObservedIDs m)"
    "dr_attempted st' = dr_attempted st \<union> {i \<in> dr_seen st'. verdict m (po_store p) i \<noteq> None}"
    "set (dr_applied st') = set (dr_applied st)
       \<union> {i \<in> dr_seen st'. i \<notin> dr_attempted st \<and> verdict m (po_store p) i = Some True}"
proof -
  obtain records where m: "m = harnessDrainMonitorFromRecords gates records maxAgeS (po_now p)"
    using assms(3) by (auto simp: loadHarnessDrainMonitor_def split: sum.splits)
  let ?st = "st\<lparr>dr_seen := dr_seen st \<union> set (mo_ObservedIDs m)\<rparr>"
  have inv: "drain_inv ?st" using assms(1) by (simp add: drain_inv_def)
  have ord: "set (po_order p (dr_seen ?st)) = dr_seen ?st" using assms(1,2) by (simp add: drain_inv_def)
  note pass = auto_apply_pass[OF inv, of "po_store p" m "po_order p (dr_seen ?st)", unfolded ord]
  show thesis
    by (rule that[of "fold (auto_apply_step (po_store p) (set (mo_OpenIDs m))) (po_order p (dr_seen ?st)) ?st"])
      (use pass assms(3) open_clean[of gates records maxAgeS "po_now p"] in
        \<open>auto simp: drain_turn_def Let_def m[symmetric]\<close>)
qed

lemma drain_run:
  assumes "drain_inv st"
    "\<And>p S. p \<in> set polls \<Longrightarrow> finite S \<Longrightarrow> set (po_order p S) = S \<and> distinct (po_order p S)"
  shows "distinct (dr_applied (snd (drain_loop gates maxAgeS (map Tick polls) st)))
    \<and> (i \<in> set (dr_applied (snd (drain_loop gates maxAgeS (map Tick polls) st))) \<longleftrightarrow>
        i \<in> set (dr_applied st)
        \<or> (i \<notin> dr_attempted st \<and> first_verdict gates maxAgeS polls i (i \<in> dr_seen st) = Some True))"
  using assms
proof (induction polls arbitrary: st)
  case Nil
  then show ?case by (simp add: drain_inv_def)
next
  case (Cons p polls)
  show ?case
  proof (cases "loadHarnessDrainMonitor gates (po_store p) maxAgeS (po_now p)")
    case (Inl e)
    then show ?thesis using Cons.prems(1) by (simp add: drain_turn_def drain_inv_def)
  next
    case (Inr m)
    obtain st' where t: "drain_turn gates maxAgeS p st = (if mo_OpenIDs m = [] then Drained m else Draining, st')"
      "drain_inv st'" "dr_seen st' = dr_seen st \<union> set (mo_ObservedIDs m)"
      "dr_attempted st' = dr_attempted st \<union> {i \<in> dr_seen st'. verdict m (po_store p) i \<noteq> None}"
      "set (dr_applied st') = set (dr_applied st)
         \<union> {i \<in> dr_seen st'. i \<notin> dr_attempted st \<and> verdict m (po_store p) i = Some True}"
      using turn_effect[OF Cons.prems(1) _ Inr] Cons.prems(2)[of p] by auto
    have sub: "set (dr_applied st) \<subseteq> dr_attempted st" using Cons.prems(1) by (simp add: drain_inv_def)
    show ?thesis
    proof (cases "mo_OpenIDs m = []")
      case True
      then show ?thesis using t Inr sub by (auto simp: drain_inv_def Let_def split: option.splits)
    next
      case False
      have "distinct (dr_applied (snd (drain_loop gates maxAgeS (map Tick polls) st')))
          \<and> (i \<in> set (dr_applied (snd (drain_loop gates maxAgeS (map Tick polls) st'))) \<longleftrightarrow>
             i \<in> set (dr_applied st')
             \<or> (i \<notin> dr_attempted st' \<and> first_verdict gates maxAgeS polls i (i \<in> dr_seen st') = Some True))"
        using Cons.IH[OF t(2)] Cons.prems(2) by simp
      then show ?thesis using t Inr False sub by (auto simp: Let_def split: option.splits if_splits)
    qed
  qed
qed

text \<open>
  C17. A draining run hands on exactly the patches it should, each once: a commission it has seen is
  tried at the first poll that finds it neither runnable nor executing under a lease that is not too
  old, and its patch is applied exactly when it is then completed with its delivery decided as
  automatic. The order in which Go ranges over the map of commissions does not matter.
\<close>

theorem drain_applies_once:
  assumes "\<And>p S. p \<in> set (first # polls) \<Longrightarrow> finite S \<Longrightarrow> set (po_order p S) = S \<and> distinct (po_order p S)"
  shows "let applied = dr_applied (snd (watchHarnessDrainUntilIdle gates maxAgeS selection first (map Tick polls)))
    in distinct applied
       \<and> (i \<in> set applied \<longleftrightarrow>
            first_verdict gates maxAgeS (first # polls) i (i \<in> stringSet (sel_CommissionIDs selection)) = Some True)"
proof -
  let ?st = "\<lparr>dr_seen = stringSet (sel_CommissionIDs selection), dr_attempted = {}, dr_applied = []\<rparr>"
  have "drain_inv ?st" by (simp add: drain_inv_def stringSet_def)
  note run = drain_run[where st = ?st and polls = "first # polls" and gates = gates and maxAgeS = maxAgeS and i = i, OF this assms]
  show ?thesis using run unfolding watchHarnessDrainUntilIdle_def Let_def by simp
qed

text \<open>A commission that stopped is never looked at again, even when it is requeued and completes later.\<close>

lemma later_polls_ignored:
  assumes "loadHarnessDrainMonitor gates (po_store p) maxAgeS (po_now p) = Inr m"
    "verdict m (po_store p) i = Some False"
  shows "first_verdict gates maxAgeS (p # polls) i True = Some False"
  using assms by simp

definition finished_commission :: commission where
  "finished_commission =
     [(''id'', GStr ''wc-9''), (''state'', GStr ''completed''),
      (''auto_apply'', GMap [(''allowed'', GBool True)])]"

definition example_poll :: poll where
  "example_poll = \<lparr>po_store = \<lparr>st_artifacts = [new_commission_row finished_commission], st_files = []\<rparr>,
     po_now = zero_time, po_order = sorted_list_of_set\<rparr>"

lemma example_verdict: "first_verdict [] 0 [example_poll] ''wc-9'' True = Some True"
  by code_simp

theorem drain_applies_once_witness:
  "''wc-9'' \<in> set (dr_applied (snd (watchHarnessDrainUntilIdle [] 0
     \<lparr>sel_CommissionIDs = [''wc-9''], sel_DecisionRefs = [], sel_PlanRef = []\<rparr> example_poll (map Tick []))))"
proof -
  have order: "finite S \<Longrightarrow> set (po_order p S) = S \<and> distinct (po_order p S)" if "p \<in> set [example_poll]" for p S
    using that by (simp add: example_poll_def)
  have "''wc-9'' \<in> stringSet [''wc-9'']" by (simp add: stringSet_def plain_char_def)
  then show ?thesis
    using drain_applies_once[of example_poll "[]" "[]" 0
        "\<lparr>sel_CommissionIDs = [''wc-9''], sel_DecisionRefs = [], sel_PlanRef = []\<rparr>" "''wc-9''", OF order] example_verdict
    by (simp add: Let_def)
qed

section \<open>The mark a drain goes by\<close>

lemma mapField_mapArg: "mapArg c k = Some a \<Longrightarrow> mapField (json_norm_payload c) k = json_norm_payload a"
  by (auto simp: mapArg_def mapField_def map_of_json_norm_payload json_norm_payload_def[of a] split: option.splits gval.splits)

lemma boolField_norm [simp]: "boolField (json_norm_payload p) k = boolField p k"
proof (cases "map_of p k")
  case (Some v)
  have "(case float_of_int i of GBool b \<Rightarrow> b | _ \<Rightarrow> False) = False" for i
    by (rule float_of_int_cases[of i]) simp
  moreover have "(case number_at_rest s of GBool b \<Rightarrow> b | _ \<Rightarrow> False) = False" for s
    by (cases s rule: number_at_rest_cases) simp_all
  ultimately show ?thesis using Some by (cases v) (simp_all add: boolField_def map_of_json_norm_payload)
qed (simp add: boolField_def map_of_json_norm_payload)

text \<open>
  C18. The gate of an automatic application is the decision taken at the completion: the commission a
  passing \<open>complete_or_block\<close> stores is one whose patch a drain applies exactly when its delivery
  policy asks for it and its autonomy envelope, if it has one, allows it at that moment. Without an
  envelope the policy decides alone, where the architecture document wants manual delivery.
\<close>

theorem auto_apply_is_the_delivery_decision:
  assumes "store_ok store" "stringArg args ''action'' = ''complete_or_block''"
    "stringArg args ''verdict'' \<in> {''pass'', ''completed''}"
    "view store (stringArg args ''commission_id'') = Some c" "stringField c ''state'' = StateRunning"
  shows "case view (snd (appendWorkCommissionLifecycle env args store)) (stringArg args ''commission_id'') of
           None \<Rightarrow> False
         | Some c' \<Rightarrow> shouldAutoApplyCommission c' \<longleftrightarrow> delivers_itself env c"
proof -
  obtain c' a debt where "view (snd (appendWorkCommissionLifecycle env args store))
      = (view store)(stringArg args ''commission_id'' \<mapsto> json_norm_payload c')"
    "stringField c' ''state'' = (if debt then StateCompletedWithProjectionDebt else StateCompleted)"
    and c': "mapArg c' ''auto_apply'' = Some a" "boolField a ''allowed'' \<longleftrightarrow> delivers_itself env c"
    using completion_core[OF assms, of env] unfolding Let_def split_beta by blast
  then have "IsCompletionState (stringField c' ''state'')"
    and view: "view (snd (appendWorkCommissionLifecycle env args store)) (stringArg args ''commission_id'')
      = Some (json_norm_payload c')"
    by (auto simp: state_tests state_sets plain_char_def)
  moreover have "json_norm_payload a \<noteq> []" if "boolField a ''allowed''"
  proof
    assume "json_norm_payload a = []"
    then have "boolField (json_norm_payload a) ''allowed'' = False" by (simp add: boolField_def)
    then show False using that by simp
  qed
  ultimately show ?thesis
    using c' unfolding view by (auto simp: shouldAutoApplyCommission_def Let_def isHarnessApplyResultState_def mapField_mapArg)
qed

theorem auto_apply_is_the_delivery_decision_witness:
  "\<exists>c c'. view running_store ''wc-4'' = Some c
     \<and> view (snd (appendWorkCommissionLifecycle example_env finish_args running_store)) ''wc-4'' = Some c'
     \<and> (shouldAutoApplyCommission c' \<longleftrightarrow> delivers_itself example_env c)"
proof -
  obtain c where c: "view running_store ''wc-4'' = Some c" "stringField c ''state'' = ''running''"
    using running_view by blast
  have args: "stringArg finish_args ''action'' = ''complete_or_block''"
    "stringArg finish_args ''verdict'' \<in> {''pass'', ''completed''}" "stringArg finish_args ''commission_id'' = ''wc-4''"
    by (simp_all add: finish_args_def stringArg_def plain_char_def)
  show ?thesis
    using auto_apply_is_the_delivery_decision[OF running_store_ok args(1,2), where c = c and env = example_env] c
    unfolding args(3) by (auto split: option.splits)
qed

section \<open>Runs out of the specification\<close>

lemma overridden_mark:
  "mapField (json_norm_payload (overridden env gate override c)) ''spec_readiness_override''
     = json_norm_payload (let r = copyStringAnyMap override in
         if stringField r ''recorded_at'' = [] then put ''recorded_at'' (GStr (format_rfc3339 (env_now env))) r else r)"
  by (rule mapField_mapArg) (simp add: overridden_def appendLifecycleEvent_def withCommissionSpecReadinessOverride_def Let_def)

lemma tactical_gate:
  assumes "gate = harnessRunReadinessGateFor status reason" "rg_Kind gate = harnessRunReadinessTacticalAllowed"
  shows "status = ReadinessNeedsOnboard" "rg_OverrideReason gate = trim_space reason" "trim_space reason \<noteq> []"
  using assms by (auto simp: harnessRunReadinessGateFor_def Let_def split: if_splits)

lemma mapArg_mapField: "mapField p k \<noteq> [] \<Longrightarrow> mapArg p k = Some (mapField p k)"
  by (auto simp: mapField_def mapArg_def split: option.splits gval.splits)

lemma copy_fields:
  "stringField (copyStringAnyMap p) k = stringField p k" "boolField (copyStringAnyMap p) k = boolField p k"
proof -
  have "map_of (fold (\<lambda>(key, value) output. put key value output) kvs m) k = map_of (rev kvs @ m) k" for kvs m
    by (induction kvs arbitrary: m) (auto simp: map_add_def split: option.splits)
  then have "map_of (copyStringAnyMap p) k = map_of p k" by (simp add: copyStringAnyMap_def)
  then show "stringField (copyStringAnyMap p) k = stringField p k" "boolField (copyStringAnyMap p) k = boolField p k"
    by (simp_all add: stringField_def boolField_def)
qed

lemma overridden_is_tactical:
  assumes "gate = harnessRunReadinessGateFor status reason" "harnessRunSpecReadinessOverride gate = Some override"
  shows "commissionHasTacticalSpecReadinessOverride (json_norm_payload (overridden env gate override c))"
proof -
  have kind: "rg_Kind gate = harnessRunReadinessTacticalAllowed"
    using assms(2) by (auto simp: harnessRunSpecReadinessOverride_def split: if_splits)
  note gate = tactical_gate[OF assms(1) kind]
  have ov: "override = [(''kind'', GStr ''tactical''), (''out_of_spec'', GBool True),
      (''project_readiness'', GStr ''needs_onboard''), (''reason'', GStr (trim_space reason))]"
    using assms kind gate by (auto simp: harnessRunSpecReadinessOverride_def readiness_text_def harnessRunReadinessGateFor_def
        Let_def split: if_splits)
  let ?m = "mapField (json_norm_payload (overridden env gate override c)) ''spec_readiness_override''"
  have fields: "stringField ?m ''kind'' = ''tactical''" "boolField ?m ''out_of_spec''" "stringField ?m ''reason'' = trim_space reason"
    unfolding overridden_mark ov
    by (simp_all add: Let_def stringField_Cons copy_fields plain_char_def boolField_Cons)
  then have "?m \<noteq> []" by (auto simp: stringField_def)
  then show ?thesis
    unfolding commissionHasTacticalSpecReadinessOverride_def mapArg_mapField[OF \<open>?m \<noteq> []\<close>] using fields gate(3) by simp
qed

lemma override_run:
  assumes "store_ok store" "distinct ids" "\<And>i. i \<in> set ids \<Longrightarrow> view store i \<noteq> None"
  shows "\<exists>store'. override_loop env gate override ids store = Inr store' \<and> store_ok store'
    \<and> (\<forall>i. view store' i = (if i \<in> set ids
        then map_option (\<lambda>c. json_norm_payload (overridden env gate override c)) (view store i) else view store i))"
  using assms
proof (induction ids arbitrary: store)
  case (Cons x ids)
  obtain c where c: "view store x = Some c" using Cons.prems(3)[of x] by auto
  note ok = view_Some[OF c Cons.prems(1)]
  let ?c1 = "overridden env gate override c"
  have f: "stringField ?c1 ''id'' = x" "IsKnownState (stringField ?c1 ''state'')"
    using same_except_field(1)[OF overridden_frame, of "''id''"] same_except_field(1)[OF overridden_frame, of "''state''"]
      ok(1,2) by (simp_all add: override_keys_def)
  obtain s1 where s1: "updateWorkCommissionPayload ?c1 store = Inr s1" "store_ok s1"
    "view s1 = (view store)(x \<mapsto> json_norm_payload ?c1)"
    using update_view[OF Cons.prems(1) c f] by blast
  have "view s1 i \<noteq> None" if "i \<in> set ids" for i using Cons.prems(3)[of i] that s1(3) by simp
  then obtain s2 where s2: "override_loop env gate override ids s1 = Inr s2" "store_ok s2"
    "\<forall>i. view s2 i = (if i \<in> set ids
        then map_option (\<lambda>c. json_norm_payload (overridden env gate override c)) (view s1 i) else view s1 i)"
    using Cons.IH[OF s1(2)] Cons.prems(2) by auto
  have "override_loop env gate override (x # ids) store = Inr s2" using ok(6) s1(1) s2(1) by simp
  moreover have "view s2 i = (if i \<in> set (x # ids)
      then map_option (\<lambda>c. json_norm_payload (overridden env gate override c)) (view store i) else view store i)" for i
    using s1(3) s2(3) c Cons.prems(2) by auto
  ultimately show ?case using s2(2) by blast
qed simp

text \<open>
  C19. A run out of the specification marks exactly the commissions it selects, whatever state they
  are in: it records the override, appends one event to the log, and changes nothing else of any
  commission. It always succeeds on stored commissions.
\<close>

theorem tactical_override_effect:
  assumes "store_ok store" "list_all (\<lambda>c. c \<in> set (commissions store)) selected"
    "gate = harnessRunReadinessGateFor status reason" "rg_Kind gate = harnessRunReadinessTacticalAllowed"
  shows "case recordHarnessRunTacticalOverride env (harnessRunSelectionFromCommissions selected) gate store of
    (outcome, store') \<Rightarrow> outcome = Inr () \<and> store_ok store'
      \<and> (\<forall>i. case view store i of
           None \<Rightarrow> view store' i = None
         | Some c \<Rightarrow>
             (case view store' i of
                None \<Rightarrow> False
              | Some c' \<Rightarrow>
                  if c \<in> set selected
                  then same_except override_keys c c' \<and> commissionHasTacticalSpecReadinessOverride c'
                       \<and> butlast (stored_events c') = stored_events c \<and> stored_events c' \<noteq> []
                  else c' = c))"
proof -
  obtain override where ov: "harnessRunSpecReadinessOverride gate = Some override"
    using assms(4) by (simp add: harnessRunSpecReadinessOverride_def)
  let ?ids = "sel_CommissionIDs (harnessRunSelectionFromCommissions selected)"
  have member: "view store (stringField c ''id'') = Some c" "stringField c ''id'' \<noteq> []" if "c \<in> set selected" for c
    using that assms(1,2) mem_commissions[OF assms(1)] view_Some(4)[OF _ assms(1)] by (auto simp: list_all_iff)
  have "clean_strings (map (\<lambda>c. stringField c ''id'') selected) = map (\<lambda>c. stringField c ''id'') selected"
    using member(2) by (intro clean_strings_id) auto
  then have ids: "set ?ids = (\<lambda>c. stringField c ''id'') ` set selected" "distinct ?ids"
    by (simp_all add: harnessRunSelectionFromCommissions_def uniqueStringsPreserveOrder_def cleanStringSlice_def)
  have picked: "i \<in> set ?ids \<longleftrightarrow> c \<in> set selected" if "view store i = Some c" for i c
  proof
    assume "i \<in> set ?ids"
    then obtain d where "d \<in> set selected" "i = stringField d ''id''" by (auto simp: ids(1))
    then show "c \<in> set selected" using member(1)[of d] that by simp
  qed (use view_Some(1)[OF that assms(1)] ids(1) in auto)
  have known: "view store i \<noteq> None" if "i \<in> set ?ids" for i
    using that member(1) unfolding ids(1) by fastforce
  obtain store' where run: "override_loop env gate override ?ids store = Inr store'" "store_ok store'"
    "\<And>i. view store' i = (if i \<in> set ?ids
        then map_option (\<lambda>c. json_norm_payload (overridden env gate override c)) (view store i) else view store i)"
    using override_run[OF assms(1) ids(2) known, of env gate override] by blast
  have rec: "recordHarnessRunTacticalOverride env (harnessRunSelectionFromCommissions selected) gate store = (Inr (), store')"
    using run(1) run(3) ov
    by (cases "?ids = []") (simp_all add: recordHarnessRunTacticalOverride_def)
  have marked: "same_except override_keys c c' \<and> commissionHasTacticalSpecReadinessOverride c'
      \<and> butlast (stored_events c') = stored_events c \<and> stored_events c' \<noteq> []"
    if "view store i = Some c" "c' = json_norm_payload (overridden env gate override c)" for i c c'
  proof -
    obtain e where "stored_events (overridden env gate override c) = stored_events c @ [e]" using overridden_events by blast
    then have "stored_events c' = stored_events c @ [json_norm e]"
      unfolding that(2) by (rule stored_events_norm_append[OF view_Some(3)[OF that(1) assms(1)]])
    then show ?thesis
      using norm_frame[OF view_Some(3)[OF that(1) assms(1)] overridden_frame] overridden_is_tactical[OF assms(3) ov] that(2)
      by simp
  qed
  show ?thesis
    unfolding rec using run(2,3) picked marked by (auto split: option.split)
qed

text \<open>A cancelled commission is marked like any other.\<close>

theorem tactical_override_effect_witness:
  "\<exists>c c'. view example_store ''wc-1'' = Some c \<and> IsTerminalState (stringField c ''state'')
     \<and> view (snd (recordHarnessRunTacticalOverride example_env (harnessRunSelectionFromCommissions [c])
          (harnessRunReadinessGateFor ReadinessNeedsOnboard ''hotfix'') example_store)) ''wc-1'' = Some c'
     \<and> c' \<noteq> c"
proof -
  obtain c where c: "view example_store ''wc-1'' = Some c" "stringField c ''state'' = ''cancelled''"
    using example_view by blast
  let ?gate = "harnessRunReadinessGateFor ReadinessNeedsOnboard ''hotfix''"
  have kind: "rg_Kind ?gate = harnessRunReadinessTacticalAllowed"
    by (simp add: harnessRunReadinessGateFor_def harnessRunReadinessBlockReason_def plain_char_def)
  have mem: "list_all (\<lambda>c. c \<in> set (commissions example_store)) [c]"
    using view_Some(5)[OF c(1) example_store_ok] by simp
  have final: "IsTerminalState (stringField c ''state'')" unfolding c(2) by (simp add: state_tests state_sets plain_char_def)
  note eff = tactical_override_effect[OF example_store_ok mem refl kind, of example_env, unfolded split_beta]
  note at = spec[OF conjunct2[OF conjunct2[OF eff]], of "''wc-1''", unfolded c(1) option.case]
  from at obtain c' where c': "view (snd (recordHarnessRunTacticalOverride example_env (harnessRunSelectionFromCommissions [c])
      ?gate example_store)) ''wc-1'' = Some c'" "butlast (stored_events c') = stored_events c" "stored_events c' \<noteq> []"
    by (auto split: option.splits)
  have "c' \<noteq> c"
  proof
    assume "c' = c"
    then have "length (stored_events c') = length (stored_events c') - 1" using c'(2) by (metis length_butlast)
    then show False using c'(3) by (cases "stored_events c'") simp_all
  qed
  then show ?thesis using c(1) final c'(1) by blast
qed

end
