(* ===== verification/HarnessApply.thy ===== *)
theory HarnessApply
  imports HarnessRun ScopeAuth
begin

text \<open>
  Applying the work of a commission to the checkout of the project (\<open>internal/cli/harness.go\<close>): what
  the operator is told to do next, the scope check, the patch and the copies, and the two ways a
  patch is applied without the operator. The world outside the program, git and the file system, is
  a parameter: a record of what git answers and what writing does to a world of any type. A function
  that writes takes the world and returns it. An error of the application drops the summary filled so
  far, which no caller reads.
\<close>

section \<open>The world\<close>

record file_info =
  fi_directory :: bool
  fi_symlink :: bool
  fi_perm :: nat

record 'w git =
  g_is_repository :: "'w \<Rightarrow> string \<Rightarrow> bool"
  g_output :: "'w \<Rightarrow> string \<Rightarrow> string list \<Rightarrow> string result"
  g_change :: "'w \<Rightarrow> string \<Rightarrow> string list \<Rightarrow> string result \<times> 'w"
  g_apply :: "'w \<Rightarrow> string \<Rightarrow> string \<Rightarrow> unit result \<times> 'w"
  g_lstat :: "'w \<Rightarrow> string \<Rightarrow> file_info result"
  g_read_file :: "'w \<Rightarrow> string \<Rightarrow> string result"
  g_mkdir_all :: "'w \<Rightarrow> string \<Rightarrow> unit result \<times> 'w"
  g_write_file :: "'w \<Rightarrow> string \<Rightarrow> string \<Rightarrow> nat \<Rightarrow> unit result \<times> 'w"

definition line_feed :: char where "line_feed = CHR 0x0A"

text \<open>\<open>filepath.Join\<close> of two parts and \<open>filepath.Dir\<close>.\<close>

definition path_join :: "string \<Rightarrow> string \<Rightarrow> string" where
  "path_join a b =
     (if a = [] then (if b = [] then [] else path_clean b) else path_clean (a @ [slash] @ b))"

definition path_dir :: "string \<Rightarrow> string" where
  "path_dir path = path_clean (rev (dropWhile (\<lambda>c. c \<noteq> slash) (rev path)))"

definition path_lines :: "string \<Rightarrow> string list" where
  "path_lines output = uniqueStringsPreserveOrder (cleanStringSlice (split_at line_feed output))"

text \<open>A failing command gives its output as the error of \<open>g_output\<close> and \<open>g_change\<close>.\<close>

definition git_error :: "string list \<Rightarrow> string \<Rightarrow> string" where
  "git_error args output = ''git '' @ join '' '' args @ '': '' @ trim_space output"

definition harnessGitOutput :: "'w git \<Rightarrow> 'w \<Rightarrow> string \<Rightarrow> string list \<Rightarrow> string result" where
  "harnessGitOutput git w workdir args =
     (case g_output git w workdir args of Inl output \<Rightarrow> Inl (git_error args output) | Inr output \<Rightarrow> Inr output)"

definition harnessGitChange :: "'w git \<Rightarrow> string \<Rightarrow> string list \<Rightarrow> 'w \<Rightarrow> string result \<times> 'w" where
  "harnessGitChange git workdir args w =
     (case g_change git w workdir args of
        (Inl output, w') \<Rightarrow> (Inl (git_error args output), w')
      | (Inr output, w') \<Rightarrow> (Inr output, w'))"

definition gitChangedTrackedFiles :: "'w git \<Rightarrow> 'w \<Rightarrow> string \<Rightarrow> string list result" where
  "gitChangedTrackedFiles git w workdir =
     (case harnessGitOutput git w workdir [''diff'', ''--name-only''] of
        Inl e \<Rightarrow> Inl e | Inr output \<Rightarrow> Inr (path_lines output))"

definition gitUntrackedFiles :: "'w git \<Rightarrow> 'w \<Rightarrow> string \<Rightarrow> string list result" where
  "gitUntrackedFiles git w workdir =
     (case harnessGitOutput git w workdir [''ls-files'', ''--others'', ''--exclude-standard''] of
        Inl e \<Rightarrow> Inl e | Inr output \<Rightarrow> Inr (path_lines output))"

definition gitDirtyTargetPaths :: "'w git \<Rightarrow> 'w \<Rightarrow> string \<Rightarrow> string list \<Rightarrow> string list result" where
  "gitDirtyTargetPaths git w workdir paths =
     (case harnessGitOutput git w workdir ([''status'', ''--porcelain'', ''--''] @ paths) of
        Inl e \<Rightarrow> Inl e
      | Inr output \<Rightarrow>
          Inr (uniqueStringsPreserveOrder
            (map (\<lambda>line. trim_space (drop 3 line))
              (filter (\<lambda>line. trim_space line \<noteq> [] \<and> length line > 3) (split_at line_feed output)))))"

definition gitDiffBinary :: "'w git \<Rightarrow> 'w \<Rightarrow> string \<Rightarrow> string list \<Rightarrow> string result" where
  "gitDiffBinary git w workdir paths = harnessGitOutput git w workdir ([''diff'', ''--binary'', ''--''] @ paths)"

definition gitApplyPatch :: "'w git \<Rightarrow> 'w \<Rightarrow> string \<Rightarrow> string \<Rightarrow> unit result \<times> 'w" where
  "gitApplyPatch git w workdir patch =
     (case g_apply git w workdir patch of
        (Inl output, w') \<Rightarrow> (Inl (''apply workspace diff: '' @ trim_space output), w')
      | (Inr u, w') \<Rightarrow> (Inr u, w'))"

definition copyHarnessWorkspaceFile :: "'w git \<Rightarrow> string \<Rightarrow> string \<Rightarrow> string \<Rightarrow> 'w \<Rightarrow> unit result \<times> 'w" where
  "copyHarnessWorkspaceFile git projectRoot workspacePath path w =
     (let source = path_join workspacePath path; target = path_join projectRoot path
      in case g_lstat git w source of
           Inl e \<Rightarrow> (Inl (''stat workspace file '' @ path @ '': '' @ e), w)
         | Inr info \<Rightarrow>
             if fi_directory info then (Inl (''workspace path is a directory, not a file: '' @ path), w)
             else if fi_symlink info then (Inl (''workspace symlink copy is not supported: '' @ path), w)
             else (case g_read_file git w source of
                 Inl e \<Rightarrow> (Inl (''read workspace file '' @ path @ '': '' @ e), w)
               | Inr contents \<Rightarrow>
                   (case g_mkdir_all git w (path_dir target) of
                      (Inl e, w1) \<Rightarrow> (Inl (''create target directory for '' @ path @ '': '' @ e), w1)
                    | (Inr _, w1) \<Rightarrow>
                        (case g_write_file git w1 target contents (fi_perm info) of
                           (Inl e, w2) \<Rightarrow> (Inl (''write target file '' @ path @ '': '' @ e), w2)
                         | (Inr _, w2) \<Rightarrow> (Inr (), w2)))))"

fun copyHarnessWorkspaceFiles :: "'w git \<Rightarrow> string \<Rightarrow> string \<Rightarrow> string list \<Rightarrow> 'w \<Rightarrow> unit result \<times> 'w" where
  "copyHarnessWorkspaceFiles git projectRoot workspacePath [] w = (Inr (), w)"
| "copyHarnessWorkspaceFiles git projectRoot workspacePath (path # paths) w =
     (case copyHarnessWorkspaceFile git projectRoot workspacePath path w of
        (Inl e, w') \<Rightarrow> (Inl e, w')
      | (Inr _, w') \<Rightarrow> copyHarnessWorkspaceFiles git projectRoot workspacePath paths w')"

section \<open>Scope\<close>

definition harnessCommissionScope :: "commission \<Rightarrow> CommissionScope" where
  "harnessCommissionScope commission =
     (let scope = mapField commission ''scope''
      in \<lparr>cs_allowed_paths = uniqueStringsPreserveOrder (stringSliceField scope ''allowed_paths''),
          cs_forbidden_paths = uniqueStringsPreserveOrder (stringSliceField scope ''forbidden_paths''),
          cs_affected_files = uniqueStringsPreserveOrder (stringSliceField scope ''affected_files''),
          cs_lockset = uniqueStringsPreserveOrder
            (stringSliceField scope ''lockset'' @ stringSliceField commission ''lockset'')\<rparr>)"

definition harnessScopeAuthorizationMessage :: "Summary \<Rightarrow> string" where
  "harnessScopeAuthorizationMessage summary =
     (case sm_verdict summary of
        Forbidden \<Rightarrow> ''workspace diff contains paths forbidden by commission scope: '' @ join '', '' (sm_forbidden summary)
      | UnknownScope \<Rightarrow> ''workspace diff cannot be applied because commission scope is unknown for paths: ''
          @ join '', '' (sm_unknown_scope summary)
      | OutOfScope \<Rightarrow> ''workspace diff contains paths outside commission scope: '' @ join '', '' (sm_out_of_scope summary)
      | _ \<Rightarrow> ''workspace diff is not authorized by commission scope'')"

section \<open>Applying a diff\<close>

record harnessApplySummary =
  as_CommissionID :: string
  as_Workspace :: string
  as_ProjectRoot :: string
  as_Files :: "string list"
  as_Commit :: string

text \<open>The writes: the patch of the tracked files, then the copies of the others.\<close>

definition write_changes ::
  "'w git \<Rightarrow> string \<Rightarrow> string \<Rightarrow> string list \<Rightarrow> string list \<Rightarrow> 'w \<Rightarrow> unit result \<times> 'w"
where
  "write_changes git projectRoot workspacePath tracked untracked w =
     (let patched =
        (if length tracked > 0
         then (case gitDiffBinary git w workspacePath tracked of
             Inl e \<Rightarrow> (Inl e, w)
           | Inr patch \<Rightarrow>
               if trim_space patch = [] then (Inl ''workspace tracked diff is empty'', w)
               else gitApplyPatch git w projectRoot patch)
         else (Inr (), w))
      in case patched of
           (Inl e, w') \<Rightarrow> (Inl e, w')
         | (Inr _, w') \<Rightarrow>
             if length untracked > 0 then copyHarnessWorkspaceFiles git projectRoot workspacePath untracked w'
             else (Inr (), w'))"

definition applyHarnessWorkspaceDiff ::
  "'w git \<Rightarrow> string \<Rightarrow> string \<Rightarrow> CommissionScope \<Rightarrow> 'w \<Rightarrow> harnessApplySummary result \<times> 'w"
where
  "applyHarnessWorkspaceDiff git projectRoot workspacePath scope w =
     (if \<not> g_is_repository git w workspacePath
      then (Inl (''workspace is not a git repository: '' @ workspacePath), w)
      else (case gitChangedTrackedFiles git w workspacePath of
          Inl e \<Rightarrow> (Inl e, w)
        | Inr tracked \<Rightarrow>
            (case gitUntrackedFiles git w workspacePath of
               Inl e \<Rightarrow> (Inl e, w)
             | Inr untracked \<Rightarrow>
                 (let changed = uniqueStringsPreserveOrder (tracked @ untracked);
                      authorization = AuthorizeWorkspaceDiff scope changed
                        \<lparr>pf_workspace_root = workspacePath, pf_project_root = projectRoot\<rparr>
                  in if length changed = 0 then (Inl ''workspace has no diff to apply'', w)
                     else if \<not> CanApply authorization then (Inl (harnessScopeAuthorizationMessage authorization), w)
                     else (case gitDirtyTargetPaths git w projectRoot changed of
                         Inl e \<Rightarrow> (Inl e, w)
                       | Inr dirty \<Rightarrow>
                           if length dirty > 0
                           then (Inl (''target checkout has existing changes in scoped paths: '' @ join '', '' dirty), w)
                           else (case write_changes git projectRoot workspacePath tracked untracked w of
                               (Inl e, w') \<Rightarrow> (Inl e, w')
                             | (Inr _, w') \<Rightarrow>
                                 (Inr \<lparr>as_CommissionID = path_base workspacePath, as_Workspace = workspacePath,
                                    as_ProjectRoot = projectRoot, as_Files = changed, as_Commit = []\<rparr>, w')))))))"

definition runHarnessApply ::
  "'w git \<Rightarrow> string \<Rightarrow> string \<Rightarrow> Store \<Rightarrow> string \<Rightarrow> 'w \<Rightarrow> harnessApplySummary result \<times> 'w"
where
  "runHarnessApply git projectRoot workspaceRoot store argument w =
     (let commissionID = trim_space argument
      in case loadWorkCommissionPayload store commissionID of
           Inl e \<Rightarrow> (Inl e, w)
         | Inr commission \<Rightarrow>
             applyHarnessWorkspaceDiff git projectRoot (path_join workspaceRoot commissionID)
               (harnessCommissionScope commission) w)"

text \<open>The attempt of a drain: whether the commission was eligible, and the outcome.\<close>

definition attemptHarnessAutoApply ::
  "'w git \<Rightarrow> string \<Rightarrow> string \<Rightarrow> commission \<Rightarrow> 'w \<Rightarrow> (bool \<times> unit result) \<times> 'w"
where
  "attemptHarnessAutoApply git projectRoot workspaceRoot commission w =
     (if \<not> shouldAutoApplyCommission commission then ((False, Inr ()), w)
      else (case applyHarnessWorkspaceDiff git projectRoot (path_join workspaceRoot (stringField commission ''id''))
              (harnessCommissionScope commission) w of
          (Inl e, w') \<Rightarrow> ((True, Inl e), w')
        | (Inr _, w') \<Rightarrow> ((True, Inr ()), w')))"

section \<open>Delivery at the end of a run\<close>

text \<open>The events since the last requeue; that event is the first of them.\<close>

definition currentHarnessAttemptEvents :: "payload list \<Rightarrow> payload list" where
  "currentHarnessAttemptEvents events =
     drop (fold (\<lambda>(i, event) start. if stringField event ''event'' = ''commission_requeued'' then i else start)
       (enumerate 0 events) 0) events"

text \<open>Backwards through the events: the first that ends the workflow decides.\<close>

fun last_terminal_pass :: "payload list \<Rightarrow> bool" where
  "last_terminal_pass [] = False"
| "last_terminal_pass (event # events) =
     (if stringField event ''event'' = ''workflow_terminal'' then stringField event ''verdict'' = ''pass''
      else if stringField (mapField event ''payload'') ''next'' = ''terminal:pass''
      then stringField event ''verdict'' = ''pass''
      else last_terminal_pass events)"

definition harnessCommissionTerminalPass :: "commission \<Rightarrow> bool" where
  "harnessCommissionTerminalPass commission =
     last_terminal_pass (rev (currentHarnessAttemptEvents (mapSliceField commission ''events'')))"

definition autonomy_decision :: "payload \<Rightarrow> string" where
  "autonomy_decision p =
     firstCleanString
       [stringField p ''autonomy_envelope_decision'', stringField p ''autonomy_decision'',
        stringField (mapField p ''autonomy_envelope'') ''decision'']"

fun last_autonomy_decision :: "payload list \<Rightarrow> string option" where
  "last_autonomy_decision [] = None"
| "last_autonomy_decision (event # events) =
     (let decision = autonomy_decision (mapField event ''payload'')
      in if decision \<noteq> [] then Some decision else last_autonomy_decision events)"

definition harnessCommissionAutonomyDecision :: "commission \<Rightarrow> string" where
  "harnessCommissionAutonomyDecision commission =
     (case last_autonomy_decision (rev (currentHarnessAttemptEvents (mapSliceField commission ''events''))) of
        Some decision \<Rightarrow> decision
      | None \<Rightarrow> autonomy_decision commission)"

text \<open>\<open>strings.EqualFold\<close>: the letters of \<open>allowed\<close> fold to their ASCII cases only.\<close>

definition harnessCommissionAutonomyAllowed :: "commission \<Rightarrow> bool" where
  "harnessCommissionAutonomyAllowed commission \<longleftrightarrow> lower (harnessCommissionAutonomyDecision commission) = ''allowed''"

definition harnessCommissionAutoDeliveryAllowed :: "commission \<Rightarrow> bool" where
  "harnessCommissionAutoDeliveryAllowed commission =
     (if stringField commission ''delivery_policy'' \<noteq> ''workspace_patch_auto_on_pass'' then False
      else if stringField commission ''state'' \<noteq> ''completed'' then False
      else if \<not> harnessCommissionTerminalPass commission then False
      else harnessCommissionAutonomyAllowed commission)"

definition presentOrUnknown :: "string \<Rightarrow> string" where
  "presentOrUnknown value = (if trim_space value = [] then ''unknown'' else value)"

definition commitHarnessAutoAppliedDiff ::
  "'w git \<Rightarrow> string \<Rightarrow> string \<Rightarrow> string \<Rightarrow> string list \<Rightarrow> 'w \<Rightarrow> string result \<times> 'w"
where
  "commitHarnessAutoAppliedDiff git projectRoot commissionID decisionRef files w =
     (if length files = 0 then (Inr [], w)
      else (case harnessGitChange git projectRoot ([''add'', ''--''] @ files) w of
          (Inl e, w1) \<Rightarrow> (Inl e, w1)
        | (Inr _, w1) \<Rightarrow>
            (case harnessGitChange git projectRoot
                 [''commit'', ''-m'', ''Auto-apply WorkCommission '' @ commissionID,
                  ''-m'', ''Decision: '' @ presentOrUnknown decisionRef] w1 of
               (Inl e, w2) \<Rightarrow> (Inl e, w2)
             | (Inr _, w2) \<Rightarrow>
                 (case harnessGitOutput git w2 projectRoot [''rev-parse'', ''--short'', ''HEAD''] of
                    Inl e \<Rightarrow> (Inl e, w2)
                  | Inr output \<Rightarrow> (Inr (trim_space output), w2)))))"

definition deliver_commission ::
  "'w git \<Rightarrow> string \<Rightarrow> string \<Rightarrow> string \<Rightarrow> commission \<Rightarrow> 'w \<Rightarrow> unit result \<times> 'w"
where
  "deliver_commission git projectRoot workspaceRoot commissionID commission w =
     (case applyHarnessWorkspaceDiff git projectRoot (path_join workspaceRoot commissionID)
             (harnessCommissionScope commission) w of
        (Inl e, w1) \<Rightarrow> (Inl (''auto delivery for '' @ commissionID @ '': '' @ e), w1)
      | (Inr summary, w1) \<Rightarrow>
          (case commitHarnessAutoAppliedDiff git projectRoot commissionID (stringField commission ''decision_ref'')
                  (as_Files summary) w1 of
             (Inl e, w2) \<Rightarrow> (Inl (''auto delivery commit for '' @ commissionID @ '': '' @ e), w2)
           | (Inr _, w2) \<Rightarrow> (Inr (), w2)))"

fun deliverHarnessRunCommissions ::
  "'w git \<Rightarrow> string \<Rightarrow> string \<Rightarrow> Store \<Rightarrow> string list \<Rightarrow> 'w \<Rightarrow> unit result \<times> 'w"
where
  "deliverHarnessRunCommissions git projectRoot workspaceRoot store [] w = (Inr (), w)"
| "deliverHarnessRunCommissions git projectRoot workspaceRoot store (commissionID # commissionIDs) w =
     (case loadWorkCommissionPayload store commissionID of
        Inl e \<Rightarrow> (Inl e, w)
      | Inr commission \<Rightarrow>
          if \<not> harnessCommissionAutoDeliveryAllowed commission
          then deliverHarnessRunCommissions git projectRoot workspaceRoot store commissionIDs w
          else (case deliver_commission git projectRoot workspaceRoot commissionID commission w of
              (Inl e, w') \<Rightarrow> (Inl e, w')
            | (Inr _, w') \<Rightarrow> deliverHarnessRunCommissions git projectRoot workspaceRoot store commissionIDs w'))"

section \<open>What the operator does next\<close>

datatype harnessWorkspaceDiffState =
  harnessWorkspaceDiffUnavailable | harnessWorkspaceDiffClean | harnessWorkspaceDiffChanged

record harnessWorkspaceGitSummary =
  ws_State :: harnessWorkspaceDiffState
  ws_Status :: string
  ws_DiffStat :: string
  ws_Changed :: "string list"
  ws_Error :: string

definition trimmedCommandOutput :: "'w git \<Rightarrow> 'w \<Rightarrow> string \<Rightarrow> string list \<Rightarrow> string" where
  "trimmedCommandOutput git w workdir args =
     (case g_output git w workdir args of Inl output \<Rightarrow> trim_space output | Inr output \<Rightarrow> trim_space output)"

definition unavailable_workspace :: "string \<Rightarrow> harnessWorkspaceGitSummary" where
  "unavailable_workspace e =
     \<lparr>ws_State = harnessWorkspaceDiffUnavailable, ws_Status = [], ws_DiffStat = [], ws_Changed = [], ws_Error = e\<rparr>"

definition inspectHarnessWorkspaceGit :: "'w git \<Rightarrow> 'w \<Rightarrow> string \<Rightarrow> harnessWorkspaceGitSummary" where
  "inspectHarnessWorkspaceGit git w workspacePath =
     (if \<not> g_is_repository git w workspacePath
      then unavailable_workspace ''workspace not found or not a git repository''
      else (case gitChangedTrackedFiles git w workspacePath of
          Inl e \<Rightarrow> unavailable_workspace (trim_space e)
        | Inr tracked \<Rightarrow>
            (case gitUntrackedFiles git w workspacePath of
               Inl e \<Rightarrow> unavailable_workspace (trim_space e)
             | Inr untracked \<Rightarrow>
                 (let changed = uniqueStringsPreserveOrder (tracked @ untracked)
                  in \<lparr>ws_State = (if length changed > 0 then harnessWorkspaceDiffChanged else harnessWorkspaceDiffClean),
                      ws_Status = trimmedCommandOutput git w workspacePath [''status'', ''--short''],
                      ws_DiffStat = trimmedCommandOutput git w workspacePath [''diff'', ''--stat''],
                      ws_Changed = changed, ws_Error = []\<rparr>))))"

datatype harnessOperatorActionKind =
    harnessOperatorActionWait
  | harnessOperatorActionInspect
  | harnessOperatorActionApply
  | harnessOperatorActionRerunEvidence

record harnessOperatorAction =
  oa_Kind :: harnessOperatorActionKind
  oa_Lines :: "string list"
  oa_Reason :: string
  oa_ApplyDisabledReason :: "BlockingReason option"

definition harnessWorkspaceApplyAuthorization ::
  "commission \<Rightarrow> string \<Rightarrow> string \<Rightarrow> harnessWorkspaceGitSummary \<Rightarrow> Summary"
where
  "harnessWorkspaceApplyAuthorization commission workspacePath projectRoot workspace =
     (if ws_State workspace \<noteq> harnessWorkspaceDiffChanged then empty_summary
      else AuthorizeWorkspaceDiff (harnessCommissionScope commission) (ws_Changed workspace)
        \<lparr>pf_workspace_root = workspacePath, pf_project_root = projectRoot\<rparr>)"

definition canApplyAuthorizedHarnessWorkspaceDiff ::
  "commission \<Rightarrow> harnessWorkspaceGitSummary \<Rightarrow> Summary \<Rightarrow> bool"
where
  "canApplyAuthorizedHarnessWorkspaceDiff commission workspace authorization =
     (if \<not> isHarnessApplyResultState (stringField commission ''state'') then False
      else if ws_State workspace \<noteq> harnessWorkspaceDiffChanged then False
      else CanApply authorization)"

definition harnessEvidenceRequirements :: "commission \<Rightarrow> gval list" where
  "harnessEvidenceRequirements commission =
     (case map_of commission ''evidence_requirements'' of
        Some (GArr requirements) \<Rightarrow> requirements
      | Some (GStrs items) \<Rightarrow> map GStr items
      | _ \<Rightarrow> [])"

definition harnessEvidenceRequirementCommand :: "gval \<Rightarrow> string" where
  "harnessEvidenceRequirementCommand requirement =
     (case requirement of
        GStr text \<Rightarrow> trim_space text
      | GMap m \<Rightarrow> trim_space (stringField m ''command'')
      | _ \<Rightarrow> [])"

definition harnessEvidenceCommandLines :: "commission \<Rightarrow> string list" where
  "harnessEvidenceCommandLines commission =
     map (\<lambda>command. ''- evidence: '' @ command)
       (filter (\<lambda>command. command \<noteq> []) (map harnessEvidenceRequirementCommand (harnessEvidenceRequirements commission)))"

definition harnessQueuedOperatorAction :: "string \<Rightarrow> harnessOperatorAction" where
  "harnessQueuedOperatorAction commissionID =
     \<lparr>oa_Kind = harnessOperatorActionWait,
      oa_Lines = [''- start or continue runtime: haft harness run'',
                  ''- inspect queued commission: haft commission show '' @ commissionID],
      oa_Reason = ''commission is runnable but not active'', oa_ApplyDisabledReason = None\<rparr>"

definition harnessRunningOperatorAction :: "string \<Rightarrow> harnessOperatorAction" where
  "harnessRunningOperatorAction commissionID =
     \<lparr>oa_Kind = harnessOperatorActionWait,
      oa_Lines = [''- wait for terminal state: haft harness tail '' @ commissionID @ '' --follow'',
                  ''- inspect current state: haft harness result '' @ commissionID],
      oa_Reason = ''runtime is still active'', oa_ApplyDisabledReason = None\<rparr>"

definition harnessBlockedOperatorAction :: "string \<Rightarrow> string \<Rightarrow> harnessOperatorAction" where
  "harnessBlockedOperatorAction commissionID state =
     \<lparr>oa_Kind = harnessOperatorActionInspect,
      oa_Lines = [''- inspect result and phase events: haft harness result '' @ commissionID,
                  ''- requeue after fixing the cause: haft commission requeue '' @ commissionID
                    @ '' --reason operator_recovered'',
                  ''- cancel if obsolete: haft commission cancel '' @ commissionID @ '' --reason obsolete''],
      oa_Reason = ''commission requires operator decision: '' @ state, oa_ApplyDisabledReason = None\<rparr>"

definition harnessInspectOperatorAction :: "string \<Rightarrow> string \<Rightarrow> harnessOperatorAction" where
  "harnessInspectOperatorAction commissionID reason =
     \<lparr>oa_Kind = harnessOperatorActionInspect,
      oa_Lines = [''- inspect result and phase events: haft harness result '' @ commissionID],
      oa_Reason = reason, oa_ApplyDisabledReason = None\<rparr>"

definition harnessCompletedOperatorAction ::
  "commission \<Rightarrow> harnessWorkspaceGitSummary \<Rightarrow> Summary \<Rightarrow> harnessOperatorAction"
where
  "harnessCompletedOperatorAction commission workspace authorization =
     (let commissionID = stringField commission ''id''
      in case ws_State workspace of
           harnessWorkspaceDiffChanged \<Rightarrow>
             if \<not> CanApply authorization
             then \<lparr>oa_Kind = harnessOperatorActionInspect,
                    oa_Lines = [''- inspect commission scope: haft commission show '' @ commissionID,
                                ''- inspect current state: haft harness result '' @ commissionID],
                    oa_Reason = harnessScopeAuthorizationMessage authorization,
                    oa_ApplyDisabledReason = blockingReason authorization\<rparr>
             else \<lparr>oa_Kind = harnessOperatorActionApply,
                    oa_Lines = [''- apply completed workspace diff: haft harness apply '' @ commissionID,
                                ''- then rerun required evidence in the project checkout'']
                               @ harnessEvidenceCommandLines commission,
                    oa_Reason = ''completed workspace has unapplied changes'', oa_ApplyDisabledReason = None\<rparr>
         | harnessWorkspaceDiffClean \<Rightarrow>
             \<lparr>oa_Kind = harnessOperatorActionRerunEvidence,
              oa_Lines = [''- rerun required evidence in the project checkout before relying on the result'']
                         @ harnessEvidenceCommandLines commission,
              oa_Reason = ''completed workspace has no unapplied diff'', oa_ApplyDisabledReason = None\<rparr>
         | harnessWorkspaceDiffUnavailable \<Rightarrow>
             harnessInspectOperatorAction commissionID ''completed workspace is unavailable; inspect before applying'')"

definition harnessOperatorActionFor ::
  "commission \<Rightarrow> harnessWorkspaceGitSummary \<Rightarrow> Summary \<Rightarrow> harnessOperatorAction"
where
  "harnessOperatorActionFor commission workspace authorization =
     (let state = stringField commission ''state''; commissionID = stringField commission ''id''
      in if IsRunnableState state \<or> state = StateDraft then harnessQueuedOperatorAction commissionID
         else if IsExecutingState state then harnessRunningOperatorAction commissionID
         else if IsCompletionState state then harnessCompletedOperatorAction commission workspace authorization
         else if RequiresOperatorDecisionState state then harnessBlockedOperatorAction commissionID state
         else if IsTerminalState state then harnessInspectOperatorAction commissionID (''commission is '' @ state)
         else harnessInspectOperatorAction commissionID (''commission state is '' @ presentOrUnknown state))"

definition reason_code_text :: "ReasonCode \<Rightarrow> string" where
  "reason_code_text code =
     (case code of ReasonOutOfScope \<Rightarrow> ''out_of_scope_paths'' | ReasonForbidden \<Rightarrow> ''forbidden_paths''
      | ReasonUnknownScope \<Rightarrow> ''unknown_scope_paths'')"

definition verdict_text :: "Verdict \<Rightarrow> string" where
  "verdict_text v =
     (case v of NoVerdict \<Rightarrow> [] | Allowed \<Rightarrow> ''allowed'' | OutOfScope \<Rightarrow> ''out_of_scope'' | Forbidden \<Rightarrow> ''forbidden''
      | UnknownScope \<Rightarrow> ''unknown_scope'')"

definition formatHarnessApplyDisabledReason :: "BlockingReason \<Rightarrow> string" where
  "formatHarnessApplyDisabledReason reason =
     join '' '' ([''code='' @ reason_code_text (br_code reason), ''verdict='' @ verdict_text (br_verdict reason)]
       @ (if length (br_paths reason) > 0 then [''paths='' @ join '','' (br_paths reason)] else []))"

definition formatHarnessOperatorNext :: "commission \<Rightarrow> harnessWorkspaceGitSummary \<Rightarrow> Summary \<Rightarrow> string list" where
  "formatHarnessOperatorNext commission workspace authorization =
     (let action = harnessOperatorActionFor commission workspace authorization;
          kind = (case oa_Kind action of
              harnessOperatorActionWait \<Rightarrow> ''wait'' | harnessOperatorActionInspect \<Rightarrow> ''inspect''
            | harnessOperatorActionApply \<Rightarrow> ''apply'' | harnessOperatorActionRerunEvidence \<Rightarrow> ''rerun_evidence'')
      in [''operator_next:'', ''- next_action='' @ kind]
         @ (if trim_space (oa_Reason action) \<noteq> [] then [''- reason='' @ oa_Reason action] else [])
         @ (case oa_ApplyDisabledReason action of
              None \<Rightarrow> []
            | Some reason \<Rightarrow> [''- apply_disabled_reason='' @ formatHarnessApplyDisabledReason reason])
         @ oa_Lines action)"

end
