(* ===== verification/HarnessApplyLaws.thy ===== *)
theory HarnessApplyLaws
  imports HarnessApply
begin

text \<open>
  What applying a commission guarantees, whatever git and the file system do: nothing is written
  unless every changed path is authorised and the target is clean there, on every way a patch is
  applied; and what the two automatic ways ask for, which differ.
\<close>

section \<open>The gate\<close>

text \<open>
  The paths git lists as changed, when the workspace is a repository and git lists them, and whether
  a list of changed paths may be written to the checkout.
\<close>

definition listed_changes :: "'w git \<Rightarrow> 'w \<Rightarrow> string \<Rightarrow> (string list \<times> string list) option" where
  "listed_changes git w workspacePath =
     (case (gitChangedTrackedFiles git w workspacePath, gitUntrackedFiles git w workspacePath) of
        (Inr tracked, Inr untracked) \<Rightarrow>
          if g_is_repository git w workspacePath then Some (tracked, untracked) else None
      | _ \<Rightarrow> None)"

definition may_write :: "'w git \<Rightarrow> 'w \<Rightarrow> string \<Rightarrow> string \<Rightarrow> CommissionScope \<Rightarrow> string list \<Rightarrow> bool" where
  "may_write git w projectRoot workspacePath scope changed \<longleftrightarrow>
     (let facts = \<lparr>pf_workspace_root = workspacePath, pf_project_root = projectRoot\<rparr>
      in filter (counted facts) changed \<noteq> []
         \<and> list_all (path_authorized scope facts) (filter (counted facts) changed)
         \<and> gitDirtyTargetPaths git w projectRoot changed = Inr [])"

lemma apply_unlisted:
  "listed_changes git w workspacePath = None \<Longrightarrow>
     \<exists>e. applyHarnessWorkspaceDiff git projectRoot workspacePath scope w = (Inl e, w)"
  by (auto simp: listed_changes_def applyHarnessWorkspaceDiff_def split: sum.splits if_splits)

lemma listed_answers:
  assumes "listed_changes git w workspacePath = Some (tracked, untracked)"
  shows "gitChangedTrackedFiles git w workspacePath = Inr tracked" "gitUntrackedFiles git w workspacePath = Inr untracked"
    "g_is_repository git w workspacePath"
  using assms by (auto simp: listed_changes_def split: sum.splits if_splits)

lemma may_write_iff:
  "may_write git w projectRoot workspacePath scope changed \<longleftrightarrow>
     changed \<noteq> [] \<and> CanApply (AuthorizeWorkspaceDiff scope changed
        \<lparr>pf_workspace_root = workspacePath, pf_project_root = projectRoot\<rparr>)
     \<and> gitDirtyTargetPaths git w projectRoot changed = Inr []"
  by (auto simp: may_write_def Let_def canApply_verdict authorize_allowed_iff)

lemma apply_refused:
  assumes "listed_changes git w workspacePath = Some (tracked, untracked)"
    "\<not> may_write git w projectRoot workspacePath scope (uniqueStringsPreserveOrder (tracked @ untracked))"
  shows "\<exists>e. applyHarnessWorkspaceDiff git projectRoot workspacePath scope w = (Inl e, w)"
  using assms(2) listed_answers[OF assms(1)]
  by (auto simp: applyHarnessWorkspaceDiff_def may_write_iff Let_def split: sum.split)

lemma apply_admitted:
  assumes "listed_changes git w workspacePath = Some (tracked, untracked)"
    "may_write git w projectRoot workspacePath scope (uniqueStringsPreserveOrder (tracked @ untracked))"
  shows "applyHarnessWorkspaceDiff git projectRoot workspacePath scope w =
    (case write_changes git projectRoot workspacePath tracked untracked w of
       (Inl e, w') \<Rightarrow> (Inl e, w')
     | (Inr _, w') \<Rightarrow>
         (Inr \<lparr>as_CommissionID = path_base workspacePath, as_Workspace = workspacePath, as_ProjectRoot = projectRoot,
            as_Files = uniqueStringsPreserveOrder (tracked @ untracked), as_Commit = []\<rparr>, w'))"
  using assms(2) listed_answers[OF assms(1)]
  by (simp add: applyHarnessWorkspaceDiff_def may_write_iff Let_def)

text \<open>
  C16. Nothing reaches the checkout unauthorised: whatever git and the file system answer, the call
  writes only when the workspace is a repository with changes, every changed path it counts lies in
  the scope of the commission and in none of its forbidden paths, and the checkout has no changes at
  those paths; then it applies the patch of the tracked files and copies the others. In every other
  case it is an error and the world is as it was.
\<close>

theorem apply_gate:
  "let outcome = applyHarnessWorkspaceDiff git projectRoot workspacePath scope w in
   case listed_changes git w workspacePath of
     None \<Rightarrow> isl (fst outcome) \<and> snd outcome = w
   | Some (tracked, untracked) \<Rightarrow>
       if may_write git w projectRoot workspacePath scope (uniqueStringsPreserveOrder (tracked @ untracked))
       then snd outcome = snd (write_changes git projectRoot workspacePath tracked untracked w)
         \<and> (isl (fst outcome) \<longleftrightarrow> isl (fst (write_changes git projectRoot workspacePath tracked untracked w)))
       else isl (fst outcome) \<and> snd outcome = w"
proof (cases "listed_changes git w workspacePath")
  case None
  obtain e where "applyHarnessWorkspaceDiff git projectRoot workspacePath scope w = (Inl e, w)"
    using apply_unlisted[OF None] by blast
  then show ?thesis using None by (simp add: Let_def)
next
  case (Some p)
  obtain tracked untracked where p: "p = (tracked, untracked)" by (cases p)
  show ?thesis
  proof (cases "may_write git w projectRoot workspacePath scope (uniqueStringsPreserveOrder (tracked @ untracked))")
    case True
    then show ?thesis using apply_admitted[OF Some[unfolded p] True] Some p
      by (simp add: Let_def split: prod.split sum.split)
  next
    case False
    obtain e where "applyHarnessWorkspaceDiff git projectRoot workspacePath scope w = (Inl e, w)"
      using apply_refused[OF Some[unfolded p] False] by blast
    then show ?thesis using False Some p by (simp add: Let_def)
  qed
qed

text \<open>The advice to apply is given exactly when the scope check of the application will pass.\<close>

lemma completed_kind:
  "oa_Kind (harnessCompletedOperatorAction c ws summary) = harnessOperatorActionApply
     \<longleftrightarrow> ws_State ws = harnessWorkspaceDiffChanged \<and> CanApply summary"
  by (simp add: harnessCompletedOperatorAction_def harnessInspectOperatorAction_def Let_def
      split: harnessWorkspaceDiffState.split)

lemma advice_kind:
  "oa_Kind (harnessOperatorActionFor c ws summary) = harnessOperatorActionApply
     \<longleftrightarrow> canApplyAuthorizedHarnessWorkspaceDiff c ws summary"
proof -
  have other: "\<not> IsRunnableState s" "s \<noteq> StateDraft" "\<not> IsExecutingState s" if "IsCompletionState s" for s
    using that by (auto simp: state_tests state_sets plain_char_def)
  show ?thesis
  proof (cases "IsCompletionState (stringField c ''state'')")
    case True
    then show ?thesis using other[OF True]
      by (simp add: harnessOperatorActionFor_def Let_def completed_kind canApplyAuthorizedHarnessWorkspaceDiff_def
          isHarnessApplyResultState_def)
  next
    case False
    then show ?thesis
      by (simp add: harnessOperatorActionFor_def Let_def canApplyAuthorizedHarnessWorkspaceDiff_def
          isHarnessApplyResultState_def harnessQueuedOperatorAction_def harnessRunningOperatorAction_def
          harnessBlockedOperatorAction_def harnessInspectOperatorAction_def)
  qed
qed

lemma inspected:
  "ws_State (inspectHarnessWorkspaceGit git w workspacePath) = harnessWorkspaceDiffChanged \<longleftrightarrow>
     (case listed_changes git w workspacePath of
        None \<Rightarrow> False | Some (tracked, untracked) \<Rightarrow> uniqueStringsPreserveOrder (tracked @ untracked) \<noteq> [])"
  "listed_changes git w workspacePath = Some (tracked, untracked) \<Longrightarrow>
     ws_Changed (inspectHarnessWorkspaceGit git w workspacePath) = uniqueStringsPreserveOrder (tracked @ untracked)"
  by (auto simp: inspectHarnessWorkspaceGit_def listed_changes_def unavailable_workspace_def Let_def
      split: sum.splits if_splits)

theorem advice_is_sound:
  "let ws = inspectHarnessWorkspaceGit git w workspacePath;
       action = harnessOperatorActionFor c ws (harnessWorkspaceApplyAuthorization c workspacePath projectRoot ws)
   in oa_Kind action = harnessOperatorActionApply \<longleftrightarrow>
        IsCompletionState (stringField c ''state'')
        \<and> (case listed_changes git w workspacePath of
             None \<Rightarrow> False
           | Some (tracked, untracked) \<Rightarrow>
               CanApply (AuthorizeWorkspaceDiff (harnessCommissionScope c) (uniqueStringsPreserveOrder (tracked @ untracked))
                 \<lparr>pf_workspace_root = workspacePath, pf_project_root = projectRoot\<rparr>))"
proof -
  have "\<not> CanApply (AuthorizeWorkspaceDiff scope [] facts)" for scope facts
    by (simp add: canApply_verdict authorize_allowed_iff)
  then show ?thesis
    using inspected[of git w workspacePath]
    by (auto simp: Let_def advice_kind canApplyAuthorizedHarnessWorkspaceDiff_def isHarnessApplyResultState_def
        harnessWorkspaceApplyAuthorization_def split: option.splits)
qed

section \<open>The two automatic ways\<close>

lemma delivery_asks:
  "harnessCommissionAutoDeliveryAllowed c \<longleftrightarrow>
     stringField c ''delivery_policy'' = ''workspace_patch_auto_on_pass'' \<and> stringField c ''state'' = ''completed''
     \<and> harnessCommissionTerminalPass c \<and> harnessCommissionAutonomyAllowed c"
  by (simp add: harnessCommissionAutoDeliveryAllowed_def)

text \<open>
  The drain goes by the delivery decision, the delivery at the end of a run by what the events say of
  the autonomy envelope. Each admits a commission the other does not.
\<close>

definition decided_commission :: commission where
  "decided_commission =
     [(''id'', GStr ''wc-1''), (''state'', GStr ''completed''), (''delivery_policy'', GStr ''workspace_patch_auto_on_pass''),
      (''auto_apply'', GMap [(''allowed'', GBool True)]),
      (''events'', GArr [GMap [(''event'', GStr ''workflow_terminal''), (''verdict'', GStr ''pass'')]])]"

definition claimed_commission :: commission where
  "claimed_commission =
     [(''id'', GStr ''wc-2''), (''state'', GStr ''completed''), (''delivery_policy'', GStr ''workspace_patch_auto_on_pass''),
      (''auto_apply'', GMap [(''allowed'', GBool False)]),
      (''events'', GArr [GMap [(''event'', GStr ''workflow_terminal''), (''verdict'', GStr ''pass''),
         (''payload'', GMap [(''autonomy_decision'', GStr ''Allowed'')])]])]"

lemma delivery_gates_differ:
  "shouldAutoApplyCommission decided_commission" "\<not> harnessCommissionAutoDeliveryAllowed decided_commission"
  "\<not> shouldAutoApplyCommission claimed_commission" "harnessCommissionAutoDeliveryAllowed claimed_commission"
  by code_simp+

text \<open>An application leaves its changes uncommitted, so applying the commission once more is refused.\<close>

lemma second_application_refused:
  assumes "listed_changes git w workspacePath = Some (tracked, untracked)"
    "gitDirtyTargetPaths git w projectRoot (uniqueStringsPreserveOrder (tracked @ untracked)) \<noteq> Inr []"
  shows "\<exists>e. applyHarnessWorkspaceDiff git projectRoot workspacePath scope w = (Inl e, w)"
  by (rule apply_refused[OF assms(1)]) (use assms(2) in \<open>simp add: may_write_iff\<close>)

end
