(* ===== verification/TextSearch.thy ===== *)
theory TextSearch
  imports GoText "HOL-Library.Sublist"
begin

text \<open>
  Preparing search terms (\<open>internal/textsearch\<close>): the words of an identifier, stems, noise words, queries
  with fields, test and generated files, and the bounded edit distance of the fuzzy fallback. All of
  it works on the bytes of its texts; \<open>uni\<close> is the lower case beyond ASCII.
\<close>

section \<open>Bytes\<close>

definition is_upper_byte :: "char \<Rightarrow> bool" where "is_upper_byte c \<longleftrightarrow> byte_in 65 90 c"
definition is_lower_byte :: "char \<Rightarrow> bool" where "is_lower_byte c \<longleftrightarrow> byte_in 97 122 c"
definition is_digit_byte :: "char \<Rightarrow> bool" where "is_digit_byte c \<longleftrightarrow> byte_in 48 57 c"

definition is_alnum_byte :: "char \<Rightarrow> bool" where
  "is_alnum_byte c \<longleftrightarrow> is_upper_byte c \<or> is_lower_byte c \<or> is_digit_byte c"

text \<open>\<open>strings.Contains\<close>, \<open>strings.HasSuffix\<close> and the rest after the last slash.\<close>

definition contains_text :: "string \<Rightarrow> string \<Rightarrow> bool" where
  "contains_text s t \<longleftrightarrow> sublist t s"

definition after_last_slash :: "string \<Rightarrow> string" where
  "after_last_slash s = rev (takeWhile (\<lambda>c. c \<noteq> slash) (rev s))"

section \<open>Bounded edit distance\<close>

definition min3 :: "int \<Rightarrow> int \<Rightarrow> int \<Rightarrow> int" where
  "min3 a b c = min a (min b c)"

text \<open>The inner loop: \<open>left\<close> is the entry just written, \<open>prev\<close> the row above from the entry diagonal to the next.\<close>

fun edit_row :: "char \<Rightarrow> string \<Rightarrow> int list \<Rightarrow> int \<Rightarrow> int list" where
  "edit_row x (y # ys) (diagonal # upper # prev) left =
     (let entry = min3 (left + 1) (upper + 1) (diagonal + (if x = y then 0 else 1))
      in entry # edit_row x ys (upper # prev) entry)"
| "edit_row x _ _ left = []"

definition next_row :: "int \<Rightarrow> char \<Rightarrow> string \<Rightarrow> int list \<Rightarrow> int list" where
  "next_row i x b prev = i # edit_row x b prev i"

definition row_min :: "int list \<Rightarrow> int" where
  "row_min row = fold (\<lambda>entry least. if entry < least then entry else least) (tl row) (hd row)"

fun edit_rows :: "int \<Rightarrow> string \<Rightarrow> int \<Rightarrow> string \<Rightarrow> int list \<Rightarrow> int" where
  "edit_rows maxDist b i [] prev = prev ! length b"
| "edit_rows maxDist b i (x # xs) prev =
     (let cur = next_row i x b prev
      in if row_min cur > maxDist then maxDist + 1 else edit_rows maxDist b (i + 1) xs cur)"

definition BoundedEditDistance :: "string \<Rightarrow> string \<Rightarrow> int \<Rightarrow> int" where
  "BoundedEditDistance a b maxDist =
     (let al = int (length a); bl = int (length b)
      in if a = b then 0
         else if \<bar>al - bl\<bar> > maxDist then maxDist + 1
         else if al = 0 then bl
         else if bl = 0 then al
         else edit_rows maxDist b 1 a (map int [0..<Suc (length b)]))"

section \<open>Words of an identifier\<close>

definition minTermLen :: nat where "minTermLen = 3"

text \<open>The two patterns put a space between a small letter or digit and a capital, and before the last of
  several capitals that a small letter follows.\<close>

fun camelBoundary :: "string \<Rightarrow> string" where
  "camelBoundary (c # d # cs) =
     (if (is_lower_byte c \<or> is_digit_byte c) \<and> is_upper_byte d then c # CHR '' '' # d # camelBoundary cs
      else c # camelBoundary (d # cs))"
| "camelBoundary s = s"

function acronymBoundary :: "string \<Rightarrow> string" where
  "acronymBoundary s =
     (case s of
        [] \<Rightarrow> []
      | c # cs \<Rightarrow>
          (let run = takeWhile is_upper_byte s; rest = dropWhile is_upper_byte s
           in if run = [] then c # acronymBoundary cs
              else (case rest of
                  l # ls \<Rightarrow> if length run \<ge> 2 \<and> is_lower_byte l
                            then butlast run @ [CHR '' '', last run, l] @ acronymBoundary ls
                            else run @ acronymBoundary rest
                | [] \<Rightarrow> run)))"
  by pat_completeness auto
termination acronymBoundary
proof (relation "measure length", goal_cases)
  case (3 s c cs run rest l ls)
  then have "length (l # ls) \<le> length s" by (metis length_dropWhile_le)
  then show ?case by simp
next
  case (4 s c cs run rest l ls)
  then have "takeWhile is_upper_byte s @ rest = s" by simp
  then have "length run + length rest = length s" using 4(2) by (metis length_append)
  moreover have "run \<noteq> []" using 4 by simp
  ultimately show ?case by (cases run) auto
qed auto

declare acronymBoundary.simps [simp del]

text \<open>\<open>nonAlnum.Split\<close> without the empty parts: the runs of letters and digits.\<close>

fun alnum_runs :: "string \<Rightarrow> string \<Rightarrow> string list" where
  "alnum_runs acc [] = (if acc = [] then [] else [acc])"
| "alnum_runs acc (c # cs) =
     (if is_alnum_byte c then alnum_runs (acc @ [c]) cs
      else (if acc = [] then [] else [acc]) @ alnum_runs [] cs)"

definition SplitIdentifier :: "string \<Rightarrow> string list" where
  "SplitIdentifier s = map lower (alnum_runs [] (acronymBoundary (camelBoundary s)))"

definition isCompound :: "string \<Rightarrow> bool" where
  "isCompound token \<longleftrightarrow> list_ex (\<lambda>c. c \<in> set ''_.-'') token \<or> list_ex is_upper_byte (tl token)"

definition compactCompound :: "string \<Rightarrow> string" where
  "compactCompound token = map lower_char (filter is_alnum_byte token)"

section \<open>Noise words and stems\<close>

definition stopWords :: "string list" where
  "stopWords =
    [''the'', ''a'', ''an'', ''and'', ''or'', ''but'', ''in'', ''on'', ''at'', ''to'', ''for'',
     ''of'', ''with'', ''by'', ''from'', ''is'', ''it'', ''that'', ''this'', ''are'', ''was'',
     ''be'', ''has'', ''had'', ''have'', ''do'', ''does'', ''did'', ''will'', ''would'', ''could'',
     ''should'', ''may'', ''might'', ''can'', ''shall'', ''not'', ''no'', ''all'', ''each'',
     ''every'', ''how'', ''what'', ''where'', ''when'', ''who'', ''which'', ''why'',
     ''me'', ''my'', ''we'', ''our'', ''you'', ''your'', ''he'', ''she'', ''they'',
     ''show'', ''give'', ''tell'',
     ''been'', ''done'', ''made'', ''used'', ''using'', ''work'', ''works'', ''found'',
     ''also'', ''into'', ''then'', ''than'', ''just'', ''more'', ''some'', ''such'',
     ''over'', ''only'', ''out'', ''its'', ''so'', ''up'', ''as'', ''if'',
     ''look'', ''need'', ''needs'', ''want'', ''happen'', ''happens'',
     ''affect'', ''affected'', ''break'', ''breaks'', ''failing'',
     ''implemented'', ''implement'',
     ''code'', ''file'', ''files'', ''function'', ''method'', ''class'', ''type'',
     ''fix'', ''bug'', ''called'']"

definition IsStopWord :: "string \<Rightarrow> bool" where
  "IsStopWord token \<longleftrightarrow> token \<in> set stopWords"

definition drop_end :: "nat \<Rightarrow> string \<Rightarrow> string" where
  "drop_end n s = take (length s - n) s"

text \<open>The base, the base with an e, and the base without a doubled last letter.\<close>

definition undoubled :: "string \<Rightarrow> string list" where
  "undoubled base =
     (let n = length base
      in [base, base @ ''e''] @ (if n \<ge> 2 \<and> base ! (n - 1) = base ! (n - 2) then [drop_end 1 base] else []))"

text \<open>The variants in the order they are added.\<close>

definition stem_candidates :: "string \<Rightarrow> string list" where
  "stem_candidates t =
     (if suffix ''ing'' t \<and> length t > 5 then undoubled (drop_end 3 t) else [])
     @ (if (suffix ''tion'' t \<or> suffix ''sion'' t) \<and> length t > 5 then [drop_end 3 t] else [])
     @ (if suffix ''ment'' t \<and> length t > 6 then [drop_end 4 t] else [])
     @ (if suffix ''ies'' t \<and> length t > 4 then [drop_end 3 t @ ''y'']
        else if suffix ''es'' t \<and> length t > 4 then [drop_end 2 t]
        else if suffix ''s'' t \<and> \<not> suffix ''ss'' t \<and> length t > 4 then [drop_end 1 t]
        else [])
     @ (if suffix ''ed'' t \<and> \<not> suffix ''eed'' t \<and> length t > 4
        then [drop_end 1 t, drop_end 2 t] @ (if suffix ''ied'' t \<and> length t > 5 then [drop_end 3 t @ ''y''] else [])
        else [])
     @ (if suffix ''er'' t \<and> length t > 4 then undoubled (drop_end 2 t) else [])"

text \<open>The closure \<open>add\<close>: \<open>out\<close> holds the same texts as the set \<open>seen\<close>.\<close>

definition add_term :: "(string \<Rightarrow> bool) \<Rightarrow> string \<Rightarrow> string list \<Rightarrow> string list" where
  "add_term keep v out = (if length v < minTermLen \<or> \<not> keep v then out else if v \<in> set out then out else out @ [v])"

definition StemVariants :: "(nat \<Rightarrow> nat) \<Rightarrow> string \<Rightarrow> string list" where
  "StemVariants uni term =
     (let t = ToLower uni term in fold (add_term (\<lambda>v. v \<noteq> t \<and> \<not> IsStopWord v)) (stem_candidates t) [])"

text \<open>The option \<open>Stems\<close> is the argument \<open>stems\<close>.\<close>

definition token_terms :: "string \<Rightarrow> string list" where
  "token_terms token = (if isCompound token then [compactCompound token] else []) @ SplitIdentifier token"

definition Terms :: "(nat \<Rightarrow> nat) \<Rightarrow> string \<Rightarrow> bool \<Rightarrow> string list" where
  "Terms uni query stems =
     (let keep = (\<lambda>tok. \<not> IsStopWord tok);
          out = fold (add_term keep) (concat (map token_terms (Fields query))) []
      in if stems then fold (add_term keep) (concat (map (StemVariants uni) out)) out else out)"

section \<open>Queries\<close>

definition quote_byte :: char where "quote_byte = CHR 0x22"

definition query_space :: "char \<Rightarrow> bool" where
  "query_space b \<longleftrightarrow> b = CHR '' '' \<or> b = CHR 0x09 \<or> b = CHR 0x0A \<or> b = CHR 0x0D \<or> b = CHR 0x0C \<or> b = CHR 0x0B"

text \<open>The token at the start of a text and what follows it: a quoted span belongs to the token, an open one
  takes the rest.\<close>

function query_token :: "string \<Rightarrow> string \<times> string" where
  "query_token s =
     (case s of
        [] \<Rightarrow> ([], [])
      | c # cs \<Rightarrow>
          if query_space c then ([], s)
          else if c = quote_byte
          then (case dropWhile (\<lambda>d. d \<noteq> quote_byte) cs of
                  [] \<Rightarrow> (s, [])
                | q # rest \<Rightarrow>
                    (let (tok, rest') = query_token rest
                     in (c # takeWhile (\<lambda>d. d \<noteq> quote_byte) cs @ q # tok, rest')))
          else (let (tok, rest) = query_token cs in (c # tok, rest)))"
  by pat_completeness auto
termination query_token
proof (relation "measure length", goal_cases)
  case (2 s c cs q rest)
  then have "length (q # rest) \<le> length cs" by (metis length_dropWhile_le)
  then show ?case using 2 by simp
qed auto

declare query_token.simps [simp del]

lemma query_token_split: "query_token s = (tok, rest) \<Longrightarrow> tok @ rest = s"
proof (induction s arbitrary: tok rest rule: query_token.induct)
  case (1 s)
  show ?case
  proof (cases s)
    case (Cons c cs)
    show ?thesis
    proof (cases "query_space c \<or> c \<noteq> quote_byte")
      case True
      then show ?thesis using 1 Cons
        by (auto simp: query_token.simps[of "c # cs"] split: if_splits prod.splits)
    next
      case False
      show ?thesis
      proof (cases "dropWhile (\<lambda>d. d \<noteq> quote_byte) cs")
        case (Cons q qs)
        obtain t r where qt: "query_token qs = (t, r)" by fastforce
        have "t @ r = qs" using "1.IH"(1)[OF \<open>s = c # cs\<close> _ _ Cons qt] False by auto
        moreover have "takeWhile (\<lambda>d. d \<noteq> quote_byte) cs @ q # qs = cs"
          using takeWhile_dropWhile_id[of "\<lambda>d. d \<noteq> quote_byte" cs] Cons by simp
        ultimately show ?thesis using "1.prems" False Cons qt \<open>s = c # cs\<close>
          by (auto simp: query_token.simps[of "c # cs"])
      qed (use 1 False Cons in \<open>auto simp: query_token.simps[of "c # cs"] simp del: dropWhile_eq_Nil_conv\<close>)
    qed
  qed (use 1 in \<open>simp add: query_token.simps[of "[]"]\<close>)
qed

lemma query_token_progress:
  assumes "s \<noteq> []" "\<not> query_space (hd s)"
  shows "fst (query_token s) \<noteq> []"
proof -
  obtain c cs where "s = c # cs" "\<not> query_space c" using assms by (cases s) auto
  then show ?thesis by (auto simp: query_token.simps[of "c # cs"] split: list.splits prod.splits)
qed

function tokenizeRespectingQuotes :: "string \<Rightarrow> string list" where
  "tokenizeRespectingQuotes raw =
     (let s = dropWhile query_space raw
      in if s = [] then []
         else (let (tok, rest) = query_token s in tok # tokenizeRespectingQuotes rest))"
  by pat_completeness auto
termination tokenizeRespectingQuotes
proof (relation "measure length", goal_cases)
  case (2 raw s p tok rest)
  then have "tok @ rest = s" using query_token_split by metis
  moreover have "tok \<noteq> []" using 2 query_token_progress[of s] by (metis fst_conv hd_dropWhile)
  moreover have "length s \<le> length raw" using 2 by (simp add: length_dropWhile_le)
  ultimately have "length rest < length raw" by (cases tok) auto
  then show ?case by simp
qed auto

declare tokenizeRespectingQuotes.simps [simp del]

definition unquote :: "string \<Rightarrow> string" where
  "unquote s =
     (if length s \<ge> 2 \<and> hd s = quote_byte \<and> last s = quote_byte then butlast (tl s) else s)"

definition splitField :: "(nat \<Rightarrow> nat) \<Rightarrow> string \<Rightarrow> (string \<times> string) option" where
  "splitField uni tok =
     (let key = takeWhile (\<lambda>c. c \<noteq> CHR '':'') tok; rest = dropWhile (\<lambda>c. c \<noteq> CHR '':'') tok
      in if rest = [] \<or> key = [] \<or> tl rest = [] then None
         else if unquote (tl rest) = [] then None
         else Some (ToLower uni key, unquote (tl rest)))"

record ParsedQuery =
  pq_Text :: string
  pq_Kinds :: "string list"
  pq_Langs :: "string list"
  pq_PathFilters :: "string list"
  pq_NameFilters :: "string list"

text \<open>One turn of the loop on the filters and the parts of the text.\<close>

definition query_step :: "(nat \<Rightarrow> nat) \<Rightarrow> string \<Rightarrow> ParsedQuery \<times> string list \<Rightarrow> ParsedQuery \<times> string list" where
  "query_step uni tok acc =
     (let (out, textParts) = acc
      in case splitField uni tok of
           None \<Rightarrow> (out, textParts @ [tok])
         | Some (key, value) \<Rightarrow>
             if key = ''kind'' then (out\<lparr>pq_Kinds := pq_Kinds out @ [value]\<rparr>, textParts)
             else if key = ''lang'' \<or> key = ''language''
             then (out\<lparr>pq_Langs := pq_Langs out @ [ToLower uni value]\<rparr>, textParts)
             else if key = ''path'' then (out\<lparr>pq_PathFilters := pq_PathFilters out @ [value]\<rparr>, textParts)
             else if key = ''name'' then (out\<lparr>pq_NameFilters := pq_NameFilters out @ [value]\<rparr>, textParts)
             else (out, textParts @ [tok]))"

definition empty_query :: ParsedQuery where
  "empty_query = \<lparr>pq_Text = [], pq_Kinds = [], pq_Langs = [], pq_PathFilters = [], pq_NameFilters = []\<rparr>"

definition ParseQuery :: "(nat \<Rightarrow> nat) \<Rightarrow> string \<Rightarrow> ParsedQuery" where
  "ParseQuery uni raw =
     (let (out, textParts) = fold (query_step uni) (tokenizeRespectingQuotes raw) (empty_query, [])
      in out\<lparr>pq_Text := trim_space (join '' '' textParts)\<rparr>)"

section \<open>Test and generated files\<close>

definition IsTestPath :: "(nat \<Rightarrow> nat) \<Rightarrow> string \<Rightarrow> bool" where
  "IsTestPath uni path =
     (let lowered = ToLower uni path; base = after_last_slash lowered
      in if path = [] then False
         else if prefix ''test_'' base then True
         else if list_ex (contains_text base) [''_test.'', ''.test.'', ''-test.'', ''_spec.'', ''.spec.'', ''-spec.''] then True
         else list_ex (contains_text (slash # lowered))
           [''/test/'', ''/tests/'', ''/testdata/'', ''/__tests__/'', ''/spec/'', ''/specs/'', ''/testing/''])"

definition generatedSuffixes :: "string list" where
  "generatedSuffixes =
    [''.pb.go'', ''.pb.gw.go'', ''_grpc.pb.go'', ''_pb2.py'', ''_pb2_grpc.py'',
     ''.gen.go'', ''_generated.go'', ''_mock.go'',
     ''.g.dart'', ''.freezed.dart'',
     ''.designer.cs'', ''.generated.cs'',
     ''.generated.ts'', ''.gen.ts'']"

definition IsGeneratedPath :: "(nat \<Rightarrow> nat) \<Rightarrow> string \<Rightarrow> bool" where
  "IsGeneratedPath uni path =
     (let base = after_last_slash (ToLower uni path)
      in if path = [] then False
         else if prefix ''mock_'' base \<or> prefix ''zz_generated'' base then True
         else list_ex (\<lambda>suf. suffix suf base) generatedSuffixes)"

end
