(* ===== verification/TextSearchLaws.thy ===== *)
theory TextSearchLaws
  imports TextSearch
begin

text \<open>
  What the search terms are. The bounded edit distance is the least number of single-byte edits, as far
  as the bound reaches: the rows of the table are compared with a recursive distance, and that with
  sequences of edits. Splitting an identifier loses no letter or digit, the terms of a query are the
  kept candidates in their order, and a query written out is read back.
\<close>

section \<open>Edits\<close>

inductive_set edit :: "(string \<times> string) set" where
  insert_byte: "(u @ v, u @ x # v) \<in> edit"
| delete_byte: "(u @ x # v, u @ v) \<in> edit"
| replace_byte: "(u @ x # v, u @ y # v) \<in> edit"

text \<open>The recursive distance; the rows of the table hold it for the reversed prefixes.\<close>

fun distance :: "string \<Rightarrow> string \<Rightarrow> nat" where
  "distance [] ys = length ys"
| "distance xs [] = length xs"
| "distance (x # xs) (y # ys) =
     min (distance (x # xs) ys + 1) (min (distance xs (y # ys) + 1) (distance xs ys + (if x = y then 0 else 1)))"

lemma distance_Nil [simp]: "distance xs [] = length xs"
  by (cases xs) auto

lemma distance_self [simp]: "distance xs xs = 0"
  by (induction xs) auto

lemma distance_Cons_left: "distance (x # xs) ys \<le> distance xs ys + 1"
  by (cases ys) auto

lemma distance_Cons_right: "distance xs (y # ys) \<le> distance xs ys + 1"
  by (cases xs) auto

lemma distance_tail_right: "distance xs ys \<le> distance xs (y # ys) + 1"
proof (induction xs)
  case (Cons x xs)
  then show ?case using distance_Cons_left[of x xs ys] by auto
qed simp

lemma distance_replace: "distance xs (y # ys) \<le> distance xs (z # ys) + 1"
proof (induction xs)
  case (Cons x xs)
  then show ?case by auto
qed simp

lemma distance_step_Cons:
  assumes "\<And>xs. distance xs ys \<le> distance xs zs + 1"
  shows "distance xs (y # ys) \<le> distance xs (y # zs) + 1"
proof (induction xs)
  case Nil
  then show ?case using assms[of "[]"] by simp
next
  case (Cons x xs)
  then show ?case using assms[of "x # xs"] assms[of xs] by auto
qed

lemma distance_context:
  assumes "\<And>xs. distance xs ys \<le> distance xs zs + 1"
  shows "distance xs (u @ ys) \<le> distance xs (u @ zs) + 1"
proof (induction u arbitrary: xs)
  case (Cons y u)
  show ?case using distance_step_Cons[of "u @ ys" "u @ zs" xs y] Cons.IH by simp
qed (simp only: append_Nil assms)

lemma distance_edit: "(ys, zs) \<in> edit \<Longrightarrow> distance xs zs \<le> distance xs ys + 1"
proof (induction rule: edit.induct)
  case (insert_byte u v x)
  then show ?case by (rule distance_context) (rule distance_Cons_right)
next
  case (delete_byte u x v)
  then show ?case by (rule distance_context) (rule distance_tail_right)
next
  case (replace_byte u x v y)
  then show ?case by (rule distance_context) (rule distance_replace)
qed

lemma distance_edits: "(xs, ys) \<in> edit ^^ n \<Longrightarrow> distance xs ys \<le> n"
proof (induction n arbitrary: ys)
  case (Suc n)
  then obtain zs where "(xs, zs) \<in> edit ^^ n" "(zs, ys) \<in> edit" by auto
  then show ?case using Suc.IH[of zs] distance_edit[of zs ys xs] by simp
qed simp

lemma edit_Cons: "(xs, ys) \<in> edit \<Longrightarrow> (x # xs, x # ys) \<in> edit"
  by (induction rule: edit.induct) (metis append_Cons edit.intros)+

lemma edits_Cons: "(xs, ys) \<in> edit ^^ n \<Longrightarrow> (x # xs, x # ys) \<in> edit ^^ n"
  by (induction n arbitrary: ys) (auto intro: edit_Cons)

lemma edits_relpow_Suc: "(xs, ys) \<in> edit \<Longrightarrow> (ys, zs) \<in> edit ^^ n \<Longrightarrow> (xs, zs) \<in> edit ^^ Suc n"
  by (rule relpow_Suc_I2)

lemma edits_insert_all: "([], ys) \<in> edit ^^ length ys"
proof (induction ys)
  case (Cons y ys)
  have "([] @ [] :: string, [] @ y # []) \<in> edit" by (rule insert_byte)
  then show ?case using edits_relpow_Suc[OF _ edits_Cons[OF Cons.IH], of "[]" y] by simp
qed simp

lemma edits_delete_all: "(xs, []) \<in> edit ^^ length xs"
proof (induction xs)
  case (Cons x xs)
  have "([] @ x # xs, [] @ xs) \<in> edit" by (rule delete_byte)
  then show ?case using edits_relpow_Suc[OF _ Cons.IH, of "x # xs"] by simp
qed simp

lemma edits_distance: "(xs, ys) \<in> edit ^^ distance xs ys"
proof (induction xs ys rule: distance.induct)
  case (3 x xs y ys)
  have ins: "(x # xs, y # ys) \<in> edit ^^ Suc (distance (x # xs) ys)"
    using edits_relpow_Suc[OF _ edits_Cons[OF "3.IH"(1)], of "x # xs" y] insert_byte[of "[]" "x # xs" y] by simp
  have del: "(x # xs, y # ys) \<in> edit ^^ Suc (distance xs (y # ys))"
    using edits_relpow_Suc[OF _ "3.IH"(2), of "x # xs"] delete_byte[of "[]" x xs] by simp
  have rep: "(x # xs, y # ys) \<in> edit ^^ (distance xs ys + (if x = y then 0 else 1))"
    using edits_relpow_Suc[OF _ edits_Cons[OF "3.IH"(3)], of "x # xs" y] edits_Cons[OF "3.IH"(3), of x]
      replace_byte[of "[]" x xs y] by auto
  show ?case using ins del rep by (simp add: min_def)
next
  case (2 x xs)
  then show ?case using edits_delete_all[of "x # xs"] by simp
qed (simp add: edits_insert_all)

definition edit_distance :: "string \<Rightarrow> string \<Rightarrow> nat" where
  "edit_distance a b = (LEAST n. (a, b) \<in> edit ^^ n)"

lemma edit_distance_eq: "edit_distance a b = distance a b"
  unfolding edit_distance_def by (rule Least_equality) (auto intro: edits_distance distance_edits)

lemma edit_rev: "(xs, ys) \<in> edit \<Longrightarrow> (rev xs, rev ys) \<in> edit"
  by (induction rule: edit.induct) (simp_all add: edit.intros)

lemma edits_rev: "(xs, ys) \<in> edit ^^ n \<Longrightarrow> (rev xs, rev ys) \<in> edit ^^ n"
  by (induction n arbitrary: ys) (auto intro: edit_rev)

lemma distance_rev: "distance (rev xs) (rev ys) = distance xs ys"
  by (metis antisym distance_edits edits_distance edits_rev rev_rev_ident)

lemma distance_length: "\<bar>int (length xs) - int (length ys)\<bar> \<le> int (distance xs ys)"
  by (induction xs ys rule: distance.induct) (auto simp: min_def)

section \<open>The table\<close>

text \<open>The entries of the row of the prefix \<open>xs\<close> from position \<open>j\<close> of \<open>b\<close> on.\<close>

definition row_from :: "string \<Rightarrow> string \<Rightarrow> string \<Rightarrow> int list" where
  "row_from xs done_b b = map (\<lambda>j. int (distance xs (rev (take j b) @ done_b))) [0..<Suc (length b)]"

lemma row_from_Cons:
  "row_from xs p (y # ys) = int (distance xs p) # row_from xs (y # p) ys"
  by (simp add: row_from_def upt_conv_Cons map_Suc_upt[symmetric] del: upt_Suc)

lemma row_from_Nil: "row_from xs p [] = [int (distance xs p)]"
  by (simp add: row_from_def)

lemma edit_row_exact:
  "left = int (distance (x # xs) p) \<Longrightarrow>
   left # edit_row x ys (row_from xs p ys) left = row_from (x # xs) p ys"
proof (induction ys arbitrary: p left)
  case (Cons y ys)
  define entry where "entry = min3 (left + 1) (int (distance xs (y # p)) + 1) (int (distance xs p) + (if x = y then 0 else 1))"
  have e: "entry = int (distance (x # xs) (y # p))"
    unfolding entry_def min3_def Cons.prems by (simp add: of_nat_min add.commute)
  obtain rest where r: "row_from xs (y # p) ys = int (distance xs (y # p)) # rest"
    by (cases ys) (auto simp: row_from_Cons row_from_Nil)
  have "edit_row x (y # ys) (row_from xs p (y # ys)) left = entry # edit_row x ys (row_from xs (y # p) ys) entry"
    by (simp only: row_from_Cons r edit_row.simps entry_def[symmetric] Let_def)
  then show ?case using Cons.IH[OF e] Cons.prems by (simp add: row_from_Cons)
qed (simp add: row_from_Nil)

lemma next_row_exact:
  "next_row (int (length xs) + 1) x b (row_from xs [] b) = row_from (x # xs) [] b"
  unfolding next_row_def by (subst edit_row_exact) simp_all

lemma first_row: "map int [0..<Suc (length b)] = row_from [] [] b"
  by (simp add: row_from_def del: upt_Suc)

lemma row_last: "row_from xs [] b ! length b = int (distance xs (rev b))"
  unfolding row_from_def by (subst nth_map) (simp_all del: upt_Suc)

section \<open>The early end\<close>

lemma row_min_least:
  assumes "e \<in> set row"
  shows "row_min row \<le> e"
proof -
  have "\<forall>e\<in>insert m (set xs). fold (\<lambda>entry least. if entry < least then entry else least) xs m \<le> e"
    for xs and m :: int
    by (induction xs arbitrary: m) (simp, fastforce)
  then show ?thesis using assms by (cases row) (auto simp: row_min_def)
qed

lemma least_of_three:
  "m \<le> int a \<Longrightarrow> m \<le> int c \<Longrightarrow> m \<le> int b \<Longrightarrow> m \<le> int (min (b + 1) (min (a + 1) (c + (if q then 0 else 1))))"
  by (simp add: min_def)

lemma row_bound_step:
  "(\<forall>e\<in>set (row_from xs p ys). m \<le> e) \<Longrightarrow> m \<le> int (distance (x # xs) p) \<Longrightarrow>
   \<forall>e\<in>set (row_from (x # xs) p ys). m \<le> e"
proof (induction ys arbitrary: p)
  case (Cons y ys)
  have "m \<le> int (distance xs (y # p))"
    using Cons.prems(1) by (cases ys) (auto simp: row_from_Cons row_from_Nil)
  moreover have "m \<le> int (distance xs p)" using Cons.prems(1) by (simp add: row_from_Cons)
  moreover note Cons.prems(2)
  ultimately have "m \<le> int (distance (x # xs) (y # p))" unfolding distance.simps by (intro least_of_three)
  moreover have "\<forall>e\<in>set (row_from xs (y # p) ys). m \<le> e" using Cons.prems(1) unfolding row_from_Cons by simp
  ultimately have "\<forall>e\<in>set (row_from (x # xs) (y # p) ys). m \<le> e" using Cons.IH by blast
  with Cons.prems(2) show ?case by (simp only: row_from_Cons list.set ball_simps simp_thms)
qed (simp add: row_from_Nil)

lemma row_bound_next:
  assumes "\<forall>e\<in>set (row_from xs [] b). m \<le> e"
  shows "\<forall>e\<in>set (row_from (x # xs) [] b). m \<le> e"
proof (rule row_bound_step[OF assms])
  have "m \<le> int (distance xs [])" using assms by (cases b) (auto simp: row_from_Cons row_from_Nil)
  then show "m \<le> int (distance (x # xs) [])" by simp
qed

lemma row_bound_later:
  "\<forall>e\<in>set (row_from xs [] b). m \<le> e \<Longrightarrow> m \<le> int (distance (rev zs @ xs) (rev b))"
proof (induction zs arbitrary: xs)
  case Nil
  have "row_from xs [] b ! length b \<in> set (row_from xs [] b)"
    by (rule nth_mem) (simp add: row_from_def del: upt_Suc)
  then show ?case using Nil row_last by simp
next
  case (Cons z zs)
  then show ?case using Cons.IH[of "z # xs"] row_bound_next by simp
qed

lemma edit_rows_exact:
  "edit_rows k b (int (length xs) + 1) zs (row_from xs [] b)
     = int (distance (rev zs @ xs) (rev b))
   \<or> edit_rows k b (int (length xs) + 1) zs (row_from xs [] b) = k + 1
     \<and> k < int (distance (rev zs @ xs) (rev b))"
proof (induction zs arbitrary: xs)
  case (Cons z zs)
  let ?cur = "row_from (z # xs) [] b"
  have unfold: "edit_rows k b (int (length xs) + 1) (z # zs) (row_from xs [] b)
      = (if row_min ?cur > k then k + 1 else edit_rows k b (int (length (z # xs)) + 1) zs ?cur)"
    unfolding edit_rows.simps next_row_exact Let_def by (simp add: add.commute)
  show ?case
  proof (cases "row_min ?cur > k")
    case True
    then have "\<forall>e\<in>set ?cur. k + 1 \<le> e" using row_min_least[of _ ?cur] by fastforce
    then have "k + 1 \<le> int (distance (rev zs @ z # xs) (rev b))" by (rule row_bound_later)
    then show ?thesis using True unfolding unfold by simp
  next
    case False
    then show ?thesis using Cons.IH[of "z # xs"] unfolding unfold by simp
  qed
qed (simp add: row_last)

text \<open>
  C40. The fuzzy match compares with the true distance: within the bound, \<open>BoundedEditDistance\<close> is the least
  number of bytes to insert, delete or replace that turns one name into the other, and beyond the
  bound its result is beyond the bound too. So a name is offered as a match exactly when that
  many edits suffice.
\<close>

theorem edit_distance_exact:
  assumes "0 \<le> maxDist"
  shows "(BoundedEditDistance a b maxDist \<le> maxDist \<longleftrightarrow> (\<exists>n. int n \<le> maxDist \<and> (a, b) \<in> edit ^^ n))
    \<and> (int (edit_distance a b) \<le> maxDist \<longrightarrow> BoundedEditDistance a b maxDist = int (edit_distance a b))"
proof -
  let ?d = "int (distance a b)" and ?r = "BoundedEditDistance a b maxDist"
  have "?r = ?d \<or> (?r > maxDist \<and> ?d > maxDist)"
  proof (cases "a = b \<or> a = [] \<or> b = [] \<or> \<bar>int (length a) - int (length b)\<bar> > maxDist")
    case True
    then show ?thesis using distance_length[of a b] by (auto simp: BoundedEditDistance_def Let_def)
  next
    case False
    then have "?r = edit_rows maxDist b (int (length ([] :: string)) + 1) a (row_from [] [] b)"
      by (simp add: BoundedEditDistance_def Let_def first_row del: upt_Suc)
    then show ?thesis using edit_rows_exact[of maxDist b "[]" a] by (auto simp: distance_rev)
  qed
  then have r: "?r = ?d \<or> (?r > maxDist \<and> ?d > maxDist)" .
  have "int (edit_distance a b) \<le> maxDist \<longrightarrow> ?r = int (edit_distance a b)" using r by (auto simp: edit_distance_eq)
  moreover have "?r \<le> maxDist \<longleftrightarrow> (\<exists>n. int n \<le> maxDist \<and> (a, b) \<in> edit ^^ n)"
  proof
    assume "?r \<le> maxDist"
    then have "?d \<le> maxDist" using r by linarith
    then show "\<exists>n. int n \<le> maxDist \<and> (a, b) \<in> edit ^^ n" using edits_distance[of a b] by blast
  next
    assume "\<exists>n. int n \<le> maxDist \<and> (a, b) \<in> edit ^^ n"
    then obtain n where "int n \<le> maxDist" "distance a b \<le> n" using distance_edits by blast
    then show "?r \<le> maxDist" using r by linarith
  qed
  ultimately show ?thesis by blast
qed

theorem edit_distance_exact_witness:
  "BoundedEditDistance ''lsit'' ''list'' 2 = 2 \<and> edit_distance ''lsit'' ''list'' = 2
   \<and> (\<exists>n. int n \<le> 2 \<and> (''lsit'', ''list'') \<in> edit ^^ n)"
proof -
  have "distance ''lsit'' ''list'' = 2" by code_simp
  then show ?thesis
    using edit_distance_exact[of 2 "''lsit''" "''list''"] by (auto simp: edit_distance_eq)
qed

section \<open>Identifiers\<close>

lemma space_not_alnum: "\<not> is_alnum_byte (CHR '' '')"
  by (simp add: is_alnum_byte_def is_upper_byte_def is_lower_byte_def is_digit_byte_def byte_in_def)

lemma camel_keeps: "filter is_alnum_byte (camelBoundary s) = filter is_alnum_byte s"
  by (induction s rule: camelBoundary.induct) (auto simp: space_not_alnum)

lemma acronym_keeps: "filter is_alnum_byte (acronymBoundary s) = filter is_alnum_byte s"
proof (induction s rule: acronymBoundary.induct)
  case (1 s)
  define run where "run = takeWhile is_upper_byte s"
  define rest where "rest = dropWhile is_upper_byte s"
  have s: "run @ rest = s" by (simp add: run_def rest_def)
  show ?case
  proof (cases s)
    case (Cons c cs)
    note unfold = acronymBoundary.simps[of s, unfolded Cons list.case Let_def, folded Cons run_def rest_def]
    note IH = "1.IH"[OF Cons run_def rest_def]
    show ?thesis
    proof (cases "run = []")
      case True
      then show ?thesis unfolding unfold using IH(1) Cons by simp
    next
      case ne: False
      show ?thesis
      proof (cases rest)
        case Nil
        then show ?thesis using ne s by (simp add: unfold)
      next
        case (Cons l ls)
        show ?thesis
        proof (cases "length run \<ge> 2 \<and> is_lower_byte l")
          case True
          have "filter is_alnum_byte (acronymBoundary s)
              = filter is_alnum_byte (butlast run) @ filter is_alnum_byte [last run] @ filter is_alnum_byte (l # ls)"
            unfolding unfold using IH(2)[OF ne Cons True] True ne Cons by (simp add: space_not_alnum)
          then have "filter is_alnum_byte (acronymBoundary s)
              = filter is_alnum_byte ((butlast run @ [last run]) @ rest)"
            by (simp only: filter_append append_assoc Cons)
          then show ?thesis by (simp only: append_butlast_last_id[OF ne] s)
        next
          case False
          have "filter is_alnum_byte (acronymBoundary s) = filter is_alnum_byte run @ filter is_alnum_byte rest"
            unfolding unfold Cons list.case if_not_P[OF ne] if_not_P[OF False]
            using IH(3)[OF ne Cons False] Cons by simp
          then show ?thesis by (simp only: filter_append[symmetric] s)
        qed
      qed
    qed
  qed (simp add: acronymBoundary.simps)
qed

lemma alnum_runs_keep: "concat (alnum_runs acc s) = acc @ filter is_alnum_byte s"
  by (induction acc s rule: alnum_runs.induct) auto

lemma alnum_runs_parts:
  "list_all is_alnum_byte acc \<Longrightarrow> \<forall>p\<in>set (alnum_runs acc s). p \<noteq> [] \<and> list_all is_alnum_byte p"
  by (induction acc s rule: alnum_runs.induct) auto

text \<open>Splitting loses no letter and no digit: the parts put together are the compound form.\<close>

theorem split_keeps_letters: "concat (SplitIdentifier s) = compactCompound s"
proof -
  have "concat (map lower xs) = map lower_char (concat xs)" for xs by (induction xs) (simp_all add: lower_def)
  then show ?thesis by (simp add: SplitIdentifier_def compactCompound_def alnum_runs_keep acronym_keeps camel_keeps)
qed

section \<open>Terms\<close>

lemma add_terms:
  "set (fold (add_term keep) vs out) = set out \<union> {v \<in> set vs. minTermLen \<le> length v \<and> keep v}"
  "distinct out \<Longrightarrow> distinct (fold (add_term keep) vs out)"
  "prefix out (fold (add_term keep) vs out)"
proof (induction vs arbitrary: out)
  case (Cons v vs)
  { case 1 show ?case using Cons.IH(1) by (auto simp: add_term_def) }
  { case 2 then show ?case using Cons.IH(2)[of "add_term keep v out"] by (auto simp: add_term_def) }
  { case 3
    have "prefix out (add_term keep v out)" by (simp add: add_term_def)
    then show ?case using Cons.IH(3)[of "add_term keep v out"] by (metis fold_simps(2) prefix_order.trans) }
qed auto

lemma length_drop_end: "length (drop_end n s) = length s - n"
  by (simp add: drop_end_def)

lemma undoubled_length: "v \<in> set (undoubled base) \<Longrightarrow> length v \<le> length base + 1"
  by (auto simp: undoubled_def Let_def length_drop_end split: if_splits)

lemma stem_candidates_shorter: "v \<in> set (stem_candidates t) \<Longrightarrow> length v < length t"
  by (auto simp: stem_candidates_def length_drop_end split: if_splits dest!: undoubled_length)

lemma stems_shorter: "v \<in> set (StemVariants uni term') \<Longrightarrow> length v < length (ToLower uni term')"
  using stem_candidates_shorter by (auto simp: StemVariants_def Let_def add_terms)

text \<open>
  The terms of a query are distinct, none is short or noise, they are the kept words and compounds of its
  tokens, and stems only add to them at the end.
\<close>

theorem terms_exact:
  "distinct (Terms uni query stems)"
  "\<forall>t\<in>set (Terms uni query stems). minTermLen \<le> length t \<and> \<not> IsStopWord t"
  "set (Terms uni query False)
     = {t \<in> \<Union> (set ` token_terms ` set (Fields query)). minTermLen \<le> length t \<and> \<not> IsStopWord t}"
  "prefix (Terms uni query False) (Terms uni query stems)"
  by (auto simp: Terms_def Let_def add_terms)

section \<open>Queries\<close>

text \<open>A token the splitter reads back as it is, whatever blank follows.\<close>

definition solid :: "string \<Rightarrow> bool" where
  "solid tok \<longleftrightarrow> tok \<noteq> [] \<and> \<not> query_space (hd tok)
     \<and> (\<forall>rest. rest = [] \<or> query_space (hd rest) \<longrightarrow> query_token (tok @ rest) = (tok, rest))"

lemma query_token_plain:
  "list_all (\<lambda>c. \<not> query_space c \<and> c \<noteq> quote_byte) p \<Longrightarrow> query_token s = (t, r) \<Longrightarrow> query_token (p @ s) = (p @ t, r)"
proof (induction p)
  case (Cons c p)
  then show ?case by (simp add: query_token.simps[of "c # p @ s"])
qed simp

lemma quote_not_space: "\<not> query_space quote_byte"
  by (simp add: query_space_def quote_byte_def)

lemma query_token_quoted:
  assumes "quote_byte \<notin> set v" "query_token s = (t, r)"
  shows "query_token (quote_byte # v @ quote_byte # s) = (quote_byte # v @ quote_byte # t, r)"
proof -
  have "takeWhile (\<lambda>d. d \<noteq> quote_byte) (v @ quote_byte # s) = v" using assms(1) by (auto simp: takeWhile_tail)
  moreover have "dropWhile (\<lambda>d. d \<noteq> quote_byte) (v @ quote_byte # s) = quote_byte # s"
    using assms(1) by (subst dropWhile_append3) auto
  ultimately show ?thesis
    using assms(2) quote_not_space by (simp add: query_token.simps[of "quote_byte # v @ quote_byte # s"])
qed

lemma query_token_end: "rest = [] \<or> query_space (hd rest) \<Longrightarrow> query_token rest = ([], rest)"
  by (cases rest) (auto simp: query_token.simps)

lemma solid_word: "w \<noteq> [] \<Longrightarrow> list_all (\<lambda>c. \<not> query_space c \<and> c \<noteq> quote_byte) w \<Longrightarrow> solid w"
  unfolding solid_def using query_token_plain[OF _ query_token_end, of w] by (cases w) auto

definition written_filter :: "string \<Rightarrow> string \<Rightarrow> string" where
  "written_filter key value = key @ CHR '':'' # quote_byte # value @ [quote_byte]"

lemma solid_filter:
  assumes "key \<noteq> []" "list_all (\<lambda>c. \<not> query_space c \<and> c \<noteq> quote_byte) key" "quote_byte \<notin> set value"
  shows "solid (written_filter key value)"
proof -
  have "query_token (written_filter key value @ rest) = (written_filter key value, rest)"
    if "rest = [] \<or> query_space (hd rest)" for rest
  proof -
    have "list_all (\<lambda>c. \<not> query_space c \<and> c \<noteq> quote_byte) (key @ '':'')"
      using assms(2) by (simp add: query_space_def quote_byte_def)
    from query_token_plain[OF this query_token_quoted[OF assms(3) query_token_end[OF that]]]
    show ?thesis by (simp add: written_filter_def)
  qed
  then show ?thesis using assms(1,2) by (cases key) (auto simp: solid_def written_filter_def)
qed

lemma tokenize_join:
  "list_all solid toks \<Longrightarrow> tokenizeRespectingQuotes (join '' '' toks) = toks"
proof (induction toks rule: induct_list012)
  case 1
  then show ?case by (simp add: tokenizeRespectingQuotes.simps)
next
  case (2 t)
  then have "query_token t = (t, [])" "t \<noteq> []" "\<not> query_space (hd t)" by (auto simp: solid_def)
  moreover have "tokenizeRespectingQuotes [] = []" by (simp add: tokenizeRespectingQuotes.simps)
  moreover from \<open>t \<noteq> []\<close> obtain c cs where "t = c # cs" by (cases t) auto
  ultimately show ?case by (simp add: tokenizeRespectingQuotes.simps[of "c # cs"])
next
  case (3 t u ts)
  define rest where "rest = join '' '' (u # ts)"
  have t: "query_token (t @ CHR '' '' # rest) = (t, CHR '' '' # rest)" "t \<noteq> []" "\<not> query_space (hd t)"
    using 3 by (auto simp: solid_def query_space_def)
  have drop: "tokenizeRespectingQuotes (CHR '' '' # rest) = tokenizeRespectingQuotes rest"
    by (simp add: tokenizeRespectingQuotes.simps[of "CHR '' '' # rest"] tokenizeRespectingQuotes.simps[of rest] query_space_def)
  have "tokenizeRespectingQuotes (t @ CHR '' '' # rest) = t # tokenizeRespectingQuotes rest"
  proof -
    obtain c cs where "t = c # cs" using t(2) by (cases t) auto
    then show ?thesis using t drop by (simp add: tokenizeRespectingQuotes.simps[of "c # cs @ CHR '' '' # rest"])
  qed
  then show ?case using 3 by (simp add: rest_def)
qed

lemma split_written:
  assumes "key \<noteq> []" "CHR '':'' \<notin> set key" "value \<noteq> []"
  shows "splitField uni (written_filter key value) = Some (ToLower uni key, value)"
proof -
  have "takeWhile (\<lambda>c. c \<noteq> CHR '':'') (written_filter key value) = key"
    "dropWhile (\<lambda>c. c \<noteq> CHR '':'') (written_filter key value) = CHR '':'' # quote_byte # value @ [quote_byte]"
    using assms(2) by (auto simp: written_filter_def takeWhile_tail dropWhile_append)
  then show ?thesis using assms(1,3) by (simp add: splitField_def unquote_def)
qed

text \<open>A query as text: its filters with their values quoted, then the words.\<close>

definition written_query :: "ParsedQuery \<Rightarrow> string list \<Rightarrow> string" where
  "written_query q words = join '' ''
     (map (written_filter ''kind'') (pq_Kinds q) @ map (written_filter ''lang'') (pq_Langs q)
      @ map (written_filter ''path'') (pq_PathFilters q) @ map (written_filter ''name'') (pq_NameFilters q) @ words)"

definition writable :: "string \<Rightarrow> bool" where
  "writable value \<longleftrightarrow> value \<noteq> [] \<and> quote_byte \<notin> set value"

lemma fold_filters:
  assumes "list_all writable vs" "key \<noteq> []" "CHR '':'' \<notin> set key"
    and "\<And>v out parts. writable v \<Longrightarrow> query_step uni (written_filter key v) (out, parts) = (upd v out, parts)"
  shows "fold (query_step uni) (map (written_filter key) vs) (out, parts) = (fold upd vs out, parts)"
  using assms(1) by (induction vs arbitrary: out) (simp_all add: assms(4))

lemma fold_words:
  "list_all (\<lambda>w. splitField uni w = None) words \<Longrightarrow> fold (query_step uni) words (out, parts) = (out, parts @ words)"
  by (induction words arbitrary: parts) (simp_all add: query_step_def)

lemma fold_field:
  "fold (\<lambda>v q. q\<lparr>pq_Kinds := pq_Kinds q @ [v]\<rparr>) vs q = q\<lparr>pq_Kinds := pq_Kinds q @ vs\<rparr>"
  "fold (\<lambda>v q. q\<lparr>pq_Langs := pq_Langs q @ [ToLower uni v]\<rparr>) vs q = q\<lparr>pq_Langs := pq_Langs q @ map (ToLower uni) vs\<rparr>"
  "fold (\<lambda>v q. q\<lparr>pq_PathFilters := pq_PathFilters q @ [v]\<rparr>) vs q = q\<lparr>pq_PathFilters := pq_PathFilters q @ vs\<rparr>"
  "fold (\<lambda>v q. q\<lparr>pq_NameFilters := pq_NameFilters q @ [v]\<rparr>) vs q = q\<lparr>pq_NameFilters := pq_NameFilters q @ vs\<rparr>"
  by (induction vs arbitrary: q) simp_all

lemma key_bytes:
  "key \<in> {''kind'', ''lang'', ''path'', ''name''} \<Longrightarrow>
     key \<noteq> [] \<and> list_all (\<lambda>c. \<not> query_space c \<and> c \<noteq> quote_byte) key \<and> CHR '':'' \<notin> set key \<and> ToLower uni key = key"
  by (auto simp: query_space_def quote_byte_def ToLower_def is_ascii_def lower_def lower_char_def byte_in_def)

text \<open>
  A query written out is read back: filters of any values without a quote, blanks and colons included, and
  plain words.
\<close>

theorem query_roundtrip:
  assumes filters: "list_all writable (pq_Kinds q @ pq_Langs q @ pq_PathFilters q @ pq_NameFilters q)"
    and langs: "map (ToLower uni) (pq_Langs q) = pq_Langs q"
    and words: "list_all (\<lambda>w. w \<noteq> [] \<and> list_all (\<lambda>c. \<not> query_space c \<and> c \<noteq> quote_byte) w \<and> splitField uni w = None) words"
    and free: "pq_Text q = trim_space (join '' '' words)"
  shows "ParseQuery uni (written_query q words) = q"
proof -
  let ?toks = "map (written_filter ''kind'') (pq_Kinds q) @ map (written_filter ''lang'') (pq_Langs q)
      @ map (written_filter ''path'') (pq_PathFilters q) @ map (written_filter ''name'') (pq_NameFilters q) @ words"
  have "list_all solid (map (written_filter key) vs)"
    if "key \<in> {''kind'', ''lang'', ''path'', ''name''}" "list_all writable vs" for key vs
    using that(2) key_bytes[OF that(1)] solid_filter[of key] by (auto simp: list_all_iff writable_def)
  then have "list_all solid ?toks" using filters words solid_word by (auto simp: list_all_iff)
  then have toks: "tokenizeRespectingQuotes (written_query q words) = ?toks"
    unfolding written_query_def by (rule tokenize_join)
  have split: "splitField uni (written_filter key v) = Some (key, v)"
    if "key \<in> {''kind'', ''lang'', ''path'', ''name''}" "writable v" for key v
    using key_bytes[OF that(1), of uni] that(2) split_written[of key v uni] by (simp add: writable_def)
  have steps: "fold (query_step uni) (map (written_filter ''kind'') vs) (out, ps) = (out\<lparr>pq_Kinds := pq_Kinds out @ vs\<rparr>, ps)"
    "fold (query_step uni) (map (written_filter ''lang'') vs) (out, ps)
       = (out\<lparr>pq_Langs := pq_Langs out @ map (ToLower uni) vs\<rparr>, ps)"
    "fold (query_step uni) (map (written_filter ''path'') vs) (out, ps)
       = (out\<lparr>pq_PathFilters := pq_PathFilters out @ vs\<rparr>, ps)"
    "fold (query_step uni) (map (written_filter ''name'') vs) (out, ps)
       = (out\<lparr>pq_NameFilters := pq_NameFilters out @ vs\<rparr>, ps)"
    if "list_all writable vs" for vs out ps
    by (subst fold_filters[OF that], (simp add: query_step_def split)+, simp add: fold_field)+
  have parsed: "fold (query_step uni) ?toks (empty_query, []) =
      (empty_query\<lparr>pq_Kinds := pq_Kinds q, pq_Langs := pq_Langs q, pq_PathFilters := pq_PathFilters q,
         pq_NameFilters := pq_NameFilters q\<rparr>, words)"
    using filters words langs by (simp add: steps fold_words list_all_iff empty_query_def)
  show ?thesis unfolding ParseQuery_def toks parsed using free by (cases q) (simp add: empty_query_def)
qed

end
