(* ===== verification/Spec2Isabelle.thy ===== *)
theory Spec2Isabelle
  imports Prelude GoPath GoTime GoHash GoValue GoJSON Lifecycle Projection ScopeAuth ImplPlan Envelope
    ArtifactStore ArtifactFields Commission Freshness CommissionEvents CommissionStore CommissionHandlers
    DecisionCommission NewCommission CommissionSystem CommissionExample CommissionEffects TacticalOverride
    ArtifactRefresh CommissionRuns CommissionSafety CommissionOutcomes DecisionFresh GoText Criteria Claims ClaimLaws ClaimStatus ClaimCoverage
    ReasoningCycle CycleLaws ToolSafety ScoreCompare FloatLaws Pareto ParetoLaws
    ValidUntil EvidenceScore EvidenceLaws AssuranceLaws Reliability ReliabilityLaws AgentEvidence
    HarnessPlan HarnessPlanLaws HarnessRun HarnessRunLaws HarnessApply HarnessApplyLaws
    TextSearch TextSearchLaws
begin

text \<open>
  A verification library for the kernel of Haft (quint-code), a program in Go that keeps the engineering
  decisions of a project and governs the work agents do on them. A path below is relative to \<open>src/\<close>;
  \<open>cli\<close>, \<open>artifact\<close> and the other package names are short for \<open>src/internal/cli\<close> and so on.

  \<^bold>\<open>The program.\<close> A \<^emph>\<open>decision\<close> carries claims, predictions and the files it affects (\<open>artifact\<close>). A
  \<^emph>\<open>work commission\<close> is a permit to carry out one decision within a scope of paths, in a set of locks
  and under an autonomy envelope. Agents and operators move commissions by the actions of one tool
  (\<open>handleHaftCommission\<close> in \<open>cli/serve_commission.go\<close>): list, show, claim, record, start, complete,
  cancel, requeue, and the creation of one, a batch or a whole plan. Each action is a transaction on
  the artifact store, a table of rows whose structured column holds a commission as JSON. The harness
  (\<open>cli/harness.go\<close>) builds plans, watches a runtime that executes commissions, and applies finished
  work to the checkout. Evidence changes the status of claims and the assurance of decisions. An agent
  session goes through the reasoning cycle of \<open>agent/cycle.go\<close> and asks \<open>agent/permission.go\<close> before
  it runs a command.

  \<^bold>\<open>Go.\<close> \<open>Prelude\<close> (\<open>error\<close> as a sum, \<open>strings\<close>), \<open>GoText\<close> (lower case, fields, splitting), \<open>GoPath\<close>
  (\<open>path/filepath\<close>, patterns), \<open>GoTime\<close> and \<open>ValidUntil\<close> (\<open>time\<close>: RFC 3339, durations, the date formats
  read), \<open>GoHash\<close> (canonical JSON, SHA-256), \<open>GoJSON\<close> (\<open>Unmarshal\<close>), \<open>GoValue\<close> (\<open>map[string]any\<close> and its
  readers), \<open>ArtifactFields\<close> (decoding into typed fields) and \<open>ScoreCompare\<close>, \<open>FloatLaws\<close> (float64 as
  the rationals it holds, rounded to nearest even) model what the source uses of the standard
  library. A string is the list of its bytes.

  \<^bold>\<open>Commissions.\<close> \<open>Lifecycle\<close> and \<open>Projection\<close> are \<open>workcommission/lifecycle.go\<close> and \<open>projection.go\<close>;
  \<open>ScopeAuth\<close> is \<open>scopeauth/scope_authorization.go\<close>; \<open>ImplPlan\<close> is \<open>implementationplan/plan.go\<close>;
  \<open>Envelope\<close> is \<open>autonomyenvelope/envelope.go\<close>; \<open>ArtifactStore\<close> the rows of \<open>artifact/store.go\<close>.
  \<open>Commission\<close> (selection, locks, guards), \<open>Freshness\<close> (the gate before work starts),
  \<open>CommissionEvents\<close> and \<open>CommissionStore\<close> (log, load, update, insert), \<open>CommissionHandlers\<close> and
  \<open>DecisionCommission\<close> (the actions) are \<open>cli/serve_commission.go\<close>: every handler is a function from
  environment, arguments and store to a result and the store it leaves. The environment \<open>Env\<close>
  holds the clock, the random ids, the specification sections and the orders of Go's maps.
  \<open>TacticalOverride\<close> (\<open>cli/harness.go\<close>: the record a run out of the specification leaves on
  commissions) and \<open>ArtifactRefresh\<close> (\<open>artifact/refresh.go\<close>: waiver, supersession, deprecation;
  \<open>cli/sync.go\<close>: the import of a markdown file) are the writers outside the tool that reach a row of a
  commission.
  The laws are in \<open>NewCommission\<close> (what creation accepts), \<open>CommissionSystem\<close> (the store seen as a
  map from ids to commissions, and each call as a move of a state machine), \<open>CommissionEffects\<close> and
  \<open>CommissionOutcomes\<close> (the exact effect of each action), \<open>CommissionRuns\<close> and \<open>CommissionSafety\<close>
  (invariants of every run), \<open>DecisionFresh\<close> (what the gate finds of a commission just cut from a
  decision), on the store of \<open>CommissionExample\<close>.
  A run is any sequence of all these writes and of writes that leave the rows of commissions alone.
  One write is left out of the runs: an import that overwrites a commission. It erases its payload
  (\<open>ArtifactRefresh.sync_erases_data\<close>), and the tool then fails on every call that loads commissions
  (\<open>empty_data_unreadable\<close>). Terminal commissions are not changed by the tool, and elsewhere only
  marked with overrides; the freshness gate looks at the artifacts and the envelope, not at the lease
  (\<open>start_ignores_lease\<close>), and a missing envelope does not stop a delivery
  (\<open>missing_envelope_delivers\<close>): the theorems say what the code does there, and the documents of the
  repository ask for more.

  \<^bold>\<open>The harness.\<close> \<open>HarnessPlan\<close> (plans from the command line), \<open>HarnessRun\<close> (readiness, selection, the
  drain loop) and \<open>HarnessApply\<close> (scope check, patch, copies, delivery, advice) with their laws
  \<open>HarnessPlanLaws\<close>, \<open>HarnessRunLaws\<close> and \<open>HarnessApplyLaws\<close>: a built plan parses back to the edges asked
  for; a drain applies a commission once and only when it is finished; whatever git answers, the two
  writers of the target checkout are called only when every changed path lies in the scope and the
  target is clean. What those writers do to the files is the operating system's part.

  \<^bold>\<open>Decisions and evidence.\<close> \<open>Criteria\<close>, \<open>Claims\<close>, \<open>ClaimCoverage\<close> (\<open>artifact/claim_status.go\<close> and the
  parts of \<open>decision.go\<close> it rests on) with \<open>ClaimLaws\<close> and \<open>ClaimStatus\<close>: ids, bindings, the status of
  a claim as a function of the set of verdicts bound to it, the status a measurement gives, gaps. \<open>EvidenceScore\<close> (\<open>reff/reff.go\<close>,
  \<open>assurance.go\<close>), \<open>Reliability\<close> (\<open>assurance/calculator.go\<close>) and \<open>AgentEvidence\<close> (\<open>agent/evidence.go\<close>)
  with \<open>EvidenceLaws\<close>, \<open>AssuranceLaws\<close> and \<open>ReliabilityLaws\<close>: scores are exact hundredths, the
  assurance of a decision is its weakest link, and a holon is never above the evidence of what it
  depends on. It can be above the score of a dependency (\<open>dependent_above_dependency\<close>), because a
  holon met twice in one evaluation counts as a cycle. \<open>Pareto\<close> and \<open>ParetoLaws\<close> are the comparison of variants of
  \<open>artifact/solution.go\<close>, against a dominance defined from polarities and readings; when every
  variant violates the constraints all are compared (\<open>violators_in_the_front\<close>).

  \<^bold>\<open>Agents.\<close> \<open>ReasoningCycle\<close> and \<open>CycleLaws\<close> (\<open>agent/cycle.go\<close>, \<open>guardrails.go\<close>), \<open>ToolSafety\<close>
  (\<open>permission.go\<close>, \<open>safety.go\<close>). The steps of a session are all bindings, the adoption of an existing
  problem included, which alone may jump over phases (\<open>adoption_skips_phases\<close>).

  \<^bold>\<open>Search.\<close> \<open>TextSearch\<close> and \<open>TextSearchLaws\<close> (\<open>textsearch\<close>): words of identifiers, stems, queries with
  fields, and the bounded edit distance, compared with the least number of edits.

  \<^bold>\<open>Interfaces.\<close> The contracts components rely on are locales, interpreted on the model:
  \<open>dictionary\<close> (payloads, \<open>GoValue\<close>), \<open>path_guard\<close> (path normalisation, \<open>ScopeAuth\<close>), \<open>canonical_form\<close>
  (sorted texts, \<open>Envelope\<close>), \<open>operator_transition\<close> (cancel and requeue, \<open>CommissionSystem\<close>) and
  \<open>lock_table\<close> (locksets, \<open>CommissionRuns\<close>).

  \<^bold>\<open>Termination and fuel.\<close> All loops are total functions. The cycle search of plans and the evaluation of
  dependencies end because the set of visited nodes grows in a finite graph, the search for a claim id
  because ids are finitely many, the readers of texts because their input shrinks. Fuel appears
  twice: \<open>json_unmarshal\<close> has the length of its input, enough by \<open>parse_fuel\<close>; \<open>duration_parts\<close> likewise,
  by \<open>duration_parts_fuel\<close>. The drain loop runs on the list of events it waits for; when the list
  ends it is still waiting.

  \<^bold>\<open>Parameters.\<close> \<open>uni\<close>, the lower case of code points beyond ASCII; the clock and random bytes; the order
  in which Go ranges over maps and SQLite returns a union; the specification sections of a project
  (\<open>project/speccheck.go\<close> reads them from files); git and the file system, a record of functions
  over a world of any type; for a drain, the stores its polls find.

  \<^bold>\<open>Deviations.\<close> Error texts keep their code and the values they quote, their prose is abridged
  in places. Floating point has no overflow and no infinities. A transaction is atomic and SQL
  statements succeed. Contexts are not cancelled. One reading of the clock serves one call.

  \<^bold>\<open>Not modelled.\<close> Rendering, prompts and terminal input and output; processes and log tails of the
  harness; JSON-RPC; SQL and the search indexes; markdown and YAML parsers, among them those of the specification
  checks; the code index, language servers and embeddings; network providers. The other
  operations of \<open>artifact\<close> (problems, notes, reopening and scanning, the creation of portfolios and
  decisions) mostly assemble texts and rows and write no row of a commission; the parts commissions and
  claims rest on are modelled. Two processes that interleave a read and a write of the same row outside
  a transaction are not modelled.
\<close>

end
